(* ===== verification/Prelude.thy ===== *)
theory Prelude
  imports Complex_Main "HOL-Library.AList" "HOL-Library.Sublist" "HOL-Library.Char_ord"
    "HOL-Library.List_Lexorder" "HOL-Library.Product_Lexorder"
begin

text \<open>
  Shared vocabulary of the development: the exceptions of the program as one datatype, results
  as sums, Python dictionaries as association lists in insertion order, the few string functions
  of Python the program's logic rests on, JSON values, and the generic list lemmas the components
  share.

  Conventions: a Python \<open>int\<close> is an \<open>int\<close>, a \<open>float\<close> is a \<open>real\<close>
  (rounding is not modelled), a \<open>str\<close> is a \<open>string\<close> (ASCII), a UTC \<open>datetime\<close> is the
  number of microseconds since the epoch, a \<open>timedelta\<close> is a number of microseconds.
\<close>

section \<open>Exceptions and results\<close>

type_synonym datetime = int
type_synonym timedelta = int

datatype exn =
    ValueError
  | KeyError
  | TypeError
  | ZeroDivisionError
  | IndexError
  | AssertionError
  | AttributeError
  | ValidationError
  | MultipleResultsFound
  | IntegrityError
  | InvalidTransition
  | LeaseLost
  | RestoreConflict
  | SonarrError int string
  | TransportError string
  | OSErr int string
  | ExtractError string
  | TranscribeError string
  | LlmUnavailable
  | LlmContentError
  | HTTPException int
  | OtherError string

type_synonym 'a res = "exn + 'a"

fun is_err :: "'a res \<Rightarrow> bool" where
  "is_err (Inl _) = True"
| "is_err (Inr _) = False"

fun res_bind :: "'a res \<Rightarrow> ('a \<Rightarrow> 'b res) \<Rightarrow> 'b res" where
  "res_bind (Inl e) f = Inl e"
| "res_bind (Inr x) f = f x"

fun res_map :: "('a \<Rightarrow> 'b) \<Rightarrow> 'a res \<Rightarrow> 'b res" where
  "res_map f (Inl e) = Inl e"
| "res_map f (Inr x) = Inr (f x)"

text \<open>A comprehension \<open>[f(x) for x in xs]\<close> whose body may raise: the first exception wins.\<close>

fun traverse :: "('a \<Rightarrow> 'b res) \<Rightarrow> 'a list \<Rightarrow> 'b list res" where
  "traverse f [] = Inr []"
| "traverse f (x # xs) =
     (case f x of Inl e \<Rightarrow> Inl e
      | Inr y \<Rightarrow> (case traverse f xs of Inl e \<Rightarrow> Inl e | Inr ys \<Rightarrow> Inr (y # ys)))"

lemma res_bind_Inr_iff: "res_bind m f = Inr y \<longleftrightarrow> (\<exists>x. m = Inr x \<and> f x = Inr y)"
  by (cases m) auto

lemma res_map_Inr_iff: "res_map f m = Inr y \<longleftrightarrow> (\<exists>x. m = Inr x \<and> y = f x)"
  by (cases m) auto

lemma traverse_Inr_all:
  "traverse f xs = Inr ys \<longleftrightarrow> list_all2 (\<lambda>x y. f x = Inr y) xs ys"
proof (induction xs arbitrary: ys)
  case Nil
  then show ?case by auto
next
  case (Cons x xs)
  show ?case
    by (cases ys; cases "f x"; cases "traverse f xs") (auto simp: Cons [symmetric])
qed

lemma traverse_length: "traverse f xs = Inr ys \<Longrightarrow> length ys = length xs"
  by (auto simp: traverse_Inr_all dest: list_all2_lengthD)

lemma traverse_total:
  "(\<And>x. x \<in> set xs \<Longrightarrow> \<exists>y. f x = Inr y) \<Longrightarrow> \<exists>ys. traverse f xs = Inr ys"
  by (induction xs) (auto, fastforce)

lemma traverse_map_Inr: "traverse (\<lambda>x. Inr (g x)) xs = Inr (map g xs)"
  by (induction xs) auto

section \<open>JSON values\<close>

datatype json =
    JNull
  | JBool bool
  | JInt int
  | JFloat real
  | JStr string
  | JList "json list"
  | JObj "(string \<times> json) list"

section \<open>Dictionaries in insertion order\<close>

text \<open>
  \<open>d.get(k)\<close> is \<open>map_of d k\<close>; \<open>d[k] = v\<close> is \<open>AList.update k v d\<close>, which keeps the
  position of a present key and appends an absent one, as a Python dictionary does.
\<close>

definition dict_setdefault :: "'k \<Rightarrow> 'v \<Rightarrow> ('k \<times> 'v) list \<Rightarrow> ('k \<times> 'v) list" where
  "dict_setdefault k v d = (case map_of d k of None \<Rightarrow> d @ [(k, v)] | Some _ \<Rightarrow> d)"

definition dict_append :: "'k \<Rightarrow> 'v \<Rightarrow> ('k \<times> 'v list) list \<Rightarrow> ('k \<times> 'v list) list" where
  "dict_append k v d =
     AList.update k ((case map_of d k of None \<Rightarrow> [] | Some vs \<Rightarrow> vs) @ [v]) d"

lemma dict_setdefault_lookup:
  "map_of (dict_setdefault k v d) k' =
     (if k = k' \<and> map_of d k = None then Some v else map_of d k')"
  by (auto simp: dict_setdefault_def map_add_def split: option.splits)

lemma dict_setdefault_keys:
  "fst ` set (dict_setdefault k v d) = insert k (fst ` set d)"
proof (cases "map_of d k")
  case None
  then show ?thesis by (auto simp: dict_setdefault_def)
next
  case (Some w)
  then have "k \<in> fst ` set d" by (metis map_of_eq_None_iff option.distinct(1))
  then show ?thesis using Some by (auto simp: dict_setdefault_def)
qed

lemma dict_setdefault_distinct:
  "distinct (map fst d) \<Longrightarrow> distinct (map fst (dict_setdefault k v d))"
  by (auto simp: dict_setdefault_def map_of_eq_None_iff split: option.splits)

lemma dict_append_lookup:
  "map_of (dict_append k v d) k' =
     (if k = k' then Some ((case map_of d k of None \<Rightarrow> [] | Some vs \<Rightarrow> vs) @ [v])
      else map_of d k')"
  by (simp add: dict_append_def update_conv')

lemma dict_append_keys: "fst ` set (dict_append k v d) = insert k (fst ` set d)"
  by (simp add: dict_append_def dom_update)

lemma dict_append_distinct:
  "distinct (map fst d) \<Longrightarrow> distinct (map fst (dict_append k v d))"
  by (simp add: dict_append_def distinct_update)

lemmas dict_simps = dict_setdefault_lookup dict_setdefault_keys dict_append_lookup dict_append_keys

section \<open>Strings\<close>

fun show_nat :: "nat \<Rightarrow> string" where
  "show_nat n =
     (if n < 10 then [''0123456789'' ! n] else show_nat (n div 10) @ [''0123456789'' ! (n mod 10)])"

declare show_nat.simps [simp del]

definition show_int :: "int \<Rightarrow> string" where
  "show_int i = (if i < 0 then ''-'' @ show_nat (nat (- i)) else show_nat (nat i))"

text \<open>The format \<open>f"{n:02d}"\<close>: zero-padded to two columns, the sign counted.\<close>

definition show_int02 :: "int \<Rightarrow> string" where
  "show_int02 i =
     (if 0 \<le> i \<and> i < 10 then ''0'' @ show_int i else show_int i)"

fun join :: "string \<Rightarrow> string list \<Rightarrow> string" where
  "join sep [] = []"
| "join sep [s] = s"
| "join sep (s # t # ss) = s @ sep @ join sep (t # ss)"

definition starts_with :: "string \<Rightarrow> string \<Rightarrow> bool" where
  "starts_with s p = prefix p s"

definition contains :: "string \<Rightarrow> string \<Rightarrow> bool" where
  "contains s t = list_ex (prefix t) (suffixes s)"

lemma contains_iff: "contains s t \<longleftrightarrow> sublist t s"
proof
  assume "contains s t"
  then obtain u where "suffix u s" "prefix t u"
    by (auto simp: contains_def list_ex_iff)
  then show "sublist t s"
    by (auto simp: suffix_def prefix_def sublist_def)
next
  assume "sublist t s"
  then obtain ps ss where "s = ps @ t @ ss" by (auto simp: sublist_def)
  then have "t @ ss \<in> set (suffixes s)" "prefix t (t @ ss)" by (auto simp: suffix_def)
  then show "contains s t" unfolding contains_def list_ex_iff by blast
qed

text \<open>The character digits of \<open>show_nat\<close> read back.\<close>

definition digit_val :: "char \<Rightarrow> nat" where
  "digit_val c = of_char c - 48"

definition is_digit :: "char \<Rightarrow> bool" where
  "is_digit c \<longleftrightarrow> 48 \<le> (of_char c :: nat) \<and> (of_char c :: nat) \<le> 57"

definition read_nat :: "string \<Rightarrow> nat" where
  "read_nat s = foldl (\<lambda>a c. 10 * a + digit_val c) 0 s"

lemma digit_char:
  assumes "n < 10"
  shows "digit_val (''0123456789'' ! n) = n" and "is_digit (''0123456789'' ! n)"
proof -
  from assms have "n \<in> {0, 1, 2, 3, 4, 5, 6, 7, 8, 9}" by auto
  then show "digit_val (''0123456789'' ! n) = n" and "is_digit (''0123456789'' ! n)"
    by (auto simp: digit_val_def is_digit_def nth_Cons')
qed

lemma read_show_nat: "read_nat (show_nat n) = n"
proof (induction n rule: show_nat.induct)
  case (1 n)
  show ?case
  proof (cases "n < 10")
    case True
    then show ?thesis by (simp add: show_nat.simps [of n] read_nat_def digit_char)
  next
    case False
    with 1 have "read_nat (show_nat (n div 10)) = n div 10" by simp
    with False show ?thesis
      by (simp add: show_nat.simps [of n] read_nat_def digit_char)
  qed
qed

lemma show_nat_digits: "list_all is_digit (show_nat n)"
proof (induction n rule: show_nat.induct)
  case (1 n)
  then show ?case
    by (cases "n < 10") (simp_all add: show_nat.simps [of n] digit_char)
qed

lemma show_nat_nonempty: "show_nat n \<noteq> []"
  by (simp add: show_nat.simps [of n])

lemma show_nat_inj: "show_nat m = show_nat n \<longleftrightarrow> m = n"
  by (metis read_show_nat)

lemma show_nat_no_char: "\<not> is_digit c \<Longrightarrow> c \<notin> set (show_nat n)"
  using show_nat_digits [of n] by (auto simp: list_all_iff)

lemma show_int_inj: "show_int i = show_int j \<longleftrightarrow> i = j"
proof -
  have d: "\<not> is_digit (CHR ''-'')" by (simp add: is_digit_def)
  have *: "CHR ''-'' # s \<noteq> show_nat n" for s n
    using show_nat_no_char [OF d, of n] by (metis list.set_intros(1))
  have **: "show_nat n \<noteq> CHR ''-'' # s" for s n using * by metis
  show ?thesis by (auto simp: show_int_def show_nat_inj * **)
qed

lemma show_int_no_comma: "CHR '','' \<notin> set (show_int i)"
  using show_nat_no_char [of "CHR '',''"]
  by (auto simp: show_int_def is_digit_def)

lemma show_int_nonempty: "show_int i \<noteq> []"
  by (simp add: show_int_def show_nat_nonempty)

text \<open>Joining with a separator character that no piece holds is injective on non-empty lists.\<close>

lemma append_sep_inj:
  assumes "c \<notin> set s" "c \<notin> set t" "s @ c # u = t @ c # v"
  shows "s = t \<and> u = v"
  using assms by (auto simp: append_eq_append_conv2 append_eq_Cons_conv Cons_eq_append_conv)

lemma join_sep_inj:
  assumes "\<And>s. s \<in> set xs \<Longrightarrow> c \<notin> set s" "\<And>s. s \<in> set ys \<Longrightarrow> c \<notin> set s"
    and "xs \<noteq> []" "ys \<noteq> []" "join [c] xs = join [c] ys"
  shows "xs = ys"
  using assms
proof (induction xs arbitrary: ys)
  case Nil
  then show ?case by simp
next
  case (Cons x xs)
  note prems = Cons.prems
  obtain y ys' where ys: "ys = y # ys'" using prems(4) by (cases ys) auto
  have nx: "c \<notin> set x" and ny: "c \<notin> set y" using prems(1,2) ys by auto
  show ?case
  proof (cases xs)
    case Nil
    show ?thesis
    proof (cases ys')
      case Nil
      with \<open>xs = []\<close> ys prems(5) show ?thesis by simp
    next
      case (Cons y2 ys2)
      with \<open>xs = []\<close> ys prems(5) nx show ?thesis by auto
    qed
  next
    case xs: (Cons x2 xs2)
    show ?thesis
    proof (cases ys')
      case Nil
      with xs ys prems(5) ny show ?thesis by auto
    next
      case (Cons y2 ys2)
      with xs ys prems(5) have "x @ c # join [c] xs = y @ c # join [c] ys'" by simp
      from append_sep_inj [OF nx ny this] have "x = y" "join [c] xs = join [c] ys'" by auto
      moreover have "xs = ys'"
        using Cons.IH [of ys'] prems(1,2) ys xs Cons \<open>join [c] xs = join [c] ys'\<close> by auto
      ultimately show ?thesis using ys by simp
    qed
  qed
qed

lemma join_eq_Nil: "(\<And>s. s \<in> set ss \<Longrightarrow> s \<noteq> []) \<Longrightarrow> join sep ss = [] \<longleftrightarrow> ss = []"
  by (induction sep ss rule: join.induct) auto

section \<open>Lists\<close>

text \<open>\<open>max(xs, key=f)\<close>: the first element with a maximal key. \<open>xs\<close> must not be empty.\<close>

fun max_by :: "('a \<Rightarrow> 'k :: linorder) \<Rightarrow> 'a \<Rightarrow> 'a list \<Rightarrow> 'a" where
  "max_by f best [] = best"
| "max_by f best (x # xs) = max_by f (if f best < f x then x else best) xs"

lemma max_by_in: "max_by f b xs \<in> insert b (set xs)"
proof (induction xs arbitrary: b)
  case (Cons x xs)
  show ?case using Cons [of "if f b < f x then x else b"] by (auto split: if_splits)
qed simp

lemma max_by_ge_best: "f b \<le> f (max_by f b xs)"
proof (induction xs arbitrary: b)
  case (Cons x xs)
  show ?case
    using Cons [of "if f b < f x then x else b"] by (auto split: if_splits)
qed simp

lemma max_by_ge: "x \<in> set xs \<Longrightarrow> f x \<le> f (max_by f b xs)"
proof (induction xs arbitrary: b)
  case (Cons y xs)
  show ?case
  proof (cases "x = y")
    case True
    then show ?thesis
      using max_by_ge_best [of f "if f b < f y then y else b" xs] by (auto split: if_splits)
  next
    case False
    with Cons show ?thesis by simp
  qed
qed simp

lemma max_by_keep: "f b = f (max_by f b xs) \<Longrightarrow> max_by f b xs = b"
proof (induction xs arbitrary: b)
  case (Cons x xs)
  have "f (if f b < f x then x else b) \<le> f (max_by f b (x # xs))"
    by (simp add: max_by_ge_best)
  with Cons.prems have "\<not> f b < f x" by (auto split: if_splits)
  with Cons show ?case by simp
qed simp

text \<open>The element \<open>max_by\<close> picks comes before every other element with the same key.\<close>

lemma max_by_first:
  assumes "sorted_wrt R (b # xs)" and "y \<in> insert b (set xs)" and "f y = f (max_by f b xs)"
  shows "y = max_by f b xs \<or> R (max_by f b xs) y"
  using assms
proof (induction xs arbitrary: b)
  case Nil
  then show ?case by simp
next
  case (Cons x xs)
  show ?case
  proof (cases "f b < f x")
    case True
    then have m: "max_by f b (x # xs) = max_by f x xs" by simp
    have "f x \<le> f (max_by f x xs)" by (rule max_by_ge_best)
    with True Cons.prems(3) m have "y \<noteq> b" by auto
    with Cons.prems have "y \<in> insert x (set xs)" "sorted_wrt R (x # xs)" by auto
    with Cons.IH [of x] Cons.prems(3) m show ?thesis by simp
  next
    case False
    then have m: "max_by f b (x # xs) = max_by f b xs" by simp
    show ?thesis
    proof (cases "y = x")
      case True
      have "f b \<le> f (max_by f b xs)" by (rule max_by_ge_best)
      with True False Cons.prems(3) m have "f b = f (max_by f b xs)" by auto
      then have "max_by f b xs = b" by (rule max_by_keep)
      with True m Cons.prems(1) show ?thesis by simp
    next
      case False
      with Cons.prems have "y \<in> insert b (set xs)" "sorted_wrt R (b # xs)" by auto
      with Cons.IH [of b] Cons.prems(3) m show ?thesis by simp
    qed
  qed
qed

lemma find_map_of_key:
  "distinct (map k xs) \<Longrightarrow> x \<in> set xs \<Longrightarrow> find (\<lambda>y. k y = k x) xs = Some x"
  by (induction xs) auto

lemma find_Some_mem: "find P xs = Some x \<Longrightarrow> x \<in> set xs \<and> P x"
  by (auto simp: find_Some_iff)

end
