(* ===== verification/Models.thy ===== *)
theory Models
  imports Prelude
begin

text \<open>
  The database of \<open>impostarr/models.py\<close>: one record per mapped class, one list of rows per
  table, and the table operations every component uses (lookup by primary key, insertion with a
  fresh key, conditional update with a row count, latest row by key).
\<close>

section \<open>Enumerations\<close>

datatype job_status =
  Hold | Pending | Active | Matched | Quarantine | Inconclusive | Errored | Remediated

definition JOB_STATUSES :: "job_status list" where
  "JOB_STATUSES =
     [Hold, Pending, Active, Matched, Quarantine, Inconclusive, Errored, Remediated]"

instantiation job_status :: enum
begin

definition enum_job_status :: "job_status list" where
  "enum_job_status = JOB_STATUSES"

definition enum_all_job_status :: "(job_status \<Rightarrow> bool) \<Rightarrow> bool" where
  "enum_all_job_status P = list_all P JOB_STATUSES"

definition enum_ex_job_status :: "(job_status \<Rightarrow> bool) \<Rightarrow> bool" where
  "enum_ex_job_status P = list_ex P JOB_STATUSES"

instance
proof
  have all: "UNIV = set JOB_STATUSES"
    by (auto simp: JOB_STATUSES_def) (metis job_status.exhaust)
  show "(UNIV :: job_status set) = set enum_class.enum"
    by (simp add: enum_job_status_def all)
  show "distinct (enum_class.enum :: job_status list)"
    by (simp add: enum_job_status_def JOB_STATUSES_def)
  fix P :: "job_status \<Rightarrow> bool"
  show "enum_class.enum_all P \<longleftrightarrow> Ball UNIV P"
    by (simp add: enum_all_job_status_def all list_all_iff)
  show "enum_class.enum_ex P \<longleftrightarrow> Bex UNIV P"
    by (simp add: enum_ex_job_status_def all list_ex_iff)
qed

end

fun job_status_str :: "job_status \<Rightarrow> string" where
  "job_status_str Hold = ''hold''"
| "job_status_str Pending = ''pending''"
| "job_status_str Active = ''active''"
| "job_status_str Matched = ''matched''"
| "job_status_str Quarantine = ''quarantine''"
| "job_status_str Inconclusive = ''inconclusive''"
| "job_status_str Errored = ''error''"
| "job_status_str Remediated = ''remediated''"

datatype plugin_status = POk | PAbstain | PError

text \<open>The outcome of a verdict: the literals of \<open>scoring.RoutingDecision.outcome\<close>.\<close>

datatype route_outcome = OMatched | OQuarantine | OInconclusive | ORemediate

datatype verdict_source = SrcAuto | SrcHuman

datatype asset_type = AProbe | AAudio | ASubs | AFrames | ATranscript

datatype trash_outcome = Expired | Deleted | Restored

text \<open>\<open>_enum_check\<close>: the SQL text of a closed-set check constraint.\<close>

definition enum_check :: "string \<Rightarrow> string list \<Rightarrow> string" where
  "enum_check column values =
     column @ '' IN ('' @ join '', '' (map (\<lambda>v. [CHR 0x27] @ v @ [CHR 0x27]) values) @ '')''"

section \<open>UTC datetimes at the database boundary\<close>

text \<open>A Python datetime: wall-clock microseconds and, when aware, the UTC offset.\<close>

record py_datetime =
  wall :: int
  utcoffset :: "int option"

definition instant :: "py_datetime \<Rightarrow> int" where
  "instant d = wall d - (case utcoffset d of None \<Rightarrow> 0 | Some z \<Rightarrow> z)"

definition astimezone_utc :: "py_datetime \<Rightarrow> py_datetime" where
  "astimezone_utc d = \<lparr>wall = instant d, utcoffset = Some 0\<rparr>"

fun process_bind_param :: "py_datetime option \<Rightarrow> py_datetime option res" where
  "process_bind_param None = Inr None"
| "process_bind_param (Some v) =
     (case utcoffset v of None \<Rightarrow> Inl ValueError | Some _ \<Rightarrow> Inr (Some (astimezone_utc v)))"

fun process_result_value :: "py_datetime option \<Rightarrow> py_datetime option" where
  "process_result_value None = None"
| "process_result_value (Some v) =
     (case utcoffset v of None \<Rightarrow> Some (v\<lparr>utcoffset := Some 0\<rparr>) | Some _ \<Rightarrow> Some (astimezone_utc v))"

text \<open>What the backend keeps: SQLite drops the offset, PostgreSQL keeps an aware value.\<close>

definition sqlite_store :: "py_datetime option \<Rightarrow> py_datetime option" where
  "sqlite_store = map_option (\<lambda>v. v\<lparr>utcoffset := None\<rparr>)"

lemma utc_roundtrip:
  assumes "process_bind_param (Some v) = Inr b"
  shows "process_result_value (sqlite_store b) = Some (astimezone_utc v)"
    and "process_result_value b = Some (astimezone_utc v)"
  using assms
  by (auto simp: sqlite_store_def astimezone_utc_def instant_def split: option.splits)

section \<open>Rows\<close>

record instance_row =
  in_id :: int
  in_name :: string
  in_url :: string
  in_history_watermark :: "int option"
  in_backfill_cursor :: "(int \<times> int) option"
  in_last_polled_at :: "datetime option"
  in_last_backfilled_at :: "datetime option"

record file_row =
  f_id :: int
  f_instance_id :: int
  f_sonarr_path :: string
  f_local_path :: string
  f_size :: int
  f_content_hash :: string
  f_series_id :: int
  f_episode_ids :: "int list"
  f_episode_file_id :: int
  f_quality :: json
  f_languages :: json
  f_history_id :: "int option"
  f_download_id :: "string option"
  f_source_title :: "string option"
  f_indexer :: "string option"
  f_guid :: "string option"

record job_row =
  j_id :: int
  j_file_id :: int
  j_status :: job_status
  j_attempts :: int
  j_claimed_by :: "string option"
  j_claimed_at :: "datetime option"
  j_heartbeat_at :: "datetime option"
  j_created_at :: datetime
  j_updated_at :: datetime

record asset_row =
  a_id :: int
  a_file_id :: int
  a_type :: asset_type
  a_path :: "string option"
  a_payload :: "json option"
  a_input_fingerprint :: string
  a_tool_meta :: json
  a_created_at :: datetime

text \<open>A remediation step as the audit trail keeps it.\<close>

record log_entry =
  le_step :: string
  le_ok :: bool
  le_detail :: string
  le_ts :: datetime

text \<open>The JSON form of a proposed action.\<close>

datatype action_json = RemapJson "int list" | ReplaceJson

record human_ident =
  hi_season :: int
  hi_episodes :: "int list"

record dupe_info =
  du_file_id :: int
  du_similarity :: real
  du_sonarr_path :: "string option"

record verdict_row =
  v_id :: int
  v_job_id :: int
  v_s_claimed :: "real option"
  v_s_alt :: "real option"
  v_outcome :: route_outcome
  v_proposed_action :: "action_json option"
  v_remediation_log :: "log_entry list"
  v_source :: verdict_source
  v_human_ident :: "human_ident option"
  v_dupe_info :: "dupe_info option"
  v_apply_at :: "string option"
  v_created_at :: datetime

record trash_row =
  t_id :: int
  t_file_id :: "int option"
  t_job_id :: "int option"
  t_instance :: string
  t_original_path :: string
  t_trash_path :: string
  t_size :: int
  t_series_id :: int
  t_episode_ids :: "int list"
  t_trashed_at :: datetime
  t_expires_at :: datetime
  t_deleted_at :: "datetime option"
  t_outcome :: "trash_outcome option"

record frame_hash_row =
  h_id :: int
  h_file_id :: int
  h_algo :: string
  h_version :: int
  h_timestamps :: "real list"
  h_hashes :: "string list"
  h_created_at :: datetime

text \<open>A cross-database series id: an integer (TVDB, TMDB) or a string (IMDB).\<close>

datatype ext_id = IdInt int | IdStr string

record corpus_row =
  c_id :: int
  c_frame_hash_id :: int
  c_external_ids :: "(string \<times> ext_id) list"
  c_season :: int
  c_episodes :: "int list"
  c_confidence :: real
  c_source :: verdict_source
  c_created_at :: datetime

end
