(* ===== verification/Contract.thy ===== *)
theory Contract
  imports Models
begin

text \<open>
  The identifier-plugin contract of \<open>impostarr/plugins/base.py\<close> and the Sonarr resources of
  \<open>impostarr/sonarr/types.py\<close>: the pydantic models as records, their validators as functions
  that return the value or \<open>ValidationError\<close>, and the invariants those validators establish.
\<close>

section \<open>Sonarr resources\<close>

record episode =
  ep_id :: int
  ep_title :: "string option"
  ep_season_number :: int
  ep_episode_number :: int
  ep_tvdb_id :: "int option"
  ep_absolute_episode_number :: "int option"
  ep_scene_season_number :: "int option"
  ep_scene_episode_number :: "int option"
  ep_scene_absolute_episode_number :: "int option"
  ep_episode_file_id :: int
  ep_has_file :: bool

record series =
  se_id :: int
  se_title :: string
  se_tvdb_id :: "int option"
  se_imdb_id :: "string option"
  se_tmdb_id :: "int option"
  se_title_slug :: string

record episode_file =
  ef_id :: int
  ef_series_id :: int
  ef_path :: string
  ef_size :: int
  ef_quality :: json
  ef_languages :: json

text \<open>
  A history record; the version-dependent \<open>data\<close> dictionary is a JSON object. The properties
  read it defensively.
\<close>

record history_record =
  hr_id :: int
  hr_episode_id :: int
  hr_series_id :: int
  hr_source_title :: "string option"
  hr_download_id :: "string option"
  hr_date :: datetime
  hr_quality :: json
  hr_languages :: json
  hr_data :: "(string \<times> json) list"

definition hr_episode_ids :: "history_record \<Rightarrow> int list" where
  "hr_episode_ids r = [hr_episode_id r]"

text \<open>
  \<open>int(raw)\<close> for the JSON values Sonarr sends here: an integer, or a string of decimal digits.
  Anything else raises.
\<close>

fun json_int :: "json \<Rightarrow> int res" where
  "json_int (JInt i) = Inr i"
| "json_int (JBool b) = Inr (if b then 1 else 0)"
| "json_int (JFloat x) = Inr (if 0 \<le> x then \<lfloor>x\<rfloor> else \<lceil>x\<rceil>)"
| "json_int (JStr s) =
     (if s \<noteq> [] \<and> list_all is_digit s then Inr (int (read_nat s)) else Inl ValueError)"
| "json_int _ = Inl TypeError"

definition hr_episode_file_id :: "history_record \<Rightarrow> int option res" where
  "hr_episode_file_id r =
     (case (case map_of (hr_data r) ''fileId'' of
              Some raw \<Rightarrow> Some raw | None \<Rightarrow> map_of (hr_data r) ''episodeFileId'') of
        None \<Rightarrow> Inr None
      | Some JNull \<Rightarrow> Inr None
      | Some raw \<Rightarrow> res_map Some (json_int raw))"

fun json_str_opt :: "json option \<Rightarrow> string option" where
  "json_str_opt (Some (JStr s)) = Some s"
| "json_str_opt _ = None"

definition hr_guid :: "history_record \<Rightarrow> string option" where
  "hr_guid r = json_str_opt (map_of (hr_data r) ''guid'')"

definition hr_indexer :: "history_record \<Rightarrow> string option" where
  "hr_indexer r = json_str_opt (map_of (hr_data r) ''indexer'')"

record manual_import_item =
  mi_path :: string
  mi_quality :: json
  mi_languages :: json

section \<open>Candidates and plugin results\<close>

record external_ids =
  xi_tvdb :: "int option"
  xi_tmdb :: "int option"
  xi_imdb :: "string option"

definition valid_external_ids :: "external_ids \<Rightarrow> bool" where
  "valid_external_ids x \<longleftrightarrow> \<not> (xi_tvdb x = None \<and> xi_tmdb x = None \<and> xi_imdb x = None)"

text \<open>\<open>model_dump(exclude_none=True)\<close>: the set fields only, in declaration order.\<close>

definition external_ids_dump :: "external_ids \<Rightarrow> (string \<times> ext_id) list" where
  "external_ids_dump x =
     (case xi_tvdb x of None \<Rightarrow> [] | Some i \<Rightarrow> [(''tvdb'', IdInt i)])
   @ (case xi_tmdb x of None \<Rightarrow> [] | Some i \<Rightarrow> [(''tmdb'', IdInt i)])
   @ (case xi_imdb x of None \<Rightarrow> [] | Some s \<Rightarrow> [(''imdb'', IdStr s)])"

datatype series_ref = ClaimedSeries | ExternalSeries external_ids

datatype numbering = NTvdb | NTmdb | NAbsolute | NScene

record candidate_ident =
  ci_series :: series_ref
  ci_season :: int
  ci_episodes :: "int list"

record candidate =
  ca_confidence :: real
  ca_ident :: "candidate_ident option"
  ca_numbering :: "numbering option"
  ca_evidence :: json

definition valid_ident :: "candidate_ident \<Rightarrow> bool" where
  "valid_ident i \<longleftrightarrow> ci_episodes i \<noteq> [] \<and>
     (case ci_series i of ClaimedSeries \<Rightarrow> True | ExternalSeries x \<Rightarrow> valid_external_ids x)"

definition numbering_ident_coupling :: "candidate \<Rightarrow> bool" where
  "numbering_ident_coupling c \<longleftrightarrow> (ca_ident c = None) = (ca_numbering c = None)"

definition valid_candidate :: "candidate \<Rightarrow> bool" where
  "valid_candidate c \<longleftrightarrow>
     0 \<le> ca_confidence c \<and> ca_confidence c \<le> 1 \<and>
     (case ca_ident c of None \<Rightarrow> True | Some i \<Rightarrow> valid_ident i) \<and>
     numbering_ident_coupling c"

definition mk_candidate ::
  "real \<Rightarrow> candidate_ident option \<Rightarrow> numbering option \<Rightarrow> json \<Rightarrow> candidate res" where
  "mk_candidate conf i n ev =
     (let c = \<lparr>ca_confidence = conf, ca_ident = i, ca_numbering = n, ca_evidence = ev\<rparr>
      in if valid_candidate c then Inr c else Inl ValidationError)"

record plugin_result =
  pr_status :: plugin_status
  pr_reason :: "string option"
  pr_candidates :: "candidate list"

definition references_claimed :: "candidate \<Rightarrow> bool" where
  "references_claimed c \<longleftrightarrow>
     (case ca_ident c of None \<Rightarrow> False | Some i \<Rightarrow> ci_series i = ClaimedSeries)"

text \<open>The model validator of \<open>PluginResult\<close>; an empty reason counts as no reason.\<close>

definition plugin_result_validate :: "plugin_result \<Rightarrow> plugin_result res" where
  "plugin_result_validate r =
     (if pr_status r \<in> {PAbstain, PError} \<and> pr_reason r \<in> {None, Some []} then Inl ValidationError
      else if pr_status r = POk \<and> \<not> list_ex references_claimed (pr_candidates r)
      then Inl ValidationError
      else Inr r)"

definition mk_plugin_result ::
  "plugin_status \<Rightarrow> string option \<Rightarrow> candidate list \<Rightarrow> plugin_result res" where
  "mk_plugin_result s r cs =
     plugin_result_validate \<lparr>pr_status = s, pr_reason = r, pr_candidates = cs\<rparr>"

definition valid_plugin_result :: "plugin_result \<Rightarrow> bool" where
  "valid_plugin_result r \<longleftrightarrow>
     list_all valid_candidate (pr_candidates r) \<and> plugin_result_validate r = Inr r"

lemma mk_candidate_valid: "mk_candidate conf i n ev = Inr c \<Longrightarrow> valid_candidate c"
  by (auto simp: mk_candidate_def Let_def split: if_splits)

lemma mk_plugin_result_valid:
  "mk_plugin_result s r cs = Inr p \<Longrightarrow> list_all valid_candidate cs \<Longrightarrow> valid_plugin_result p"
  by (auto simp: mk_plugin_result_def valid_plugin_result_def plugin_result_validate_def
      split: if_splits)

lemma valid_ok_claims:
  "valid_plugin_result r \<Longrightarrow> pr_status r = POk \<Longrightarrow> \<exists>c \<in> set (pr_candidates r). references_claimed c"
  by (auto simp: valid_plugin_result_def plugin_result_validate_def list_ex_iff split: if_splits)

section \<open>What a plugin is called with\<close>

record claimed_ident =
  cl_season :: int
  cl_episodes :: "int list"
  cl_episode_ids :: "int list"

definition mk_claimed_ident :: "int \<Rightarrow> int list \<Rightarrow> int list \<Rightarrow> claimed_ident res" where
  "mk_claimed_ident s es ids =
     (if es = [] \<or> ids = [] then Inl ValidationError
      else Inr \<lparr>cl_season = s, cl_episodes = es, cl_episode_ids = ids\<rparr>)"

record transcript_segment =
  ts_start :: real
  ts_end :: real
  ts_text :: string

record transcript =
  tr_segments :: "transcript_segment list"
  tr_language :: string

record frame_hash_seq =
  fh_algo :: string
  fh_version :: int
  fh_timestamps :: "real list"
  fh_hashes :: "string list"

record asset_bundle =
  ab_probe :: "json option"
  ab_audio_path :: "string option"
  ab_transcript :: "json option"
  ab_sub_paths :: "string list"
  ab_frame_hashes :: "frame_hash_seq option"

record series_context =
  sc_series :: series
  sc_episodes :: "episode list"

end
