(* ===== verification/Normalize.thy ===== *)
theory Normalize
  imports Contract
begin

text \<open>
  \<open>impostarr/normalize.py\<close>: mapping a plugin candidate to Sonarr episode ids. The matchers are
  the code's loops over the episode list (first match wins); \<open>normalize\<close> resolves every episode
  number or gives the whole candidate up.
\<close>

section \<open>Normalised candidates\<close>

datatype norm_result =
    InSeriesCandidate "int set"
  | CrossSeriesCandidate "(string \<times> ext_id) list"
  | JunkCandidate
  | Unnormalizable int int numbering

section \<open>Matchers\<close>

fun match_tvdb :: "episode list \<Rightarrow> int \<Rightarrow> int \<Rightarrow> int option" where
  "match_tvdb [] season epnum = None"
| "match_tvdb (ep # eps) season epnum =
     (if ep_season_number ep = season \<and> ep_episode_number ep = epnum then Some (ep_id ep)
      else match_tvdb eps season epnum)"

fun match_absolute :: "episode list \<Rightarrow> int \<Rightarrow> int \<Rightarrow> int option" where
  "match_absolute [] season epnum = None"
| "match_absolute (ep # eps) season epnum =
     (if ep_absolute_episode_number ep = Some epnum then Some (ep_id ep)
      else match_absolute eps season epnum)"

fun match_scene_pair :: "episode list \<Rightarrow> int \<Rightarrow> int \<Rightarrow> int option" where
  "match_scene_pair [] season epnum = None"
| "match_scene_pair (ep # eps) season epnum =
     (if ep_scene_season_number ep = Some season \<and> ep_scene_episode_number ep = Some epnum
      then Some (ep_id ep)
      else match_scene_pair eps season epnum)"

fun match_scene_absolute :: "episode list \<Rightarrow> int \<Rightarrow> int option" where
  "match_scene_absolute [] epnum = None"
| "match_scene_absolute (ep # eps) epnum =
     (if ep_scene_absolute_episode_number ep = Some epnum then Some (ep_id ep)
      else match_scene_absolute eps epnum)"

text \<open>Three full passes, each tier tried only when the one before found nothing.\<close>

definition match_scene :: "episode list \<Rightarrow> int \<Rightarrow> int \<Rightarrow> int option" where
  "match_scene eps season epnum =
     (case match_scene_pair eps season epnum of
        Some i \<Rightarrow> Some i
      | None \<Rightarrow>
          (case match_scene_absolute eps epnum of
             Some i \<Rightarrow> Some i
           | None \<Rightarrow> match_tvdb eps season epnum))"

fun matcher :: "numbering \<Rightarrow> episode list \<Rightarrow> int \<Rightarrow> int \<Rightarrow> int option" where
  "matcher NTvdb = match_tvdb"
| "matcher NTmdb = match_tvdb"
| "matcher NAbsolute = match_absolute"
| "matcher NScene = match_scene"

text \<open>The first match, as a specification shared by the loops.\<close>

lemma match_tvdb_find:
  "match_tvdb eps s e =
     map_option ep_id (find (\<lambda>ep. ep_season_number ep = s \<and> ep_episode_number ep = e) eps)"
  by (induction eps) auto

lemma match_absolute_find:
  "match_absolute eps s e =
     map_option ep_id (find (\<lambda>ep. ep_absolute_episode_number ep = Some e) eps)"
  by (induction eps) auto

lemma match_scene_pair_find:
  "match_scene_pair eps s e =
     map_option ep_id (find (\<lambda>ep. ep_scene_season_number ep = Some s \<and>
       ep_scene_episode_number ep = Some e) eps)"
  by (induction eps) auto

lemma match_scene_absolute_find:
  "match_scene_absolute eps e =
     map_option ep_id (find (\<lambda>ep. ep_scene_absolute_episode_number ep = Some e) eps)"
  by (induction eps) auto

lemmas match_finds =
  match_tvdb_find match_absolute_find match_scene_pair_find match_scene_absolute_find

text \<open>What a numbering scheme says about an episode, independently of the search order.\<close>

fun numbered :: "numbering \<Rightarrow> int \<Rightarrow> int \<Rightarrow> episode \<Rightarrow> bool" where
  "numbered NTvdb s e ep \<longleftrightarrow> ep_season_number ep = s \<and> ep_episode_number ep = e"
| "numbered NTmdb s e ep \<longleftrightarrow> ep_season_number ep = s \<and> ep_episode_number ep = e"
| "numbered NAbsolute s e ep \<longleftrightarrow> ep_absolute_episode_number ep = Some e"
| "numbered NScene s e ep \<longleftrightarrow>
     ep_scene_season_number ep = Some s \<and> ep_scene_episode_number ep = Some e \<or>
     ep_scene_absolute_episode_number ep = Some e \<or>
     ep_season_number ep = s \<and> ep_episode_number ep = e"

lemma matcher_sound:
  "matcher n eps s e = Some i \<Longrightarrow> \<exists>ep \<in> set eps. ep_id ep = i \<and> numbered n s e ep"
  by (cases n) (auto simp: match_scene_def match_finds split: option.splits dest!: find_Some_mem)

lemma matcher_complete:
  "matcher n eps s e = None \<longleftrightarrow> (\<forall>ep \<in> set eps. \<not> numbered n s e ep)"
  by (cases n)
    (auto simp: match_scene_def match_finds find_None_iff split: option.splits
      dest!: find_Some_mem)

section \<open>normalize\<close>

text \<open>
  The loop over \<open>ident.episodes\<close>: accumulate the ids, or return at the first number that does
  not resolve.
\<close>

fun normalize_episodes ::
  "(int \<Rightarrow> int \<Rightarrow> int option) \<Rightarrow> int \<Rightarrow> numbering \<Rightarrow> int list \<Rightarrow> int set \<Rightarrow> norm_result" where
  "normalize_episodes m season n [] ids = InSeriesCandidate ids"
| "normalize_episodes m season n (epnum # rest) ids =
     (case m season epnum of
        None \<Rightarrow> Unnormalizable season epnum n
      | Some i \<Rightarrow> normalize_episodes m season n rest (insert i ids))"

text \<open>\<open>_MATCHERS[candidate.numbering]\<close> raises \<open>KeyError\<close> for a missing numbering.\<close>

definition normalize_cand :: "candidate \<Rightarrow> series_context \<Rightarrow> norm_result res" where
  "normalize_cand c ctx =
     (case ca_ident c of
        None \<Rightarrow> Inr JunkCandidate
      | Some ident \<Rightarrow>
          (case ci_series ident of
             ExternalSeries x \<Rightarrow> Inr (CrossSeriesCandidate (external_ids_dump x))
           | ClaimedSeries \<Rightarrow>
               (case ca_numbering c of
                  None \<Rightarrow> Inl KeyError
                | Some n \<Rightarrow>
                    Inr (normalize_episodes (matcher n (sc_episodes ctx)) (ci_season ident) n
                      (ci_episodes ident) {}))))"

lemma normalize_episodes_in_series:
  "normalize_episodes m s n es ids = InSeriesCandidate S \<longleftrightarrow>
     (\<forall>e \<in> set es. m s e \<noteq> None) \<and> S = ids \<union> {i. \<exists>e \<in> set es. m s e = Some i}"
proof (induction es arbitrary: ids)
  case Nil
  then show ?case by auto
next
  case (Cons e es)
  then show ?case by (cases "m s e") auto
qed

lemma normalize_episodes_unnormalizable:
  "normalize_episodes m s n es ids = Unnormalizable s' e' n' \<longleftrightarrow>
     s' = s \<and> n' = n \<and>
     (\<exists>pre post. es = pre @ e' # post \<and> (\<forall>e \<in> set pre. m s e \<noteq> None) \<and> m s e' = None)"
proof (induction es arbitrary: ids)
  case Nil
  then show ?case by simp
next
  case (Cons e es)
  show ?case
  proof (cases "m s e")
    case None
    then show ?thesis by (auto simp: Cons_eq_append_conv)
  next
    case (Some i)
    have "(\<exists>pre post. e # es = pre @ e' # post \<and> (\<forall>e \<in> set pre. m s e \<noteq> None) \<and> m s e' = None)
      \<longleftrightarrow> (\<exists>pre post. es = pre @ e' # post \<and> (\<forall>e \<in> set pre. m s e \<noteq> None) \<and> m s e' = None)"
      (is "?L \<longleftrightarrow> ?R")
    proof
      assume ?L
      then obtain pre post where *: "e # es = pre @ e' # post"
        "\<forall>e \<in> set pre. m s e \<noteq> None" "m s e' = None" by blast
      with Some obtain pre' where "pre = e # pre'" by (cases pre) auto
      with * show ?R by auto
    next
      assume ?R
      then obtain pre post where "es = pre @ e' # post"
        "\<forall>e \<in> set pre. m s e \<noteq> None" "m s e' = None" by blast
      with Some have "e # es = (e # pre) @ e' # post \<and>
        (\<forall>e \<in> set (e # pre). m s e \<noteq> None) \<and> m s e' = None" by simp
      then show ?L by blast
    qed
    then show ?thesis using Cons.IH Some by simp
  qed
qed

lemma normalize_episodes_finite:
  "normalize_episodes m s n es ids = InSeriesCandidate S \<Longrightarrow> finite ids \<Longrightarrow> finite S"
  by (induction es arbitrary: ids) (auto split: option.splits)

lemma normalize_finite: "normalize_cand c ctx = Inr (InSeriesCandidate S) \<Longrightarrow> finite S"
  by (auto simp: normalize_cand_def normalize_episodes_finite split: option.splits series_ref.splits)

text \<open>A validated candidate never makes \<open>normalize\<close> raise.\<close>

lemma normalize_total: "valid_candidate c \<Longrightarrow> \<exists>n. normalize_cand c ctx = Inr n"
  by (auto simp: normalize_cand_def valid_candidate_def numbering_ident_coupling_def
      split: option.splits series_ref.splits)

end
