(* ===== verification/Tables.thy ===== *)
theory Tables
  imports Normalize
begin

text \<open>
  The database state (one row list per table of \<open>impostarr/models.py\<close>) and the table operations
  of the ORM the components use: a primary key one above the largest in use, lookup by key,
  conditional \<open>UPDATE\<close> with its row count, and the row with the largest key.
\<close>

text \<open>
  A stored plugin result. The candidate columns hold the JSON dumps of the contract's models,
  which pydantic reads back unchanged; they are kept as those models here. \<open>pl_normalized\<close> is
  the dump of each candidate's normalisation, opaque to every reader but the API.
\<close>

record plugin_result_row =
  pl_id :: int
  pl_job_id :: int
  pl_plugin_name :: string
  pl_plugin_version :: string
  pl_status :: plugin_status
  pl_reason :: "string option"
  pl_candidates :: "candidate list"
  pl_normalized :: "norm_result list"
  pl_input_fingerprint :: string
  pl_created_at :: datetime

record db =
  db_instances :: "instance_row list"
  db_files :: "file_row list"
  db_jobs :: "job_row list"
  db_assets :: "asset_row list"
  db_plugin_results :: "plugin_result_row list"
  db_verdicts :: "verdict_row list"
  db_trash :: "trash_row list"
  db_frame_hashes :: "frame_hash_row list"
  db_corpus :: "corpus_row list"

section \<open>Table operations\<close>

definition fresh_id :: "int list \<Rightarrow> int" where
  "fresh_id ids = 1 + fold max ids 0"

definition get_row :: "('r \<Rightarrow> int) \<Rightarrow> int \<Rightarrow> 'r list \<Rightarrow> 'r option" where
  "get_row key i rows = find (\<lambda>r. key r = i) rows"

definition update_where :: "('r \<Rightarrow> bool) \<Rightarrow> ('r \<Rightarrow> 'r) \<Rightarrow> 'r list \<Rightarrow> 'r list" where
  "update_where P f rows = map (\<lambda>r. if P r then f r else r) rows"

definition rowcount :: "('r \<Rightarrow> bool) \<Rightarrow> 'r list \<Rightarrow> nat" where
  "rowcount P rows = length (filter P rows)"

text \<open>\<open>ORDER BY key DESC\<close>, first row.\<close>

fun latest_by :: "('r \<Rightarrow> int) \<Rightarrow> 'r list \<Rightarrow> 'r option" where
  "latest_by key [] = None"
| "latest_by key (r # rs) = Some (max_by key r rs)"

lemma fold_max_ge: "(a :: int) \<le> fold max xs a"
proof (induction xs arbitrary: a)
  case (Cons x xs)
  have "a \<le> max x a" by simp
  also have "\<dots> \<le> fold max xs (max x a)" by (rule Cons)
  finally show ?case by simp
qed simp

lemma fold_max_mem: "x \<in> set xs \<Longrightarrow> (x :: int) \<le> fold max xs a"
proof (induction xs arbitrary: a)
  case (Cons y xs)
  show ?case
  proof (cases "x = y")
    case True
    have "y \<le> max y a" by simp
    also have "\<dots> \<le> fold max xs (max y a)" by (rule fold_max_ge)
    finally show ?thesis using True by simp
  next
    case False
    with Cons show ?thesis by simp
  qed
qed simp

lemma fresh_id_greater: "x \<in> set ids \<Longrightarrow> x < fresh_id ids"
  using fold_max_mem [of x ids 0] by (simp add: fresh_id_def)

lemma fresh_id_notin: "fresh_id ids \<notin> set ids"
  using fresh_id_greater by blast

lemma fresh_id_pos: "0 < fresh_id ids"
  using fold_max_ge [of 0 ids] by (simp add: fresh_id_def)

lemma get_row_Some: "get_row key i rows = Some r \<Longrightarrow> r \<in> set rows \<and> key r = i"
  by (auto simp: get_row_def dest: find_Some_mem)

lemma get_row_unique:
  "distinct (map key rows) \<Longrightarrow> r \<in> set rows \<Longrightarrow> get_row key (key r) rows = Some r"
  by (simp add: get_row_def find_map_of_key)

lemma update_where_set:
  "set (update_where P f rows) = f ` {r \<in> set rows. P r} \<union> {r \<in> set rows. \<not> P r}"
  by (auto simp: update_where_def)

lemma update_where_keys:
  "(\<And>r. P r \<Longrightarrow> key (f r) = key r) \<Longrightarrow> map key (update_where P f rows) = map key rows"
  by (auto simp: update_where_def)

lemma update_where_length [simp]: "length (update_where P f rows) = length rows"
  by (simp add: update_where_def)

lemma get_row_update:
  assumes "\<And>r. P r \<Longrightarrow> key (f r) = key r"
  shows "get_row key i (update_where P f rows) =
    map_option (\<lambda>r. if P r then f r else r) (get_row key i rows)"
  using assms by (induction rows) (auto simp: get_row_def update_where_def)

lemma rowcount_zero: "rowcount P rows = 0 \<longleftrightarrow> (\<forall>r \<in> set rows. \<not> P r)"
  by (auto simp: rowcount_def filter_empty_conv)

lemma rowcount_key:
  assumes "distinct (map key rows)"
  shows "rowcount (\<lambda>r. key r = i \<and> P r) rows =
    (case get_row key i rows of None \<Rightarrow> 0 | Some r \<Rightarrow> if P r then 1 else 0)"
  using assms
proof (induction rows)
  case Nil
  then show ?case by (simp add: rowcount_def get_row_def)
next
  case (Cons r rows)
  show ?case
  proof (cases "key r = i")
    case True
    with Cons.prems have "filter (\<lambda>r. key r = i \<and> P r) rows = []"
      by (auto simp: filter_empty_conv) (metis image_eqI)
    with True show ?thesis by (simp add: rowcount_def get_row_def)
  next
    case False
    with Cons show ?thesis by (simp add: rowcount_def get_row_def)
  qed
qed

lemma latest_by_Some: "latest_by key rows = Some r \<Longrightarrow> r \<in> set rows \<and> (\<forall>x \<in> set rows. key x \<le> key r)"
  by (cases rows) (use max_by_in [of key] max_by_ge [of _ _ key] max_by_ge_best [of key] in auto)

lemma latest_by_None: "latest_by key rows = None \<longleftrightarrow> rows = []"
  by (cases rows) auto

text \<open>A row appended under a key above all others is the latest.\<close>

lemma latest_by_append:
  assumes "\<And>x. x \<in> set rows \<Longrightarrow> key x < key r"
  shows "latest_by key (rows @ [r]) = Some r"
proof -
  obtain m where m: "latest_by key (rows @ [r]) = Some m" by (cases rows) auto
  from latest_by_Some [OF this] have "m \<in> set (rows @ [r])" "key r \<le> key m" by auto
  with assms have "m = r" by fastforce
  with m show ?thesis by simp
qed

end
