(* ===== verification/Config.thy ===== *)
theory Config
  imports Tables
begin

text \<open>
  The configuration models of \<open>impostarr/config.py\<close> that the modelled components read, with
  the defaults of the code and the validator of \<open>Settings\<close>. Reading YAML and the environment
  is pydantic-settings' work; the order of its sources is in \<open>Lifecycle\<close>.
\<close>

record path_mapping =
  pm_sonarr :: string
  pm_local :: string

record sonarr_instance =
  si_name :: string
  si_url :: string
  si_api_key :: string
  si_path_mappings :: "path_mapping list"
  si_staging_dir :: string
  si_watch_dirs :: "string list"
  si_poll_interval_s :: int
  si_auto_remap :: bool
  si_auto_replace :: bool

record thresholds =
  th_quarantine :: real
  th_auto :: real
  th_alt :: real
  th_alt_margin :: real
  th_auto_min_evidence :: int
  th_phash_store :: real

definition default_thresholds :: thresholds where
  "default_thresholds =
     \<lparr>th_quarantine = 8/10, th_auto = 4/10, th_alt = 8/10, th_alt_margin = 2/10,
      th_auto_min_evidence = 2, th_phash_store = 9/10\<rparr>"

datatype fusion = FuseLinear | FuseLogodds

record scoring_config =
  sg_fusion :: fusion
  sg_eps :: real
  sg_outlier_rejection :: bool
  sg_outlier_high :: real
  sg_outlier_low :: real
  sg_outlier_min_agreeing :: int

definition default_scoring :: scoring_config where
  "default_scoring =
     \<lparr>sg_fusion = FuseLogodds, sg_eps = 2/100, sg_outlier_rejection = True,
      sg_outlier_high = 8/10, sg_outlier_low = 2/10, sg_outlier_min_agreeing = 2\<rparr>"

record plugin_config =
  pc_enabled :: bool
  pc_weight :: real
  pc_options :: json
  pc_daily_budget :: "int option"

record refsubs_config =
  rc_api_key :: "string option"
  rc_username :: "string option"
  rc_password :: "string option"
  rc_daily_quota :: int
  rc_cache_dir :: "string option"
  rc_manual_dir :: "string option"
  rc_languages :: "string list"
  rc_min_request_interval :: real

record api_key_entry =
  ak_name :: string
  ak_key :: string

record auth_config =
  au_trusted_header :: "string option"
  au_group_header :: "string option"
  au_required_group :: "string option"
  au_api_keys :: "api_key_entry list"

record trash_config =
  tc_enabled :: bool
  tc_dir :: string
  tc_retention_days :: int

record throttle_config =
  tl_active_hours :: "string option"
  tl_jobs_per_hour :: "int option"
  tl_paused :: bool

record workers_config =
  wk_pool_size :: int
  wk_transcriber :: string
  wk_transcriber_options :: json
  wk_whisper_model :: string
  wk_whisper_device :: string

definition default_workers :: workers_config where
  "default_workers =
     \<lparr>wk_pool_size = 2, wk_transcriber = ''faster-whisper'', wk_transcriber_options = JObj [],
      wk_whisper_model = ''small'', wk_whisper_device = ''auto''\<rparr>"

definition default_trash :: trash_config where
  "default_trash = \<lparr>tc_enabled = True, tc_dir = ''/trash'', tc_retention_days = 14\<rparr>"

definition default_throttle :: throttle_config where
  "default_throttle = \<lparr>tl_active_hours = None, tl_jobs_per_hour = None, tl_paused = False\<rparr>"

definition default_plugin_config :: plugin_config where
  "default_plugin_config =
     \<lparr>pc_enabled = True, pc_weight = 1, pc_options = JObj [], pc_daily_budget = None\<rparr>"

definition default_refsubs :: refsubs_config where
  "default_refsubs =
     \<lparr>rc_api_key = None, rc_username = None, rc_password = None, rc_daily_quota = 20,
      rc_cache_dir = None, rc_manual_dir = None, rc_languages = [''en''],
      rc_min_request_interval = 11/10\<rparr>"

text \<open>\<open>plugins.sources\<close> and \<open>plugins.identifiers\<close> are two fields here.\<close>

record settings =
  st_sonarr :: "sonarr_instance list"
  st_thresholds :: thresholds
  st_scoring :: scoring_config
  st_plugin_sources :: "string list"
  st_identifiers :: "(string \<times> plugin_config) list"
  st_refsubs :: refsubs_config
  st_auth :: auth_config
  st_db_dsn :: "string option"
  st_workers :: workers_config
  st_trash :: trash_config
  st_throttle :: throttle_config
  st_dry_run :: bool
  st_approval_required :: bool
  st_state_dir :: string
  st_assets_dir :: string
  st_models_dir :: string

definition default_settings :: settings where
  "default_settings =
     \<lparr>st_sonarr = [], st_thresholds = default_thresholds, st_scoring = default_scoring,
      st_plugin_sources = [], st_identifiers = [], st_refsubs = default_refsubs,
      st_auth = \<lparr>au_trusted_header = None, au_group_header = None, au_required_group = None,
                 au_api_keys = []\<rparr>,
      st_db_dsn = None, st_workers = default_workers, st_trash = default_trash,
      st_throttle = default_throttle, st_dry_run = False, st_approval_required = False,
      st_state_dir = ''/config'', st_assets_dir = ''/assets'', st_models_dir = ''/models''\<rparr>"

definition unique_sonarr_names :: "settings \<Rightarrow> settings res" where
  "unique_sonarr_names s =
     (let names = map si_name (st_sonarr s)
      in if length names \<noteq> card (set names) then Inl ValueError else Inr s)"

lemma length_card_distinct: "length xs = card (set xs) \<longleftrightarrow> distinct xs"
  by (metis card_distinct distinct_card)

lemma unique_sonarr_names_iff:
  "unique_sonarr_names s = Inr s' \<longleftrightarrow> s' = s \<and> distinct (map si_name (st_sonarr s))"
  by (auto simp only: unique_sonarr_names_def Let_def length_card_distinct split: if_splits)

end
