(* ===== verification/ScoringSpec.thy ===== *)
theory ScoringSpec
  imports Scoring
begin

text \<open>
  What \<open>aggregate\<close> and \<open>route\<close> compute, stated without their loops: the reports on a key, the
  fused score of a pool in closed form, the effect of outlier rejection, the choice of the
  alternate, and the routing table.
\<close>

section \<open>The pooling loop, declaratively\<close>

text \<open>The confidences one plugin gave a key, in candidate order.\<close>

definition confs_on :: "plugin_outcome \<Rightarrow> candidate_key \<Rightarrow> real list" where
  "confs_on po k =
     map (\<lambda>cn. ca_confidence (fst cn))
       (filter (\<lambda>cn. key_for (snd cn) = Inr k)
         (zip (pr_candidates (po_result po)) (po_normalized po)))"

text \<open>What one plugin reports on a key: its best confidence, or 0 on the claimed key.\<close>

definition plugin_report :: "candidate_key \<Rightarrow> plugin_outcome \<Rightarrow> candidate_key \<Rightarrow> real option" where
  "plugin_report ck po k =
     (case confs_on po k of
        [] \<Rightarrow> (if k = ck then Some 0 else None)
      | c # cs \<Rightarrow> Some (foldl max c cs))"

text \<open>All reports on a key, one per reporting plugin, in plugin order.\<close>

definition reports_on :: "candidate_key \<Rightarrow> plugin_outcome list \<Rightarrow> candidate_key \<Rightarrow> report list" where
  "reports_on ck pos k =
     List.map_filter
       (\<lambda>po. map_option (\<lambda>c. (po_plugin_name po, po_weight po, c)) (plugin_report ck po k)) pos"

definition well_zipped :: "plugin_outcome \<Rightarrow> bool" where
  "well_zipped po \<longleftrightarrow> length (pr_candidates (po_result po)) = length (po_normalized po)"

fun opt_max :: "real option \<Rightarrow> real list \<Rightarrow> real option" where
  "opt_max None [] = None"
| "opt_max None (c # cs) = Some (foldl max c cs)"
| "opt_max (Some a) cs = Some (foldl max a cs)"

lemma opt_max_snoc: "opt_max oa (c # cs) = opt_max (Some (max (case oa of None \<Rightarrow> c | Some a \<Rightarrow> a) c)) cs"
  by (cases oa) auto

lemma per_plugin_fold:
  "map_of (foldl per_plugin_step d cns) k =
     opt_max (map_of d k) (map (\<lambda>cn. ca_confidence (fst cn)) (filter (\<lambda>cn. key_for (snd cn) = Inr k) cns))"
proof (induction cns arbitrary: d)
  case Nil
  then show ?case by (cases "map_of d k") auto
next
  case (Cons cn cns)
  show ?case
  proof (cases "key_for (snd cn)")
    case (Inl e)
    then show ?thesis using Cons by (simp add: per_plugin_step_def)
  next
    case (Inr key)
    then show ?thesis
      using Cons [of "per_plugin_step d cn"]
      by (auto simp: per_plugin_step_def update_conv' opt_max_snoc)
  qed
qed

lemma per_plugin_distinct:
  "distinct (map fst d) \<Longrightarrow> distinct (map fst (foldl per_plugin_step d cns))"
  by (induction cns arbitrary: d)
    (auto simp: per_plugin_step_def distinct_update split: sum.splits)

lemma per_plugin_lookup:
  assumes "per_plugin ck po = Inr pp"
  shows "map_of pp k = plugin_report ck po k" and "distinct (map fst pp)"
proof -
  let ?d = "foldl per_plugin_step [] (zip (pr_candidates (po_result po)) (po_normalized po))"
  from assms have pp: "pp = dict_setdefault ck 0 ?d"
    by (auto simp: per_plugin_def split: if_splits)
  have "map_of ?d j = (case confs_on po j of [] \<Rightarrow> None | c # cs \<Rightarrow> Some (foldl max c cs))" for j
    by (simp add: per_plugin_fold confs_on_def split: list.split)
  then show "map_of pp k = plugin_report ck po k"
    by (auto simp: pp dict_setdefault_lookup plugin_report_def split: list.splits)
  show "distinct (map fst pp)"
    by (simp add: pp dict_setdefault_distinct per_plugin_distinct)
qed

lemma per_plugin_total: "well_zipped po \<Longrightarrow> \<exists>pp. per_plugin ck po = Inr pp"
  by (simp add: per_plugin_def well_zipped_def)

lemma add_reports_lookup:
  assumes "distinct (map fst pp)"
  shows "map_of (add_reports po acc pp) k =
    (case map_of pp k of None \<Rightarrow> map_of acc k
     | Some c \<Rightarrow> Some ((case map_of acc k of None \<Rightarrow> [] | Some rs \<Rightarrow> rs)
                        @ [(po_plugin_name po, po_weight po, c)]))"
  using assms
proof (induction pp arbitrary: acc)
  case Nil
  then show ?case by (simp add: add_reports_def)
next
  case (Cons kc pp)
  have "add_reports po acc (kc # pp) =
      add_reports po (dict_append (fst kc) (po_plugin_name po, po_weight po, snd kc) acc) pp"
    by (simp add: add_reports_def)
  moreover have "map_of pp (fst kc) = None"
    using Cons.prems by (auto simp: map_of_eq_None_iff)
  ultimately show ?case
    using Cons by (cases kc) (auto simp: dict_append_lookup split: option.splits)
qed

lemma add_reports_distinct:
  "distinct (map fst acc) \<Longrightarrow> distinct (map fst (add_reports po acc pp))"
  unfolding add_reports_def by (induction pp arbitrary: acc) (auto simp: dict_append_distinct)

lemma reports_by_key_lookup:
  assumes "reports_by_key ck pos acc = Inr r"
  shows "map_of r k =
    (if map_of acc k = None \<and> reports_on ck pos k = [] then None
     else Some ((case map_of acc k of None \<Rightarrow> [] | Some rs \<Rightarrow> rs) @ reports_on ck pos k))"
  using assms
proof (induction pos arbitrary: acc)
  case Nil
  then show ?case by (auto simp: reports_on_def split: option.splits)
next
  case (Cons po pos)
  then obtain pp where pp: "per_plugin ck po = Inr pp"
    and r: "reports_by_key ck pos (add_reports po acc pp) = Inr r"
    by (auto split: sum.splits)
  from Cons.IH [OF r] add_reports_lookup [OF per_plugin_lookup(2) [OF pp], of po acc k]
    per_plugin_lookup(1) [OF pp, of k]
  show ?case by (auto simp: reports_on_def split: option.splits)
qed

lemma reports_by_key_distinct:
  "reports_by_key ck pos acc = Inr r \<Longrightarrow> distinct (map fst acc) \<Longrightarrow> distinct (map fst r)"
  by (induction pos arbitrary: acc) (auto simp: add_reports_distinct split: sum.splits)

lemma reports_by_key_total:
  "list_all well_zipped pos \<Longrightarrow> \<exists>r. reports_by_key ck pos acc = Inr r"
  by (induction pos arbitrary: acc) (auto dest: per_plugin_total [of _ ck])

lemma reports_on_simps:
  "reports_on ck [] k = []"
  "reports_on ck (po # pos) k =
     (case plugin_report ck po k of None \<Rightarrow> reports_on ck pos k
      | Some c \<Rightarrow> (po_plugin_name po, po_weight po, c) # reports_on ck pos k)"
  by (simp_all add: reports_on_def split: option.split)

lemma plugin_report_claimed: "\<exists>c. plugin_report ck po ck = Some c"
  by (auto simp: plugin_report_def split: list.split)

lemma reports_on_claimed_length: "length (reports_on ck pos ck) = length pos"
  using plugin_report_claimed
  by (induction pos) (auto simp: reports_on_simps split: option.split)

text \<open>The pool a key is scored on does not depend on the exclusions recorded so far.\<close>

definition pool_of :: "scoring_config \<Rightarrow> candidate_key \<Rightarrow> report list \<Rightarrow> report list" where
  "pool_of cfg k rs = fst (reject_outliers k rs cfg [])"

lemma reject_outliers_pool: "fst (reject_outliers k rs cfg ex) = pool_of cfg k rs"
  by (simp add: pool_of_def reject_outliers_def Let_def)

lemma score_keys_lookup:
  assumes "score_keys cfg rbk scores ex = Inr (scores', ex')" "distinct (map fst rbk)"
  shows "(case map_of rbk k of None \<Rightarrow> map_of scores' k = map_of scores k
          | Some rs \<Rightarrow> \<exists>s. fuse (pool_of cfg k rs) cfg = Inr s \<and> map_of scores' k = Some s)"
  using assms
proof (induction rbk arbitrary: scores ex)
  case Nil
  then show ?case by simp
next
  case (Cons kr rbk)
  obtain key rs where kr: "kr = (key, rs)" by (cases kr)
  obtain pool ex1 where pe: "reject_outliers key rs cfg ex = (pool, ex1)"
    by (cases "reject_outliers key rs cfg ex")
  have pool: "pool = pool_of cfg key rs" using reject_outliers_pool [of key rs cfg ex] pe by simp
  from Cons.prems kr pe obtain s where s: "fuse pool cfg = Inr s"
    and rest: "score_keys cfg rbk (AList.update key s scores) ex1 = Inr (scores', ex')"
    by (auto split: sum.splits)
  have d: "distinct (map fst rbk)" and nk: "map_of rbk key = None"
    using Cons.prems(2) kr by (auto simp: map_of_eq_None_iff)
  from Cons.IH [OF rest d] nk kr s pool show ?case
    by (auto simp: update_conv' split: option.splits)
qed

lemma score_keys_distinct:
  "score_keys cfg rbk scores ex = Inr (scores', ex') \<Longrightarrow> distinct (map fst scores)
    \<Longrightarrow> distinct (map fst scores')"
proof (induction rbk arbitrary: scores ex)
  case (Cons kr rbk)
  then show ?case
    by (cases kr) (auto simp: distinct_update split: sum.splits prod.splits)
qed simp

section \<open>Weighted means and the logistic pair\<close>

definition logistic :: "real \<Rightarrow> real" where
  "logistic x = 1 / (1 + exp (- x))"

definition logodds :: "real \<Rightarrow> real" where
  "logodds c = ln (c / (1 - c))"

definition total_weight :: "report list \<Rightarrow> real" where
  "total_weight rs = sum_list (map rep_weight rs)"

definition wmean :: "(real \<Rightarrow> real) \<Rightarrow> report list \<Rightarrow> real" where
  "wmean g rs = sum_list (map (\<lambda>r. rep_weight r * g (rep_conf r)) rs) / total_weight rs"

lemma logistic_logodds:
  assumes "0 < c" "c < 1"
  shows "logistic (logodds c) = c"
proof -
  have "0 < c / (1 - c)" using assms by simp
  then have "exp (- logodds c) = (1 - c) / c"
    by (simp add: logodds_def exp_minus inverse_eq_divide)
  moreover have "1 + (1 - c) / c = 1 / c" using assms by (simp add: field_simps)
  ultimately show ?thesis by (simp add: logistic_def)
qed

lemma logistic_mono: "x \<le> y \<Longrightarrow> logistic x \<le> logistic y"
  unfolding logistic_def by (rule divide_left_mono) (auto intro!: add_pos_pos mult_pos_pos)

lemma logistic_bounds: "0 < logistic x" "logistic x < 1"
proof -
  have "0 < exp (- x)" by simp
  then show "0 < logistic x" "logistic x < 1"
    by (simp_all add: logistic_def add_pos_pos field_simps)
qed

lemma logodds_mono:
  assumes "0 < c" "c \<le> d" "d < 1"
  shows "logodds c \<le> logodds d"
proof -
  have "c / (1 - c) \<le> d / (1 - d)" using assms by (intro frac_le) auto
  then show ?thesis using assms by (simp add: logodds_def)
qed

lemma weighted_sum_ge:
  assumes "\<And>r. r \<in> set rs \<Longrightarrow> 0 \<le> rep_weight r" "\<And>r. r \<in> set rs \<Longrightarrow> m \<le> g (rep_conf r)"
  shows "total_weight rs * m \<le> sum_list (map (\<lambda>r. rep_weight r * g (rep_conf r)) rs)"
  using assms
proof (induction rs)
  case Nil
  then show ?case by (simp add: total_weight_def)
next
  case (Cons r rs)
  have "rep_weight r * m \<le> rep_weight r * g (rep_conf r)"
    using Cons.prems by (simp add: mult_left_mono)
  then show ?case using Cons by (simp add: total_weight_def algebra_simps)
qed

lemma weighted_sum_le:
  assumes "\<And>r. r \<in> set rs \<Longrightarrow> 0 \<le> rep_weight r" "\<And>r. r \<in> set rs \<Longrightarrow> g (rep_conf r) \<le> m"
  shows "sum_list (map (\<lambda>r. rep_weight r * g (rep_conf r)) rs) \<le> total_weight rs * m"
  using assms
proof (induction rs)
  case Nil
  then show ?case by (simp add: total_weight_def)
next
  case (Cons r rs)
  have "rep_weight r * g (rep_conf r) \<le> rep_weight r * m"
    using Cons.prems by (simp add: mult_left_mono)
  then show ?case using Cons by (simp add: total_weight_def algebra_simps)
qed

lemma total_weight_pos:
  "rs \<noteq> [] \<Longrightarrow> (\<And>r. r \<in> set rs \<Longrightarrow> 0 < rep_weight r) \<Longrightarrow> 0 < total_weight rs"
proof (induction rs)
  case (Cons r rs)
  have "0 < rep_weight r" by (rule Cons.prems) simp
  moreover have "rs \<noteq> [] \<Longrightarrow> 0 < total_weight rs" using Cons by simp
  ultimately show ?case by (cases "rs = []") (simp_all add: total_weight_def add_pos_pos)
qed simp

lemma wmean_ge:
  assumes "0 < total_weight rs" "\<And>r. r \<in> set rs \<Longrightarrow> 0 \<le> rep_weight r"
    "\<And>r. r \<in> set rs \<Longrightarrow> m \<le> g (rep_conf r)"
  shows "m \<le> wmean g rs"
  using weighted_sum_ge [of rs m g] assms(2,3) assms(1) by (simp add: wmean_def pos_le_divide_eq mult.commute)

lemma wmean_le:
  assumes "0 < total_weight rs" "\<And>r. r \<in> set rs \<Longrightarrow> 0 \<le> rep_weight r"
    "\<And>r. r \<in> set rs \<Longrightarrow> g (rep_conf r) \<le> m"
  shows "wmean g rs \<le> m"
  using weighted_sum_le [of rs g m] assms(2,3) assms(1) by (simp add: wmean_def pos_divide_le_eq mult.commute)

lemma weighted_sum_partition:
  "sum_list (map f rs) = sum_list (map f (filter P rs)) + sum_list (map f (filter (\<lambda>r. \<not> P r) rs))"
  for f :: "report \<Rightarrow> real"
  by (induction rs) auto

lemma total_weight_partition:
  "total_weight rs = total_weight (filter P rs) + total_weight (filter (\<lambda>r. \<not> P r) rs)"
  unfolding total_weight_def by (rule weighted_sum_partition)

text \<open>Leaving out reports below a level every kept report reaches never lowers the mean.\<close>

lemma wmean_drop_low:
  assumes w: "\<And>r. r \<in> set rs \<Longrightarrow> 0 \<le> rep_weight r"
    and hi: "\<And>r. r \<in> set rs \<Longrightarrow> P r \<Longrightarrow> m \<le> g (rep_conf r)"
    and lo: "\<And>r. r \<in> set rs \<Longrightarrow> \<not> P r \<Longrightarrow> g (rep_conf r) \<le> m"
    and pos: "0 < total_weight (filter P rs)"
  shows "wmean g rs \<le> wmean g (filter P rs)"
proof -
  let ?H = "filter P rs" and ?L = "filter (\<lambda>r. \<not> P r) rs"
  let ?s = "\<lambda>rs. sum_list (map (\<lambda>r. rep_weight r * g (rep_conf r)) rs)"
  define a where "a = wmean g ?H"
  have ma: "m \<le> a"
    unfolding a_def by (rule wmean_ge [OF pos]) (use w hi in auto)
  have sH: "?s ?H = total_weight ?H * a"
    using pos by (simp add: a_def wmean_def)
  have wL: "0 \<le> total_weight ?L"
    unfolding total_weight_def by (rule sum_list_nonneg) (use w in auto)
  have "?s ?L \<le> total_weight ?L * m"
    by (rule weighted_sum_le) (use w lo in auto)
  also have "\<dots> \<le> total_weight ?L * a" using ma wL by (rule mult_left_mono)
  finally have "?s rs \<le> total_weight rs * a"
    using sH weighted_sum_partition [of "\<lambda>r. rep_weight r * g (rep_conf r)" rs P]
      total_weight_partition [of rs P] by (simp add: algebra_simps)
  moreover have "0 < total_weight rs"
    using total_weight_partition [of rs P] pos wL by simp
  ultimately show ?thesis
    by (simp add: wmean_def [of g rs] a_def [symmetric] pos_divide_le_eq mult.commute)
qed

section \<open>fuse\<close>

definition good_eps :: "scoring_config \<Rightarrow> bool" where
  "good_eps cfg \<longleftrightarrow> 0 < sg_eps cfg \<and> sg_eps cfg \<le> 1 / 2"

lemma clamp_bounds: "e \<le> 1 / 2 \<Longrightarrow> e \<le> clamp_eps e c \<and> clamp_eps e c \<le> 1 - e"
  by (auto simp: clamp_eps_def)

lemma clamp_mono: "c \<le> d \<Longrightarrow> clamp_eps e c \<le> clamp_eps e d"
  by (auto simp: clamp_eps_def)

lemma clamp_open: "good_eps cfg \<Longrightarrow> 0 < clamp_eps (sg_eps cfg) c \<and> clamp_eps (sg_eps cfg) c < 1"
  using clamp_bounds [of "sg_eps cfg" c] by (auto simp: good_eps_def)

lemma logit_defined: "0 < c \<Longrightarrow> c < 1 \<Longrightarrow> logit c = Inr (logodds c)"
  by (auto simp: logit_def logodds_def divide_le_0_iff)

text \<open>Both fusion modes in closed form; the one-report short cut agrees with the pooling formula.\<close>

lemma fuse_linear:
  "sg_fusion cfg = FuseLinear \<Longrightarrow>
   fuse rs cfg = Inr (if total_weight rs \<le> 0 then 0 else wmean (\<lambda>c. c) rs)"
  by (simp add: fuse_def wmean_def total_weight_def Let_def)

lemma fuse_logodds:
  assumes "sg_fusion cfg = FuseLogodds" "good_eps cfg"
  shows "fuse rs cfg =
    Inr (if total_weight rs \<le> 0 then 0
         else logistic (wmean (\<lambda>c. logodds (clamp_eps (sg_eps cfg) c)) rs))"
proof (cases "total_weight rs \<le> 0")
  case True
  then show ?thesis by (simp add: fuse_def total_weight_def)
next
  case False
  let ?g = "\<lambda>c. logodds (clamp_eps (sg_eps cfg) c)"
  have lg: "logit (clamp_eps (sg_eps cfg) c) = Inr (?g c)" for c
    using clamp_open [OF assms(2)] by (simp add: logit_defined)
  show ?thesis
  proof (cases "length rs = 1")
    case True
    then obtain r where rs: "rs = [r]" by (cases rs) auto
    with False have "rep_weight r \<noteq> 0" by (simp add: total_weight_def)
    then have "wmean ?g rs = ?g (rep_conf r)" by (simp add: rs wmean_def total_weight_def)
    then show ?thesis
      using False assms(1) clamp_open [OF assms(2)]
      by (simp add: fuse_def rs total_weight_def logistic_logodds)
  next
    case ne: False
    have "traverse (\<lambda>r. res_map ((*) (rep_weight r)) (logit (clamp_eps (sg_eps cfg) (rep_conf r)))) rs
        = Inr (map (\<lambda>r. rep_weight r * ?g (rep_conf r)) rs)"
      by (simp add: lg traverse_map_Inr)
    then show ?thesis
      using False ne assms(1)
      by (simp add: fuse_def total_weight_def [symmetric] wmean_def logistic_def)
  qed
qed

lemma fuse_total: "good_eps cfg \<Longrightarrow> \<exists>s. fuse rs cfg = Inr s"
  by (cases "sg_fusion cfg") (simp_all add: fuse_linear fuse_logodds)

definition fused :: "report list \<Rightarrow> scoring_config \<Rightarrow> real" where
  "fused rs cfg = (case fuse rs cfg of Inl _ \<Rightarrow> 0 | Inr s \<Rightarrow> s)"

lemma fuse_fused: "good_eps cfg \<Longrightarrow> fuse rs cfg = Inr (fused rs cfg)"
  using fuse_total [of cfg rs] by (auto simp: fused_def)

definition reports_ok :: "report list \<Rightarrow> bool" where
  "reports_ok rs \<longleftrightarrow>
     list_all (\<lambda>r. 0 \<le> rep_weight r \<and> 0 \<le> rep_conf r \<and> rep_conf r \<le> 1) rs"

lemma fused_unit:
  assumes "good_eps cfg" "reports_ok rs"
  shows "0 \<le> fused rs cfg \<and> fused rs cfg \<le> 1"
proof (cases "0 < total_weight rs")
  case False
  then show ?thesis
    by (cases "sg_fusion cfg") (simp_all add: fused_def fuse_linear fuse_logodds assms(1))
next
  case True
  have w: "\<And>r. r \<in> set rs \<Longrightarrow> 0 \<le> rep_weight r \<and> 0 \<le> rep_conf r \<and> rep_conf r \<le> 1"
    using assms(2) by (auto simp: reports_ok_def list_all_iff)
  show ?thesis
  proof (cases "sg_fusion cfg")
    case FuseLinear
    have "0 \<le> wmean (\<lambda>c. c) rs" by (rule wmean_ge [OF True]) (use w in auto)
    moreover have "wmean (\<lambda>c. c) rs \<le> 1" by (rule wmean_le [OF True]) (use w in auto)
    ultimately show ?thesis using True FuseLinear by (simp add: fused_def fuse_linear)
  next
    case FuseLogodds
    then show ?thesis
      using True assms(1) logistic_bounds [of "wmean (\<lambda>c. logodds (clamp_eps (sg_eps cfg) c)) rs"]
      by (simp add: fused_def fuse_logodds less_imp_le)
  qed
qed

text \<open>A pool whose reports all lie in an interval is scored inside it (up to the clamp).\<close>

lemma fused_between:
  assumes "good_eps cfg" "0 < total_weight rs" "\<And>r. r \<in> set rs \<Longrightarrow> 0 \<le> rep_weight r"
    "\<And>r. r \<in> set rs \<Longrightarrow> lo \<le> rep_conf r \<and> rep_conf r \<le> hi"
  shows "sg_fusion cfg = FuseLinear \<Longrightarrow> lo \<le> fused rs cfg \<and> fused rs cfg \<le> hi"
    and "sg_fusion cfg = FuseLogodds \<Longrightarrow>
      clamp_eps (sg_eps cfg) lo \<le> fused rs cfg \<and> fused rs cfg \<le> clamp_eps (sg_eps cfg) hi"
proof -
  assume lin: "sg_fusion cfg = FuseLinear"
  have "lo \<le> wmean (\<lambda>c. c) rs" by (rule wmean_ge) (use assms in auto)
  moreover have "wmean (\<lambda>c. c) rs \<le> hi" by (rule wmean_le) (use assms in auto)
  ultimately show "lo \<le> fused rs cfg \<and> fused rs cfg \<le> hi"
    using assms(2) lin by (simp add: fused_def fuse_linear)
next
  assume lo: "sg_fusion cfg = FuseLogodds"
  let ?c = "clamp_eps (sg_eps cfg)"
  let ?g = "\<lambda>c. logodds (?c c)"
  have mono: "?g a \<le> ?g b" if "a \<le> b" for a b
    using clamp_open [OF assms(1)] clamp_mono [OF that] by (simp add: logodds_mono)
  have "?g lo \<le> wmean ?g rs" by (rule wmean_ge) (use assms mono in auto)
  moreover have "wmean ?g rs \<le> ?g hi" by (rule wmean_le) (use assms mono in auto)
  ultimately have "logistic (?g lo) \<le> logistic (wmean ?g rs)"
    "logistic (wmean ?g rs) \<le> logistic (?g hi)" by (auto intro: logistic_mono)
  then show "?c lo \<le> fused rs cfg \<and> fused rs cfg \<le> ?c hi"
    using assms(1,2) lo clamp_open [OF assms(1)]
    by (simp add: fused_def fuse_logodds logistic_logodds)
qed

section \<open>Outlier rejection\<close>

lemma pool_of_cases:
  "pool_of cfg k rs = rs \<or>
   (pool_of cfg k rs = filter (\<lambda>r. sg_outlier_high cfg \<le> rep_conf r) rs \<and>
    (\<forall>r \<in> set rs. rep_conf r < sg_outlier_high cfg \<longrightarrow> rep_conf r \<le> sg_outlier_low cfg))"
  by (auto simp: pool_of_def reject_outliers_def Let_def list_all_iff)

lemma pool_of_subset: "set (pool_of cfg k rs) \<subseteq> set rs"
  using pool_of_cases [of cfg k rs] by auto

lemma pool_of_ok: "reports_ok rs \<Longrightarrow> reports_ok (pool_of cfg k rs)"
  using pool_of_subset [of cfg k rs] by (auto simp: reports_ok_def list_all_iff)

lemma pool_never_lower:
  assumes eps: "good_eps cfg" and w: "\<And>r. r \<in> set rs \<Longrightarrow> 0 < rep_weight r"
    and ne: "pool_of cfg k rs \<noteq> []"
  shows "fused rs cfg \<le> fused (pool_of cfg k rs) cfg"
proof (cases "pool_of cfg k rs = rs")
  case True
  then show ?thesis by simp
next
  case False
  let ?P = "\<lambda>r. sg_outlier_high cfg \<le> rep_conf r"
  have pool: "pool_of cfg k rs = filter ?P rs" using pool_of_cases [of cfg k rs] False by auto
  have w0: "\<And>r. r \<in> set rs \<Longrightarrow> 0 \<le> rep_weight r" using w less_imp_le by blast
  have pos: "0 < total_weight (filter ?P rs)"
    by (rule total_weight_pos) (use ne pool w in auto)
  have posall: "0 < total_weight rs"
  proof -
    have "0 \<le> total_weight (filter (\<lambda>r. \<not> ?P r) rs)"
      unfolding total_weight_def by (rule sum_list_nonneg) (use w0 in auto)
    then show ?thesis using pos total_weight_partition [of rs ?P] by simp
  qed
  have drop: "wmean g rs \<le> wmean g (filter ?P rs)" if "\<And>a b. a \<le> b \<Longrightarrow> g a \<le> g b" for g
    by (rule wmean_drop_low [where m = "g (sg_outlier_high cfg)"]) (use w0 that pos in auto)
  show ?thesis
  proof (cases "sg_fusion cfg")
    case FuseLinear
    then show ?thesis using drop [of "\<lambda>c. c"] pos posall pool by (simp add: fused_def fuse_linear)
  next
    case FuseLogodds
    have "logodds (clamp_eps (sg_eps cfg) a) \<le> logodds (clamp_eps (sg_eps cfg) b)" if "a \<le> b" for a b
      using clamp_open [OF eps] clamp_mono [OF that] by (simp add: logodds_mono)
    then show ?thesis
      using drop [of "\<lambda>c. logodds (clamp_eps (sg_eps cfg) c)"] pos posall pool FuseLogodds eps
      by (simp add: fused_def fuse_logodds logistic_mono)
  qed
qed

section \<open>aggregate, specified\<close>

definition applicable :: "plugin_outcome list \<Rightarrow> plugin_outcome list" where
  "applicable results = filter (\<lambda>po. pr_status (po_result po) = POk) results"

text \<open>The score of a key: its reports, outliers rejected, fused.\<close>

definition key_score ::
  "scoring_config \<Rightarrow> candidate_key \<Rightarrow> plugin_outcome list \<Rightarrow> candidate_key \<Rightarrow> real" where
  "key_score cfg ck pos k = fused (pool_of cfg k (reports_on ck pos k)) cfg"

definition reported :: "candidate_key \<Rightarrow> plugin_outcome list \<Rightarrow> candidate_key \<Rightarrow> bool" where
  "reported ck pos k \<longleftrightarrow> reports_on ck pos k \<noteq> []"

lemma score_keys_total:
  "good_eps cfg \<Longrightarrow> \<exists>r. score_keys cfg rbk scores ex = Inr r"
proof (induction rbk arbitrary: scores ex)
  case (Cons kr rbk)
  then show ?case
    by (cases kr) (auto split: prod.split simp: fuse_fused)
qed simp

text \<open>The scores dictionary of \<open>aggregate\<close>.\<close>

lemma scores_spec:
  assumes "good_eps cfg" "list_all well_zipped pos"
  obtains rbk scores ex where "reports_by_key ck pos [] = Inr rbk"
    "score_keys cfg rbk [] [] = Inr (scores, ex)" "distinct (map fst scores)"
    "\<And>k. map_of scores k = (if reported ck pos k then Some (key_score cfg ck pos k) else None)"
proof -
  obtain rbk where rbk: "reports_by_key ck pos [] = Inr rbk"
    using reports_by_key_total [OF assms(2)] by blast
  have d: "distinct (map fst rbk)" using reports_by_key_distinct [OF rbk] by simp
  have l: "map_of rbk k = (if reported ck pos k then Some (reports_on ck pos k) else None)" for k
    using reports_by_key_lookup [OF rbk, of k] by (simp add: reported_def)
  obtain scores ex where sk: "score_keys cfg rbk [] [] = Inr (scores, ex)"
    using score_keys_total [OF assms(1), of rbk "[]" "[]"] by force
  have "map_of scores k = (if reported ck pos k then Some (key_score cfg ck pos k) else None)" for k
    using score_keys_lookup [OF sk d, of k] l [of k] fuse_fused [OF assms(1)]
    by (auto simp: key_score_def split: if_splits)
  then show thesis using that rbk sk score_keys_distinct [OF sk] by simp
qed

text \<open>The alternate: a best-scoring reported key other than the claimed one, ties by key text.\<close>

definition best_alternate ::
  "scoring_config \<Rightarrow> candidate_key \<Rightarrow> plugin_outcome list \<Rightarrow> candidate_key \<Rightarrow> bool" where
  "best_alternate cfg ck pos k \<longleftrightarrow>
     k \<noteq> ck \<and> reported ck pos k \<and>
     (\<forall>k'. k' \<noteq> ck \<and> reported ck pos k' \<longrightarrow>
        key_score cfg ck pos k' < key_score cfg ck pos k \<or>
        key_score cfg ck pos k' = key_score cfg ck pos k \<and> key_repr k \<le> key_repr k')"

lemma pick_alt_best:
  assumes "\<And>k. map_of nc k = (if k \<noteq> ck \<and> reported ck pos k then Some (key_score cfg ck pos k) else None)"
    and "pick_alt nc (sort_key key_repr (map fst nc)) = Some k"
  shows "best_alternate cfg ck pos k \<and> score_of nc k = key_score cfg ck pos k"
proof -
  let ?f = "score_of nc"
  obtain b ks where s: "sort_key key_repr (map fst nc) = b # ks" and k: "k = max_by ?f b ks"
    using assms(2) by (cases "sort_key key_repr (map fst nc)") auto
  have "set (b # ks) = fst ` set nc" using s [symmetric] by simp
  moreover have "fst ` set nc = {k. k \<noteq> ck \<and> reported ck pos k}"
    unfolding dom_map_of_conv_image_fst [symmetric] dom_def by (auto simp: assms(1))
  ultimately have keys: "set (b # ks) = {k. k \<noteq> ck \<and> reported ck pos k}" by simp
  have f: "?f k' = key_score cfg ck pos k'" if "k' \<in> set (b # ks)" for k'
  proof -
    have "k' \<noteq> ck \<and> reported ck pos k'" using that keys by blast
    then show ?thesis using assms(1) [of k'] by (simp add: score_of_def)
  qed
  have kin: "k \<in> set (b # ks)" using max_by_in [of ?f b ks] k by simp
  have srt: "sorted_wrt (\<lambda>x y. key_repr x \<le> key_repr y) (b # ks)"
    using sorted_sort_key [of key_repr "map fst nc"] s by (simp add: sorted_map)
  have "?f k' \<le> ?f k" if "k' \<in> set (b # ks)" for k'
    using that max_by_ge [of k' ks ?f b] max_by_ge_best [of ?f b ks] k by auto
  moreover have "k' = k \<or> key_repr k \<le> key_repr k'" if "k' \<in> set (b # ks)" "?f k' = ?f k" for k'
    using max_by_first [OF srt, of k' ?f] that k by auto
  ultimately have best: "\<forall>k' \<in> set (b # ks). ?f k' < ?f k \<or> ?f k' = ?f k \<and> key_repr k \<le> key_repr k'"
    by (metis order_le_less order_refl)
  have "key_score cfg ck pos k' < key_score cfg ck pos k \<or>
      key_score cfg ck pos k' = key_score cfg ck pos k \<and> key_repr k \<le> key_repr k'"
    if "k' \<noteq> ck \<and> reported ck pos k'" for k'
  proof -
    have k': "k' \<in> set (b # ks)" using that keys by blast
    show ?thesis using bspec [OF best k'] f [OF k'] f [OF kin] by simp
  qed
  moreover have "k \<noteq> ck \<and> reported ck pos k" using kin keys by blast
  ultimately show ?thesis using f [OF kin] by (simp add: best_alternate_def)
qed

lemma map_of_filter_ne:
  "map_of (filter (\<lambda>ks. fst ks \<noteq> ck) xs) k = (if k = ck then None else map_of xs k)"
  by (induction xs) auto

theorem aggregate_sheet:
  assumes "good_eps cfg" "list_all well_zipped results" "applicable results \<noteq> []"
  obtains sheet where "aggregate results claimed (Some cfg) = Inr sheet"
    "ss_s_claimed sheet = Some (key_score cfg (KInSeries claimed) (applicable results) (KInSeries claimed))"
    "ss_applicable_count sheet = int (length (applicable results))"
    "ss_alt_kind sheet = map_option kind_of_key (ss_alt_key sheet)"
    "ss_s_alt sheet = map_option (key_score cfg (KInSeries claimed) (applicable results)) (ss_alt_key sheet)"
    "case ss_alt_key sheet of
       None \<Rightarrow> (\<forall>k. reported (KInSeries claimed) (applicable results) k \<longrightarrow> k = KInSeries claimed)
     | Some k \<Rightarrow> best_alternate cfg (KInSeries claimed) (applicable results) k"
proof -
  let ?ck = "KInSeries claimed" and ?pos = "applicable results"
  have wz: "list_all well_zipped ?pos" using assms(2) by (auto simp: applicable_def list_all_iff)
  obtain rbk scores ex where r: "reports_by_key ?ck ?pos [] = Inr rbk"
    and sk: "score_keys cfg rbk [] [] = Inr (scores, ex)"
    and l: "\<And>k. map_of scores k = (if reported ?ck ?pos k then Some (key_score cfg ?ck ?pos k) else None)"
    using scores_spec [OF assms(1) wz, of ?ck] by metis
  have ckr: "reported ?ck ?pos ?ck"
    using reports_on_claimed_length [of ?ck ?pos] assms(3)
    by (metis length_0_conv reported_def)
  define nc where "nc = filter (\<lambda>ks. fst ks \<noteq> ?ck) scores"
  define alt where "alt = pick_alt nc (sort_key key_repr (map fst nc))"
  have lnc: "map_of nc k = (if k \<noteq> ?ck \<and> reported ?ck ?pos k then Some (key_score cfg ?ck ?pos k) else None)" for k
    by (simp add: nc_def map_of_filter_ne l)
  obtain sheet where sh: "aggregate results claimed (Some cfg) = Inr sheet"
    and f: "ss_s_claimed sheet = Some (key_score cfg ?ck ?pos ?ck)" "ss_alt_key sheet = alt"
      "ss_applicable_count sheet = int (length ?pos)" "ss_s_alt sheet = map_option (score_of nc) alt"
      "ss_alt_kind sheet = map_option kind_of_key alt"
    using assms(3) r sk l [of ?ck] ckr
    by (simp add: aggregate_def applicable_def finish_sheet_def Let_def nc_def alt_def)
  have best: "best_alternate cfg ?ck ?pos k \<and> score_of nc k = key_score cfg ?ck ?pos k"
    if "alt = Some k" for k
    using pick_alt_best [OF lnc] that by (simp add: alt_def)
  have none: "alt = None \<Longrightarrow> \<forall>k. reported ?ck ?pos k \<longrightarrow> k = ?ck"
  proof -
    assume "alt = None"
    then have "map fst nc = []"
      by (cases "sort_key key_repr (map fst nc)") (auto simp: alt_def dest: arg_cong [where f = length])
    then have "nc = []" by simp
    with lnc show ?thesis by (metis map_of.simps(1) option.distinct(1))
  qed
  show thesis
  proof (rule that [OF sh f(1)])
    show "ss_applicable_count sheet = int (length ?pos)"
      "ss_alt_kind sheet = map_option kind_of_key (ss_alt_key sheet)" using f by simp_all
    show "ss_s_alt sheet = map_option (key_score cfg ?ck ?pos) (ss_alt_key sheet)"
      using f best by (cases alt) simp_all
    show "case ss_alt_key sheet of
       None \<Rightarrow> (\<forall>k. reported ?ck ?pos k \<longrightarrow> k = ?ck) | Some k \<Rightarrow> best_alternate cfg ?ck ?pos k"
      using f(2) best none by (cases alt) simp_all
  qed
qed

section \<open>route, specified\<close>

lemma route_Inr_cases:
  assumes "route sheet th fl = Inr d"
  obtains
    (no_evidence) "ss_s_claimed sheet = None" "rd_outcome d = OInconclusive" "rd_action d = None"
      "\<not> rd_auto d"
  | (matched) sc where "ss_s_claimed sheet = Some sc" "th_quarantine th \<le> sc"
      "rd_outcome d = OMatched" "rd_action d = None" "\<not> rd_auto d"
  | (review) sc where "ss_s_claimed sheet = Some sc" "sc < th_quarantine th" "th_auto th \<le> sc"
      "rd_outcome d = OQuarantine" "rd_action d = None" "\<not> rd_auto d"
  | (remap) sc ids where "ss_s_claimed sheet = Some sc" "sc < th_quarantine th" "sc < th_auto th"
      "credible sheet th sc" "ss_alt_kind sheet = Some AltInSeries"
      "ss_alt_key sheet = Some (KInSeries ids)" "rd_action d = Some (Remap ids)"
      "rd_auto d \<longleftrightarrow> th_auto_min_evidence th \<le> ss_applicable_count sheet \<and> fl_auto_remap fl
         \<and> \<not> fl_approval_required fl"
      "rd_outcome d = (if rd_auto d then ORemediate else OQuarantine)"
  | (replace) sc where "ss_s_claimed sheet = Some sc" "sc < th_quarantine th" "sc < th_auto th"
      "\<not> (credible sheet th sc \<and> ss_alt_kind sheet = Some AltInSeries)"
      "rd_action d = Some Replace"
      "rd_auto d \<longleftrightarrow> th_auto_min_evidence th \<le> ss_applicable_count sheet \<and> fl_auto_replace fl
         \<and> \<not> fl_approval_required fl"
      "rd_outcome d = (if rd_auto d then ORemediate else OQuarantine)"
proof (cases "ss_s_claimed sheet")
  case None
  with assms show thesis by (intro no_evidence) (auto simp: route_def)
next
  case (Some sc)
  consider "th_quarantine th \<le> sc" | "sc < th_quarantine th" "th_auto th \<le> sc"
    | "sc < th_quarantine th" "sc < th_auto th" by linarith
  then show thesis
  proof cases
    case 1
    with assms Some show thesis by (intro matched) (auto simp: route_def)
  next
    case 2
    with assms Some show thesis by (intro review) (auto simp: route_def)
  next
    case 3
    show thesis
    proof (cases "credible sheet th sc \<and> ss_alt_kind sheet = Some AltInSeries")
      case True
      then obtain ids where "ss_alt_key sheet = Some (KInSeries ids)"
        using assms Some 3 by (auto simp: route_def split: option.splits candidate_key.splits)
      with True assms Some 3 show thesis
        by (intro remap [of sc ids]) (auto simp: route_def Let_def)
    next
      case False
      with assms Some 3 show thesis
        by (intro replace [of sc]) (auto simp: route_def Let_def)
    qed
  qed
qed

lemma route_total:
  assumes "ss_alt_kind sheet = map_option kind_of_key (ss_alt_key sheet)"
  shows "\<exists>d. route sheet th fl = Inr d"
proof -
  have "ss_alt_kind sheet = Some AltInSeries \<Longrightarrow> \<exists>ids. ss_alt_key sheet = Some (KInSeries ids)"
    using assms by (auto elim: kind_of_key.elims)
  then show ?thesis by (auto simp: route_def Let_def split: option.split)
qed

lemma reports_on_mem:
  assumes "r \<in> set (reports_on ck pos k)"
  shows "\<exists>po \<in> set pos. fst r = po_plugin_name po \<and> rep_weight r = po_weight po \<and>
    plugin_report ck po k = Some (rep_conf r)"
  using assms by (induction pos) (auto simp: reports_on_simps split: option.splits)

lemma foldl_max_mem: "foldl max c cs \<in> insert c (set cs)" for c :: real
proof (induction cs arbitrary: c)
  case (Cons d cs)
  show ?case using Cons [of "max c d"] by (auto simp: max_def split: if_splits)
qed simp

lemma plugin_report_conf:
  assumes "plugin_report ck po k = Some c"
  shows "c = 0 \<or> (\<exists>x \<in> set (pr_candidates (po_result po)). c = ca_confidence x)"
proof (cases "confs_on po k")
  case Nil
  with assms show ?thesis by (auto simp: plugin_report_def split: if_splits)
next
  case (Cons d ds)
  with assms have "c \<in> set (confs_on po k)"
    using foldl_max_mem [of d ds] by (auto simp: plugin_report_def)
  then show ?thesis by (auto simp: confs_on_def dest: set_zip_leftD)
qed

text \<open>What the pipeline hands to \<open>aggregate\<close>: validated results, configured weights.\<close>

definition outcome_ok :: "plugin_outcome \<Rightarrow> bool" where
  "outcome_ok po \<longleftrightarrow> well_zipped po \<and> 0 \<le> po_weight po \<and>
     list_all valid_candidate (pr_candidates (po_result po))"

lemma reports_on_ok:
  assumes "list_all outcome_ok pos"
  shows "reports_ok (reports_on ck pos k)"
  unfolding reports_ok_def list_all_iff
proof
  fix r assume "r \<in> set (reports_on ck pos k)"
  then obtain po where po: "po \<in> set pos" "rep_weight r = po_weight po"
    "plugin_report ck po k = Some (rep_conf r)" using reports_on_mem by blast
  with assms have "outcome_ok po" by (auto simp: list_all_iff)
  then show "0 \<le> rep_weight r \<and> 0 \<le> rep_conf r \<and> rep_conf r \<le> 1"
    using plugin_report_conf [OF po(3)] po(2)
    by (auto simp: outcome_ok_def list_all_iff valid_candidate_def)
qed

lemma key_score_unit:
  "good_eps cfg \<Longrightarrow> list_all outcome_ok pos \<Longrightarrow>
   0 \<le> key_score cfg ck pos k \<and> key_score cfg ck pos k \<le> 1"
  unfolding key_score_def by (intro fused_unit pool_of_ok reports_on_ok)

lemma outcome_ok_zipped: "list_all outcome_ok pos \<Longrightarrow> list_all well_zipped pos"
  by (auto simp: list_all_iff outcome_ok_def)

lemma applicable_ok: "list_all outcome_ok results \<Longrightarrow> list_all outcome_ok (applicable results)"
  by (auto simp: list_all_iff applicable_def)

lemma aggregate_empty:
  "applicable results = [] \<Longrightarrow> aggregate results claimed sg =
     Inr \<lparr>ss_s_claimed = None, ss_s_alt = None, ss_alt_key = None, ss_alt_kind = None,
          ss_applicable_count = 0, ss_per_candidate = [], ss_outliers_excluded = []\<rparr>"
  by (simp add: aggregate_def applicable_def Let_def)

lemma default_scoring_eps: "good_eps default_scoring"
  by (simp add: good_eps_def default_scoring_def)

lemma aggregate_total:
  assumes "good_eps cfg" "list_all well_zipped results"
  obtains sheet where "aggregate results claimed (Some cfg) = Inr sheet"
    "ss_alt_kind sheet = map_option kind_of_key (ss_alt_key sheet)"
    "ss_alt_key sheet \<noteq> Some (KInSeries claimed)"
proof (cases "applicable results = []")
  case True
  then show thesis using that aggregate_empty [OF True] by simp
next
  case False
  from aggregate_sheet [OF assms False, of claimed] show thesis
    using that by (metis (mono_tags, lifting) best_alternate_def option.simps(5))
qed

lemma map_fst_reports_on_claimed:
  "map fst (reports_on ck pos ck) = map po_plugin_name pos"
proof (induction pos)
  case (Cons po pos)
  then show ?case using plugin_report_claimed [of ck po] by (auto simp: reports_on_simps)
qed (simp add: reports_on_simps)

text \<open>Distinct episode sets have distinct key texts, so \<open>per_candidate\<close> loses none of them.\<close>

lemma key_repr_in_series_inj:
  assumes "finite A" "finite B" "key_repr (KInSeries A) = key_repr (KInSeries B)"
  shows "A = B"
proof -
  let ?f = "\<lambda>S. map show_int (sorted_list_of_set S)"
  have j: "join '','' (?f A) = join '','' (?f B)" using assms(3) by simp
  have nonempty: "join '','' (?f S) = [] \<longleftrightarrow> ?f S = []" for S
    by (rule join_eq_Nil) (auto simp: show_int_nonempty)
  have "?f A = ?f B"
  proof (cases "?f A = []")
    case True
    with j nonempty [of A] nonempty [of B] show ?thesis by simp
  next
    case False
    with j nonempty [of A] nonempty [of B] have "?f B \<noteq> []" by metis
    with False j show ?thesis
      by (intro join_sep_inj [where c = "CHR '',''"]) (auto simp: show_int_no_comma)
  qed
  moreover have "inj show_int" by (auto simp: inj_def show_int_inj)
  ultimately have "sorted_list_of_set A = sorted_list_of_set B" by (simp add: inj_map_eq_map)
  then show ?thesis using assms(1,2) by (metis sorted_list_of_set(1))
qed

section \<open>Properties\<close>

definition demo_candidate :: "real \<Rightarrow> int \<Rightarrow> candidate" where
  "demo_candidate c e =
     \<lparr>ca_confidence = c,
      ca_ident = Some \<lparr>ci_series = ClaimedSeries, ci_season = 1, ci_episodes = [e]\<rparr>,
      ca_numbering = Some NTvdb, ca_evidence = JNull\<rparr>"

definition demo_outcome :: "string \<Rightarrow> real \<Rightarrow> plugin_outcome" where
  "demo_outcome name c =
     \<lparr>po_plugin_name = name, po_weight = 1,
      po_result = \<lparr>pr_status = POk, pr_reason = None,
                   pr_candidates = [demo_candidate (1 - c) 1, demo_candidate c 2]\<rparr>,
      po_normalized = [InSeriesCandidate {1}, InSeriesCandidate {2}]\<rparr>"

lemmas demo_defs = demo_outcome_def demo_candidate_def outcome_ok_def well_zipped_def
  valid_candidate_def valid_ident_def numbering_ident_coupling_def

text \<open>C14: aggregate never raises on what the pipeline gives it, and scores the claimed key on exactly
  one report per plugin that answered: its best confidence on that key, or 0.
\<close>

theorem aggregate_claimed_score:
  assumes "good_eps cfg" "list_all well_zipped results"
  shows "\<exists>sheet. aggregate results claimed (Some cfg) = Inr sheet \<and>
    ss_applicable_count sheet = int (length (applicable results)) \<and>
    (if applicable results = [] then ss_s_claimed sheet = None
     else ss_s_claimed sheet =
            Some (key_score cfg (KInSeries claimed) (applicable results) (KInSeries claimed)) \<and>
          map fst (reports_on (KInSeries claimed) (applicable results) (KInSeries claimed)) =
            map po_plugin_name (applicable results))"
proof (cases "applicable results = []")
  case True
  then show ?thesis by (simp add: aggregate_empty)
next
  case False
  then show ?thesis
    using aggregate_sheet [OF assms False, of claimed] map_fst_reports_on_claimed by metis
qed

theorem aggregate_claimed_score_witness:
  "\<exists>sheet. aggregate [demo_outcome ''a'' (9/10)] {2} (Some default_scoring) = Inr sheet \<and>
    ss_s_claimed sheet \<noteq> None"
  using aggregate_claimed_score [of default_scoring "[demo_outcome ''a'' (9/10)]" "{2}"]
  by (auto simp: default_scoring_eps demo_defs applicable_def)

text \<open>the alternate of a sheet is a best-scoring reported key other than the claimed one, ties
  broken by the smallest key text, and its score and kind are that key's; there is none only when
  no plugin reported anything else.
\<close>

theorem aggregate_alternate_best:
  assumes "good_eps cfg" "list_all well_zipped results"
    and "aggregate results claimed (Some cfg) = Inr sheet"
  shows "case ss_alt_key sheet of
      None \<Rightarrow> ss_s_alt sheet = None \<and> ss_alt_kind sheet = None \<and>
        (\<forall>k. reported (KInSeries claimed) (applicable results) k \<longrightarrow> k = KInSeries claimed)
    | Some k \<Rightarrow> best_alternate cfg (KInSeries claimed) (applicable results) k \<and>
        ss_s_alt sheet = Some (key_score cfg (KInSeries claimed) (applicable results) k) \<and>
        ss_alt_kind sheet = Some (kind_of_key k)"
proof (cases "applicable results = []")
  case True
  then show ?thesis using assms(3) by (auto simp: aggregate_empty reported_def reports_on_simps)
next
  case False
  obtain s where "aggregate results claimed (Some cfg) = Inr s"
    "ss_alt_kind s = map_option kind_of_key (ss_alt_key s)"
    "ss_s_alt s = map_option (key_score cfg (KInSeries claimed) (applicable results)) (ss_alt_key s)"
    "case ss_alt_key s of
       None \<Rightarrow> (\<forall>k. reported (KInSeries claimed) (applicable results) k \<longrightarrow> k = KInSeries claimed)
     | Some k \<Rightarrow> best_alternate cfg (KInSeries claimed) (applicable results) k"
    by (rule aggregate_sheet [OF assms(1,2) False])
  with assms(3) show ?thesis by (cases "ss_alt_key sheet") auto
qed

theorem aggregate_alternate_best_witness:
  "\<exists>sheet k. aggregate [demo_outcome ''a'' (9/10)] {2} (Some default_scoring) = Inr sheet \<and>
     ss_alt_key sheet = Some k \<and> k \<noteq> KInSeries {2}"
proof -
  let ?r = "[demo_outcome ''a'' (9/10)]"
  have wz: "list_all well_zipped ?r" by (simp add: demo_defs)
  obtain sheet where s: "aggregate ?r {2} (Some default_scoring) = Inr sheet"
    by (rule aggregate_total [OF default_scoring_eps wz])
  have "reported (KInSeries {2}) (applicable ?r) (KInSeries {1})"
    by (simp add: reported_def applicable_def demo_defs reports_on_simps plugin_report_def
        confs_on_def)
  then show ?thesis
    using aggregate_alternate_best [OF default_scoring_eps wz s] s
    by (cases "ss_alt_key sheet") (auto simp: best_alternate_def)
qed

text \<open>the scores of a sheet are probabilities whenever the plugins' results are valid and their
  weights are not negative.
\<close>

theorem aggregate_scores_unit:
  assumes "good_eps cfg" "list_all outcome_ok results"
    and "aggregate results claimed (Some cfg) = Inr sheet"
  shows "(\<forall>s. ss_s_claimed sheet = Some s \<longrightarrow> 0 \<le> s \<and> s \<le> 1) \<and>
         (\<forall>s. ss_s_alt sheet = Some s \<longrightarrow> 0 \<le> s \<and> s \<le> 1)"
proof (cases "applicable results = []")
  case True
  then show ?thesis using assms(3) by (auto simp: aggregate_empty)
next
  case False
  obtain s where "aggregate results claimed (Some cfg) = Inr s"
    "ss_s_claimed s = Some (key_score cfg (KInSeries claimed) (applicable results) (KInSeries claimed))"
    "ss_s_alt s = map_option (key_score cfg (KInSeries claimed) (applicable results)) (ss_alt_key s)"
    by (rule aggregate_sheet [OF assms(1) outcome_ok_zipped [OF assms(2)] False])
  with assms(3) show ?thesis
    using key_score_unit [OF assms(1) applicable_ok [OF assms(2)]] by auto
qed

theorem aggregate_scores_unit_witness:
  "\<exists>sheet s. aggregate [demo_outcome ''a'' (9/10)] {2} (Some default_scoring) = Inr sheet \<and>
     ss_s_claimed sheet = Some s \<and> 0 \<le> s \<and> s \<le> 1"
proof -
  let ?r = "[demo_outcome ''a'' (9/10)]"
  have ok: "list_all outcome_ok ?r" and ne: "applicable ?r \<noteq> []"
    by (simp_all add: demo_defs applicable_def)
  obtain sheet s where s: "aggregate ?r {2} (Some default_scoring) = Inr sheet"
    "ss_s_claimed sheet = Some s"
    by (rule aggregate_sheet [OF default_scoring_eps outcome_ok_zipped [OF ok] ne, of "{2}"])
  then show ?thesis using aggregate_scores_unit [OF default_scoring_eps ok s(1)] by blast
qed

text \<open>outlier rejection never lowers the fused score of a candidate, in either fusion mode, when
  the reporting plugins have positive weights and some report remains.
\<close>

theorem outlier_rejection_never_lowers:
  assumes "good_eps cfg" "\<And>r. r \<in> set rs \<Longrightarrow> 0 < rep_weight r"
    and "reject_outliers k rs cfg ex = (pool, ex')" "pool \<noteq> []"
    and "fuse rs cfg = Inr s" "fuse pool cfg = Inr s'"
  shows "s \<le> s'"
proof -
  have "pool = pool_of cfg k rs" using reject_outliers_pool [of k rs cfg ex] assms(3) by simp
  then show ?thesis
    using pool_never_lower [of cfg rs k] assms by (simp add: fused_def)
qed

theorem outlier_rejection_never_lowers_witness:
  "(7 / 10 :: real) \<le> 19 / 20"
proof -
  define rs :: "report list" where
    "rs = [(''a'', 1, 19 / 20), (''b'', 1, 19 / 20), (''c'', 1, 2 / 10)]"
  define cfg where "cfg = default_scoring\<lparr>sg_fusion := FuseLinear\<rparr>"
  have cfg: "good_eps cfg" by (simp add: cfg_def good_eps_def default_scoring_def)
  have rej: "reject_outliers KJunk rs cfg [] =
      ([(''a'', 1, 19 / 20), (''b'', 1, 19 / 20)],
       [\<lparr>ou_plugin = ''c'', ou_confidence = 2 / 10, ou_candidate = ''junk''\<rparr>])"
    by (simp add: reject_outliers_def rs_def cfg_def default_scoring_def)
  have f1: "fuse rs cfg = Inr (7 / 10)"
    by (simp add: fuse_def rs_def cfg_def)
  have f2: "fuse [(''a'', 1, 19 / 20), (''b'', 1, 19 / 20)] cfg = Inr (19 / 20)"
    by (simp add: fuse_def cfg_def)
  show ?thesis
    by (rule outlier_rejection_never_lowers [OF cfg _ rej _ f1 f2]) (auto simp: rs_def)
qed

text \<open>log-odds fusion is the logistic of the weighted mean of the clamped log-odds for any number
  of reports: the short cut for a single report agrees with the pooling formula.
\<close>

theorem fuse_logodds_closed_form:
  assumes "sg_fusion cfg = FuseLogodds" "good_eps cfg" "0 < total_weight rs"
  shows "fuse rs cfg = Inr (logistic (wmean (\<lambda>c. logodds (clamp_eps (sg_eps cfg) c)) rs))"
  using fuse_logodds [OF assms(1,2)] assms(3) by simp

theorem fuse_logodds_closed_form_witness:
  "logistic (wmean (\<lambda>c. logodds (clamp_eps (2/100) c)) [(''a'', 3, 9/10)]) = 9/10"
proof -
  let ?rs = "[(''a'', 3, 9/10)] :: report list"
  have "fuse ?rs default_scoring = Inr (9/10)"
    by (simp add: fuse_def default_scoring_def clamp_eps_def)
  moreover have "sg_eps default_scoring = 2/100" by (simp add: default_scoring_def)
  ultimately show ?thesis
    using fuse_logodds_closed_form [of default_scoring ?rs] default_scoring_eps
    by (simp add: total_weight_def default_scoring_def)
qed



text \<open>routing a sheet that aggregate produced never raises, and a proposed remap targets the
  best-scoring alternate: an episode set other than the claimed one, scored at or above the
  alternate threshold and ahead of the claimed score by the margin.
\<close>

theorem route_of_aggregate:
  assumes "good_eps cfg" "list_all well_zipped results"
    and "aggregate results claimed (Some cfg) = Inr sheet"
  shows "\<exists>d. route sheet th fl = Inr d \<and>
    (\<forall>ids. rd_action d = Some (Remap ids) \<longrightarrow>
       ids \<noteq> claimed \<and> ss_alt_key sheet = Some (KInSeries ids) \<and>
       (\<exists>sc sa. ss_s_claimed sheet = Some sc \<and> ss_s_alt sheet = Some sa \<and> sc < th_auto th \<and>
          th_alt th \<le> sa \<and> th_alt_margin th \<le> sa - sc))"
proof -
  obtain s where s: "aggregate results claimed (Some cfg) = Inr s"
    "ss_alt_kind s = map_option kind_of_key (ss_alt_key s)" "ss_alt_key s \<noteq> Some (KInSeries claimed)"
    by (rule aggregate_total [OF assms(1,2)])
  with assms(3) have sheet: "sheet = s" by simp
  obtain d where d: "route s th fl = Inr d" using route_total [OF s(2)] by blast
  then show ?thesis
    unfolding sheet
    by (cases rule: route_Inr_cases) (use s(3) d in \<open>auto simp: credible_def split: option.splits\<close>)
qed

theorem route_of_aggregate_witness:
  "\<exists>sheet d. aggregate [demo_outcome ''a'' (9/10)] {1} (Some legacy_default_config) = Inr sheet \<and>
     route sheet default_thresholds
       \<lparr>fl_auto_remap = True, fl_auto_replace = True, fl_approval_required = False\<rparr> = Inr d"
proof -
  let ?r = "[demo_outcome ''a'' (9/10)]"
  have eps: "good_eps legacy_default_config"
    by (simp add: good_eps_def legacy_default_config_def default_scoring_def)
  have wz: "list_all well_zipped ?r" by (simp add: demo_defs)
  obtain sheet where s: "aggregate ?r {1} (Some legacy_default_config) = Inr sheet"
    by (rule aggregate_total [OF eps wz])
  then show ?thesis using route_of_aggregate [OF eps wz s] by blast
qed

text \<open>two different episode sets never share a key text, so the per-candidate dictionary of a
  sheet keeps the score of every in-series key.
\<close>

theorem key_repr_distinct:
  assumes "finite A" "finite B" "A \<noteq> B"
  shows "key_repr (KInSeries A) \<noteq> key_repr (KInSeries B)"
  using key_repr_in_series_inj assms by blast

theorem key_repr_distinct_witness:
  "key_repr (KInSeries {1, 23}) \<noteq> key_repr (KInSeries {12, 3})"
  by (rule key_repr_distinct) auto

end
