(* ===== verification/World.thy ===== *)
theory World
  imports Tables
begin

text \<open>
  What the effectful components share: the calendar arithmetic of UTC timestamps, the part of
  \<open>pathlib\<close> the program uses, the outside world (database, file system, HTTP peer, other
  sessions) with the trace of what was done to it, and sequential code with early returns and
  exceptions.
\<close>

section \<open>UTC timestamps as text\<close>

abbreviation day_us :: int where "day_us \<equiv> 86400000000"
abbreviation second_us :: int where "second_us \<equiv> 1000000"

text \<open>The proleptic Gregorian date of a day number counted from 1970-01-01.\<close>

definition civil_date :: "int \<Rightarrow> int \<times> int \<times> int" where
  "civil_date n =
     (let z = n + 719468; era = z div 146097; doe = z mod 146097;
          yoe = (doe - doe div 1460 + doe div 36524 - doe div 146096) div 365;
          doy = doe - (365 * yoe + yoe div 4 - yoe div 100);
          mp = (5 * doy + 2) div 153; d = doy - (153 * mp + 2) div 5 + 1;
          m = (if mp < 10 then mp + 3 else mp - 9)
      in (yoe + era * 400 + (if m \<le> 2 then 1 else 0), m, d))"

definition pad :: "nat \<Rightarrow> string \<Rightarrow> string" where
  "pad n s = replicate (n - length s) (CHR ''0'') @ s"

definition utc_date :: "datetime \<Rightarrow> string" where
  "utc_date t =
     (let (y, m, d) = civil_date (t div day_us)
      in pad 4 (show_int y) @ ''-'' @ pad 2 (show_int m) @ ''-'' @ pad 2 (show_int d))"

definition utc_hour :: "datetime \<Rightarrow> int" where
  "utc_hour t = (t mod day_us) div 3600000000"

text \<open>\<open>datetime.now(UTC).isoformat()\<close>: microseconds are printed only when they are not zero.\<close>

definition isoformat :: "datetime \<Rightarrow> string" where
  "isoformat t =
     (let us = t mod day_us; s = us div second_us; f = us mod second_us
      in utc_date t @ ''T'' @ pad 2 (show_int (s div 3600)) @ '':'' @
         pad 2 (show_int (s div 60 mod 60)) @ '':'' @ pad 2 (show_int (s mod 60)) @
         (if f = 0 then '''' else ''.'' @ pad 6 (show_int f)) @ ''+00:00'')"

text \<open>Midnight of the day: \<open>.replace(hour=0, minute=0, second=0, microsecond=0)\<close>.\<close>

definition utc_midnight :: "datetime \<Rightarrow> datetime" where
  "utc_midnight t = t - t mod day_us"

lemma utc_midnight_le: "utc_midnight t \<le> t" "t < utc_midnight t + day_us"
  by (simp_all add: utc_midnight_def)

section \<open>Paths\<close>

text \<open>A \<open>PurePosixPath\<close>: its root and its parts (empty parts and dots are dropped).\<close>

record path =
  pa_root :: string
  pa_parts :: "string list"

fun split_on :: "char \<Rightarrow> string \<Rightarrow> string list" where
  "split_on c [] = [[]]"
| "split_on c (x # xs) =
     (if x = c then [] # split_on c xs
      else (case split_on c xs of [] \<Rightarrow> [[x]] | p # ps \<Rightarrow> (x # p) # ps))"

lemma split_on_no_sep: "x \<in> set (split_on c s) \<Longrightarrow> c \<notin> set x"
  by (induction c s arbitrary: x rule: split_on.induct) (auto split: if_splits list.splits)

lemma split_on_append_sep: "c \<notin> set x \<Longrightarrow> split_on c (x @ c # s) = x # split_on c s"
  by (induction x) auto

lemma split_on_plain: "c \<notin> set x \<Longrightarrow> split_on c x = [x]"
  by (induction x) auto

lemma split_on_join: "ps \<noteq> [] \<Longrightarrow> list_all (\<lambda>x. c \<notin> set x) ps \<Longrightarrow> split_on c (join [c] ps) = ps"
  by (induction "[c]" ps rule: join.induct) (auto simp: split_on_plain split_on_append_sep)

definition mk_path :: "string \<Rightarrow> path" where
  "mk_path s =
     \<lparr>pa_root = (if prefix ''//'' s \<and> \<not> prefix ''///'' s then ''//''
                 else if prefix ''/'' s then ''/'' else ''''),
      pa_parts = filter (\<lambda>p. p \<noteq> [] \<and> p \<noteq> ''.'') (split_on (CHR ''/'') s)\<rparr>"

definition path_str :: "path \<Rightarrow> string" where
  "path_str p =
     (if pa_root p = [] \<and> pa_parts p = [] then ''.'' else pa_root p @ join ''/'' (pa_parts p))"

definition path_join :: "path \<Rightarrow> path \<Rightarrow> path" where
  "path_join a b =
     (if pa_root b \<noteq> [] then b else a\<lparr>pa_parts := pa_parts a @ pa_parts b\<rparr>)"

definition path_div :: "path \<Rightarrow> string \<Rightarrow> path" where
  "path_div a s = path_join a (mk_path s)"

definition is_relative_to :: "path \<Rightarrow> path \<Rightarrow> bool" where
  "is_relative_to a b \<longleftrightarrow> pa_root a = pa_root b \<and> prefix (pa_parts b) (pa_parts a)"

definition relative_to :: "path \<Rightarrow> path \<Rightarrow> path res" where
  "relative_to a b =
     (if is_relative_to a b
      then Inr \<lparr>pa_root = [], pa_parts = drop (length (pa_parts b)) (pa_parts a)\<rparr>
      else Inl ValueError)"

text \<open>\<open>len(path.parts)\<close> counts the root.\<close>

definition path_length :: "path \<Rightarrow> nat" where
  "path_length p = length (pa_parts p) + (if pa_root p = [] then 0 else 1)"

definition path_name :: "path \<Rightarrow> string" where
  "path_name p = (if pa_parts p = [] then [] else last (pa_parts p))"

text \<open>The last dot of the name starts the suffix, unless it is its first or last character.\<close>

definition path_suffix :: "path \<Rightarrow> string" where
  "path_suffix p =
     (let name = path_name p; tail = takeWhile (\<lambda>c. c \<noteq> CHR ''.'') (rev name)
      in if tail = [] \<or> length tail + 1 \<ge> length name then [] else CHR ''.'' # rev tail)"

definition path_parent :: "path \<Rightarrow> path" where
  "path_parent p = p\<lparr>pa_parts := butlast (pa_parts p)\<rparr>"

lemma relative_to_join:
  "relative_to a b = Inr r \<Longrightarrow> path_join b r = a"
  by (cases a; cases b) (auto simp: relative_to_def is_relative_to_def path_join_def prefix_def
      split: if_splits)

section \<open>The outside world\<close>

datatype http_method = GET | POST | DELETE

record request =
  rq_method :: http_method
  rq_path :: string
  rq_params :: "(string \<times> json) list"
  rq_body :: "json option"

text \<open>An HTTP answer (status, body as JSON, body as text), or a transport error or timeout.\<close>

datatype http_result = HttpResponse int json string | HttpTransportError string

datatype os_op =
    OsMkdir string
  | OsLink string string
  | OsCopy2 string string
  | OsUnlink string
  | OsStat string
  | OsRead string

datatype effect =
    EHttp request
  | ESleep real
  | EOs os_op "int option"
  | ERun "string list"
  | ETranscribe string
  | EIdentify string
  | EPublish int string

text \<open>The file system maps the path of each regular file to its content.\<close>

type_synonym file_system = "string \<Rightarrow> int option"

record world =
  w_db :: db
  w_fs :: file_system
  w_trace :: "effect list"

text \<open>
  The environment a run executes in. Each component of it is a function of the trace so far: the
  HTTP peer's answer, what other sessions and Sonarr itself change in the database and on disk
  while the program awaits that answer, the clock, and the errno with which the operating system
  refuses an operation, with its text.
\<close>

record environ =
  en_http :: "effect list \<Rightarrow> request \<Rightarrow> http_result"
  en_db :: "effect list \<Rightarrow> db \<Rightarrow> db"
  en_fs :: "effect list \<Rightarrow> file_system \<Rightarrow> file_system"
  en_now :: "effect list \<Rightarrow> datetime"
  en_fault :: "effect list \<Rightarrow> os_op \<Rightarrow> int option"
  en_strerror :: "int \<Rightarrow> string"

definition now_of :: "environ \<Rightarrow> world \<Rightarrow> datetime" where
  "now_of env w = en_now env (w_trace w)"

text \<open>\<open>await client.request(...)\<close>: the request goes out, the others move, the answer arrives.\<close>

definition http_send :: "environ \<Rightarrow> request \<Rightarrow> world \<Rightarrow> http_result \<times> world" where
  "http_send env rq w =
     (let tr = w_trace w @ [EHttp rq]
      in (en_http env tr rq,
          w\<lparr>w_trace := tr, w_db := en_db env tr (w_db w), w_fs := en_fs env tr (w_fs w)\<rparr>))"

text \<open>Any other await: the effect is recorded and the others move until it completes.\<close>

definition await_effect :: "environ \<Rightarrow> effect \<Rightarrow> world \<Rightarrow> world" where
  "await_effect env e w =
     (let tr = w_trace w @ [e]
      in w\<lparr>w_trace := tr, w_db := en_db env tr (w_db w), w_fs := en_fs env tr (w_fs w)\<rparr>)"

definition os_sleep :: "real \<Rightarrow> world \<Rightarrow> world" where
  "os_sleep s w = w\<lparr>w_trace := w_trace w @ [ESleep s]\<rparr>"

abbreviation ENOENT :: int where "ENOENT \<equiv> 2"
abbreviation EEXIST :: int where "EEXIST \<equiv> 17"
abbreviation EXDEV :: int where "EXDEV \<equiv> 18"

fun os_args :: "os_op \<Rightarrow> string" where
  "os_args (OsMkdir p) = [CHR 0x27] @ p @ [CHR 0x27]"
| "os_args (OsUnlink p) = [CHR 0x27] @ p @ [CHR 0x27]"
| "os_args (OsStat p) = [CHR 0x27] @ p @ [CHR 0x27]"
| "os_args (OsRead p) = [CHR 0x27] @ p @ [CHR 0x27]"
| "os_args (OsLink s d) = [CHR 0x27] @ s @ [CHR 0x27] @ '' -> '' @ [CHR 0x27] @ d @ [CHR 0x27]"
| "os_args (OsCopy2 s d) = [CHR 0x27] @ s @ [CHR 0x27]"

text \<open>
  The errno of an operation: a missing source and an existing link target are seen from the file
  system (and before a cross-device target is), everything else is the environment's.
\<close>

fun os_errno :: "environ \<Rightarrow> os_op \<Rightarrow> world \<Rightarrow> int option" where
  "os_errno env (OsMkdir p) w = en_fault env (w_trace w) (OsMkdir p)"
| "os_errno env (OsLink s d) w =
     (if w_fs w s = None then Some ENOENT
      else if w_fs w d \<noteq> None then Some EEXIST
      else en_fault env (w_trace w) (OsLink s d))"
| "os_errno env (OsCopy2 s d) w =
     (if w_fs w s = None then Some ENOENT else en_fault env (w_trace w) (OsCopy2 s d))"
| "os_errno env (OsUnlink p) w =
     (if w_fs w p = None then Some ENOENT else en_fault env (w_trace w) (OsUnlink p))"
| "os_errno env (OsStat p) w =
     (case en_fault env (w_trace w) (OsStat p) of
        Some e \<Rightarrow> Some e | None \<Rightarrow> if w_fs w p = None then Some ENOENT else None)"
| "os_errno env (OsRead p) w =
     (if w_fs w p = None then Some ENOENT else en_fault env (w_trace w) (OsRead p))"

fun os_apply :: "os_op \<Rightarrow> file_system \<Rightarrow> file_system" where
  "os_apply (OsMkdir p) fs = fs"
| "os_apply (OsLink s d) fs = fs(d := fs s)"
| "os_apply (OsCopy2 s d) fs = fs(d := fs s)"
| "os_apply (OsUnlink p) fs = fs(p := None)"
| "os_apply (OsStat p) fs = fs"
| "os_apply (OsRead p) fs = fs"

definition os_exn :: "environ \<Rightarrow> int \<Rightarrow> os_op \<Rightarrow> exn" where
  "os_exn env e op =
     OSErr e (''[Errno '' @ show_int e @ ''] '' @ en_strerror env e @ '': '' @ os_args op)"

definition os_call :: "environ \<Rightarrow> os_op \<Rightarrow> world \<Rightarrow> unit res \<times> world" where
  "os_call env op w =
     (case os_errno env op w of
        Some e \<Rightarrow>
          (Inl (os_exn env e op),
           w\<lparr>w_trace := w_trace w @ [EOs op (Some e)]\<rparr>)
      | None \<Rightarrow>
          (Inr (), w\<lparr>w_trace := w_trace w @ [EOs op None], w_fs := os_apply op (w_fs w)\<rparr>))"

text \<open>
  \<open>Path.exists()\<close>: a stat that fails with ENOENT, ENOTDIR, EBADF or ELOOP means no, any other
  failure is raised. It leaves no effect.
\<close>

definition path_exists :: "environ \<Rightarrow> string \<Rightarrow> world \<Rightarrow> bool res" where
  "path_exists env p w =
     (case os_errno env (OsStat p) w of
        Some e \<Rightarrow> if e \<in> {2, 9, 20, 40} then Inr False else Inl (os_exn env e (OsStat p))
      | None \<Rightarrow> Inr True)"

section \<open>Sequential code\<close>

text \<open>
  A block of a function body falls through with a value, returns early, or raises.
\<close>

datatype 'a flow = Go 'a | Halt | Fail exn

definition flow_bind ::
  "('s \<Rightarrow> 'a flow \<times> 's) \<Rightarrow> ('a \<Rightarrow> 's \<Rightarrow> 'b flow \<times> 's) \<Rightarrow> 's \<Rightarrow> 'b flow \<times> 's" where
  "flow_bind m f s =
     (case m s of
        (Go x, s') \<Rightarrow> f x s'
      | (Halt, s') \<Rightarrow> (Halt, s')
      | (Fail e, s') \<Rightarrow> (Fail e, s'))"

text \<open>Total correctness of such a block, with one postcondition per way of leaving it.\<close>

definition ensures ::
  "('s \<Rightarrow> bool) \<Rightarrow> ('s \<Rightarrow> 'a flow \<times> 's) \<Rightarrow> ('a \<Rightarrow> 's \<Rightarrow> bool) \<Rightarrow> ('s \<Rightarrow> bool) \<Rightarrow> (exn \<Rightarrow> 's \<Rightarrow> bool) \<Rightarrow> bool"
  where
  "ensures P m Q H F \<longleftrightarrow>
     (\<forall>s. P s \<longrightarrow>
       (case m s of (Go x, s') \<Rightarrow> Q x s' | (Halt, s') \<Rightarrow> H s' | (Fail e, s') \<Rightarrow> F e s'))"

lemma ensuresI:
  assumes "\<And>s x s'. P s \<Longrightarrow> m s = (Go x, s') \<Longrightarrow> Q x s'"
    and "\<And>s s'. P s \<Longrightarrow> m s = (Halt, s') \<Longrightarrow> H s'"
    and "\<And>s e s'. P s \<Longrightarrow> m s = (Fail e, s') \<Longrightarrow> F e s'"
  shows "ensures P m Q H F"
  using assms by (auto simp: ensures_def split: prod.splits flow.splits)

lemma ensuresD:
  assumes "ensures P m Q H F" "P s"
  shows "m s = (Go x, s') \<Longrightarrow> Q x s'" "m s = (Halt, s') \<Longrightarrow> H s'" "m s = (Fail e, s') \<Longrightarrow> F e s'"
  using assms by (auto simp: ensures_def split: prod.splits flow.splits)

lemma ensures_bind:
  assumes "ensures P m R H F" "\<And>x. ensures (R x) (f x) Q H F"
  shows "ensures P (flow_bind m f) Q H F"
  unfolding ensures_def flow_bind_def
proof (intro allI impI)
  fix s assume P: "P s"
  show "case (case m s of (Go x, s') \<Rightarrow> f x s' | (Halt, s') \<Rightarrow> (Halt, s') | (Fail e, s') \<Rightarrow> (Fail e, s')) of
      (Go x, s') \<Rightarrow> Q x s' | (Halt, s') \<Rightarrow> H s' | (Fail e, s') \<Rightarrow> F e s'"
  proof (cases "m s")
    case (Pair r s')
    show ?thesis
    proof (cases r)
      case (Go x)
      with Pair ensuresD(1) [OF assms(1) P] have "R x s'" by simp
      with assms(2) [of x] Go Pair show ?thesis by (simp add: ensures_def)
    next
      case Halt
      with Pair ensuresD(2) [OF assms(1) P] show ?thesis by simp
    next
      case (Fail e)
      with Pair ensuresD(3) [OF assms(1) P] show ?thesis by simp
    qed
  qed
qed

lemma ensures_weaken:
  assumes "ensures P m Q H F" "\<And>s. P' s \<Longrightarrow> P s" "\<And>x s. Q x s \<Longrightarrow> Q' x s"
    "\<And>s. H s \<Longrightarrow> H' s" "\<And>e s. F e s \<Longrightarrow> F' e s"
  shows "ensures P' m Q' H' F'"
  using assms by (force simp: ensures_def split: prod.splits flow.splits)

lemma ensures_conj:
  assumes "ensures P m Q H F" "ensures P m Q' H' F'"
  shows "ensures P m (\<lambda>x s. Q x s \<and> Q' x s) (\<lambda>s. H s \<and> H' s) (\<lambda>e s. F e s \<and> F' e s)"
  using assms by (fastforce simp: ensures_def split: prod.splits flow.splits)

end
