(* ===== verification/SonarrClient.thy ===== *)
theory SonarrClient
  imports World
begin

text \<open>
  \<open>impostarr/sonarr/client.py\<close>: the retry loop around one HTTP request, the typed GETs, the
  mutating calls with their dry-run suppression, and the paging of the history. Validating JSON
  into the resource models is pydantic's work: the validators are a parameter (\<open>codec\<close>).
\<close>

record client =
  cn_max_retries :: int
  cn_backoff :: "real list"
  cn_dry_run :: bool

definition DEFAULT_BACKOFF :: "real list" where
  "DEFAULT_BACKOFF = [1/2, 1, 2]"

definition default_client :: "bool \<Rightarrow> client" where
  "default_client dry = \<lparr>cn_max_retries = 3, cn_backoff = DEFAULT_BACKOFF, cn_dry_run = dry\<rparr>"

definition HISTORY_PAGE_SIZE :: int where
  "HISTORY_PAGE_SIZE = 100"

definition HISTORY_EVENT_DOWNLOAD_FOLDER_IMPORTED :: int where
  "HISTORY_EVENT_DOWNLOAD_FOLDER_IMPORTED = 3"

record codec =
  cd_history :: "json \<Rightarrow> history_record res"
  cd_episode :: "json \<Rightarrow> episode res"
  cd_series :: "json \<Rightarrow> series res"
  cd_episode_file :: "json \<Rightarrow> episode_file res"
  cd_import :: "json \<Rightarrow> manual_import_item res"

section \<open>One request\<close>

text \<open>\<open>self._backoff[min(attempt, len(self._backoff) - 1)]\<close>; \<open>attempt\<close> is never negative.\<close>

definition backoff_delay :: "client \<Rightarrow> int \<Rightarrow> real res" where
  "backoff_delay c attempt =
     (if cn_backoff c = [] then Inl IndexError
      else Inr (cn_backoff c ! nat (min attempt (int (length (cn_backoff c)) - 1))))"

text \<open>\<open>_request\<close>: the loop from its attempt number on.\<close>

function sonarr_request ::
  "environ \<Rightarrow> client \<Rightarrow> request \<Rightarrow> int \<Rightarrow> world \<Rightarrow> json res \<times> world" where
  "sonarr_request env c rq attempt w =
     (let (r, w1) = http_send env rq w;
          retry = (\<lambda>giveup.
            if attempt \<ge> cn_max_retries c then (Inl giveup, w1)
            else (case backoff_delay c attempt of
                    Inl e \<Rightarrow> (Inl e, w1)
                  | Inr s \<Rightarrow> sonarr_request env c rq (attempt + 1) (os_sleep s w1)))
      in case r of
           HttpTransportError m \<Rightarrow> retry (TransportError m)
         | HttpResponse status body text \<Rightarrow>
             if status \<ge> 500 then retry (SonarrError status text)
             else if status \<ge> 400 then (Inl (SonarrError status text), w1)
             else (Inr body, w1))"
  by pat_completeness auto

termination
  by (relation "measure (\<lambda>(env, c, rq, attempt, w). nat (cn_max_retries c - attempt))") auto

declare sonarr_request.simps [simp del]

abbreviation ask :: "environ \<Rightarrow> client \<Rightarrow> request \<Rightarrow> world \<Rightarrow> json res \<times> world" where
  "ask env c rq w \<equiv> sonarr_request env c rq 0 w"

definition GET_of :: "string \<Rightarrow> (string \<times> json) list \<Rightarrow> request" where
  "GET_of p ps = \<lparr>rq_method = GET, rq_path = p, rq_params = ps, rq_body = None\<rparr>"

definition POST_of :: "string \<Rightarrow> json option \<Rightarrow> request" where
  "POST_of p b = \<lparr>rq_method = POST, rq_path = p, rq_params = [], rq_body = b\<rparr>"

definition DELETE_of :: "string \<Rightarrow> request" where
  "DELETE_of p = \<lparr>rq_method = DELETE, rq_path = p, rq_params = [], rq_body = None\<rparr>"

text \<open>Iterating over a JSON value: the elements of a list, the keys of an object.\<close>

fun json_iter :: "json \<Rightarrow> json list res" where
  "json_iter (JList xs) = Inr xs"
| "json_iter (JObj kvs) = Inr (map (\<lambda>kv. JStr (fst kv)) kvs)"
| "json_iter (JStr s) = Inr (map (\<lambda>ch. JStr [ch]) s)"
| "json_iter _ = Inl TypeError"

definition decode_all :: "(json \<Rightarrow> 'a res) \<Rightarrow> json \<Rightarrow> 'a list res" where
  "decode_all f j = res_bind (json_iter j) (traverse f)"

definition then_decode :: "(json \<Rightarrow> 'a res) \<Rightarrow> json res \<times> world \<Rightarrow> 'a res \<times> world" where
  "then_decode f rw = (res_bind (fst rw) f, snd rw)"

section \<open>The typed calls\<close>

definition get_episode_files ::
  "environ \<Rightarrow> codec \<Rightarrow> client \<Rightarrow> int \<Rightarrow> world \<Rightarrow> episode_file list res \<times> world" where
  "get_episode_files env cd c i w =
     then_decode (decode_all (cd_episode_file cd))
       (ask env c (GET_of ''/episodefile'' [(''seriesId'', JInt i)]) w)"

definition get_episode_file ::
  "environ \<Rightarrow> codec \<Rightarrow> client \<Rightarrow> int \<Rightarrow> world \<Rightarrow> episode_file res \<times> world" where
  "get_episode_file env cd c i w =
     then_decode (cd_episode_file cd) (ask env c (GET_of (''/episodefile/'' @ show_int i) []) w)"

definition get_series :: "environ \<Rightarrow> codec \<Rightarrow> client \<Rightarrow> int \<Rightarrow> world \<Rightarrow> series res \<times> world" where
  "get_series env cd c i w =
     then_decode (cd_series cd) (ask env c (GET_of (''/series/'' @ show_int i) []) w)"

definition get_all_series :: "environ \<Rightarrow> codec \<Rightarrow> client \<Rightarrow> world \<Rightarrow> series list res \<times> world" where
  "get_all_series env cd c w =
     then_decode (decode_all (cd_series cd)) (ask env c (GET_of ''/series'' []) w)"

definition get_episodes ::
  "environ \<Rightarrow> codec \<Rightarrow> client \<Rightarrow> int \<Rightarrow> world \<Rightarrow> episode list res \<times> world" where
  "get_episodes env cd c i w =
     then_decode (decode_all (cd_episode cd))
       (ask env c (GET_of ''/episode'' [(''seriesId'', JInt i)]) w)"

definition manual_import_candidates ::
  "environ \<Rightarrow> codec \<Rightarrow> client \<Rightarrow> string \<Rightarrow> world \<Rightarrow> manual_import_item list res \<times> world" where
  "manual_import_candidates env cd c folder w =
     then_decode (decode_all (cd_import cd))
       (ask env c (GET_of ''/manualimport''
          [(''folder'', JStr folder), (''filterExistingFiles'', JStr ''false'')]) w)"

text \<open>The mutating calls: in dry-run mode nothing is sent.\<close>

definition unless_dry_run ::
  "client \<Rightarrow> json \<Rightarrow> (world \<Rightarrow> json res \<times> world) \<Rightarrow> world \<Rightarrow> json res \<times> world" where
  "unless_dry_run c r m w = (if cn_dry_run c then (Inr r, w) else m w)"

definition delete_episode_file :: "environ \<Rightarrow> client \<Rightarrow> int \<Rightarrow> world \<Rightarrow> json res \<times> world" where
  "delete_episode_file env c i =
     unless_dry_run c JNull (ask env c (DELETE_of (''/episodefile/'' @ show_int i)))"

definition mark_history_failed :: "environ \<Rightarrow> client \<Rightarrow> int \<Rightarrow> world \<Rightarrow> json res \<times> world" where
  "mark_history_failed env c i =
     unless_dry_run c JNull (ask env c (POST_of (''/history/failed/'' @ show_int i) None))"

definition execute_manual_import ::
  "environ \<Rightarrow> client \<Rightarrow> json list \<Rightarrow> string \<Rightarrow> world \<Rightarrow> json res \<times> world" where
  "execute_manual_import env c files import_mode =
     unless_dry_run c (JObj [(''dryRun'', JBool True)])
       (ask env c (POST_of ''/command'' (Some (JObj
          [(''name'', JStr ''ManualImport''), (''files'', JList files),
           (''importMode'', JStr import_mode)]))))"

definition command :: "environ \<Rightarrow> client \<Rightarrow> string \<Rightarrow> (string \<times> json) list \<Rightarrow> world \<Rightarrow> json res \<times> world"
  where
  "command env c name body =
     unless_dry_run c (JObj [(''dryRun'', JBool True)])
       (ask env c (POST_of ''/command'' (Some (JObj ((''name'', JStr name) # body)))))"

section \<open>History since a watermark\<close>

definition history_request :: "int \<Rightarrow> request" where
  "history_request page = GET_of ''/history''
     [(''eventType'', JInt HISTORY_EVENT_DOWNLOAD_FOLDER_IMPORTED), (''sortKey'', JStr ''date''),
      (''sortDirection'', JStr ''descending''), (''pageSize'', JInt HISTORY_PAGE_SIZE),
      (''page'', JInt page)]"

text \<open>\<open>raw["id"]\<close> of a record, and \<open>response.json().get("records", [])\<close>.\<close>

fun raw_id :: "json \<Rightarrow> int res" where
  "raw_id (JObj kvs) =
     (case map_of kvs ''id'' of Some (JInt i) \<Rightarrow> Inr i | Some _ \<Rightarrow> Inl TypeError | None \<Rightarrow> Inl KeyError)"
| "raw_id _ = Inl TypeError"

fun records_of :: "json \<Rightarrow> json list res" where
  "records_of (JObj kvs) =
     (case map_of kvs ''records'' of None \<Rightarrow> Inr [] | Some v \<Rightarrow> json_iter v)"
| "records_of _ = Inl AttributeError"

definition new_on_page :: "int \<Rightarrow> json list \<Rightarrow> json list res" where
  "new_on_page since batch =
     res_map (\<lambda>ids. map fst (filter (\<lambda>(raw, i). i > since) (zip batch ids))) (traverse raw_id batch)"

text \<open>The paging loop; a peer that never runs out of new records makes it run forever (\<open>None\<close>).\<close>

partial_function (option) history_pages ::
  "environ \<Rightarrow> codec \<Rightarrow> client \<Rightarrow> int \<Rightarrow> int \<Rightarrow> history_record list \<Rightarrow> world \<Rightarrow>
     (history_record list res \<times> world) option" where
  "history_pages env cd c since page acc w =
     (let (r, w1) = ask env c (history_request page) w
      in case res_bind r records_of of
           Inl e \<Rightarrow> Some (Inl e, w1)
         | Inr batch \<Rightarrow>
             if batch = [] then Some (Inr acc, w1)
             else (case new_on_page since batch of
                     Inl e \<Rightarrow> Some (Inl e, w1)
                   | Inr new \<Rightarrow>
                       if new = [] then Some (Inr acc, w1)
                       else (case traverse (cd_history cd) new of
                               Inl e \<Rightarrow> Some (Inl e, w1)
                             | Inr rs \<Rightarrow> history_pages env cd c since (page + 1) (acc @ rs) w1)))"

definition history_since ::
  "environ \<Rightarrow> codec \<Rightarrow> client \<Rightarrow> int \<Rightarrow> world \<Rightarrow> (history_record list res \<times> world) option" where
  "history_since env cd c since w =
     map_option (\<lambda>(r, w'). (res_map (sort_key hr_id) r, w')) (history_pages env cd c since 1 [] w)"

end
