(* ===== verification/Trash.thy ===== *)
theory Trash
  imports World
begin

text \<open>
  \<open>impostarr/trash.py\<close>: the sweeper, early deletion and restoring, over the trash rows and the
  file system.
\<close>

text \<open>\<open>_unlink_tolerant\<close>: every \<open>OSError\<close> is logged and swallowed.\<close>

definition unlink_tolerant :: "environ \<Rightarrow> string \<Rightarrow> world \<Rightarrow> world" where
  "unlink_tolerant env p w = snd (os_call env (OsUnlink p) w)"

definition trash_expired :: "datetime \<Rightarrow> trash_row \<Rightarrow> bool" where
  "trash_expired now t \<longleftrightarrow> t_expires_at t < now \<and> t_deleted_at t = None"

definition mark_trash :: "trash_outcome \<Rightarrow> datetime \<Rightarrow> trash_row \<Rightarrow> trash_row" where
  "mark_trash out now t = t\<lparr>t_deleted_at := Some now, t_outcome := Some out\<rparr>"

definition sweep_expired :: "environ \<Rightarrow> world \<Rightarrow> int \<times> world" where
  "sweep_expired env w =
     (let now = now_of env w;
          expired = filter (trash_expired now) (db_trash (w_db w));
          w1 = fold (\<lambda>t. unlink_tolerant env (t_trash_path t)) expired w
      in (int (length expired),
          w1\<lparr>w_db := (w_db w1)\<lparr>db_trash :=
             update_where (trash_expired now) (mark_trash Expired now) (db_trash (w_db w1))\<rparr>\<rparr>))"

definition mark_trash_row :: "int \<Rightarrow> trash_outcome \<Rightarrow> datetime \<Rightarrow> world \<Rightarrow> world" where
  "mark_trash_row i out now w =
     w\<lparr>w_db := (w_db w)\<lparr>db_trash :=
       update_where (\<lambda>t. t_id t = i) (mark_trash out now) (db_trash (w_db w))\<rparr>\<rparr>"

definition delete_now :: "environ \<Rightarrow> trash_row \<Rightarrow> world \<Rightarrow> world" where
  "delete_now env item w =
     (let w1 = unlink_tolerant env (t_trash_path item) w
      in mark_trash_row (t_id item) Deleted (now_of env w1) w1)"

text \<open>\<open>os.link\<close>, falling back to \<open>shutil.copy2\<close> across devices.\<close>

definition link_or_copy :: "environ \<Rightarrow> string \<Rightarrow> string \<Rightarrow> world \<Rightarrow> unit res \<times> world" where
  "link_or_copy env src dst w =
     (case os_call env (OsLink src dst) w of
        (Inl (OSErr e m), w1) \<Rightarrow>
          if e = EXDEV then os_call env (OsCopy2 src dst) w1 else (Inl (OSErr e m), w1)
      | r \<Rightarrow> r)"

definition restore :: "environ \<Rightarrow> trash_row \<Rightarrow> world \<Rightarrow> unit res \<times> world" where
  "restore env item w =
     (let original = path_str (mk_path (t_original_path item));
          trash_path = path_str (mk_path (t_trash_path item))
      in case path_exists env original w of
           Inl e \<Rightarrow> (Inl e, w)
         | Inr True \<Rightarrow> (Inl RestoreConflict, w)
         | Inr False \<Rightarrow>
             (case os_call env (OsMkdir (path_str (path_parent (mk_path (t_original_path item))))) w of
                 (Inl e, w1) \<Rightarrow> (Inl e, w1)
               | (Inr _, w1) \<Rightarrow>
                   (case link_or_copy env trash_path original w1 of
                      (Inl e, w2) \<Rightarrow> (Inl e, w2)
                    | (Inr _, w2) \<Rightarrow> (Inr (), mark_trash_row (t_id item) Restored (now_of env w2) w2))))"

end
