(* ===== verification/Jobs.thy ===== *)
theory Jobs
  imports Tables
begin

text \<open>
  The job queue of \<open>impostarr/jobs.py\<close>. Each operation takes the database, the caller's in-memory
  job object where the code takes one (its status may be stale), and the clock reading; the
  conditional \<open>UPDATE\<close> and its row count are explicit, so a lost race is a branch.
  \<open>release\<close>'s \<open>result_fields\<close>, which no caller passes, are left out.
\<close>

section \<open>The state machine\<close>

definition MAX_ATTEMPTS :: int where
  "MAX_ATTEMPTS = 3"

definition TERMINAL_STATUSES :: "job_status set" where
  "TERMINAL_STATUSES = {Matched, Quarantine, Inconclusive, Errored, Remediated}"

text \<open>\<open>VALID_TRANSITIONS.get(from, frozenset())\<close>: \<open>remediated\<close> has no entry.\<close>

fun VALID_TRANSITIONS :: "job_status \<Rightarrow> job_status set" where
  "VALID_TRANSITIONS Hold = {Pending}"
| "VALID_TRANSITIONS Pending = {Hold, Active}"
| "VALID_TRANSITIONS Active = {Pending} \<union> TERMINAL_STATUSES"
| "VALID_TRANSITIONS Matched = {Pending}"
| "VALID_TRANSITIONS Quarantine = {Pending, Active, Matched, Quarantine, Inconclusive}"
| "VALID_TRANSITIONS Inconclusive = {Pending, Active, Matched, Quarantine, Inconclusive}"
| "VALID_TRANSITIONS Errored = {Pending}"
| "VALID_TRANSITIONS Remediated = {}"

definition check_transition :: "job_status \<Rightarrow> job_status \<Rightarrow> unit res" where
  "check_transition from_status new_status =
     (if new_status \<in> VALID_TRANSITIONS from_status then Inr () else Inl InvalidTransition)"

section \<open>Operations\<close>

definition get_job :: "db \<Rightarrow> int \<Rightarrow> job_row option" where
  "get_job d i = get_row j_id i (db_jobs d)"

text \<open>
  \<open>UPDATE jobs SET ... WHERE id = i AND P\<close>: the row count and the new database. \<open>updated_at\<close>
  has \<open>onupdate=_utcnow\<close>.
\<close>

definition update_job ::
  "int \<Rightarrow> (job_row \<Rightarrow> bool) \<Rightarrow> (job_row \<Rightarrow> job_row) \<Rightarrow> datetime \<Rightarrow> db \<Rightarrow> nat \<times> db" where
  "update_job i P f now d =
     (rowcount (\<lambda>j. j_id j = i \<and> P j) (db_jobs d),
      d\<lparr>db_jobs := update_where (\<lambda>j. j_id j = i \<and> P j) (\<lambda>j. (f j)\<lparr>j_updated_at := now\<rparr>) (db_jobs d)\<rparr>)"

definition leased :: "job_status \<Rightarrow> string \<Rightarrow> datetime \<Rightarrow> job_row \<Rightarrow> job_row" where
  "leased s w now j =
     j\<lparr>j_status := s, j_claimed_by := Some w, j_claimed_at := Some now, j_heartbeat_at := Some now\<rparr>"

definition unleased :: "job_status \<Rightarrow> job_row \<Rightarrow> job_row" where
  "unleased s j =
     j\<lparr>j_status := s, j_claimed_by := None, j_claimed_at := None, j_heartbeat_at := None\<rparr>"

definition new_job :: "int \<Rightarrow> int \<Rightarrow> job_status \<Rightarrow> datetime \<Rightarrow> job_row" where
  "new_job i file_id s now =
     \<lparr>j_id = i, j_file_id = file_id, j_status = s, j_attempts = 0, j_claimed_by = None,
      j_claimed_at = None, j_heartbeat_at = None, j_created_at = now, j_updated_at = now\<rparr>"

definition create_job :: "db \<Rightarrow> int \<Rightarrow> bool \<Rightarrow> datetime \<Rightarrow> job_row \<times> db" where
  "create_job d file_id parked now =
     (let j = new_job (fresh_id (map j_id (db_jobs d))) file_id (if parked then Hold else Pending) now
      in (j, d\<lparr>db_jobs := db_jobs d @ [j]\<rparr>))"

text \<open>\<open>SELECT ... WHERE status = 'pending' ORDER BY created_at, id LIMIT 1\<close>.\<close>

definition oldest_pending :: "db \<Rightarrow> job_row option" where
  "oldest_pending d =
     (case sort_key (\<lambda>j. (j_created_at j, j_id j)) (filter (\<lambda>j. j_status j = Pending) (db_jobs d)) of
        [] \<Rightarrow> None | j # _ \<Rightarrow> Some j)"

text \<open>
  One turn of the loop of \<open>claim_next\<close>. \<open>env\<close> is what the other sessions commit between the
  \<open>SELECT\<close> and the \<open>UPDATE\<close>.
\<close>

datatype claim_result = NoPending | Claimed job_row | LostRace

definition claim_attempt :: "(db \<Rightarrow> db) \<Rightarrow> db \<Rightarrow> string \<Rightarrow> datetime \<Rightarrow> (claim_result \<times> db) res" where
  "claim_attempt env d w now =
     (case oldest_pending d of
        None \<Rightarrow> Inr (NoPending, d)
      | Some job \<Rightarrow>
          (case check_transition (j_status job) Active of
             Inl e \<Rightarrow> Inl e
           | Inr _ \<Rightarrow>
               (let d1 = env d;
                    (n, d2) = update_job (j_id job) (\<lambda>j. j_status j = Pending) (leased Active w now) now d1
                in if n = 1 then Inr (Claimed (leased Active w now job), d2) else Inr (LostRace, d1))))"

text \<open>
  The whole loop; turn \<open>k\<close> runs against interference \<open>env k\<close> at clock reading \<open>clock k\<close>.
  \<open>None\<close> is not returning.
\<close>

partial_function (option) claim_next ::
  "(nat \<Rightarrow> db \<Rightarrow> db) \<Rightarrow> (nat \<Rightarrow> datetime) \<Rightarrow> nat \<Rightarrow> db \<Rightarrow> string \<Rightarrow> (job_row option \<times> db) res option" where
  "claim_next env clock k d w =
     (case claim_attempt (env k) d w (clock k) of
        Inl e \<Rightarrow> Some (Inl e)
      | Inr (r, d') \<Rightarrow>
          (case r of
             NoPending \<Rightarrow> Some (Inr (None, d'))
           | Claimed j \<Rightarrow> Some (Inr (Some j, d'))
           | LostRace \<Rightarrow> claim_next env clock (Suc k) d' w))"

definition lease_held :: "string \<Rightarrow> job_row \<Rightarrow> bool" where
  "lease_held w j \<longleftrightarrow> j_status j = Active \<and> j_claimed_by j = Some w"

definition heartbeat :: "db \<Rightarrow> job_row \<Rightarrow> string \<Rightarrow> datetime \<Rightarrow> (job_row \<times> db) res" where
  "heartbeat d job w now =
     (let (n, d') = update_job (j_id job) (lease_held w) (\<lambda>j. j\<lparr>j_heartbeat_at := Some now\<rparr>) now d
      in if n = 0 then Inl LeaseLost else Inr (job\<lparr>j_heartbeat_at := Some now\<rparr>, d'))"

definition release :: "db \<Rightarrow> job_row \<Rightarrow> job_status \<Rightarrow> string \<Rightarrow> datetime \<Rightarrow> (job_row \<times> db) res" where
  "release d job new_status w now =
     (case check_transition (j_status job) new_status of
        Inl e \<Rightarrow> Inl e
      | Inr _ \<Rightarrow>
          (let (n, d') = update_job (j_id job) (lease_held w) (unleased new_status) now d
           in if n = 0 then Inl LeaseLost else Inr (unleased new_status job, d')))"

definition stale :: "datetime \<Rightarrow> job_row \<Rightarrow> bool" where
  "stale cutoff j \<longleftrightarrow>
     j_status j = Active \<and> (case j_heartbeat_at j of None \<Rightarrow> False | Some h \<Rightarrow> h < cutoff)"

definition reap_one :: "datetime \<Rightarrow> job_row \<Rightarrow> job_row" where
  "reap_one now j =
     (let a = j_attempts j + 1
      in (unleased (if MAX_ATTEMPTS < a then Errored else Pending) j)\<lparr>j_attempts := a, j_updated_at := now\<rparr>)"

definition reap_stale :: "db \<Rightarrow> timedelta \<Rightarrow> datetime \<Rightarrow> nat \<times> db" where
  "reap_stale d lease_timeout now =
     (rowcount (stale (now - lease_timeout)) (db_jobs d),
      d\<lparr>db_jobs := update_where (stale (now - lease_timeout)) (reap_one now) (db_jobs d)\<rparr>)"

definition park :: "db \<Rightarrow> job_row \<Rightarrow> datetime \<Rightarrow> (job_row \<times> db) res" where
  "park d job now =
     (case check_transition (j_status job) Hold of
        Inl e \<Rightarrow> Inl e
      | Inr _ \<Rightarrow>
          (let (n, d') = update_job (j_id job) (\<lambda>j. j_status j = Pending) (\<lambda>j. j\<lparr>j_status := Hold\<rparr>) now d
           in if n = 0 then Inl InvalidTransition else Inr (job\<lparr>j_status := Hold\<rparr>, d')))"

definition unpark :: "db \<Rightarrow> job_row \<Rightarrow> datetime \<Rightarrow> (job_row \<times> db) res" where
  "unpark d job now =
     (case check_transition (j_status job) Pending of
        Inl e \<Rightarrow> Inl e
      | Inr _ \<Rightarrow>
          (let (n, d') = update_job (j_id job) (\<lambda>j. j_status j = Hold) (\<lambda>j. j\<lparr>j_status := Pending\<rparr>) now d
           in if n = 0 then Inl InvalidTransition else Inr (job\<lparr>j_status := Pending\<rparr>, d')))"

definition requeue :: "db \<Rightarrow> job_row \<Rightarrow> datetime \<Rightarrow> (job_row \<times> db) res" where
  "requeue d job now =
     (case check_transition (j_status job) Pending of
        Inl e \<Rightarrow> Inl e
      | Inr _ \<Rightarrow>
          (let (n, d') = update_job (j_id job) (\<lambda>j. j_status j = j_status job)
                           (\<lambda>j. (unleased Pending j)\<lparr>j_attempts := 0\<rparr>) now d
           in if n = 0 then Inl InvalidTransition
              else Inr ((unleased Pending job)\<lparr>j_attempts := 0\<rparr>, d')))"

definition claim_for_api ::
  "db \<Rightarrow> job_row \<Rightarrow> string \<Rightarrow> job_status set \<Rightarrow> datetime \<Rightarrow> (job_row \<times> db) res" where
  "claim_for_api d job w from_statuses now =
     (case check_transition (j_status job) Active of
        Inl e \<Rightarrow> Inl e
      | Inr _ \<Rightarrow>
          (let (n, d') = update_job (j_id job) (\<lambda>j. j_status j \<in> from_statuses) (leased Active w now) now d
           in if n = 0 then Inl InvalidTransition else Inr (leased Active w now job, d')))"

definition set_status_checked ::
  "db \<Rightarrow> job_row \<Rightarrow> job_status \<Rightarrow> job_status \<Rightarrow> datetime \<Rightarrow> (job_row \<times> db) res" where
  "set_status_checked d job new_status expected_current now =
     (case check_transition expected_current new_status of
        Inl e \<Rightarrow> Inl e
      | Inr _ \<Rightarrow>
          (let (n, d') = update_job (j_id job) (\<lambda>j. j_status j = expected_current)
                           (\<lambda>j. j\<lparr>j_status := new_status\<rparr>) now d
           in if n = 0 then Inl InvalidTransition else Inr (job\<lparr>j_status := new_status\<rparr>, d')))"

end
