(* ===== verification/Remediate.thy ===== *)
theory Remediate
  imports SonarrClient Trash Config Jobs
begin

text \<open>
  \<open>impostarr/remediate.py\<close>: the two remediation sequences, step by step. A run's state is the
  world with the session's in-memory objects: the job row and the verdict's log, loaded once on
  entry (sessions are created with \<open>expire_on_commit=False\<close>). Each step falls through, returns
  early after quarantining the job, or lets an exception out. The dashes of two detail texts are
  ASCII here.
\<close>

section \<open>The audit log\<close>

definition MUTATING_STEPS :: "string set" where
  "MUTATING_STEPS =
     {''trash'', ''hardlink'', ''mark_history_failed'', ''delete_episode_file'',
      ''manual_import_candidates'', ''execute_manual_import'', ''manual_import'', ''episode_search''}"

definition is_mutating_entry :: "log_entry \<Rightarrow> bool" where
  "is_mutating_entry e =
     (if \<not> le_ok e then False
      else if starts_with (le_detail e) ''DRY-RUN: '' then False
      else if le_step e = ''mark_history_failed'' \<and> contains (le_detail e) ''no download history exists''
      then False
      else le_step e \<in> MUTATING_STEPS)"

definition was_interrupted :: "log_entry list \<Rightarrow> bool" where
  "was_interrupted entries = list_ex is_mutating_entry entries"

definition latest_verdict :: "db \<Rightarrow> int \<Rightarrow> verdict_row res" where
  "latest_verdict d job_id =
     (case latest_by v_id (filter (\<lambda>v. v_job_id v = job_id) (db_verdicts d)) of
        None \<Rightarrow> Inl ValueError
      | Some v \<Rightarrow> Inr v)"

section \<open>The run\<close>

text \<open>What a \<open>Remediator\<close> is constructed with, and the arguments of one call.\<close>

record remediator =
  re_env :: environ
  re_codec :: codec
  re_client :: client
  re_instance :: sonarr_instance
  re_dry_run :: bool
  re_trash :: "trash_config option"
  re_worker :: string

record rstate =
  rs_world :: world
  rs_job :: job_row
  rs_file :: file_row
  rs_verdict :: int
  rs_log :: "log_entry list"

type_synonym 'a step = "rstate \<Rightarrow> 'a flow \<times> rstate"

definition set_verdict_log :: "int \<Rightarrow> log_entry list \<Rightarrow> db \<Rightarrow> db" where
  "set_verdict_log i entries d =
     d\<lparr>db_verdicts := update_where (\<lambda>v. v_id v = i) (\<lambda>v. v\<lparr>v_remediation_log := entries\<rparr>) (db_verdicts d)\<rparr>"

text \<open>\<open>_log\<close>: append in memory, write the whole list, commit.\<close>

definition log_step :: "remediator \<Rightarrow> string \<Rightarrow> bool \<Rightarrow> string \<Rightarrow> rstate \<Rightarrow> rstate" where
  "log_step r step ok detail s =
     (let w = rs_world s;
          entry = \<lparr>le_step = step, le_ok = ok,
                   le_detail = (if re_dry_run r then ''DRY-RUN: '' @ detail else detail),
                   le_ts = now_of (re_env r) w\<rparr>;
          entries = rs_log s @ [entry]
      in s\<lparr>rs_log := entries, rs_world := w\<lparr>w_db := set_verdict_log (rs_verdict s) entries (w_db w)\<rparr>\<rparr>)"

text \<open>\<open>jobs.release(session, db_job, status, worker_id)\<close> and \<open>return\<close>.\<close>

definition settle_job :: "remediator \<Rightarrow> job_status \<Rightarrow> unit step" where
  "settle_job r status s =
     (let w = rs_world s
      in case release (w_db w) (rs_job s) status (re_worker r) (now_of (re_env r) w) of
           Inl e \<Rightarrow> (Fail e, s)
         | Inr (j, d) \<Rightarrow> (Halt, s\<lparr>rs_job := j, rs_world := w\<lparr>w_db := d\<rparr>\<rparr>))"

text \<open>The common end of a refused or failed step: log it, quarantine the job, return.\<close>

definition refuse :: "remediator \<Rightarrow> string \<Rightarrow> string \<Rightarrow> rstate \<Rightarrow> 'a flow \<times> rstate" where
  "refuse r step detail s =
     (case settle_job r Quarantine (log_step r step False detail s) of
        (Fail e, s') \<Rightarrow> (Fail e, s')
      | (_, s') \<Rightarrow> (Halt, s'))"

definition exn_str :: "exn \<Rightarrow> string" where
  "exn_str e =
     (case e of SonarrError c b \<Rightarrow> ''Sonarr API error '' @ show_int c @ '': '' @ b
      | OSErr _ m \<Rightarrow> m | _ \<Rightarrow> '''')"

text \<open>
  \<open>try: await call() except SonarrError as exc: log and quarantine\<close>. Any other exception
  leaves the function.
\<close>

definition sonarr_step ::
  "remediator \<Rightarrow> string \<Rightarrow> string \<Rightarrow> (world \<Rightarrow> 'a res \<times> world) \<Rightarrow> 'a step" where
  "sonarr_step r step sfx call s =
     (case call (rs_world s) of
        (Inr x, w) \<Rightarrow> (Go x, s\<lparr>rs_world := w\<rparr>)
      | (Inl e, w) \<Rightarrow>
          (case e of
             SonarrError c b \<Rightarrow> refuse r step (exn_str e @ sfx) (s\<lparr>rs_world := w\<rparr>)
           | _ \<Rightarrow> (Fail e, s\<lparr>rs_world := w\<rparr>)))"

text \<open>The part both methods begin with.\<close>

definition load_run :: "remediator \<Rightarrow> int \<Rightarrow> world \<Rightarrow> rstate res" where
  "load_run r job_id w =
     (case get_job (w_db w) job_id of
        None \<Rightarrow> Inl AttributeError
      | Some j \<Rightarrow>
          (case get_row f_id (j_file_id j) (db_files (w_db w)) of
             None \<Rightarrow> Inl AttributeError
           | Some f \<Rightarrow>
               (case latest_verdict (w_db w) job_id of
                  Inl e \<Rightarrow> Inl e
                | Inr v \<Rightarrow>
                    Inr \<lparr>rs_world = w, rs_job = j, rs_file = f, rs_verdict = v_id v,
                         rs_log = v_remediation_log v\<rparr>)))"

definition interruption_guard :: "remediator \<Rightarrow> unit step" where
  "interruption_guard r s =
     (if was_interrupted (rs_log s)
      then refuse r ''interruption_guard'' ''remediation previously interrupted; operator review required'' s
      else (Go (), s))"

section \<open>Replace\<close>

definition blocklist_step :: "remediator \<Rightarrow> unit step" where
  "blocklist_step r s =
     (case f_history_id (rs_file s) of
        Some h \<Rightarrow>
          flow_bind (sonarr_step r ''mark_history_failed'' [] (mark_history_failed (re_env r) (re_client r) h))
            (\<lambda>_ s. (Go (), log_step r ''mark_history_failed'' True (''history_id='' @ show_int h) s)) s
      | None \<Rightarrow>
          (Go (), log_step r ''mark_history_failed'' True
             (''no download history exists for this file, so the release cannot be '' @
              ''blocklisted - deleting and re-searching only'') s))"

definition trash_dir :: "remediator \<Rightarrow> trash_config \<Rightarrow> path" where
  "trash_dir r tc = path_div (mk_path (tc_dir tc)) (si_name (re_instance r))"

definition trash_path_of :: "remediator \<Rightarrow> trash_config \<Rightarrow> rstate \<Rightarrow> string" where
  "trash_path_of r tc s =
     path_str (path_div (trash_dir r tc)
       (path_name (mk_path (f_local_path (rs_file s))) @ ''-'' @ show_int (j_id (rs_job s))))"

definition new_trash_item ::
  "remediator \<Rightarrow> trash_config \<Rightarrow> datetime \<Rightarrow> rstate \<Rightarrow> db \<Rightarrow> datetime \<Rightarrow> trash_row" where
  "new_trash_item r tc expires s d now =
     \<lparr>t_id = fresh_id (map t_id (db_trash d)), t_file_id = Some (f_id (rs_file s)),
      t_job_id = Some (j_id (rs_job s)), t_instance = si_name (re_instance r),
      t_original_path = path_str (mk_path (f_local_path (rs_file s))),
      t_trash_path = trash_path_of r tc s, t_size = f_size (rs_file s),
      t_series_id = f_series_id (rs_file s), t_episode_ids = f_episode_ids (rs_file s),
      t_trashed_at = now, t_expires_at = expires, t_deleted_at = None, t_outcome = None\<rparr>"

definition insert_trash :: "remediator \<Rightarrow> trash_config \<Rightarrow> datetime \<Rightarrow> rstate \<Rightarrow> rstate" where
  "insert_trash r tc expires s =
     (let w = rs_world s; d = w_db w
      in s\<lparr>rs_world := w\<lparr>w_db := d\<lparr>db_trash :=
           db_trash d @ [new_trash_item r tc expires s d (now_of (re_env r) w)]\<rparr>\<rparr>\<rparr>)"

text \<open>
  The trash step; its value is the suffix of the next step's detail. The expiry is fixed before
  the copy is made.
\<close>

definition trash_step :: "remediator \<Rightarrow> string step" where
  "trash_step r s =
     (case re_trash r of
        None \<Rightarrow> (Go [], s)
      | Some tc \<Rightarrow>
          if \<not> tc_enabled tc then (Go [], s)
          else
            (let local = path_str (mk_path (f_local_path (rs_file s)));
                 tp = trash_path_of r tc s;
                 expires = now_of (re_env r) (rs_world s) + tc_retention_days tc * day_us;
                 sfx = ''; copy retained in trash until '' @ isoformat expires;
                 note = tp @ '' (expires '' @ isoformat expires @ '')''
             in if re_dry_run r
                then (Go sfx, log_step r ''trash'' True (''would copy file to trash: '' @ note) s)
                else
                  (case os_call (re_env r) (OsMkdir (path_str (trash_dir r tc))) (rs_world s) of
                     (Inl e, w) \<Rightarrow>
                       refuse r ''trash'' (exn_str e @ ''; trash_path='' @ tp) (s\<lparr>rs_world := w\<rparr>)
                   | (Inr _, w) \<Rightarrow>
                       (case link_or_copy (re_env r) local tp w of
                          (Inl e, w') \<Rightarrow>
                            refuse r ''trash'' (exn_str e @ ''; trash_path='' @ tp) (s\<lparr>rs_world := w'\<rparr>)
                        | (Inr _, w') \<Rightarrow>
                            (Go sfx,
                             log_step r ''trash'' True (''copied file to trash: '' @ note)
                               (insert_trash r tc expires (s\<lparr>rs_world := w'\<rparr>)))))))"

definition delete_step :: "remediator \<Rightarrow> string \<Rightarrow> string \<Rightarrow> unit step" where
  "delete_step r sfx detail s =
     flow_bind
       (sonarr_step r ''delete_episode_file'' sfx
          (delete_episode_file (re_env r) (re_client r) (f_episode_file_id (rs_file s))))
       (\<lambda>_ s. (Go (), log_step r ''delete_episode_file'' True detail s)) s"

definition show_ints :: "int list \<Rightarrow> string" where
  "show_ints is = ''['' @ join '', '' (map show_int is) @ '']''"

definition search_step :: "remediator \<Rightarrow> unit step" where
  "search_step r s =
     flow_bind
       (sonarr_step r ''episode_search'' []
          (command (re_env r) (re_client r) ''EpisodeSearch''
             [(''episodeIds'', JList (map JInt (f_episode_ids (rs_file s))))]))
       (\<lambda>_ s. (Go (), log_step r ''episode_search'' True
                  (''episode_ids='' @ show_ints (f_episode_ids (rs_file s))) s)) s"

definition delete_and_search :: "remediator \<Rightarrow> string \<Rightarrow> unit step" where
  "delete_and_search r sfx s =
     flow_bind
       (delete_step r [] (''removed file via Sonarr (episode_file_id='' @
          show_int (f_episode_file_id (rs_file s)) @ sfx @ '')'')) (\<lambda>_.
     flow_bind (search_step r) (\<lambda>_.
     settle_job r Remediated)) s"

definition replace_body :: "remediator \<Rightarrow> unit step" where
  "replace_body r =
     flow_bind (interruption_guard r) (\<lambda>_.
     flow_bind (blocklist_step r) (\<lambda>_.
     flow_bind (trash_step r) (\<lambda>sfx.
     delete_and_search r sfx)))"

text \<open>The result: the exception that leaves the method, if one does, and the world.\<close>

definition run_result :: "unit flow \<times> rstate \<Rightarrow> unit res \<times> world" where
  "run_result fs = (case fst fs of Fail e \<Rightarrow> Inl e | _ \<Rightarrow> Inr (), rs_world (snd fs))"

definition replace :: "remediator \<Rightarrow> int \<Rightarrow> world \<Rightarrow> unit res \<times> world" where
  "replace r job_id w =
     (case load_run r job_id w of
        Inl e \<Rightarrow> (Inl e, w)
      | Inr s \<Rightarrow> run_result (replace_body r s))"

section \<open>Remap\<close>

definition target_episodes_of :: "int set \<Rightarrow> episode list \<Rightarrow> episode list" where
  "target_episodes_of targets eps = sort_key ep_episode_number (filter (\<lambda>e. ep_id e \<in> targets) eps)"

text \<open>\<open>await self.client.episodes(...)\<close> is outside any \<open>try\<close>.\<close>

definition fetch_targets :: "remediator \<Rightarrow> int set \<Rightarrow> episode list step" where
  "fetch_targets r targets s =
     (case get_episodes (re_env r) (re_codec r) (re_client r) (f_series_id (rs_file s)) (rs_world s) of
        (Inl e, w) \<Rightarrow> (Fail e, s\<lparr>rs_world := w\<rparr>)
      | (Inr eps, w) \<Rightarrow> (Go (target_episodes_of targets eps), s\<lparr>rs_world := w\<rparr>))"

definition resolution_check :: "remediator \<Rightarrow> int set \<Rightarrow> episode list \<Rightarrow> unit step" where
  "resolution_check r targets eps s =
     (let missing = targets - set (map ep_id eps)
      in if missing \<noteq> {} then
           refuse r ''episode_resolution''
             (''refusing remap: target episode ids not found in series '' @
              show_int (f_series_id (rs_file s)) @ '': '' @ show_ints (sorted_list_of_set missing)) s
         else (Go (), s))"

definition episode_label :: "episode \<Rightarrow> string" where
  "episode_label e =
     ''S'' @ show_int02 (ep_season_number e) @ ''E'' @ show_int02 (ep_episode_number e)"

definition set_proposed :: "int \<Rightarrow> action_json option \<Rightarrow> db \<Rightarrow> db" where
  "set_proposed i a d =
     d\<lparr>db_verdicts := update_where (\<lambda>v. v_id v = i) (\<lambda>v. v\<lparr>v_proposed_action := a\<rparr>) (db_verdicts d)\<rparr>"

text \<open>
  An occupied target: the proposed action is written in the transaction of the release, so a
  lost lease rolls it back.
\<close>

definition occupied_check :: "remediator \<Rightarrow> int set \<Rightarrow> episode list \<Rightarrow> unit step" where
  "occupied_check r targets eps s =
     (let occupied = filter ep_has_file eps
      in if occupied \<noteq> [] then
           (let s1 = log_step r ''occupied_check'' False
                  (''refusing remap: target episode(s) already have a file: '' @
                   join '', '' (map episode_label occupied) @ '' (ids='' @
                   show_ints (map ep_id occupied) @ '')'') s;
                w1 = rs_world s1;
                s2 = s1\<lparr>rs_world := w1\<lparr>w_db := set_proposed (rs_verdict s1)
                       (Some (RemapJson (sorted_list_of_set targets))) (w_db w1)\<rparr>\<rparr>
            in case settle_job r Quarantine s2 of
                 (Fail e, _) \<Rightarrow> (Fail e, s1)
               | (_, s') \<Rightarrow> (Halt, s'))
         else (Go (), s))"

text \<open>\<open>target_episodes[0].season_number\<close> and the staged name.\<close>

definition staged_label :: "episode list \<Rightarrow> string" where
  "staged_label eps =
     ''S'' @ show_int02 (ep_season_number (hd eps)) @
     join ''-'' (map (\<lambda>e. ''E'' @ show_int02 (ep_episode_number e)) eps)"

definition staged_name :: "episode list \<Rightarrow> file_row \<Rightarrow> string" where
  "staged_name eps f = staged_label eps @ path_suffix (mk_path (f_local_path f))"

definition staging_dir_of :: "remediator \<Rightarrow> string" where
  "staging_dir_of r = path_str (mk_path (si_staging_dir (re_instance r)))"

definition staged_path :: "remediator \<Rightarrow> episode list \<Rightarrow> file_row \<Rightarrow> string" where
  "staged_path r eps f = path_str (path_div (mk_path (si_staging_dir (re_instance r))) (staged_name eps f))"

text \<open>
  Staging. \<open>mkdir\<close> and \<open>os.link\<close> share one \<open>try\<close>: a cross-device errno from either
  leads to the copy.
\<close>

definition staging_link :: "remediator \<Rightarrow> string \<Rightarrow> string \<Rightarrow> world \<Rightarrow> unit res \<times> world" where
  "staging_link r local sp w =
     (case os_call (re_env r) (OsMkdir (staging_dir_of r)) w of
        (Inl e, w1) \<Rightarrow> (Inl e, w1)
      | (Inr _, w1) \<Rightarrow> os_call (re_env r) (OsLink local sp) w1)"

definition hardlink_step :: "remediator \<Rightarrow> string \<Rightarrow> unit step" where
  "hardlink_step r sp s =
     (let local = path_str (mk_path (f_local_path (rs_file s)));
          done = ''preserved file data in staging: '' @ sp
      in if re_dry_run r then (Go (), log_step r ''hardlink'' True done s)
         else
           (case staging_link r local sp (rs_world s) of
              (Inr _, w) \<Rightarrow> (Go (), log_step r ''hardlink'' True done (s\<lparr>rs_world := w\<rparr>))
            | (Inl e, w) \<Rightarrow>
                (case e of
                   OSErr n m \<Rightarrow>
                     if n = EXDEV then
                       (case os_call (re_env r) (OsCopy2 local sp) w of
                          (Inr _, w') \<Rightarrow> (Go (), log_step r ''hardlink'' True done (s\<lparr>rs_world := w'\<rparr>))
                        | (Inl e', w') \<Rightarrow>
                            refuse r ''hardlink'' (exn_str e' @ ''; staging_path='' @ sp) (s\<lparr>rs_world := w'\<rparr>))
                     else refuse r ''hardlink'' (exn_str e @ ''; staging_path='' @ sp) (s\<lparr>rs_world := w\<rparr>)
                 | _ \<Rightarrow> (Fail e, s\<lparr>rs_world := w\<rparr>))))"

definition match_candidate :: "string \<Rightarrow> manual_import_item list \<Rightarrow> manual_import_item option" where
  "match_candidate sp cs = find (\<lambda>c. path_name (mk_path (mi_path c)) = path_name (mk_path sp)) cs"

definition candidates_step :: "remediator \<Rightarrow> string \<Rightarrow> manual_import_item step" where
  "candidates_step r sp s =
     flow_bind
       (sonarr_step r ''manual_import_candidates'' (''; staging_path='' @ sp)
          (manual_import_candidates (re_env r) (re_codec r) (re_client r) (staging_dir_of r)))
       (\<lambda>cs s.
          (case match_candidate sp cs of
             None \<Rightarrow>
               refuse r ''manual_import_candidates''
                 (''no candidate matched staged file '' @ path_name (mk_path sp) @ ''; staging_path='' @ sp) s
           | Some m \<Rightarrow>
               (Go m, log_step r ''manual_import_candidates'' True
                        (''matched candidate path='' @ mi_path m) s))) s"

definition import_payload :: "file_row \<Rightarrow> int set \<Rightarrow> manual_import_item \<Rightarrow> json" where
  "import_payload f ids m =
     JObj [(''path'', JStr (mi_path m)), (''seriesId'', JInt (f_series_id f)),
           (''episodeIds'', JList (map JInt (sorted_list_of_set ids))),
           (''quality'', mi_quality m), (''languages'', mi_languages m)]"

definition import_detail :: "episode list \<Rightarrow> string" where
  "import_detail eps =
     ''imported staged file as '' @ staged_label eps @ '' (episode ids '' @
     show_ints (sorted_list_of_set (set (map ep_id eps))) @ '')''"

definition import_step :: "remediator \<Rightarrow> episode list \<Rightarrow> string \<Rightarrow> manual_import_item \<Rightarrow> unit step" where
  "import_step r eps sp m s =
     flow_bind
       (sonarr_step r ''execute_manual_import'' (''; staging_path='' @ sp)
          (execute_manual_import (re_env r) (re_client r)
             [import_payload (rs_file s) (set (map ep_id eps)) m] ''move''))
       (\<lambda>_ s. (Go (), log_step r ''execute_manual_import'' True (import_detail eps) s)) s"

text \<open>From the deletion on: a dry run logs the import it would make.\<close>

definition import_tail :: "remediator \<Rightarrow> episode list \<Rightarrow> string \<Rightarrow> unit step" where
  "import_tail r eps sp s =
     (if re_dry_run r
      then settle_job r Remediated (log_step r ''manual_import'' True (import_detail eps) s)
      else
        flow_bind (candidates_step r sp) (\<lambda>m.
        flow_bind (import_step r eps sp m) (\<lambda>_.
        settle_job r Remediated)) s)"

text \<open>\<open>target_episodes[0]\<close> raises when there is no target.\<close>

definition stage_and_import :: "remediator \<Rightarrow> episode list \<Rightarrow> unit step" where
  "stage_and_import r eps s =
     (if eps = [] then (Fail IndexError, s)
      else
        (let sp = staged_path r eps (rs_file s)
         in flow_bind (hardlink_step r sp) (\<lambda>_.
            flow_bind
              (delete_step r (''; staging_path='' @ sp)
                 (''released the mislabelled file record from Sonarr (episode_file_id='' @
                  show_int (f_episode_file_id (rs_file s)) @ ''; file data preserved in staging)'')) (\<lambda>_.
            import_tail r eps sp)) s))"

definition remap_body :: "remediator \<Rightarrow> int set \<Rightarrow> unit step" where
  "remap_body r targets =
     flow_bind (interruption_guard r) (\<lambda>_.
     flow_bind (fetch_targets r targets) (\<lambda>eps.
     flow_bind (resolution_check r targets eps) (\<lambda>_.
     flow_bind (occupied_check r targets eps) (\<lambda>_.
     stage_and_import r eps))))"

definition remap :: "remediator \<Rightarrow> int \<Rightarrow> int set \<Rightarrow> world \<Rightarrow> unit res \<times> world" where
  "remap r job_id targets w =
     (case load_run r job_id w of
        Inl e \<Rightarrow> (Inl e, w)
      | Inr s \<Rightarrow> run_result (remap_body r targets s))"

end
