(* ===== verification/ClientSpec.thy ===== *)
theory ClientSpec
  imports SonarrClient
begin

text \<open>
  The Sonarr client: what a run adds to the trace, which errors a request can end in, what it keeps
  of the database and the file system, and the exact retry discipline.
\<close>

section \<open>What a run adds to the trace\<close>

definition new_events :: "(effect \<Rightarrow> bool) \<Rightarrow> world \<Rightarrow> world \<Rightarrow> bool" where
  "new_events E w w' \<longleftrightarrow> (\<exists>es. w_trace w' = w_trace w @ es \<and> list_all E es)"

lemma new_events_refl [simp]: "new_events E w w"
  by (simp add: new_events_def)

lemma new_events_same: "w_trace w' = w_trace w \<Longrightarrow> new_events E w w'"
  by (simp add: new_events_def)

lemma new_events_trans: "new_events E w w' \<Longrightarrow> new_events E w' w'' \<Longrightarrow> new_events E w w''"
  by (force simp: new_events_def)

lemma new_events_mono: "new_events E w w' \<Longrightarrow> (\<And>e. E e \<Longrightarrow> E' e) \<Longrightarrow> new_events E' w w'"
  by (auto simp: new_events_def list_all_iff)

definition event_of :: "request \<Rightarrow> effect \<Rightarrow> bool" where
  "event_of rq e \<longleftrightarrow> e = EHttp rq \<or> (\<exists>x. e = ESleep x)"

lemma http_send_events: "http_send env rq w = (a, w') \<Longrightarrow> new_events (event_of rq) w w'"
  by (auto simp: http_send_def Let_def new_events_def event_of_def)

lemma os_sleep_events: "new_events (event_of rq) w (os_sleep x w)"
  by (auto simp: os_sleep_def new_events_def event_of_def)

text \<open>The two recursive cases of the retry loop share one shape.\<close>

lemma sonarr_request_cases:
  assumes "sonarr_request env c rq a w = (r, w')"
  obtains (last) res where "http_send env rq w = (res, w')"
      "r = (case res of HttpTransportError m \<Rightarrow> Inl (TransportError m)
            | HttpResponse st b t \<Rightarrow> if st \<ge> 400 then Inl (SonarrError st t) else Inr b) \<or>
       (cn_backoff c = [] \<and> r = Inl IndexError)"
  | (again) res x w1 where "http_send env rq w = (res, w1)" "a < cn_max_retries c"
      "case res of HttpTransportError m \<Rightarrow> True | HttpResponse st b t \<Rightarrow> st \<ge> 500"
      "sonarr_request env c rq (a + 1) (os_sleep x w1) = (r, w')"
proof -
  obtain res w1 where s: "http_send env rq w = (res, w1)" by (cases "http_send env rq w")
  note e = assms [unfolded sonarr_request.simps [of env c rq a w] s Let_def prod.case]
  show thesis
  proof (cases res)
    case (HttpTransportError m)
    then show thesis using e s last again
      by (auto simp: backoff_delay_def split: if_splits sum.splits)
  next
    case (HttpResponse st b t)
    then show thesis using e s last again
      by (auto simp: backoff_delay_def split: if_splits sum.splits)
  qed
qed

lemma sonarr_request_events:
  "sonarr_request env c rq a w = (r, w') \<Longrightarrow> new_events (event_of rq) w w'"
proof (induction "nat (cn_max_retries c - a)" arbitrary: a w rule: less_induct)
  case less
  from less.prems show ?case
  proof (cases rule: sonarr_request_cases)
    case (last res)
    then show ?thesis by (simp add: http_send_events)
  next
    case (again res x w1)
    have "new_events (event_of rq) (os_sleep x w1) w'"
      by (rule less.hyps [OF _ again(4)]) (use again(2) in simp)
    then show ?thesis
      using http_send_events [OF again(1)] os_sleep_events [of rq w1 x] by (blast intro: new_events_trans)
  qed
qed

lemma sonarr_request_errors:
  "sonarr_request env c rq a w = (Inl e, w') \<Longrightarrow>
     (\<exists>st t. e = SonarrError st t \<and> st \<ge> 400) \<or> (\<exists>m. e = TransportError m) \<or>
     (e = IndexError \<and> cn_backoff c = [])"
proof (induction "nat (cn_max_retries c - a)" arbitrary: a w rule: less_induct)
  case less
  from less.prems show ?case
  proof (cases rule: sonarr_request_cases)
    case (last res)
    then show ?thesis by (cases res) (auto split: if_splits)
  next
    case (again res x w1)
    show ?thesis by (rule less.hyps [OF _ again(4)]) (use again(2) in simp)
  qed
qed

text \<open>What the other sessions keep is kept across a request.\<close>

lemma sonarr_request_db:
  assumes "\<And>tr d. I d \<Longrightarrow> I (en_db env tr d)"
  shows "sonarr_request env c rq a w = (r, w') \<Longrightarrow> I (w_db w) \<Longrightarrow> I (w_db w')"
proof (induction "nat (cn_max_retries c - a)" arbitrary: a w rule: less_induct)
  case less
  have send: "I (w_db w2)" if "http_send env rq w = (x, w2)" for x w2
    using that less.prems(2) assms by (auto simp: http_send_def Let_def)
  from less.prems(1) show ?case
  proof (cases rule: sonarr_request_cases)
    case (last res)
    then show ?thesis by (simp add: send)
  next
    case (again res x w1)
    have i: "I (w_db (os_sleep x w1))" using send [OF again(1)] by (simp add: os_sleep_def)
    show ?thesis by (rule less.hyps [OF _ again(4) i]) (use again(2) in simp)
  qed
qed

lemma sonarr_request_fs:
  assumes "\<And>tr d. I d \<Longrightarrow> I (en_fs env tr d)"
  shows "sonarr_request env c rq a w = (r, w') \<Longrightarrow> I (w_fs w) \<Longrightarrow> I (w_fs w')"
proof (induction "nat (cn_max_retries c - a)" arbitrary: a w rule: less_induct)
  case less
  have send: "I (w_fs w2)" if "http_send env rq w = (x, w2)" for x w2
    using that less.prems(2) assms by (auto simp: http_send_def Let_def)
  from less.prems(1) show ?case
  proof (cases rule: sonarr_request_cases)
    case (last res)
    then show ?thesis by (simp add: send)
  next
    case (again res x w1)
    have i: "I (w_fs (os_sleep x w1))" using send [OF again(1)] by (simp add: os_sleep_def)
    show ?thesis by (rule less.hyps [OF _ again(4) i]) (use again(2) in simp)
  qed
qed

lemma ask_answered:
  assumes "en_http env (w_trace w @ [EHttp rq]) rq = HttpResponse st b t" "st < 500"
  shows "ask env c rq w = (if st \<ge> 400 then Inl (SonarrError st t) else Inr b, snd (http_send env rq w))"
  using assms by (simp add: sonarr_request.simps [of env c rq 0 w] http_send_def Let_def)

section \<open>A calm environment\<close>

text \<open>No other session writes, nothing else touches the disk, no operation is refused; and a peer
  that answers every request.\<close>

definition calm :: "environ \<Rightarrow> bool" where
  "calm env \<longleftrightarrow> (\<forall>tr d. en_db env tr d = d) \<and> (\<forall>tr f. en_fs env tr f = f) \<and> (\<forall>tr op. en_fault env tr op = None)"

definition answers :: "environ \<Rightarrow> (request \<Rightarrow> json) \<Rightarrow> bool" where
  "answers env f \<longleftrightarrow> (\<forall>tr rq. \<exists>st t. en_http env tr rq = HttpResponse st (f rq) t \<and> st < 400)"

lemma ask_calm:
  assumes "calm env" "answers env f"
  shows "ask env c rq w = (Inr (f rq), w\<lparr>w_trace := w_trace w @ [EHttp rq]\<rparr>)"
proof -
  obtain st t where h: "en_http env (w_trace w @ [EHttp rq]) rq = HttpResponse st (f rq) t" "st < 400"
    using assms(2) unfolding answers_def by blast
  then have "st < 500" by simp
  from ask_answered [OF h(1) this] h(2) show ?thesis
    using assms(1) by (simp add: http_send_def Let_def calm_def)
qed

lemma os_calm: "calm env \<Longrightarrow> os_errno env op w = None \<Longrightarrow>
    os_call env op w = (Inr (), w\<lparr>w_trace := w_trace w @ [EOs op None], w_fs := os_apply op (w_fs w)\<rparr>)"
  by (simp add: os_call_def)

section \<open>Properties of one request\<close>

definition retryable :: "http_result \<Rightarrow> bool" where
  "retryable r = (case r of HttpTransportError m \<Rightarrow> True | HttpResponse st b t \<Rightarrow> st \<ge> 500)"

definition answer_of :: "http_result \<Rightarrow> json res" where
  "answer_of r =
     (case r of HttpTransportError m \<Rightarrow> Inl (TransportError m)
      | HttpResponse st b t \<Rightarrow> if st \<ge> 400 then Inl (SonarrError st t) else Inr b)"

text \<open>The trace a request may leave: retryable answers, each followed by a sleep, then the last.\<close>

fun request_trace ::
  "(effect list \<Rightarrow> request \<Rightarrow> http_result) \<Rightarrow> request \<Rightarrow> effect list \<Rightarrow> nat \<Rightarrow> effect list \<Rightarrow> json res \<Rightarrow> bool"
  where
  "request_trace peer rq tr n [EHttp q] r =
     (q = rq \<and> r = answer_of (peer (tr @ [EHttp rq]) rq) \<and>
      (n = 0 \<or> \<not> retryable (peer (tr @ [EHttp rq]) rq)))"
| "request_trace peer rq tr (Suc n) (EHttp q # ESleep x # es) r =
     (q = rq \<and> retryable (peer (tr @ [EHttp rq]) rq) \<and>
      request_trace peer rq (tr @ [EHttp rq, ESleep x]) n es r)"
| "request_trace peer rq tr n es r = False"

lemma request_trace_ok:
  assumes "cn_backoff c \<noteq> []" "sonarr_request env c rq a w = (r, w')"
  shows "\<exists>es. w_trace w' = w_trace w @ es \<and>
    request_trace (en_http env) rq (w_trace w) (nat (cn_max_retries c - a)) es r"
  using assms(2)
proof (induction "nat (cn_max_retries c - a)" arbitrary: a w rule: less_induct)
  case less
  obtain res w1 where s: "http_send env rq w = (res, w1)" by (cases "http_send env rq w")
  have res: "res = en_http env (w_trace w @ [EHttp rq]) rq" and tr: "w_trace w1 = w_trace w @ [EHttp rq]"
    using s by (auto simp: http_send_def Let_def)
  show ?case
  proof (cases "a < cn_max_retries c \<and> retryable res")
    case True
    obtain x where x: "backoff_delay c a = Inr x" using assms(1) by (simp add: backoff_delay_def)
    have "sonarr_request env c rq (a + 1) (os_sleep x w1) = (r, w')"
      using less.prems True x s
      by (auto simp: sonarr_request.simps [of env c rq a w] retryable_def split: http_result.splits if_splits)
    from less.hyps [OF _ this] True obtain es where
      es: "w_trace w' = w_trace w @ [EHttp rq, ESleep x] @ es"
      "request_trace (en_http env) rq (w_trace w @ [EHttp rq, ESleep x]) (nat (cn_max_retries c - (a + 1))) es r"
      by (auto simp: os_sleep_def tr)
    have "nat (cn_max_retries c - a) = Suc (nat (cn_max_retries c - (a + 1)))" using True by linarith
    with es res True show ?thesis by (intro exI [of _ "[EHttp rq, ESleep x] @ es"]) simp
  next
    case False
    have "w' = w1" "r = answer_of res"
      using less.prems False s
      by (auto simp: sonarr_request.simps [of env c rq a w] retryable_def answer_of_def
          split: http_result.splits if_splits)
    with False res tr show ?thesis by (intro exI [of _ "[EHttp rq]"]) auto
  qed
qed


lemma request_trace_sends:
  "request_trace peer rq tr n es r \<Longrightarrow> length (filter (\<lambda>e. e = EHttp rq) es) \<in> {1..Suc n}"
  by (induction peer rq tr n es r rule: request_trace.induct) auto

text \<open>A request is answered by its last HTTP exchange: every earlier exchange was a transport
  error or a 5xx answer and was followed by a back-off, a 4xx answer is never retried, a 5xx answer or
  a transport error is passed on only after the last of at most \<open>max_retries + 1\<close> exchanges, and
  a transport error stays one (it does not become a \<open>SonarrError\<close>).\<close>

theorem request_retries_exact:
  assumes "cn_backoff c \<noteq> []" "sonarr_request env c rq 0 w = (r, w')"
  shows "\<exists>es. w_trace w' = w_trace w @ es \<and>
    request_trace (en_http env) rq (w_trace w) (nat (cn_max_retries c)) es r \<and>
    length (filter (\<lambda>e. e = EHttp rq) es) \<in> {1..Suc (nat (cn_max_retries c))}"
  using request_trace_ok [OF assms] request_trace_sends by auto

text \<open>A peer that answers 503 first and 404 from then on: two exchanges, then the 404.\<close>

definition quiet_env :: "(effect list \<Rightarrow> request \<Rightarrow> http_result) \<Rightarrow> environ" where
  "quiet_env peer =
     \<lparr>en_http = peer, en_db = (\<lambda>_ d. d), en_fs = (\<lambda>_ f. f), en_now = (\<lambda>tr. int (length tr)),
      en_fault = (\<lambda>_ _. None), en_strerror = (\<lambda>_. ''error'')\<rparr>"

definition flaky_peer :: "effect list \<Rightarrow> request \<Rightarrow> http_result" where
  "flaky_peer tr rq = (if length tr < 2 then HttpResponse 503 JNull ''busy'' else HttpResponse 404 JNull ''gone'')"

definition empty_world :: "db \<Rightarrow> world" where
  "empty_world d = \<lparr>w_db = d, w_fs = (\<lambda>_. None), w_trace = []\<rparr>"

lemma request_retries_exact_witness:
  "\<forall>d. \<exists>r w'. sonarr_request (quiet_env flaky_peer) (default_client False) (GET_of ''/series'' []) 0
     (empty_world d) = (r, w') \<and> length (filter (\<lambda>e. e = EHttp (GET_of ''/series'' [])) (w_trace w')) \<le> 4"
proof
  fix d
  obtain r w' where q: "sonarr_request (quiet_env flaky_peer) (default_client False) (GET_of ''/series'' []) 0
      (empty_world d) = (r, w')" by (metis surj_pair)
  have "cn_backoff (default_client False) \<noteq> []" by (simp add: default_client_def DEFAULT_BACKOFF_def)
  from request_retries_exact [OF this q] q show "\<exists>r w'. sonarr_request (quiet_env flaky_peer) (default_client False)
      (GET_of ''/series'' []) 0 (empty_world d) = (r, w') \<and>
      length (filter (\<lambda>e. e = EHttp (GET_of ''/series'' [])) (w_trace w')) \<le> 4"
    by (auto simp: empty_world_def default_client_def)
qed

end
