(* ===== verification/JobSpec.thy ===== *)
theory JobSpec
  imports Jobs
begin

text \<open>
  The correctness of the job queue. First the shape all its writes share (a conditional update
  that takes effect exactly when the row satisfies the fence), then the queue as a step relation
  with its invariant and its transitions, then the lease as an interface (the locale
  \<open>lease_queue\<close>, interpreted on the code's \<open>release\<close>), the claim loop against
  interference, and the properties.
\<close>

section \<open>Conditional updates\<close>

definition jobs_wf :: "db \<Rightarrow> bool" where
  "jobs_wf d \<longleftrightarrow> distinct (map j_id (db_jobs d))"

definition status_of :: "db \<Rightarrow> int \<Rightarrow> job_status option" where
  "status_of d i = map_option j_status (get_job d i)"

definition holds_lease :: "db \<Rightarrow> int \<Rightarrow> string \<Rightarrow> bool" where
  "holds_lease d i w \<longleftrightarrow> (\<exists>j. get_job d i = Some j \<and> lease_held w j)"

text \<open>Updates that keep the key: all the code's updates.\<close>

definition keeps_id :: "(job_row \<Rightarrow> job_row) \<Rightarrow> bool" where
  "keeps_id f \<longleftrightarrow> (\<forall>j. j_id (f j) = j_id j)"

lemma keeps_id_simps [simp]:
  "keeps_id (leased s w now)" "keeps_id (unleased s)" "keeps_id (reap_one now)"
  "keeps_id (\<lambda>j. j\<lparr>j_status := s\<rparr>)" "keeps_id (\<lambda>j. j\<lparr>j_heartbeat_at := h\<rparr>)"
  "keeps_id (\<lambda>j. (unleased s j)\<lparr>j_attempts := a\<rparr>)"
  by (simp_all add: keeps_id_def leased_def unleased_def reap_one_def Let_def)

lemma lease_fields [simp]:
  "j_id (leased s w now j) = j_id j" "j_status (leased s w now j) = s"
  "j_claimed_by (leased s w now j) = Some w" "j_heartbeat_at (leased s w now j) = Some now"
  "j_claimed_at (leased s w now j) = Some now" "j_attempts (leased s w now j) = j_attempts j"
  "j_created_at (leased s w now j) = j_created_at j"
  "j_id (unleased s j) = j_id j" "j_status (unleased s j) = s" "j_claimed_by (unleased s j) = None"
  "j_heartbeat_at (unleased s j) = None" "j_claimed_at (unleased s j) = None"
  "j_attempts (unleased s j) = j_attempts j" "j_created_at (unleased s j) = j_created_at j"
  by (simp_all add: leased_def unleased_def)

lemma update_job_get:
  assumes "keeps_id f" "update_job i P f now d = (n, d')"
  shows "get_job d' k =
    map_option (\<lambda>j. if j_id j = i \<and> P j then (f j)\<lparr>j_updated_at := now\<rparr> else j) (get_job d k)"
  using assms by (auto simp: update_job_def get_job_def keeps_id_def get_row_update)

lemma update_job_wf:
  assumes "keeps_id f" "update_job i P f now d = (n, d')"
  shows "jobs_wf d' \<longleftrightarrow> jobs_wf d"
proof -
  have "map j_id (db_jobs d') = map j_id (db_jobs d)"
    using assms by (auto simp: update_job_def keeps_id_def intro!: update_where_keys)
  then show ?thesis by (simp add: jobs_wf_def)
qed

lemma update_job_count:
  assumes "jobs_wf d" "update_job i P f now d = (n, d')"
  shows "n = (case get_job d i of None \<Rightarrow> 0 | Some j \<Rightarrow> if P j then 1 else 0)"
  using assms rowcount_key [of j_id "db_jobs d" i P]
  by (auto simp: update_job_def jobs_wf_def get_job_def)

lemma get_job_id: "get_job d i = Some j \<Longrightarrow> j_id j = i"
  by (auto simp: get_job_def dest: get_row_Some)

lemma get_job_mem: "get_job d i = Some j \<Longrightarrow> j \<in> set (db_jobs d)"
  by (auto simp: get_job_def dest: get_row_Some)

lemma mem_get_job: "jobs_wf d \<Longrightarrow> j \<in> set (db_jobs d) \<Longrightarrow> get_job d (j_id j) = Some j"
  by (simp add: jobs_wf_def get_job_def get_row_unique)

text \<open>One shape for every fenced write: it succeeds exactly when the row satisfies the fence.\<close>

lemma fenced_update:
  assumes "jobs_wf d" "keeps_id f" "update_job i P f now d = (n, d')"
  shows "n = 0 \<longleftrightarrow> \<not> (\<exists>j. get_job d i = Some j \<and> P j)"
    and "n \<noteq> 0 \<Longrightarrow> \<exists>j. get_job d i = Some j \<and> P j \<and>
           get_job d' i = Some ((f j)\<lparr>j_updated_at := now\<rparr>)"
    and "k \<noteq> i \<Longrightarrow> get_job d' k = get_job d k"
proof -
  note c = update_job_count [OF assms(1,3)] and g = update_job_get [OF assms(2,3)]
  show n: "n = 0 \<longleftrightarrow> \<not> (\<exists>j. get_job d i = Some j \<and> P j)"
    using c by (auto split: option.splits)
  show "n \<noteq> 0 \<Longrightarrow> \<exists>j. get_job d i = Some j \<and> P j \<and>
           get_job d' i = Some ((f j)\<lparr>j_updated_at := now\<rparr>)"
    using n g [of i] by (auto dest: get_job_id)
  show "k \<noteq> i \<Longrightarrow> get_job d' k = get_job d k"
    using g [of k] by (cases "get_job d k") (auto dest: get_job_id)
qed

lemma update_job_frame:
  "update_job i P f now d = (n, d') \<Longrightarrow> d' = d\<lparr>db_jobs := db_jobs d'\<rparr>"
  by (auto simp: update_job_def)

text \<open>Every operation as its fence and its write; the elimination rules of the queue.\<close>

lemma release_Inr:
  "release d job s w now = Inr (job', d') \<longleftrightarrow>
     s \<in> VALID_TRANSITIONS (j_status job) \<and> job' = unleased s job \<and>
     (\<exists>n. n \<noteq> 0 \<and> update_job (j_id job) (lease_held w) (unleased s) now d = (n, d'))"
  by (auto simp: release_def check_transition_def split: prod.splits if_splits)

lemma heartbeat_Inr:
  "heartbeat d job w now = Inr (job', d') \<longleftrightarrow>
     job' = job\<lparr>j_heartbeat_at := Some now\<rparr> \<and>
     (\<exists>n. n \<noteq> 0 \<and> update_job (j_id job) (lease_held w) (\<lambda>j. j\<lparr>j_heartbeat_at := Some now\<rparr>) now d = (n, d'))"
  by (auto simp: heartbeat_def split: prod.splits if_splits)

lemma park_Inr:
  "park d job now = Inr (job', d') \<longleftrightarrow>
     Hold \<in> VALID_TRANSITIONS (j_status job) \<and> job' = job\<lparr>j_status := Hold\<rparr> \<and>
     (\<exists>n. n \<noteq> 0 \<and> update_job (j_id job) (\<lambda>j. j_status j = Pending) (\<lambda>j. j\<lparr>j_status := Hold\<rparr>) now d = (n, d'))"
  by (auto simp: park_def check_transition_def split: prod.splits if_splits)

lemma unpark_Inr:
  "unpark d job now = Inr (job', d') \<longleftrightarrow>
     Pending \<in> VALID_TRANSITIONS (j_status job) \<and> job' = job\<lparr>j_status := Pending\<rparr> \<and>
     (\<exists>n. n \<noteq> 0 \<and> update_job (j_id job) (\<lambda>j. j_status j = Hold) (\<lambda>j. j\<lparr>j_status := Pending\<rparr>) now d = (n, d'))"
  by (auto simp: unpark_def check_transition_def split: prod.splits if_splits)

lemma requeue_Inr:
  "requeue d job now = Inr (job', d') \<longleftrightarrow>
     Pending \<in> VALID_TRANSITIONS (j_status job) \<and> job' = (unleased Pending job)\<lparr>j_attempts := 0\<rparr> \<and>
     (\<exists>n. n \<noteq> 0 \<and> update_job (j_id job) (\<lambda>j. j_status j = j_status job)
        (\<lambda>j. (unleased Pending j)\<lparr>j_attempts := 0\<rparr>) now d = (n, d'))"
  by (auto simp: requeue_def check_transition_def split: prod.splits if_splits)

lemma claim_for_api_Inr:
  "claim_for_api d job w fs now = Inr (job', d') \<longleftrightarrow>
     Active \<in> VALID_TRANSITIONS (j_status job) \<and> job' = leased Active w now job \<and>
     (\<exists>n. n \<noteq> 0 \<and> update_job (j_id job) (\<lambda>j. j_status j \<in> fs) (leased Active w now) now d = (n, d'))"
  by (auto simp: claim_for_api_def check_transition_def split: prod.splits if_splits)

lemma set_status_checked_Inr:
  "set_status_checked d job s e now = Inr (job', d') \<longleftrightarrow>
     s \<in> VALID_TRANSITIONS e \<and> job' = job\<lparr>j_status := s\<rparr> \<and>
     (\<exists>n. n \<noteq> 0 \<and> update_job (j_id job) (\<lambda>j. j_status j = e) (\<lambda>j. j\<lparr>j_status := s\<rparr>) now d = (n, d'))"
  by (auto simp: set_status_checked_def check_transition_def split: prod.splits if_splits)

lemmas queue_Inrs = release_Inr heartbeat_Inr park_Inr unpark_Inr requeue_Inr claim_for_api_Inr
  set_status_checked_Inr

section \<open>The queue as a step relation\<close>

definition REVIEW_STATUSES :: "job_status set" where
  "REVIEW_STATUSES = {Quarantine, Inconclusive}"

text \<open>
  One step is one committed write by any worker or API request. In-memory job objects are
  arbitrary (they may be stale); the target and source statuses are those the callers pass.
\<close>

inductive queue_step :: "db \<Rightarrow> db \<Rightarrow> bool" where
  create: "create_job d file_id parked now = (j, d') \<Longrightarrow> queue_step d d'"
| claim: "update_job i (\<lambda>j. j_status j = Pending) (leased Active w now) now d = (n, d') \<Longrightarrow> queue_step d d'"
| beat: "heartbeat d job w now = Inr (job', d') \<Longrightarrow> queue_step d d'"
| release: "release d job s w now = Inr (job', d') \<Longrightarrow> s \<in> insert Pending TERMINAL_STATUSES
    \<Longrightarrow> queue_step d d'"
| reap: "reap_stale d timeout now = (n, d') \<Longrightarrow> queue_step d d'"
| park: "park d job now = Inr (job', d') \<Longrightarrow> queue_step d d'"
| unpark: "unpark d job now = Inr (job', d') \<Longrightarrow> queue_step d d'"
| requeue: "requeue d job now = Inr (job', d') \<Longrightarrow> queue_step d d'"
| api_claim: "claim_for_api d job w fs now = Inr (job', d') \<Longrightarrow> fs \<subseteq> REVIEW_STATUSES \<Longrightarrow> queue_step d d'"
| verdict: "set_status_checked d job s e now = Inr (job', d') \<Longrightarrow> e \<in> REVIEW_STATUSES
    \<Longrightarrow> s \<in> insert Matched REVIEW_STATUSES \<Longrightarrow> queue_step d d'"

text \<open>
  The row-level reading: a step creates one row, or maps every row by a function that keeps its
  key, is the identity on the rows it does not select, and is one of the code's writes on the
  rows it does.
\<close>

inductive row_write :: "job_row \<Rightarrow> job_row \<Rightarrow> bool" where
  w_same: "row_write j j"
| w_claim: "j_status j = Pending \<Longrightarrow> row_write j ((leased Active w now j)\<lparr>j_updated_at := now\<rparr>)"
| w_beat: "lease_held w j \<Longrightarrow> row_write j (j\<lparr>j_heartbeat_at := Some now, j_updated_at := now\<rparr>)"
| w_release: "lease_held w j \<Longrightarrow> s \<in> insert Pending TERMINAL_STATUSES \<Longrightarrow>
    row_write j ((unleased s j)\<lparr>j_updated_at := now\<rparr>)"
| w_reap: "stale cutoff j \<Longrightarrow> row_write j (reap_one now j)"
| w_park: "j_status j = Pending \<Longrightarrow> row_write j (j\<lparr>j_status := Hold, j_updated_at := now\<rparr>)"
| w_unpark: "j_status j = Hold \<Longrightarrow> row_write j (j\<lparr>j_status := Pending, j_updated_at := now\<rparr>)"
| w_requeue: "Pending \<in> VALID_TRANSITIONS (j_status j) \<Longrightarrow>
    row_write j ((unleased Pending j)\<lparr>j_attempts := 0, j_updated_at := now\<rparr>)"
| w_api: "j_status j \<in> REVIEW_STATUSES \<Longrightarrow>
    row_write j ((leased Active w now j)\<lparr>j_updated_at := now\<rparr>)"
| w_verdict: "j_status j \<in> REVIEW_STATUSES \<Longrightarrow> s \<in> insert Matched REVIEW_STATUSES \<Longrightarrow>
    row_write j (j\<lparr>j_status := s, j_updated_at := now\<rparr>)"

lemma update_job_rows:
  assumes "update_job i P f now d = (n, d')" "\<And>j. P j \<Longrightarrow> row_write j ((f j)\<lparr>j_updated_at := now\<rparr>)"
  shows "list_all2 row_write (db_jobs d) (db_jobs d')"
  using assms by (auto simp: update_job_def update_where_def list.rel_map list_all2_same w_same
      intro!: list.rel_refl_strong)

lemma queue_step_rows:
  assumes "queue_step d d'"
  shows "list_all2 row_write (db_jobs d) (db_jobs d') \<or>
    (\<exists>j. db_jobs d' = db_jobs d @ [j] \<and> j_id j \<notin> j_id ` set (db_jobs d) \<and>
       j_status j \<in> {Hold, Pending} \<and> j_claimed_by j = None \<and> j_claimed_at j = None \<and>
       j_heartbeat_at j = None \<and> j_attempts j = 0)"
  using assms
proof cases
  case (create file_id parked now j)
  then show ?thesis
    using fresh_id_notin [of "map j_id (db_jobs d)"]
    by (auto simp: create_job_def new_job_def Let_def)
next
  case (claim i w now n)
  then show ?thesis by (blast intro: update_job_rows w_claim)
next
  case (beat job w now job')
  then show ?thesis
    by (auto simp: queue_Inrs intro!: disjI1 update_job_rows [where f = "\<lambda>j. j\<lparr>j_heartbeat_at := Some now\<rparr>"]
        intro: w_beat)
next
  case (release job s w now job')
  then show ?thesis by (auto simp: queue_Inrs intro!: disjI1 elim!: update_job_rows intro: w_release)
next
  case (reap timeout now n)
  then show ?thesis
    by (auto simp: reap_stale_def update_where_def list.rel_map w_same
        intro!: disjI1 list.rel_refl_strong intro: w_reap)
next
  case (park job now job')
  then show ?thesis by (auto simp: queue_Inrs intro!: disjI1 elim!: update_job_rows intro: w_park)
next
  case (unpark job now job')
  then show ?thesis by (auto simp: queue_Inrs intro!: disjI1 elim!: update_job_rows intro: w_unpark)
next
  case (requeue job now job')
  then show ?thesis
    by (auto simp: queue_Inrs intro!: disjI1 elim!: update_job_rows intro: w_requeue)
next
  case (api_claim job w fs now job')
  then show ?thesis
    by (auto simp: queue_Inrs intro!: disjI1 elim!: update_job_rows intro: w_api)
next
  case (verdict job s e now job')
  then show ?thesis
    by (auto simp: queue_Inrs intro!: disjI1 elim!: update_job_rows intro: w_verdict)
qed

section \<open>The invariant of the queue\<close>

definition lease_clear :: "job_row \<Rightarrow> bool" where
  "lease_clear j \<longleftrightarrow> j_claimed_by j = None \<and> j_claimed_at j = None \<and> j_heartbeat_at j = None"

definition lease_full :: "job_row \<Rightarrow> bool" where
  "lease_full j \<longleftrightarrow> j_claimed_by j \<noteq> None \<and> j_claimed_at j \<noteq> None \<and> j_heartbeat_at j \<noteq> None"

definition job_inv :: "job_row \<Rightarrow> bool" where
  "job_inv j \<longleftrightarrow>
     (if j_status j = Active then lease_full j else lease_clear j) \<and>
     0 \<le> j_attempts j \<and>
     j_attempts j \<le> (if j_status j = Errored then MAX_ATTEMPTS + 1 else MAX_ATTEMPTS)"

definition queue_inv :: "db \<Rightarrow> bool" where
  "queue_inv d \<longleftrightarrow> jobs_wf d \<and> list_all job_inv (db_jobs d)"

inductive queue_reachable :: "db \<Rightarrow> bool" where
  start: "db_jobs d = [] \<Longrightarrow> queue_reachable d"
| step: "queue_reachable d \<Longrightarrow> queue_step d d' \<Longrightarrow> queue_reachable d'"
| other: "queue_reachable d \<Longrightarrow> db_jobs d' = db_jobs d \<Longrightarrow> queue_reachable d'"

lemmas job_inv_simps = job_inv_def lease_clear_def lease_full_def MAX_ATTEMPTS_def

lemma row_write_inv:
  assumes "row_write j j'" "job_inv j"
  shows "job_inv j'"
  using assms
proof cases
  case (w_reap cutoff now)
  then show ?thesis using assms(2)
    by (auto simp: job_inv_simps stale_def reap_one_def Let_def)
next
  case (w_verdict s now)
  then show ?thesis using assms(2) by (auto simp: job_inv_simps REVIEW_STATUSES_def)
qed (auto simp: job_inv_simps lease_held_def TERMINAL_STATUSES_def REVIEW_STATUSES_def
      split: if_splits)

lemma row_write_id:
  assumes "row_write j j'"
  shows "j_id j' = j_id j" "j_file_id j' = j_file_id j" "j_created_at j' = j_created_at j"
  using assms
  by (cases; simp add: leased_def unleased_def reap_one_def Let_def)+

lemma row_write_transition:
  assumes "row_write j j'"
  shows "j_status j' = j_status j \<or> j_status j' \<in> VALID_TRANSITIONS (j_status j)"
  using assms
  by cases (auto simp: lease_held_def stale_def reap_one_def Let_def REVIEW_STATUSES_def
      TERMINAL_STATUSES_def)

lemma list_all2_map_eq: "list_all2 R xs ys \<Longrightarrow> (\<And>x y. R x y \<Longrightarrow> f x = f y) \<Longrightarrow> map f xs = map f ys"
  by (induction rule: list_all2_induct) auto

lemma queue_step_inv:
  assumes "queue_step d d'" "queue_inv d"
  shows "queue_inv d'"
  using queue_step_rows [OF assms(1)]
proof
  assume r: "list_all2 row_write (db_jobs d) (db_jobs d')"
  then have "map j_id (db_jobs d) = map j_id (db_jobs d')"
    by (rule list_all2_map_eq) (simp add: row_write_id)
  moreover from assms(2) have "list_all job_inv (db_jobs d)" by (simp add: queue_inv_def)
  with r have "list_all job_inv (db_jobs d')"
    by (induction rule: list_all2_induct) (auto intro: row_write_inv)
  ultimately show ?thesis using assms(2) by (simp add: queue_inv_def jobs_wf_def)
next
  assume "\<exists>j. db_jobs d' = db_jobs d @ [j] \<and> j_id j \<notin> j_id ` set (db_jobs d) \<and>
       j_status j \<in> {Hold, Pending} \<and> j_claimed_by j = None \<and> j_claimed_at j = None \<and>
       j_heartbeat_at j = None \<and> j_attempts j = 0"
  then show ?thesis using assms(2)
    by (auto simp: queue_inv_def jobs_wf_def job_inv_simps)
qed

lemma queue_invariant: "queue_reachable d \<Longrightarrow> queue_inv d"
proof (induction rule: queue_reachable.induct)
  case (start d)
  then show ?case by (simp add: queue_inv_def jobs_wf_def)
next
  case (step d d')
  then show ?case by (simp add: queue_step_inv)
next
  case (other d d')
  then show ?case by (simp add: queue_inv_def jobs_wf_def)
qed

lemma queue_step_row:
  assumes "queue_step d d'" "get_job d i = Some j"
  shows "\<exists>j'. get_job d' i = Some j' \<and> row_write j j'"
  using queue_step_rows [OF assms(1)]
proof
  assume "list_all2 row_write (db_jobs d) (db_jobs d')"
  moreover have "get_row j_id i xs = Some j \<Longrightarrow> \<exists>j'. get_row j_id i ys = Some j' \<and> row_write j j'"
    if "list_all2 row_write xs ys" for xs ys
    using that by (induction rule: list_all2_induct)
      (auto simp: get_row_def row_write_id split: if_splits)
  ultimately show ?thesis using assms(2) by (simp add: get_job_def)
next
  have *: "find P (xs @ ys) = Some x" if "find P xs = Some x" for P and xs ys :: "job_row list" and x
    using that by (induction xs) (auto split: if_splits)
  assume "\<exists>j. db_jobs d' = db_jobs d @ [j] \<and> j_id j \<notin> j_id ` set (db_jobs d) \<and>
       j_status j \<in> {Hold, Pending} \<and> j_claimed_by j = None \<and> j_claimed_at j = None \<and>
       j_heartbeat_at j = None \<and> j_attempts j = 0"
  then show ?thesis using assms(2) by (auto simp: get_job_def get_row_def * intro: w_same)
qed

section \<open>The lease as an interface\<close>

text \<open>
  What a worker or an API handler relies on: a settle succeeds exactly for the lease holder,
  ends the lease, and leaves every other job alone.
\<close>

locale lease_queue =
  fixes invar :: "'s \<Rightarrow> bool"
    and held :: "'s \<Rightarrow> 'k \<Rightarrow> 'w \<Rightarrow> bool"
    and state :: "'s \<Rightarrow> 'k \<Rightarrow> 'st option"
    and legal :: "'st \<Rightarrow> bool"
    and rel :: "'s \<Rightarrow> 'k \<Rightarrow> 'st \<Rightarrow> 'w \<Rightarrow> 't \<Rightarrow> 's option"
  assumes rel_iff: "invar s \<Longrightarrow> (\<exists>s'. rel s k st w t = Some s') \<longleftrightarrow> held s k w \<and> legal st"
    and rel_invar: "invar s \<Longrightarrow> rel s k st w t = Some s' \<Longrightarrow> invar s'"
    and rel_state: "invar s \<Longrightarrow> rel s k st w t = Some s' \<Longrightarrow> state s' k = Some st"
    and rel_ends: "invar s \<Longrightarrow> rel s k st w t = Some s' \<Longrightarrow> \<not> held s' k w'"
    and rel_frame: "invar s \<Longrightarrow> rel s k st w t = Some s' \<Longrightarrow> k' \<noteq> k \<Longrightarrow>
          state s' k' = state s k' \<and> held s' k' w' = held s k' w'"
    and held_unique: "invar s \<Longrightarrow> held s k w \<Longrightarrow> held s k w' \<Longrightarrow> w' = w"
begin

lemma settles_once:
  assumes "invar s" "rel s k st w t = Some s'"
  shows "rel s' k st' w' t' = None"
  using rel_iff [OF rel_invar [OF assms], of k st' w' t'] rel_ends [OF assms, of w']
  by (cases "rel s' k st' w' t'") auto

lemma only_holder_settles:
  assumes "invar s" "held s k w" "w' \<noteq> w"
  shows "rel s k st w' t = None"
  using rel_iff [of s k st w' t] held_unique [of s k w w'] assms
  by (cases "rel s k st w' t") auto

lemma unheld_settle_fails: "invar s \<Longrightarrow> \<not> held s k w \<Longrightarrow> rel s k st w t = None"
  using rel_iff [of s k st w t] by (cases "rel s k st w t") auto

text \<open>Settling two different jobs commutes in what the two statuses become.\<close>

lemma settles_independent:
  assumes "invar s" "rel s k st w t = Some s1" "held s k' w'" "legal st'" "k' \<noteq> k"
  obtains s2 where "rel s1 k' st' w' t' = Some s2" "state s2 k = Some st" "state s2 k' = Some st'"
proof -
  have i1: "invar s1" using assms(1,2) by (rule rel_invar)
  have "held s1 k' w'" using rel_frame [OF assms(1,2,5)] assms(3) by blast
  with rel_iff [OF i1, of k' st' w' t'] assms(4) obtain s2 where s2: "rel s1 k' st' w' t' = Some s2" by blast
  moreover have "state s2 k = Some st"
    using rel_frame [OF i1 s2] rel_state [OF assms(1,2)] assms(5) by metis
  moreover have "state s2 k' = Some st'" by (rule rel_state [OF i1 s2])
  ultimately show thesis by (rule that)
qed

end

text \<open>The code's release as such a settle: its database effect depends on the in-memory job's key only.\<close>

definition settle :: "db \<Rightarrow> int \<Rightarrow> job_status \<Rightarrow> string \<Rightarrow> datetime \<Rightarrow> db option" where
  "settle d i s w now =
     (case release d (new_job i 0 Active now) s w now of Inl _ \<Rightarrow> None | Inr (_, d') \<Rightarrow> Some d')"

lemma settle_Some:
  "settle d i s w now = Some d' \<longleftrightarrow>
     s \<in> VALID_TRANSITIONS Active \<and>
     (\<exists>n. n \<noteq> 0 \<and> update_job i (lease_held w) (unleased s) now d = (n, d'))"
  by (auto simp: settle_def release_def check_transition_def new_job_def Let_def
      split: sum.splits prod.splits if_splits)

lemma release_settle:
  "j_status job = Active \<Longrightarrow>
     release d job s w now = Inr (job', d') \<longleftrightarrow>
       settle d (j_id job) s w now = Some d' \<and> job' = unleased s job"
  by (auto simp: release_Inr settle_Some)

lemma release_cases:
  "j_status job = Active \<Longrightarrow> s \<in> VALID_TRANSITIONS Active \<Longrightarrow>
     release d job s w now =
       (case settle d (j_id job) s w now of None \<Rightarrow> Inl LeaseLost | Some d' \<Rightarrow> Inr (unleased s job, d'))"
  by (auto simp: settle_def release_def check_transition_def new_job_def Let_def split: prod.splits)

lemma settle_facts:
  assumes "jobs_wf d" "settle d i s w now = Some d'"
  shows "jobs_wf d'" "status_of d' i = Some s" "\<not> holds_lease d' i w'"
    and "k \<noteq> i \<Longrightarrow> get_job d' k = get_job d k" "holds_lease d i w"
proof -
  obtain n where n: "n \<noteq> 0" "update_job i (lease_held w) (unleased s) now d = (n, d')"
    and s: "s \<in> VALID_TRANSITIONS Active"
    using assms(2) by (auto simp: settle_Some)
  note f = fenced_update [OF assms(1) keeps_id_simps(2) n(2)]
  show "jobs_wf d'" using update_job_wf [OF _ n(2)] assms(1) by simp
  show "status_of d' i = Some s" using f(2) n(1) by (auto simp: status_of_def)
  show "\<not> holds_lease d' i w'" using f(2) n(1) by (auto simp: holds_lease_def lease_held_def)
  show "k \<noteq> i \<Longrightarrow> get_job d' k = get_job d k" by (rule f(3))
  show "holds_lease d i w" using f(2) n(1) by (auto simp: holds_lease_def)
qed

lemma settle_iff:
  assumes "jobs_wf d"
  shows "(\<exists>d'. settle d i s w now = Some d') \<longleftrightarrow> holds_lease d i w \<and> s \<in> VALID_TRANSITIONS Active"
proof -
  obtain n d' where u: "update_job i (lease_held w) (unleased s) now d = (n, d')" by (cases "update_job i (lease_held w) (unleased s) now d")
  show ?thesis
    using fenced_update(1) [OF assms keeps_id_simps(2) u] u
    by (auto simp: settle_Some holds_lease_def)
qed

interpretation jobs_lease: lease_queue jobs_wf holds_lease status_of
  "\<lambda>s. s \<in> VALID_TRANSITIONS Active" settle
proof (unfold_locales, goal_cases)
  case (1 s k st w t)
  then show ?case by (rule settle_iff)
next
  case (2 s k st w t s')
  then show ?case by (rule settle_facts(1))
next
  case (3 s k st w t s')
  then show ?case by (rule settle_facts(2))
next
  case (4 s k st w t s' w')
  then show ?case by (rule settle_facts(3))
next
  case (5 s k st w t s' k' w')
  then have "get_job s' k' = get_job s k'" by (metis settle_facts(4))
  then show ?case by (simp add: status_of_def holds_lease_def)
next
  case (6 s k w w')
  then show ?case by (auto simp: holds_lease_def lease_held_def)
qed

section \<open>Claiming\<close>

lemma oldest_pending_None: "oldest_pending d = None \<longleftrightarrow> (\<forall>j \<in> set (db_jobs d). j_status j \<noteq> Pending)"
proof -
  have "oldest_pending d = None \<longleftrightarrow> filter (\<lambda>j. j_status j = Pending) (db_jobs d) = []"
    unfolding oldest_pending_def
    by (metis (no_types, lifting) list.case_eq_if option.distinct(1) set_empty set_sort)
  then show ?thesis by (simp add: filter_empty_conv)
qed

lemma oldest_pending_Some:
  assumes "oldest_pending d = Some j"
  shows "j \<in> set (db_jobs d)" "j_status j = Pending"
    and "\<forall>k \<in> set (db_jobs d). j_status k = Pending \<longrightarrow> (j_created_at j, j_id j) \<le> (j_created_at k, j_id k)"
proof -
  let ?k = "\<lambda>j. (j_created_at j, j_id j)" and ?P = "filter (\<lambda>j. j_status j = Pending) (db_jobs d)"
  obtain js where js: "sort_key ?k ?P = j # js"
    using assms by (auto simp: oldest_pending_def split: list.splits)
  have set: "set ?P = insert j (set js)" using js by (metis list.simps(15) set_sort)
  then show "j \<in> set (db_jobs d)" "j_status j = Pending" by auto
  have "sorted (map ?k (j # js))" using js by (metis sorted_sort_key)
  then have "\<forall>k \<in> insert j (set js). ?k j \<le> ?k k" by auto
  then show "\<forall>k \<in> set (db_jobs d). j_status k = Pending \<longrightarrow> ?k j \<le> ?k k"
    unfolding set [symmetric] by auto
qed

text \<open>The four ways one turn of the claim loop ends.\<close>

lemma claim_attempt_None: "oldest_pending d = None \<Longrightarrow> claim_attempt env d w now = Inr (NoPending, d)"
  by (simp add: claim_attempt_def)

lemma claim_attempt_won:
  assumes "oldest_pending d = Some j" "jobs_wf (env d)" "status_of (env d) (j_id j) = Some Pending"
  obtains n d2 where "update_job (j_id j) (\<lambda>j. j_status j = Pending) (leased Active w now) now (env d) = (n, d2)"
    "n \<noteq> 0" "claim_attempt env d w now = Inr (Claimed (leased Active w now j), d2)"
proof -
  obtain n d2 where u: "update_job (j_id j) (\<lambda>j. j_status j = Pending) (leased Active w now) now (env d) = (n, d2)"
    by (cases "update_job (j_id j) (\<lambda>j. j_status j = Pending) (leased Active w now) now (env d)")
  have "n = 1" using update_job_count [OF assms(2) u] assms(3) by (auto simp: status_of_def)
  moreover have "j_status j = Pending" using oldest_pending_Some(2) [OF assms(1)] .
  ultimately have "claim_attempt env d w now = Inr (Claimed (leased Active w now j), d2)"
    using assms(1) u by (simp add: claim_attempt_def check_transition_def)
  with u \<open>n = 1\<close> show thesis by (intro that) auto
qed

lemma claim_attempt_lost:
  assumes "oldest_pending d = Some j" "jobs_wf (env d)" "status_of (env d) (j_id j) \<noteq> Some Pending"
  shows "claim_attempt env d w now = Inr (LostRace, env d)"
proof -
  obtain n d2 where u: "update_job (j_id j) (\<lambda>j. j_status j = Pending) (leased Active w now) now (env d) = (n, d2)"
    by (cases "update_job (j_id j) (\<lambda>j. j_status j = Pending) (leased Active w now) now (env d)")
  have "n = 0" using update_job_count [OF assms(2) u] assms(3)
    by (auto simp: status_of_def split: option.splits)
  moreover have "j_status j = Pending" using oldest_pending_Some(2) [OF assms(1)] .
  ultimately show ?thesis using assms(1) u by (simp add: claim_attempt_def check_transition_def)
qed

lemma claim_won_facts:
  assumes "jobs_wf d" "update_job i (\<lambda>j. j_status j = Pending) (leased Active w now) now d = (n, d')" "n \<noteq> 0"
  shows "jobs_wf d'" "holds_lease d' i w" "k \<noteq> i \<Longrightarrow> get_job d' k = get_job d k"
  using fenced_update [OF assms(1) keeps_id_simps(1) assms(2)] update_job_wf [OF _ assms(2)] assms(1,3)
  by (auto simp: holds_lease_def lease_held_def)

text \<open>What a returning claim has established.\<close>

definition claim_outcome :: "string \<Rightarrow> job_row option \<times> db \<Rightarrow> bool" where
  "claim_outcome w r =
     (case r of
        (None, d') \<Rightarrow> list_all (\<lambda>j. j_status j \<noteq> Pending) (db_jobs d')
      | (Some j, d') \<Rightarrow> j_status j = Active \<and> j_claimed_by j = Some w \<and> holds_lease d' (j_id j) w)"

lemma claim_attempt_cases:
  assumes "jobs_wf d" "jobs_wf (env d)"
  obtains (none) "claim_attempt env d w now = Inr (NoPending, d)" "claim_outcome w (None, d)"
    | (won) j d2 where "claim_attempt env d w now = Inr (Claimed j, d2)" "claim_outcome w (Some j, d2)"
    | (lost) "claim_attempt env d w now = Inr (LostRace, env d)" "env d \<noteq> d"
proof (cases "oldest_pending d")
  case None
  with none show ?thesis
    by (simp add: claim_attempt_None claim_outcome_def oldest_pending_None list_all_iff)
next
  case (Some j)
  show ?thesis
  proof (cases "status_of (env d) (j_id j) = Some Pending")
    case True
    from claim_attempt_won [of d j env w now, OF Some assms(2) True] obtain n d2
      where u: "update_job (j_id j) (\<lambda>j. j_status j = Pending) (leased Active w now) now (env d) = (n, d2)"
        "n \<noteq> 0" and c: "claim_attempt env d w now = Inr (Claimed (leased Active w now j), d2)" .
    from claim_won_facts(2) [OF assms(2) u] c won show ?thesis by (simp add: claim_outcome_def)
  next
    case False
    have "status_of d (j_id j) = Some Pending"
      using oldest_pending_Some [OF Some] mem_get_job [OF assms(1)] by (simp add: status_of_def)
    with False have "env d \<noteq> d" by metis
    with claim_attempt_lost [of d j env w now, OF Some assms(2) False] lost show ?thesis by blast
  qed
qed

lemma claim_next_returns:
  assumes "jobs_wf d" "\<And>n d. jobs_wf d \<Longrightarrow> jobs_wf (env n d)" "\<And>n d. k + m \<le> n \<Longrightarrow> env n d = d"
  shows "\<exists>r. claim_next env clock k d w = Some (Inr r) \<and> claim_outcome w r"
  using assms(1,3)
proof (induction m arbitrary: k d)
  case (0 k d)
  have "jobs_wf (env k d)" "env k d = d" using 0 assms(2) by auto
  with 0(1) show ?case
    by (cases rule: claim_attempt_cases [of d "env k" w "clock k"]) (auto simp: claim_next.simps [of env clock k d w])
next
  case (Suc m k d)
  have "jobs_wf (env k d)" using Suc.prems(1) by (rule assms(2))
  with Suc.prems(1) show ?case
  proof (cases rule: claim_attempt_cases [of d "env k" w "clock k"])
    case lost
    have "\<exists>r. claim_next env clock (Suc k) (env k d) w = Some (Inr r) \<and> claim_outcome w r"
      by (rule Suc.IH) (use Suc.prems assms(2) in auto)
    with lost show ?thesis by (simp add: claim_next.simps [of env clock k d w])
  qed (auto simp: claim_next.simps [of env clock k d w])
qed

section \<open>Properties\<close>

text \<open>C5: In every state the queue's writers can reach, job ids are unique, a job carries a full
  lease exactly while it is active and no lease column otherwise, and its attempts stay between 0
  and three, four only in \<open>error\<close>.\<close>

theorem queue_reachable_inv:
  assumes "queue_reachable d"
  shows "jobs_wf d \<and> (\<forall>j \<in> set (db_jobs d).
    (if j_status j = Active then lease_full j else lease_clear j) \<and>
    0 \<le> j_attempts j \<and> j_attempts j \<le> (if j_status j = Errored then 4 else 3))"
  using queue_invariant [OF assms] by (auto simp: queue_inv_def job_inv_def MAX_ATTEMPTS_def list_all_iff)

definition empty_db :: db where
  "empty_db =
     \<lparr>db_instances = [], db_files = [], db_jobs = [], db_assets = [], db_plugin_results = [],
      db_verdicts = [], db_trash = [], db_frame_hashes = [], db_corpus = []\<rparr>"

definition db_one_job :: db where
  "db_one_job = snd (create_job empty_db 7 False 100)"

definition db_two_jobs :: db where
  "db_two_jobs = snd (create_job db_one_job 8 False 90)"

definition claim_db :: "db \<Rightarrow> string \<Rightarrow> datetime \<Rightarrow> db" where
  "claim_db d w now = (case claim_attempt (\<lambda>d. d) d w now of Inl _ \<Rightarrow> d | Inr (_, d') \<Rightarrow> d')"

lemmas queue_eval = empty_db_def db_one_job_def db_two_jobs_def create_job_def new_job_def Let_def
  fresh_id_def claim_db_def claim_attempt_def oldest_pending_def check_transition_def update_job_def
  rowcount_def update_where_def leased_def unleased_def release_def heartbeat_def reap_stale_def stale_def
  reap_one_def requeue_def lease_held_def get_job_def get_row_def MAX_ATTEMPTS_def TERMINAL_STATUSES_def
  holds_lease_def status_of_def jobs_wf_def park_def

lemma db_one_job_reachable: "queue_reachable db_one_job"
  unfolding db_one_job_def
  by (rule queue_reachable.step [OF queue_reachable.start]) (auto simp: empty_db_def intro: queue_step.create prod.collapse [symmetric])

lemma queue_reachable_inv_witness:
  "jobs_wf db_one_job \<and> length (db_jobs db_one_job) = 1"
  using queue_reachable_inv [OF db_one_job_reachable] by (simp add: queue_eval)

text \<open>No committed write loses a job, moves it along an edge outside
  \<open>VALID_TRANSITIONS\<close>, or changes its file or creation time.\<close>

theorem queue_step_legal:
  assumes "queue_step d d'" "get_job d i = Some j"
  shows "\<exists>j'. get_job d' i = Some j' \<and> j_file_id j' = j_file_id j \<and> j_created_at j' = j_created_at j \<and>
    (j_status j' = j_status j \<or> check_transition (j_status j) (j_status j') = Inr ())"
proof -
  obtain j' where g: "get_job d' i = Some j'" and w: "row_write j j'"
    using queue_step_row [OF assms] by blast
  show ?thesis using g row_write_id [OF w] row_write_transition [OF w] by (auto simp: check_transition_def)
qed

lemma db_one_job_step: "queue_step db_one_job (claim_db db_one_job ''pool-a-1'' 200)"
  by (rule queue_step.claim [where i = 1 and w = "''pool-a-1''" and now = 200]) (simp add: queue_eval)

lemma queue_step_legal_witness:
  "\<exists>j'. get_job (claim_db db_one_job ''pool-a-1'' 200) 1 = Some j' \<and> j_file_id j' = 7"
proof -
  have "get_job db_one_job 1 = Some (new_job 1 7 Pending 100)" by (simp add: queue_eval)
  from queue_step_legal [OF db_one_job_step this] show ?thesis by (auto simp: new_job_def)
qed

text \<open>A remediated job is final: whatever the workers, the reaper and the API commit
  afterwards, its row never changes again.\<close>

theorem remediated_final:
  assumes "queue_step\<^sup>*\<^sup>* d d'" "get_job d i = Some j" "j_status j = Remediated"
  shows "get_job d' i = Some j"
  using assms(1)
proof (induction rule: rtranclp_induct)
  case base
  show ?case by (rule assms(2))
next
  case (step d1 d2)
  obtain j' where "get_job d2 i = Some j'" "row_write j j'"
    using queue_step_row [OF step(2,3)] by blast
  moreover have "j' = j"
    using \<open>row_write j j'\<close> assms(3) by cases (auto simp: lease_held_def stale_def REVIEW_STATUSES_def)
  ultimately show ?case by simp
qed


definition db_remediated :: db where
  "db_remediated = (case release (claim_db db_one_job ''pool-a-1'' 200)
     (leased Active ''pool-a-1'' 200 (new_job 1 7 Pending 100)) Remediated ''pool-a-1'' 300 of
       Inl _ \<Rightarrow> db_one_job | Inr (_, d) \<Rightarrow> d)"

lemma remediated_final_witness:
  "get_job (snd (reap_stale db_remediated 10 900)) 1 = get_job db_remediated 1 \<and>
   status_of db_remediated 1 = Some Remediated"
proof -
  have j: "get_job db_remediated 1 = Some ((new_job 1 7 Remediated 100)\<lparr>j_updated_at := 300\<rparr>)"
    by (simp add: db_remediated_def queue_eval)
  have "queue_step\<^sup>*\<^sup>* db_remediated (snd (reap_stale db_remediated 10 900))"
    by (rule r_into_rtranclp, rule queue_step.reap, rule prod.collapse [symmetric])
  from remediated_final [OF this j] j show ?thesis by (simp add: status_of_def new_job_def)
qed

text \<open>C31: \<open>claim_next\<close> returns whenever the other sessions stop interfering at some turn, whatever
  they commit before it; it then either hands out an active job whose lease the database records for
  this worker, or has seen no pending job at all.\<close>

theorem claim_next_terminates:
  assumes "jobs_wf d" "\<And>n d. jobs_wf d \<Longrightarrow> jobs_wf (env n d)" "\<And>n d. m \<le> n \<Longrightarrow> env n d = d"
  shows "\<exists>r. claim_next env clock 0 d w = Some (Inr r) \<and>
    (case r of (None, d') \<Rightarrow> (\<forall>j \<in> set (db_jobs d'). j_status j \<noteq> Pending)
     | (Some j, d') \<Rightarrow> j_status j = Active \<and> holds_lease d' (j_id j) w)"
proof -
  have "\<exists>r. claim_next env clock 0 d w = Some (Inr r) \<and> claim_outcome w r"
    by (rule claim_next_returns [where m = m]) (use assms in auto)
  then obtain r where "claim_next env clock 0 d w = Some (Inr r)" "claim_outcome w r" by blast
  then show ?thesis
    by (intro exI [of _ r]) (auto simp: claim_outcome_def list_all_iff split: option.splits)
qed

definition rival :: "nat \<Rightarrow> db \<Rightarrow> db" where
  "rival n d = (if n = 0 then claim_db d ''pool-b-1'' 150 else d)"

lemma claim_db_wf: "jobs_wf d \<Longrightarrow> jobs_wf (claim_db d w now)"
  by (cases rule: claim_attempt_cases [of d "\<lambda>d. d" w now])
    (auto simp: claim_db_def claim_attempt_def update_job_wf [OF keeps_id_simps(1)]
      split: option.splits sum.splits prod.splits if_splits)

lemma claim_next_terminates_witness:
  "\<exists>r. claim_next rival (\<lambda>n. 200) 0 db_two_jobs ''pool-a-1'' = Some (Inr r)"
proof -
  have "jobs_wf db_two_jobs" by (simp add: queue_eval)
  moreover have "jobs_wf (rival n d)" if "jobs_wf d" for n d
    using that by (simp add: rival_def claim_db_wf)
  moreover have "rival n d = d" if "1 \<le> n" for n d using that by (simp add: rival_def)
  ultimately show ?thesis
    using claim_next_terminates [of db_two_jobs rival 1 "\<lambda>n. 200" "''pool-a-1''"] by blast
qed

text \<open>With no interference \<open>claim_next\<close> hands out the oldest pending job (ties broken by id),
  records the lease in its row, and touches no other row.\<close>

theorem claim_next_fifo:
  assumes "jobs_wf d" "k \<in> set (db_jobs d)" "j_status k = Pending"
  shows "\<exists>j d'. claim_next (\<lambda>n d. d) clock 0 d w = Some (Inr (Some (leased Active w (clock 0) j), d')) \<and>
    get_job d (j_id j) = Some j \<and> j_status j = Pending \<and>
    (\<forall>k \<in> set (db_jobs d). j_status k = Pending \<longrightarrow> (j_created_at j, j_id j) \<le> (j_created_at k, j_id k)) \<and>
    get_job d' (j_id j) = Some ((leased Active w (clock 0) j)\<lparr>j_updated_at := clock 0\<rparr>) \<and>
    (\<forall>i. i \<noteq> j_id j \<longrightarrow> get_job d' i = get_job d i)"
proof -
  from assms(2,3) obtain j where j: "oldest_pending d = Some j"
    by (metis not_None_eq oldest_pending_None)
  note o = oldest_pending_Some [OF j]
  have g: "get_job d (j_id j) = Some j" using mem_get_job [OF assms(1) o(1)] .
  with o(2) have st: "status_of d (j_id j) = Some Pending" by (simp add: status_of_def)
  from claim_attempt_won [of d j "\<lambda>d. d" w "clock 0", OF j assms(1) st] obtain n d2
    where u: "update_job (j_id j) (\<lambda>j. j_status j = Pending) (leased Active w (clock 0)) (clock 0) d = (n, d2)"
      and n: "n \<noteq> 0"
      and c: "claim_attempt (\<lambda>d. d) d w (clock 0) = Inr (Claimed (leased Active w (clock 0) j), d2)" .
  note f = fenced_update [OF assms(1) keeps_id_simps(1) u]
  have "claim_next (\<lambda>n d. d) clock 0 d w = Some (Inr (Some (leased Active w (clock 0) j), d2))"
    using c by (simp add: claim_next.simps [of "\<lambda>n d. d" clock 0 d w])
  moreover have "get_job d2 (j_id j) = Some ((leased Active w (clock 0) j)\<lparr>j_updated_at := clock 0\<rparr>)"
    using f(2) n g by auto
  ultimately show ?thesis using g o(2,3) f(3) by blast
qed

lemma claim_next_fifo_witness:
  "\<exists>j d'. claim_next (\<lambda>n d. d) (\<lambda>n. 200) 0 db_two_jobs ''pool-a-1'' = Some (Inr (Some j, d'))"
proof -
  have "jobs_wf db_two_jobs" "new_job 2 8 Pending 90 \<in> set (db_jobs db_two_jobs)"
    by (simp_all add: queue_eval)
  from claim_next_fifo [OF this, of "\<lambda>n. 200" "''pool-a-1''"] show ?thesis
    by (auto simp: new_job_def)
qed

text \<open>Of two sessions that selected the same candidate exactly one wins: if another worker's
  claim of it commits between this session's \<open>SELECT\<close> and \<open>UPDATE\<close>, this session loses the
  race and changes nothing.\<close>

theorem claim_race_one_winner:
  assumes "jobs_wf d" "claim_attempt (\<lambda>d. d) d w1 now1 = Inr (Claimed j, d1)"
  shows "claim_attempt (\<lambda>_. d1) d w2 now2 = Inr (LostRace, d1) \<and> holds_lease d1 (j_id j) w1"
proof -
  from assms(2) obtain c where c: "oldest_pending d = Some c"
    by (cases "oldest_pending d") (auto simp: claim_attempt_def)
  have st: "status_of d (j_id c) = Some Pending"
    using oldest_pending_Some [OF c] mem_get_job [OF assms(1)] by (simp add: status_of_def)
  from claim_attempt_won [of d c "\<lambda>d. d" w1 now1, OF c assms(1) st] obtain n d2
    where u: "update_job (j_id c) (\<lambda>j. j_status j = Pending) (leased Active w1 now1) now1 d = (n, d2)"
      and n: "n \<noteq> 0"
      and a: "claim_attempt (\<lambda>d. d) d w1 now1 = Inr (Claimed (leased Active w1 now1 c), d2)" .
  from a assms(2) have eq: "d2 = d1" "j_id j = j_id c" by auto
  note f = claim_won_facts [OF assms(1) u n]
  have "status_of d1 (j_id c) \<noteq> Some Pending"
    using f(2) eq by (auto simp: holds_lease_def lease_held_def status_of_def)
  then have "claim_attempt (\<lambda>_. d1) d w2 now2 = Inr (LostRace, d1)"
    using claim_attempt_lost [of d c "\<lambda>_. d1" w2 now2, OF c] f(1) eq by simp
  with f(2) eq show ?thesis by simp
qed

lemma claim_race_one_winner_witness:
  "claim_attempt (\<lambda>_. claim_db db_one_job ''pool-b-1'' 150) db_one_job ''pool-a-1'' 151 =
     Inr (LostRace, claim_db db_one_job ''pool-b-1'' 150)"
proof -
  have "jobs_wf db_one_job"
    "claim_attempt (\<lambda>d. d) db_one_job ''pool-b-1'' 150 =
       Inr (Claimed (leased Active ''pool-b-1'' 150 (new_job 1 7 Pending 100)), claim_db db_one_job ''pool-b-1'' 150)"
    by (simp_all add: queue_eval)
  from claim_race_one_winner [OF this] show ?thesis by simp
qed

text \<open>C11: A lease settles a job exactly once: \<open>release\<close> of an active job succeeds only for the
  worker the row names; afterwards, and for anyone else before, it raises \<open>LeaseLost\<close>.\<close>

theorem release_fenced:
  assumes "jobs_wf d" "j_status job = Active" "s \<in> VALID_TRANSITIONS Active"
  shows "if holds_lease d (j_id job) w
    then \<exists>d'. release d job s w now = Inr (unleased s job, d') \<and> status_of d' (j_id job) = Some s \<and>
      (\<forall>s' \<in> VALID_TRANSITIONS Active. \<forall>w' now'. release d' job s' w' now' = Inl LeaseLost) \<and>
      (\<forall>i. i \<noteq> j_id job \<longrightarrow> get_job d' i = get_job d i)
    else release d job s w now = Inl LeaseLost"
proof (cases "holds_lease d (j_id job) w")
  case True
  then obtain d' where d': "settle d (j_id job) s w now = Some d'"
    using jobs_lease.rel_iff [OF assms(1), of "j_id job" s w now] assms(3) by blast
  with True assms(2,3) show ?thesis
    using settle_facts(2,4) [OF assms(1) d'] jobs_lease.settles_once [OF assms(1) d']
    by (simp add: release_cases)
next
  case False
  with assms show ?thesis
    using jobs_lease.unheld_settle_fails [OF assms(1)] by (simp add: release_cases)
qed

lemma release_fenced_witness:
  "release (claim_db db_one_job ''pool-a-1'' 200) (leased Active ''pool-a-1'' 200 (new_job 1 7 Pending 100))
     Matched ''pool-b-1'' 300 = Inl LeaseLost"
proof -
  have "jobs_wf (claim_db db_one_job ''pool-a-1'' 200)"
    "\<not> holds_lease (claim_db db_one_job ''pool-a-1'' 200) 1 ''pool-b-1''"
    by (simp_all add: queue_eval)
  with release_fenced [of "claim_db db_one_job ''pool-a-1'' 200"
      "leased Active ''pool-a-1'' 200 (new_job 1 7 Pending 100)" Matched "''pool-b-1''" 300]
  show ?thesis by (simp add: TERMINAL_STATUSES_def new_job_def)
qed


text \<open>A heartbeat protects the lease: a reap whose cutoff is not past the last heartbeat leaves
  the worker's lease in place, so its next heartbeat and its release go through.\<close>

theorem heartbeat_keeps_lease:
  assumes "jobs_wf d" "heartbeat d job w t = Inr (job', d1)" "now \<le> t + timeout"
  shows "holds_lease (snd (reap_stale d1 timeout now)) (j_id job) w \<and>
    get_job (snd (reap_stale d1 timeout now)) (j_id job) = get_job d1 (j_id job)"
proof -
  from assms(2) obtain n
    where u: "update_job (j_id job) (lease_held w) (\<lambda>j. j\<lparr>j_heartbeat_at := Some t\<rparr>) t d = (n, d1)"
      and n: "n \<noteq> 0" by (auto simp: heartbeat_Inr)
  from fenced_update(2) [OF assms(1) keeps_id_simps(5) u n] obtain j where
    j: "lease_held w j" "get_job d1 (j_id job) = Some (j\<lparr>j_heartbeat_at := Some t, j_updated_at := t\<rparr>)" by auto
  have "\<not> stale (now - timeout) (j\<lparr>j_heartbeat_at := Some t, j_updated_at := t\<rparr>)"
    using assms(3) by (simp add: stale_def)
  then have "get_job (snd (reap_stale d1 timeout now)) (j_id job) = get_job d1 (j_id job)"
    using j(2) by (simp add: reap_stale_def get_job_def get_row_update reap_one_def Let_def)
  with j show ?thesis by (simp add: holds_lease_def lease_held_def)
qed

lemma heartbeat_keeps_lease_witness:
  "\<exists>d1. heartbeat (claim_db db_one_job ''pool-a-1'' 200) (new_job 1 7 Active 100) ''pool-a-1'' 250 =
     Inr ((new_job 1 7 Active 100)\<lparr>j_heartbeat_at := Some 250\<rparr>, d1) \<and>
     holds_lease (snd (reap_stale d1 60 310)) 1 ''pool-a-1''"
proof -
  let ?d = "claim_db db_one_job ''pool-a-1'' 200" and ?j = "new_job 1 7 Active 100"
  have wf: "jobs_wf ?d" by (simp add: queue_eval)
  have "\<exists>d1. heartbeat ?d ?j ''pool-a-1'' 250 = Inr (?j\<lparr>j_heartbeat_at := Some 250\<rparr>, d1)"
    by (simp add: queue_eval)
  then obtain d1 where h: "heartbeat ?d ?j ''pool-a-1'' 250 = Inr (?j\<lparr>j_heartbeat_at := Some 250\<rparr>, d1)" ..
  from heartbeat_keeps_lease [OF wf h, of 310 60] have "holds_lease (snd (reap_stale d1 60 310)) 1 ''pool-a-1''"
    by (simp add: new_job_def)
  with h show ?thesis by blast
qed

text \<open>C18: The reaper takes exactly the active jobs whose heartbeat is before the cutoff: each loses
  its lease and gains an attempt, going back to \<open>pending\<close> for the first three and to
  \<open>error\<close> on the fourth; all other rows stay, the count returned is the number of rows taken,
  and the reaped worker can neither heartbeat nor release.\<close>

theorem reap_exact:
  assumes "jobs_wf d" "reap_stale d timeout now = (n, d')" "get_job d i = Some j"
  shows "if j_status j = Active \<and> (\<exists>h. j_heartbeat_at j = Some h \<and> h < now - timeout)
    then (\<exists>j'. get_job d' i = Some j' \<and> lease_clear j' \<and> j_attempts j' = j_attempts j + 1 \<and>
        j_status j' = (if j_attempts j < 3 then Pending else Errored) \<and> 0 < n \<and>
        heartbeat d' j w now' = Inl LeaseLost \<and> release d' j Matched w now' = Inl LeaseLost)
    else get_job d' i = Some j"
proof -
  have g: "get_job d' i = Some (if stale (now - timeout) j then reap_one now j else j)"
    using assms(2,3) by (auto simp: reap_stale_def get_job_def get_row_update reap_one_def Let_def)
  have wf: "jobs_wf d'"
    using assms(1,2) by (auto simp: reap_stale_def jobs_wf_def reap_one_def Let_def update_where_keys)
  have st: "stale (now - timeout) j \<longleftrightarrow>
      j_status j = Active \<and> (\<exists>h. j_heartbeat_at j = Some h \<and> h < now - timeout)"
    by (auto simp: stale_def split: option.splits)
  have "0 < n" if "stale (now - timeout) j"
    using that assms(2) get_job_mem [OF assms(3)] rowcount_zero [of "stale (now - timeout)" "db_jobs d"]
    by (auto simp: reap_stale_def)
  moreover have "heartbeat d' j w now' = Inl LeaseLost \<and> release d' j Matched w now' = Inl LeaseLost"
    if s: "stale (now - timeout) j"
  proof -
    have i: "j_id j = i" by (rule get_job_id [OF assms(3)])
    have act: "j_status j = Active" using s by (simp add: stale_def)
    have nh: "\<not> holds_lease d' i w" for w
      using g s by (auto simp: holds_lease_def lease_held_def reap_one_def Let_def)
    have "release d' j Matched w now' = Inl LeaseLost"
      using jobs_lease.unheld_settle_fails [OF wf nh] act i
      by (simp add: release_cases TERMINAL_STATUSES_def)
    moreover have "heartbeat d' j w now' = Inl LeaseLost"
      using fenced_update(1) [OF wf keeps_id_simps(5)] nh i
      by (auto simp: heartbeat_def holds_lease_def split: prod.splits)
    ultimately show ?thesis by simp
  qed
  ultimately show ?thesis
    using g by (auto simp: st [symmetric] reap_one_def Let_def lease_clear_def MAX_ATTEMPTS_def)
qed

lemma reap_exact_witness:
  "\<exists>j'. get_job (snd (reap_stale (claim_db db_one_job ''pool-a-1'' 200) 60 300)) 1 = Some j' \<and>
     j_status j' = Pending \<and> j_attempts j' = 1"
proof -
  let ?d = "claim_db db_one_job ''pool-a-1'' 200"
  let ?j = "(leased Active ''pool-a-1'' 200 (new_job 1 7 Pending 100))\<lparr>j_updated_at := 200\<rparr>"
  have wf: "jobs_wf ?d" by (simp add: queue_eval)
  have j: "get_job ?d 1 = Some ?j" by (simp add: queue_eval)
  from reap_exact [OF wf prod.collapse [symmetric] j, of 300 60]
  show ?thesis by (auto simp: leased_def new_job_def)
qed

text \<open>\<open>requeue\<close>, documented for settled jobs only, also accepts an active job: it takes a
  live lease from its worker, whose heartbeat and release then both raise \<open>LeaseLost\<close>.\<close>

theorem requeue_steals_live_lease:
  assumes "jobs_wf d" "get_job d i = Some j" "lease_held w j"
  shows "\<exists>job' d'. requeue d j now = Inr (job', d') \<and> status_of d' i = Some Pending \<and>
    heartbeat d' j w now' = Inl LeaseLost \<and> release d' j Remediated w now' = Inl LeaseLost"
proof -
  have i: "j_id j = i" by (rule get_job_id [OF assms(2)])
  have act: "j_status j = Active" using assms(3) by (simp add: lease_held_def)
  obtain n d' where u: "update_job i (\<lambda>k. j_status k = j_status j)
      (\<lambda>k. (unleased Pending k)\<lparr>j_attempts := 0\<rparr>) now d = (n, d')"
    by (cases "update_job i (\<lambda>k. j_status k = j_status j) (\<lambda>k. (unleased Pending k)\<lparr>j_attempts := 0\<rparr>) now d")
  note f = fenced_update [OF assms(1) keeps_id_simps(6) u]
  have n: "n \<noteq> 0" using f(1) assms(2) by auto
  have r: "requeue d j now = Inr ((unleased Pending j)\<lparr>j_attempts := 0\<rparr>, d')"
    using u n i act by (simp add: requeue_Inr)
  have wf: "jobs_wf d'" using update_job_wf [OF _ u] assms(1) by simp
  have p: "status_of d' i = Some Pending" using f(2) n by (auto simp: status_of_def)
  then have nh: "\<not> holds_lease d' i w" by (auto simp: holds_lease_def lease_held_def status_of_def)
  have "release d' j Remediated w now' = Inl LeaseLost"
    using jobs_lease.unheld_settle_fails [OF wf nh] act i
    by (simp add: release_cases TERMINAL_STATUSES_def)
  moreover have "heartbeat d' j w now' = Inl LeaseLost"
    using fenced_update(1) [OF wf keeps_id_simps(5)] nh i
    by (auto simp: heartbeat_def holds_lease_def split: prod.splits)
  ultimately show ?thesis using r p by blast
qed

lemma requeue_steals_live_lease_witness:
  "\<exists>job' d'. requeue (claim_db db_one_job ''pool-a-1'' 200)
     ((leased Active ''pool-a-1'' 200 (new_job 1 7 Pending 100))\<lparr>j_updated_at := 200\<rparr>) 210 = Inr (job', d')"
proof -
  let ?d = "claim_db db_one_job ''pool-a-1'' 200"
  let ?j = "(leased Active ''pool-a-1'' 200 (new_job 1 7 Pending 100))\<lparr>j_updated_at := 200\<rparr>"
  have "jobs_wf ?d" "get_job ?d 1 = Some ?j" "lease_held ''pool-a-1'' ?j" by (simp_all add: queue_eval)
  from requeue_steals_live_lease [OF this] show ?thesis by blast
qed

end
