(* ===== verification/RemediateSteps.thy ===== *)
theory RemediateSteps
  imports Remediate ClientSpec JobSpec
begin

text \<open>
  What each step of the two remediation sequences keeps and establishes: the frame every step has
  (it only appends to the trace and to the log), how a run ends, that nothing is deleted before it is
  copied, and that no file is overwritten.
\<close>

section \<open>The frame of a step\<close>

text \<open>
  What holds of every step whatever it does: it only appends to the trace (events of kind
  \<open>E\<close>) and to the in-memory log, and it keeps the file, the verdict and the job it works on.
\<close>

definition dry_entry :: "log_entry \<Rightarrow> bool" where
  "dry_entry e \<longleftrightarrow> starts_with (le_detail e) ''DRY-RUN: ''"

definition log_ext :: "bool \<Rightarrow> log_entry list \<Rightarrow> log_entry list \<Rightarrow> bool" where
  "log_ext dry l l' \<longleftrightarrow> (\<exists>new. l' = l @ new \<and> (dry \<longrightarrow> list_all dry_entry new))"

lemma log_ext_refl [simp]: "log_ext dry l l"
  by (simp add: log_ext_def)

lemma log_ext_trans: "log_ext dry a b \<Longrightarrow> log_ext dry b c \<Longrightarrow> log_ext dry a c"
  by (force simp: log_ext_def)

definition frame :: "remediator \<Rightarrow> (effect \<Rightarrow> bool) \<Rightarrow> rstate \<Rightarrow> rstate \<Rightarrow> bool" where
  "frame r E s s' \<longleftrightarrow>
     new_events E (rs_world s) (rs_world s') \<and> rs_file s' = rs_file s \<and>
     rs_verdict s' = rs_verdict s \<and> j_id (rs_job s') = j_id (rs_job s) \<and> log_ext (re_dry_run r) (rs_log s) (rs_log s')"

lemma frame_refl [simp]: "frame r E s s"
  by (simp add: frame_def)

lemma frame_trans: "frame r E s s' \<Longrightarrow> frame r E s' s'' \<Longrightarrow> frame r E s s''"
  by (auto simp: frame_def intro: new_events_trans log_ext_trans)

lemma frame_mono: "frame r E s s' \<Longrightarrow> (\<And>e. E e \<Longrightarrow> E' e) \<Longrightarrow> frame r E' s s'"
  by (auto simp: frame_def intro: new_events_mono)

definition framed :: "remediator \<Rightarrow> (effect \<Rightarrow> bool) \<Rightarrow> 'a step \<Rightarrow> bool" where
  "framed r E m \<longleftrightarrow> (\<forall>s x s'. m s = (x, s') \<longrightarrow> frame r E s s')"

lemma framedD: "framed r E m \<Longrightarrow> m s = (x, s') \<Longrightarrow> frame r E s s'"
  by (simp add: framed_def)

lemma framed_bind:
  assumes "framed r E m" "\<And>x. framed r E (f x)"
  shows "framed r E (flow_bind m f)"
  unfolding framed_def
proof (intro allI impI)
  fix s x s' assume e: "flow_bind m f s = (x, s')"
  obtain y s1 where m: "m s = (y, s1)" by (cases "m s")
  have "frame r E s s1" by (rule framedD [OF assms(1) m])
  moreover have "frame r E s1 s'"
    using e m framedD [OF assms(2)] by (cases y) (auto simp: flow_bind_def)
  ultimately show "frame r E s s'" by (rule frame_trans)
qed

lemma framed_at: "framed r E (f s) \<Longrightarrow> f s s = (x, s') \<Longrightarrow> frame r E s s'"
  by (rule framedD)

lemma framed_selfI: "(\<And>t. framed r E (f t)) \<Longrightarrow> framed r E (\<lambda>s. f s s)"
  by (simp add: framed_def)

lemma log_step_frame: "frame r E s (log_step r st ok d s)"
  by (simp add: frame_def log_step_def Let_def new_events_same log_ext_def dry_entry_def starts_with_def)

lemma framed_log: "framed r E (\<lambda>s. (Go x, log_step r (st s) ok (d s) s))"
  by (simp add: framed_def log_step_frame)

lemma framed_Go: "framed r E (\<lambda>s. (Go x, s))" and framed_Fail: "framed r E (\<lambda>s. (Fail e, s))"
  by (simp_all add: framed_def)

lemma settle_job_Halt:
  "settle_job r st s = (x, s') \<Longrightarrow>
     (\<exists>e. x = Fail e \<and> s' = s \<and> release (w_db (rs_world s)) (rs_job s) st (re_worker r)
        (now_of (re_env r) (rs_world s)) = Inl e) \<or>
     (\<exists>d. x = Halt \<and> s' = s\<lparr>rs_job := unleased st (rs_job s), rs_world := (rs_world s)\<lparr>w_db := d\<rparr>\<rparr> \<and>
        release (w_db (rs_world s)) (rs_job s) st (re_worker r)
        (now_of (re_env r) (rs_world s)) = Inr (unleased st (rs_job s), d))"
  by (auto simp: settle_job_def Let_def release_Inr split: sum.splits prod.splits)

lemma framed_settle: "framed r E (settle_job r st)"
  unfolding framed_def
  by (auto dest!: settle_job_Halt simp: frame_def new_events_same)

lemma framed_refuse: "framed r E (refuse r st d)"
  unfolding framed_def
proof (intro allI impI)
  fix s x s' assume "refuse r st d s = (x, s')"
  then obtain y where y: "settle_job r Quarantine (log_step r st False d s) = (y, s')"
    by (auto simp: refuse_def split: prod.splits flow.splits)
  show "frame r E s s'" by (rule frame_trans [OF log_step_frame framedD [OF framed_settle y]])
qed

text \<open>A client call adds events only; the file system it may touch is the environment's.\<close>

definition emits :: "(effect \<Rightarrow> bool) \<Rightarrow> (world \<Rightarrow> 'a \<times> world) \<Rightarrow> bool" where
  "emits E call \<longleftrightarrow> (\<forall>w x w'. call w = (x, w') \<longrightarrow> new_events E w w')"

lemma frame_world: "new_events E (rs_world s) w \<Longrightarrow> frame r E s (s\<lparr>rs_world := w\<rparr>)"
  by (simp add: frame_def)

lemma sonarr_step_cases:
  assumes "sonarr_step r st sfx call s = (x, s')" "call (rs_world s) = (y, w)"
  obtains d where "refuse r st d (s\<lparr>rs_world := w\<rparr>) = (x, s')" | "s' = s\<lparr>rs_world := w\<rparr>"
proof (cases "\<exists>a b. y = Inl (SonarrError a b)")
  case True
  then obtain a b where "refuse r st (exn_str (SonarrError a b) @ sfx) (s\<lparr>rs_world := w\<rparr>) = (x, s')"
    using assms by (auto simp: sonarr_step_def)
  then show thesis by (rule that(1))
next
  case False
  then have "s' = s\<lparr>rs_world := w\<rparr>"
    using assms by (auto simp: sonarr_step_def split: sum.splits exn.splits)
  then show thesis by (rule that(2))
qed

lemma framed_sonarr:
  assumes "emits E call"
  shows "framed r E (sonarr_step r st sfx call)"
  unfolding framed_def
proof (intro allI impI)
  fix s x s' assume e: "sonarr_step r st sfx call s = (x, s')"
  obtain y w where c: "call (rs_world s) = (y, w)" by (cases "call (rs_world s)")
  have f: "frame r E s (s\<lparr>rs_world := w\<rparr>)"
    using assms c by (intro frame_world) (simp add: emits_def)
  from e c show "frame r E s s'"
  proof (cases rule: sonarr_step_cases)
    case (1 d)
    with f show ?thesis by (blast intro: frame_trans framedD [OF framed_refuse])
  qed (use f in simp)
qed

lemma emits_ask: "emits (event_of rq) (ask env c rq)"
  by (auto simp: emits_def intro: sonarr_request_events)

lemma emits_mono: "emits E call \<Longrightarrow> (\<And>e. E e \<Longrightarrow> E' e) \<Longrightarrow> emits E' call"
  unfolding emits_def by (blast intro: new_events_mono)

lemma emits_then_decode: "emits E call \<Longrightarrow> emits E (\<lambda>w. then_decode f (call w))"
  by (auto simp: emits_def then_decode_def split: prod.splits) (metis prod.collapse)

text \<open>The kinds of event: what changes the library, and what does not.\<close>

fun mutating :: "effect \<Rightarrow> bool" where
  "mutating (EHttp rq) = (rq_method rq \<noteq> GET)"
| "mutating (EOs op err) = True"
| "mutating _ = False"

fun is_delete :: "effect \<Rightarrow> bool" where
  "is_delete (EHttp rq) = (rq_method rq = DELETE)"
| "is_delete _ = False"

lemma emits_get:
  "emits (\<lambda>e. \<not> mutating e) (ask env c (GET_of p ps))"
  "emits (\<lambda>e. \<not> is_delete e) (ask env c (GET_of p ps))"
  "emits (\<lambda>e. \<not> is_delete e) (ask env c (POST_of p b))"
  by (auto intro!: emits_mono [OF emits_ask] simp: event_of_def GET_of_def POST_of_def)

lemma emits_True: "emits (\<lambda>e. True) (ask env c rq)"
  by (auto intro: emits_mono [OF emits_ask])

lemma emits_unless: "cn_dry_run c \<or> emits E m \<Longrightarrow> emits E (unless_dry_run c x m)"
  by (auto simp: emits_def unless_dry_run_def split: if_splits)

lemma os_call_events: "os_call env op w = (x, w') \<Longrightarrow> new_events (\<lambda>e. \<exists>err. e = EOs op err) w w'"
  by (auto simp: os_call_def new_events_def split: option.splits)

lemma link_or_copy_events:
  assumes "link_or_copy env a b w = (x, w')"
  shows "new_events (\<lambda>e. \<not> is_delete e) w w'"
proof -
  obtain y w1 where l: "os_call env (OsLink a b) w = (y, w1)" by (cases "os_call env (OsLink a b) w")
  have 1: "new_events (\<lambda>e. \<not> is_delete e) w w1"
    by (rule new_events_mono [OF os_call_events [OF l]]) auto
  show ?thesis
  proof (cases "w' = w1")
    case True
    with 1 show ?thesis by simp
  next
    case False
    then obtain z where "os_call env (OsCopy2 a b) w1 = (z, w')"
      using assms l by (auto simp: link_or_copy_def split: sum.splits exn.splits if_splits)
    from os_call_events [OF this] have "new_events (\<lambda>e. \<not> is_delete e) w1 w'"
      by (rule new_events_mono) auto
    with 1 show ?thesis by (rule new_events_trans)
  qed
qed

section \<open>Dry runs\<close>

definition dry :: "remediator \<Rightarrow> bool" where
  "dry r \<longleftrightarrow> re_dry_run r \<and> cn_dry_run (re_client r)"

lemma framed_guard: "framed r E (interruption_guard r)"
  unfolding framed_def interruption_guard_def
  by (auto dest: framedD [OF framed_refuse] split: if_splits)

lemma framed_blocklist:
  assumes "\<And>h. emits E (mark_history_failed (re_env r) (re_client r) h)"
  shows "framed r E (blocklist_step r)"
  unfolding framed_def
proof (intro allI impI)
  fix s x s' assume e: "blocklist_step r s = (x, s')"
  show "frame r E s s'"
  proof (cases "f_history_id (rs_file s)")
    case None
    with e show ?thesis by (auto simp: blocklist_step_def log_step_frame)
  next
    case (Some h)
    have "framed r E (flow_bind (sonarr_step r ''mark_history_failed'' [] (mark_history_failed (re_env r) (re_client r) h))
            (\<lambda>_ s. (Go (), log_step r ''mark_history_failed'' True (''history_id='' @ show_int h) s)))"
      by (rule framed_bind [OF framed_sonarr [OF assms] framed_log])
    with e Some show ?thesis by (auto simp: blocklist_step_def dest: framedD)
  qed
qed

lemma framed_delete:
  assumes "\<And>i. emits E (delete_episode_file (re_env r) (re_client r) i)"
  shows "framed r E (delete_step r sfx d)"
  unfolding framed_def delete_step_def
  by (auto dest!: framedD [OF framed_bind [OF framed_sonarr [OF assms] framed_log]])

lemma framed_search:
  assumes "\<And>n b. emits E (command (re_env r) (re_client r) n b)"
  shows "framed r E (search_step r)"
  unfolding framed_def search_step_def
  by (auto dest!: framedD [OF framed_bind [OF framed_sonarr [OF assms] framed_log]])

lemma framed_settle_unit: "framed r E (\<lambda>s. settle_job r st s)"
  using framed_settle by (simp add: framed_def)

lemma framed_delete_and_search:
  assumes "\<And>i. emits E (delete_episode_file (re_env r) (re_client r) i)"
    and "\<And>n b. emits E (command (re_env r) (re_client r) n b)"
  shows "framed r E (delete_and_search r sfx)"
  unfolding delete_and_search_def
  by (rule framed_selfI) (intro framed_bind framed_delete framed_search framed_settle assms)

lemma framed_replace:
  assumes "\<And>h. emits E (mark_history_failed (re_env r) (re_client r) h)"
    and "\<And>i. emits E (delete_episode_file (re_env r) (re_client r) i)"
    and "\<And>n b. emits E (command (re_env r) (re_client r) n b)"
    and "framed r E (trash_step r)"
  shows "framed r E (replace_body r)"
  unfolding replace_body_def
  by (intro framed_bind framed_guard framed_blocklist framed_delete_and_search assms)

lemma framed_fetch:
  assumes "\<And>i. emits E (get_episodes (re_env r) (re_codec r) (re_client r) i)"
  shows "framed r E (fetch_targets r ts)"
  unfolding framed_def fetch_targets_def
  using assms by (fastforce simp: emits_def intro: frame_world split: prod.splits sum.splits)

lemma framed_resolution: "framed r E (resolution_check r ts eps)"
  unfolding framed_def resolution_check_def Let_def
  by (auto dest: framedD [OF framed_refuse] split: if_splits)

lemma framed_occupied: "framed r E (occupied_check r ts eps)"
  unfolding framed_def
proof (intro allI impI)
  fix s x s' assume e: "occupied_check r ts eps s = (x, s')"
  show "frame r E s s'"
  proof (cases "filter ep_has_file eps = []")
    case True
    with e show ?thesis by (simp add: occupied_check_def)
  next
    case False
    let ?s1 = "log_step r ''occupied_check'' False
                  (''refusing remap: target episode(s) already have a file: '' @
                   join '', '' (map episode_label (filter ep_has_file eps)) @ '' (ids='' @
                   show_ints (map ep_id (filter ep_has_file eps)) @ '')'') s"
    let ?s2 = "?s1\<lparr>rs_world := (rs_world ?s1)\<lparr>w_db := set_proposed (rs_verdict ?s1)
                       (Some (RemapJson (sorted_list_of_set ts))) (w_db (rs_world ?s1))\<rparr>\<rparr>"
    have 1: "frame r E s ?s1" by (rule log_step_frame)
    have 2: "frame r E ?s1 ?s2" by (simp add: frame_def new_events_same)
    obtain y s3 where y: "settle_job r Quarantine ?s2 = (y, s3)" by (cases "settle_job r Quarantine ?s2")
    have 3: "frame r E ?s2 s3" by (rule framedD [OF framed_settle y])
    have "s' = ?s1 \<or> s' = s3"
      using e False y by (auto simp: occupied_check_def Let_def split: flow.splits)
    with frame_trans [OF 1 frame_trans [OF 2 3]] 1 show ?thesis by auto
  qed
qed

lemma framed_candidates:
  assumes "\<And>f. emits E (manual_import_candidates (re_env r) (re_codec r) (re_client r) f)"
  shows "framed r E (candidates_step r sp)"
  unfolding candidates_step_def
  by (rule framed_selfI, rule framed_bind [OF framed_sonarr [OF assms]])
    (auto simp: framed_def log_step_frame dest: framedD [OF framed_refuse] split: option.splits)

lemma framed_import:
  assumes "\<And>fs m. emits E (execute_manual_import (re_env r) (re_client r) fs m)"
  shows "framed r E (import_step r eps sp m)"
  unfolding import_step_def
  by (rule framed_selfI, rule framed_bind [OF framed_sonarr [OF assms] framed_log])

lemma framed_tail:
  assumes "\<not> re_dry_run r \<Longrightarrow> (\<And>f. emits E (manual_import_candidates (re_env r) (re_codec r) (re_client r) f))"
    and "\<not> re_dry_run r \<Longrightarrow> (\<And>fs m. emits E (execute_manual_import (re_env r) (re_client r) fs m))"
  shows "framed r E (import_tail r eps sp)"
proof (cases "re_dry_run r")
  case True
  show ?thesis unfolding framed_def import_tail_def
    using True by (auto intro: frame_trans [OF log_step_frame framedD [OF framed_settle]])
next
  case False
  have "framed r E (flow_bind (candidates_step r sp) (\<lambda>m.
        flow_bind (import_step r eps sp m) (\<lambda>_. settle_job r Remediated)))"
    by (intro framed_bind framed_candidates framed_import framed_settle assms False)
  with False show ?thesis by (simp add: framed_def import_tail_def)
qed

lemma framed_stage_and_import:
  assumes "\<And>i. emits E (delete_episode_file (re_env r) (re_client r) i)"
    and "\<And>sp. framed r E (hardlink_step r sp)"
    and "\<And>sp. framed r E (import_tail r eps sp)"
  shows "framed r E (stage_and_import r eps)"
proof (cases "eps = []")
  case True
  then show ?thesis by (simp add: framed_def stage_and_import_def)
next
  case False
  have "framed r E (\<lambda>s. let sp = staged_path r eps (rs_file s)
        in flow_bind (hardlink_step r sp) (\<lambda>_.
           flow_bind (delete_step r (''; staging_path='' @ sp)
                (''released the mislabelled file record from Sonarr (episode_file_id='' @
                 show_int (f_episode_file_id (rs_file s)) @ ''; file data preserved in staging)'')) (\<lambda>_.
           import_tail r eps sp)) s)"
    unfolding Let_def by (rule framed_selfI) (intro framed_bind framed_delete assms)
  with False show ?thesis by (simp add: framed_def stage_and_import_def)
qed

lemma framed_remap:
  assumes "\<And>i. emits E (get_episodes (re_env r) (re_codec r) (re_client r) i)"
    and "\<And>i. emits E (delete_episode_file (re_env r) (re_client r) i)"
    and "\<And>sp. framed r E (hardlink_step r sp)"
    and "\<And>eps sp. framed r E (import_tail r eps sp)"
  shows "framed r E (remap_body r ts)"
  unfolding remap_body_def
  by (intro framed_bind framed_guard framed_fetch framed_resolution framed_occupied
      framed_stage_and_import assms)

text \<open>In a dry run the mutating calls send nothing and the file steps do nothing.\<close>

lemma dry_emits:
  assumes "dry r"
  shows "emits E (mark_history_failed (re_env r) (re_client r) h)"
    "emits E (delete_episode_file (re_env r) (re_client r) i)"
    "emits E (command (re_env r) (re_client r) n b)"
  using assms
  by (auto simp: dry_def mark_history_failed_def delete_episode_file_def command_def intro!: emits_unless)

lemma get_emits:
  "emits (\<lambda>e. \<not> mutating e) (get_episodes env cd c i)"
  "emits (\<lambda>e. \<not> is_delete e) (get_episodes env cd c i)"
  "emits (\<lambda>e. \<not> mutating e) (manual_import_candidates env cd c f)"
  "emits (\<lambda>e. \<not> is_delete e) (manual_import_candidates env cd c f)"
  unfolding get_episodes_def manual_import_candidates_def
  by (intro emits_then_decode emits_get)+

lemma dry_trash: "dry r \<Longrightarrow> framed r E (trash_step r)"
  unfolding framed_def
  by (auto simp: trash_step_def Let_def dry_def log_step_frame split: option.splits if_splits)

lemma dry_hardlink: "dry r \<Longrightarrow> framed r E (hardlink_step r sp)"
  unfolding framed_def by (auto simp: hardlink_step_def Let_def dry_def log_step_frame)

lemma dry_replace_frame: "dry r \<Longrightarrow> framed r (\<lambda>e. \<not> mutating e) (replace_body r)"
  by (intro framed_replace dry_emits dry_trash)

lemma dry_remap_frame: "dry r \<Longrightarrow> framed r (\<lambda>e. \<not> mutating e) (remap_body r ts)"
  by (intro framed_remap dry_emits dry_hardlink get_emits framed_tail) (auto simp: dry_def)


text \<open>A run as a whole: what the frame of its body says of the world.\<close>

lemma run_frame:
  assumes "framed r E body" "(case load_run r i w of Inl e \<Rightarrow> (Inl e, w) | Inr s \<Rightarrow> run_result (body s)) = (res, w')"
  shows "new_events E w w' \<and>
    (\<forall>s. load_run r i w = Inr s \<longrightarrow> (\<exists>s'. rs_world s' = w' \<and> frame r E s s' \<and> snd (body s) = s'))"
proof (cases "load_run r i w")
  case (Inl e)
  with assms(2) show ?thesis by simp
next
  case (Inr s)
  obtain x s' where b: "body s = (x, s')" by (cases "body s")
  have "rs_world s = w" using Inr by (auto simp: load_run_def split: option.splits sum.splits)
  moreover have "w' = rs_world s'" using assms(2) Inr b by (auto simp: run_result_def)
  ultimately show ?thesis using framedD [OF assms(1) b] Inr b by (auto simp: frame_def)
qed

section \<open>How a run ends\<close>

definition verdict_log :: "int \<Rightarrow> log_entry list \<Rightarrow> db \<Rightarrow> bool" where
  "verdict_log v l d \<longleftrightarrow> (\<forall>x. get_row v_id v (db_verdicts d) = Some x \<longrightarrow> v_remediation_log x = l)"

definition going :: "int \<Rightarrow> int \<Rightarrow> log_entry list \<Rightarrow> rstate \<Rightarrow> bool" where
  "going i v l0 s \<longleftrightarrow>
     jobs_wf (w_db (rs_world s)) \<and> j_id (rs_job s) = i \<and> rs_verdict s = v \<and>
     (\<exists>new. rs_log s = l0 @ new \<and> list_all le_ok new)"

definition log_written :: "rstate \<Rightarrow> bool" where
  "log_written s \<longleftrightarrow> verdict_log (rs_verdict s) (rs_log s) (w_db (rs_world s))"

text \<open>
  A run that returned: the job is remediated and every step it logged succeeded, or it is in
  quarantine and exactly the last step logged failed; the verdict's row holds the whole log.
\<close>

definition settled :: "int \<Rightarrow> int \<Rightarrow> log_entry list \<Rightarrow> world \<Rightarrow> bool" where
  "settled i v l0 w \<longleftrightarrow>
     (\<exists>new. verdict_log v (l0 @ new) (w_db w) \<and> (\<forall>u. \<not> holds_lease (w_db w) i u) \<and>
        (status_of (w_db w) i = Some Remediated \<and> list_all le_ok new \<or>
         status_of (w_db w) i = Some Quarantine \<and> new \<noteq> [] \<and> list_all le_ok (butlast new) \<and>
           \<not> le_ok (last new)))"

definition lease_exn :: "exn \<Rightarrow> bool" where
  "lease_exn e \<longleftrightarrow> e \<in> {LeaseLost, InvalidTransition}"

definition call_exn :: "exn \<Rightarrow> bool" where
  "call_exn e \<longleftrightarrow> lease_exn e \<or> e = IndexError \<or> (\<exists>m. e = TransportError m)"

lemma log_step_facts:
  "w_db (rs_world (log_step r st ok d s)) =
     set_verdict_log (rs_verdict s) (rs_log (log_step r st ok d s)) (w_db (rs_world s))"
  "rs_job (log_step r st ok d s) = rs_job s" "rs_verdict (log_step r st ok d s) = rs_verdict s"
  "rs_file (log_step r st ok d s) = rs_file s" "w_fs (rs_world (log_step r st ok d s)) = w_fs (rs_world s)"
  "w_trace (rs_world (log_step r st ok d s)) = w_trace (rs_world s)"
  "\<exists>e. rs_log (log_step r st ok d s) = rs_log s @ [e] \<and> le_ok e = ok"
  by (simp_all add: log_step_def Let_def)

lemma set_verdict_log_jobs [simp]:
  "db_jobs (set_verdict_log v l d) = db_jobs d" "db_jobs (set_proposed v a d) = db_jobs d"
  by (simp_all add: set_verdict_log_def set_proposed_def)

lemma verdict_log_set: "verdict_log v l (set_verdict_log v l d)"
  unfolding verdict_log_def
proof (intro allI impI)
  fix x assume "get_row v_id v (db_verdicts (set_verdict_log v l d)) = Some x"
  then obtain y where "get_row v_id v (db_verdicts d) = Some y"
    "x = (if v_id y = v then y\<lparr>v_remediation_log := l\<rparr> else y)"
    by (auto simp: set_verdict_log_def get_row_update)
  then show "v_remediation_log x = l" by (auto dest: get_row_Some)
qed

lemma verdict_log_proposed: "verdict_log v l d \<Longrightarrow> verdict_log v l (set_proposed v a d)"
  by (auto simp: verdict_log_def set_proposed_def get_row_update)

lemma going_log: "going i v l0 s \<Longrightarrow> going i v l0 (log_step r st True d s)"
  using log_step_facts [of r st True d s] by (auto simp: going_def jobs_wf_def)

lemma log_written_log: "log_written (log_step r st ok d s)"
  by (simp add: log_written_def log_step_facts verdict_log_set)

lemma release_world:
  assumes "jobs_wf d" "release d job st u now = Inr (job', d')"
  shows "status_of d' (j_id job) = Some st" "\<not> holds_lease d' (j_id job) u'"
    "db_verdicts d' = db_verdicts d" "jobs_wf d'" "db_trash d' = db_trash d"
proof -
  obtain n where n: "n \<noteq> 0" "update_job (j_id job) (lease_held u) (unleased st) now d = (n, d')"
    using assms(2) by (auto simp: release_Inr)
  note f = fenced_update [OF assms(1) keeps_id_simps(2) n(2)]
  show "status_of d' (j_id job) = Some st" using f(2) n(1) by (auto simp: status_of_def)
  show "\<not> holds_lease d' (j_id job) u'" using f(2) n(1) by (auto simp: holds_lease_def lease_held_def)
  show "db_verdicts d' = db_verdicts d" "db_trash d' = db_trash d" using n(2) by (auto simp: update_job_def)
  show "jobs_wf d'" using update_job_wf [OF _ n(2)] assms(1) by simp
qed

lemma release_errors: "release d job st u now = Inl e \<Longrightarrow> lease_exn e"
  by (auto simp: release_def check_transition_def lease_exn_def split: prod.splits if_splits)

text \<open>Releasing right after logging.\<close>

lemma ensures_settle:
  "ensures (\<lambda>s. going i v l0 s \<and> log_written s) (settle_job r Remediated)
     (\<lambda>_ _. False) (\<lambda>s. settled i v l0 (rs_world s)) (\<lambda>e s. lease_exn e)"
proof (rule ensuresI)
  fix s s' assume p: "going i v l0 s \<and> log_written s" and m: "settle_job r Remediated s = (Halt, s')"
  then obtain d where d: "s' = s\<lparr>rs_job := unleased Remediated (rs_job s), rs_world := (rs_world s)\<lparr>w_db := d\<rparr>\<rparr>"
    "release (w_db (rs_world s)) (rs_job s) Remediated (re_worker r) (now_of (re_env r) (rs_world s)) =
       Inr (unleased Remediated (rs_job s), d)"
    using settle_job_Halt [OF m] by auto
  from p have wf: "jobs_wf (w_db (rs_world s))" by (simp add: going_def)
  from p show "settled i v l0 (rs_world s')"
    using release_world [OF wf d(2)] d(1)
    by (auto simp: settled_def going_def log_written_def verdict_log_def)
qed (auto dest!: settle_job_Halt release_errors)

lemma ensures_refuse:
  "ensures (going i v l0) (refuse r st d)
     (\<lambda>_ _. False) (\<lambda>s. settled i v l0 (rs_world s)) (\<lambda>e s. lease_exn e)"
proof (rule ensuresI)
  fix s s' assume p: "going i v l0 s" and m: "refuse r st d s = (Halt, s')"
  let ?t = "log_step r st False d s"
  obtain new where new: "rs_log s = l0 @ new" "list_all le_ok new" using p by (auto simp: going_def)
  obtain e where e: "rs_log ?t = rs_log s @ [e]" "\<not> le_ok e" using log_step_facts(7) by blast
  from m obtain x where "settle_job r Quarantine ?t = (x, s')" "\<And>e. x \<noteq> Fail e"
    by (auto simp: refuse_def split: prod.splits flow.splits)
  then obtain d' where d: "s' = ?t\<lparr>rs_job := unleased Quarantine (rs_job ?t), rs_world := (rs_world ?t)\<lparr>w_db := d'\<rparr>\<rparr>"
    "release (w_db (rs_world ?t)) (rs_job ?t) Quarantine (re_worker r) (now_of (re_env r) (rs_world ?t)) =
       Inr (unleased Quarantine (rs_job ?t), d')"
    using settle_job_Halt [of r Quarantine ?t x s'] by auto
  have wf: "jobs_wf (w_db (rs_world ?t))" using p by (simp add: going_def log_step_facts jobs_wf_def)
  have id: "j_id (rs_job ?t) = i" "rs_verdict ?t = v" using p by (auto simp: going_def log_step_facts)
  have "verdict_log v (l0 @ (new @ [e])) d'"
    using log_written_log [of r st False d s] release_world(3) [OF wf d(2)] e new id
    by (simp add: log_written_def verdict_log_def)
  then show "settled i v l0 (rs_world s')"
    using release_world(1,2) [OF wf d(2)] d(1) id e new
    unfolding settled_def by (intro exI [of _ "new @ [e]"]) simp
next
  fix s e s' assume "refuse r st d s = (Fail e, s')"
  then show "lease_exn e"
    by (auto simp: refuse_def split: prod.splits flow.splits dest!: settle_job_Halt release_errors)
qed (auto simp: refuse_def split: prod.splits flow.splits)

text \<open>One client call: \<open>calls env F call\<close> is what a step needs to know of it.\<close>

definition wf_env :: "environ \<Rightarrow> bool" where
  "wf_env env \<longleftrightarrow> (\<forall>tr d. jobs_wf d \<longrightarrow> jobs_wf (en_db env tr d))"

definition good_call :: "(exn \<Rightarrow> bool) \<Rightarrow> (world \<Rightarrow> 'a res \<times> world) \<Rightarrow> bool" where
  "good_call F call \<longleftrightarrow>
     (\<forall>w x w'. call w = (x, w') \<longrightarrow>
        (jobs_wf (w_db w) \<longrightarrow> jobs_wf (w_db w')) \<and>
        (\<forall>e. x = Inl e \<longrightarrow> F e \<or> (\<exists>a b. e = SonarrError a b)))"

lemma good_ask: "wf_env env \<Longrightarrow> good_call call_exn (ask env c rq)"
  unfolding good_call_def
proof (intro allI impI conjI)
  fix w x w' assume env: "wf_env env" and a: "ask env c rq w = (x, w')"
  show "jobs_wf (w_db w')" if "jobs_wf (w_db w)"
    by (rule sonarr_request_db [where I = jobs_wf, OF _ a that]) (use env in \<open>simp add: wf_env_def\<close>)
  show "call_exn e \<or> (\<exists>a b. e = SonarrError a b)" if "x = Inl e" for e
    using sonarr_request_errors [of env c rq 0 w e w'] a that by (auto simp: call_exn_def)
qed

lemma good_unless: "good_call F m \<Longrightarrow> good_call F (unless_dry_run c x m)"
  by (auto simp: good_call_def unless_dry_run_def)

lemma good_decode: "good_call F m \<Longrightarrow> good_call (\<lambda>_. True) (\<lambda>w. then_decode f (m w))"
  by (auto simp: good_call_def then_decode_def split: prod.splits) (metis prod.collapse)

lemma good_mutations:
  assumes "wf_env env"
  shows "good_call call_exn (mark_history_failed env c h)" "good_call call_exn (delete_episode_file env c j)"
    "good_call call_exn (command env c n b)" "good_call call_exn (execute_manual_import env c fs m)"
  unfolding mark_history_failed_def delete_episode_file_def command_def execute_manual_import_def
  by (intro good_unless good_ask assms)+

lemma good_gets:
  assumes "wf_env env"
  shows "good_call (\<lambda>_. True) (get_episodes env cd c j)" "good_call (\<lambda>_. True) (manual_import_candidates env cd c f)"
  unfolding get_episodes_def manual_import_candidates_def
  by (intro good_decode [OF good_ask] assms)+

lemma ensures_sonarr:
  fixes call :: "world \<Rightarrow> 'x res \<times> world"
  assumes "good_call F call" "\<And>e. lease_exn e \<Longrightarrow> F e"
  shows "ensures (going i v l0) (sonarr_step r st sfx call)
     (\<lambda>_. going i v l0) (\<lambda>s. settled i v l0 (rs_world s)) (\<lambda>e s. F e)"
  unfolding ensures_def
proof (intro allI impI)
  fix s assume p: "going i v l0 s"
  obtain y w where c: "call (rs_world s) = (y, w)" by (cases "call (rs_world s)")
  let ?s = "s\<lparr>rs_world := w\<rparr>"
  have g: "going i v l0 ?s" using p c assms(1) by (auto simp: going_def good_call_def)
  show "case sonarr_step r st sfx call s of (Go x, s') \<Rightarrow> going i v l0 s' | (Halt, s') \<Rightarrow> settled i v l0 (rs_world s')
      | (Fail e, s') \<Rightarrow> F e"
  proof (cases y)
    case (Inr x)
    with c g show ?thesis by (simp add: sonarr_step_def)
  next
    case (Inl e)
    show ?thesis
    proof (cases "\<exists>a b. e = SonarrError a b")
      case True
      then obtain a b where ab: "e = SonarrError a b" by blast
      have "sonarr_step r st sfx call s = refuse r st (exn_str (SonarrError a b) @ sfx) ?s"
        using c Inl ab by (simp add: sonarr_step_def)
      moreover have "ensures (going i v l0) (refuse r st (exn_str (SonarrError a b) @ sfx) :: 'x step)
          (\<lambda>_. going i v l0) (\<lambda>s. settled i v l0 (rs_world s)) (\<lambda>e s. F e)"
        by (rule ensures_weaken [OF ensures_refuse]) (use assms(2) in auto)
      ultimately show ?thesis using g unfolding ensures_def by simp
    next
      case False
      have "F e" using assms(1) c Inl False unfolding good_call_def by blast
      with False c Inl show ?thesis by (auto simp: sonarr_step_def split: exn.splits)
    qed
  qed
qed


lemma ensures_selfI:
  "(\<And>t. ensures (\<lambda>s. P s \<and> s = t) (f t) Q H F) \<Longrightarrow> ensures P (\<lambda>s. f s s) Q H F"
  by (simp add: ensures_def)

lemma ensures_pre: "ensures P m Q H F \<Longrightarrow> ensures (\<lambda>s. P s \<and> R s) m Q H F"
  by (simp add: ensures_def)

lemma ensures_logged:
  "ensures (going i v l0) (\<lambda>s. (Go x, log_step r st True (d s) s))
     (\<lambda>_ s. going i v l0 s \<and> log_written s) H F"
  by (simp add: ensures_def going_log log_written_log)

lemma ensures_logged_going:
  "ensures (going i v l0) (\<lambda>s. (Go x, log_step r st True (d s) s)) (\<lambda>_. going i v l0) H F"
  by (simp add: ensures_def going_log)

abbreviation steps_ok ::
  "int \<Rightarrow> int \<Rightarrow> log_entry list \<Rightarrow> (exn \<Rightarrow> bool) \<Rightarrow> 'a step \<Rightarrow> bool" where
  "steps_ok i v l0 F m \<equiv>
     ensures (going i v l0) m (\<lambda>_. going i v l0) (\<lambda>s. settled i v l0 (rs_world s)) (\<lambda>e s. F e)"

lemma call_exn_lease: "lease_exn e \<Longrightarrow> call_exn e"
  by (simp add: call_exn_def)

lemma steps_refuse: "(\<And>e. lease_exn e \<Longrightarrow> F e) \<Longrightarrow> steps_ok i v l0 F (refuse r st d)"
  by (rule ensures_weaken [OF ensures_refuse]) auto

lemma steps_Go: "steps_ok i v l0 F (\<lambda>s. (Go x, s))"
  by (simp add: ensures_def)

lemma steps_cond: "(P \<Longrightarrow> steps_ok i v l0 F a) \<Longrightarrow> (\<not> P \<Longrightarrow> steps_ok i v l0 F b) \<Longrightarrow>
    steps_ok i v l0 F (\<lambda>s. if P then a s else b s)"
  by (simp add: ensures_def)

definition ok_at :: "int \<Rightarrow> int \<Rightarrow> log_entry list \<Rightarrow> (exn \<Rightarrow> bool) \<Rightarrow> 'a flow \<times> rstate \<Rightarrow> bool" where
  "ok_at i v l0 F p =
     (case p of (Go x, s') \<Rightarrow> going i v l0 s' | (Halt, s') \<Rightarrow> settled i v l0 (rs_world s') | (Fail e, s') \<Rightarrow> F e)"

lemma ok_atI: "steps_ok i v l0 F m \<Longrightarrow> going i v l0 s \<Longrightarrow> ok_at i v l0 F (m s)"
  by (simp add: ensures_def ok_at_def)

lemma steps_pointwise: "(\<And>s. going i v l0 s \<Longrightarrow> ok_at i v l0 F (m s)) \<Longrightarrow> steps_ok i v l0 F m"
  by (simp add: ensures_def ok_at_def)

lemma ok_at_simps:
  "ok_at i v l0 F (Go x, s) \<longleftrightarrow> going i v l0 s" "ok_at i v l0 F (Fail e, s) \<longleftrightarrow> F e"
  "ok_at i v l0 F (Halt, s) \<longleftrightarrow> settled i v l0 (rs_world s)"
  by (simp_all add: ok_at_def)

lemma going_world: "going i v l0 s \<Longrightarrow> w_db w = w_db (rs_world s) \<Longrightarrow> going i v l0 (s\<lparr>rs_world := w\<rparr>)"
  by (simp add: going_def)

lemmas steps_refused = ok_atI [OF steps_refuse]

lemma steps_guard: "steps_ok i v l0 call_exn (interruption_guard r)"
  by (rule steps_pointwise) (auto simp: interruption_guard_def ok_at_simps intro!: steps_refused call_exn_lease)

lemma steps_blocklist:
  assumes "wf_env (re_env r)"
  shows "steps_ok i v l0 call_exn (blocklist_step r)"
proof (rule steps_pointwise)
  fix s assume g: "going i v l0 s"
  show "ok_at i v l0 call_exn (blocklist_step r s)"
  proof (cases "f_history_id (rs_file s)")
    case None
    with g show ?thesis by (simp add: blocklist_step_def ok_at_simps going_log)
  next
    case (Some h)
    show ?thesis unfolding blocklist_step_def Some option.case
      by (rule ok_atI [OF ensures_bind [OF ensures_sonarr [OF good_mutations(1) [OF assms] call_exn_lease]
            ensures_logged_going] g])
  qed
qed

lemma os_call_world: "os_call env op w = (x, w') \<Longrightarrow> w_db w' = w_db w"
  by (auto simp: os_call_def split: option.splits)

lemma os_call_OSErr: "os_call env op w = (Inl e, w') \<Longrightarrow> \<exists>n m. e = OSErr n m"
  by (auto simp: os_call_def os_exn_def split: option.splits)

lemma link_or_copy_world: "link_or_copy env a b w = (x, w') \<Longrightarrow> w_db w' = w_db w"
  by (auto simp: link_or_copy_def split: prod.splits sum.splits exn.splits if_splits dest!: os_call_world)

lemma going_trash: "going i v l0 s \<Longrightarrow> going i v l0 (insert_trash r tc ex s)"
  by (simp add: going_def insert_trash_def Let_def jobs_wf_def)

lemma steps_trash: "steps_ok i v l0 call_exn (trash_step r)"
proof (rule steps_pointwise)
  fix s assume g: "going i v l0 s"
  show "ok_at i v l0 call_exn (trash_step r s)"
  proof (cases "re_trash r")
    case None
    with g show ?thesis by (simp add: trash_step_def ok_at_simps)
  next
    case (Some tc)
    let ?local = "path_str (mk_path (f_local_path (rs_file s)))"
    let ?tp = "trash_path_of r tc s"
    obtain x w where mk: "os_call (re_env r) (OsMkdir (path_str (trash_dir r tc))) (rs_world s) = (x, w)"
      by (cases "os_call (re_env r) (OsMkdir (path_str (trash_dir r tc))) (rs_world s)")
    obtain y w' where lc: "link_or_copy (re_env r) ?local ?tp w = (y, w')"
      by (cases "link_or_copy (re_env r) ?local ?tp w")
    have "going i v l0 (s\<lparr>rs_world := w\<rparr>)" "going i v l0 (s\<lparr>rs_world := w'\<rparr>)"
      using g os_call_world [OF mk] link_or_copy_world [OF lc] by (auto intro: going_world)
    with g Some mk lc show ?thesis
      by (cases x; cases y)
        (auto simp: trash_step_def Let_def ok_at_simps going_log going_trash intro!: steps_refused call_exn_lease)
  qed
qed

lemma steps_delete:
  assumes "wf_env (re_env r)"
  shows "steps_ok i v l0 call_exn (delete_step r sfx d)"
proof (rule steps_pointwise)
  fix s assume g: "going i v l0 s"
  show "ok_at i v l0 call_exn (delete_step r sfx d s)" unfolding delete_step_def
    by (rule ok_atI [OF ensures_bind [OF ensures_sonarr [OF good_mutations(2) [OF assms] call_exn_lease]
            ensures_logged_going] g])
qed

text \<open>The last call of a sequence and the release after it.\<close>

lemma steps_last:
  assumes "good_call F call" "\<And>e. lease_exn e \<Longrightarrow> F e"
  shows "steps_ok i v l0 F (flow_bind (flow_bind (sonarr_step r st sfx call)
      (\<lambda>_ s. (Go (), log_step r st' True (d s) s))) (\<lambda>_. settle_job r Remediated))"
proof (rule ensures_bind)
  show "ensures (going i v l0) (flow_bind (sonarr_step r st sfx call)
      (\<lambda>_ s. (Go (), log_step r st' True (d s) s))) (\<lambda>_ s. going i v l0 s \<and> log_written s)
      (\<lambda>s. settled i v l0 (rs_world s)) (\<lambda>e s. F e)"
    by (rule ensures_bind [OF ensures_sonarr [OF assms] ensures_logged])
  show "ensures (\<lambda>s. going i v l0 s \<and> log_written s) (settle_job r Remediated)
      (\<lambda>_. going i v l0) (\<lambda>s. settled i v l0 (rs_world s)) (\<lambda>e s. F e)"
    by (rule ensures_weaken [OF ensures_settle]) (use assms(2) in auto)
qed

lemma flow_bind_at: "flow_bind (\<lambda>s. f s s) g s = flow_bind (f s) g s"
  by (simp add: flow_bind_def)

lemma steps_search:
  assumes "wf_env (re_env r)"
  shows "steps_ok i v l0 call_exn (flow_bind (search_step r) (\<lambda>_. settle_job r Remediated))"
proof (rule steps_pointwise)
  fix s assume g: "going i v l0 s"
  show "ok_at i v l0 call_exn (flow_bind (search_step r) (\<lambda>_. settle_job r Remediated) s)"
    unfolding search_step_def flow_bind_at [of "\<lambda>t. flow_bind (sonarr_step r ''episode_search'' []
          (command (re_env r) (re_client r) ''EpisodeSearch''
             [(''episodeIds'', JList (map JInt (f_episode_ids (rs_file t))))])) _"]
    by (rule ok_atI [OF steps_last [OF good_mutations(3) [OF assms] call_exn_lease] g])
qed

lemma steps_delete_and_search:
  assumes "wf_env (re_env r)"
  shows "steps_ok i v l0 call_exn (delete_and_search r sfx)"
proof (rule steps_pointwise)
  fix s assume g: "going i v l0 s"
  show "ok_at i v l0 call_exn (delete_and_search r sfx s)" unfolding delete_and_search_def
    by (rule ok_atI [OF ensures_bind [OF steps_delete [OF assms] steps_search [OF assms]] g])
qed

lemma steps_replace:
  assumes "wf_env (re_env r)"
  shows "steps_ok i v l0 call_exn (replace_body r)"
  unfolding replace_body_def
  by (intro ensures_bind [OF steps_guard] ensures_bind [OF steps_blocklist [OF assms]]
      ensures_bind [OF steps_trash] steps_delete_and_search assms)

lemma steps_fetch:
  assumes "wf_env (re_env r)"
  shows "steps_ok i v l0 (\<lambda>_. True) (fetch_targets r ts)"
proof (rule steps_pointwise)
  fix s assume g: "going i v l0 s"
  obtain x w where e: "get_episodes (re_env r) (re_codec r) (re_client r) (f_series_id (rs_file s)) (rs_world s) = (x, w)"
    by (cases "get_episodes (re_env r) (re_codec r) (re_client r) (f_series_id (rs_file s)) (rs_world s)")
  have "jobs_wf (w_db w)"
    using good_gets(1) [OF assms] e g unfolding good_call_def going_def by blast
  with g e show "ok_at i v l0 (\<lambda>_. True) (fetch_targets r ts s)"
    by (cases x) (auto simp: fetch_targets_def ok_at_simps going_def)
qed

lemma steps_resolution: "steps_ok i v l0 (\<lambda>_. True) (resolution_check r ts eps)"
  by (rule steps_pointwise)
    (auto simp: resolution_check_def Let_def ok_at_simps intro!: steps_refused)

lemma steps_occupied: "steps_ok i v l0 (\<lambda>_. True) (occupied_check r ts eps)"
proof (rule steps_pointwise)
  fix s assume g: "going i v l0 s"
  show "ok_at i v l0 (\<lambda>_. True) (occupied_check r ts eps s)"
  proof (cases "filter ep_has_file eps = []")
    case True
    with g show ?thesis by (simp add: occupied_check_def ok_at_simps)
  next
    case False
    let ?occ = "filter ep_has_file eps"
    let ?d = "''refusing remap: target episode(s) already have a file: '' @
                   join '', '' (map episode_label ?occ) @ '' (ids='' @ show_ints (map ep_id ?occ) @ '')''"
    let ?s1 = "log_step r ''occupied_check'' False ?d s"
    let ?s2 = "?s1\<lparr>rs_world := (rs_world ?s1)\<lparr>w_db := set_proposed (rs_verdict ?s1)
                       (Some (RemapJson (sorted_list_of_set ts))) (w_db (rs_world ?s1))\<rparr>\<rparr>"
    obtain y s3 where y: "settle_job r Quarantine ?s2 = (y, s3)" by (cases "settle_job r Quarantine ?s2")
    have eq: "occupied_check r ts eps s = (case settle_job r Quarantine ?s2 of
        (Fail e, _) \<Rightarrow> (Fail e, ?s1) | (_, s') \<Rightarrow> (Halt, s'))"
      by (simp only: occupied_check_def Let_def if_P [OF False])
    obtain new where new: "rs_log s = l0 @ new" "list_all le_ok new" using g by (auto simp: going_def)
    obtain e where e: "rs_log ?s1 = rs_log s @ [e]" "\<not> le_ok e" using log_step_facts(7) by blast
    from settle_job_Halt [OF y] show ?thesis
    proof (elim disjE exE conjE)
      fix x assume "y = Fail x"
      then show ?thesis unfolding eq y by (simp add: ok_at_simps)
    next
      fix d' assume h: "y = Halt" "s3 = ?s2\<lparr>rs_job := unleased Quarantine (rs_job ?s2), rs_world := (rs_world ?s2)\<lparr>w_db := d'\<rparr>\<rparr>"
        and rel: "release (w_db (rs_world ?s2)) (rs_job ?s2) Quarantine (re_worker r)
          (now_of (re_env r) (rs_world ?s2)) = Inr (unleased Quarantine (rs_job ?s2), d')"
      have wf: "jobs_wf (w_db (rs_world ?s2))" using g by (simp add: going_def log_step_facts jobs_wf_def)
      have id: "j_id (rs_job ?s2) = i" "rs_verdict ?s1 = v" using g by (auto simp: going_def log_step_facts)
      have "verdict_log v (l0 @ (new @ [e])) (w_db (rs_world ?s2))"
        using log_written_log [of r "''occupied_check''" False ?d s] e new id
        by (simp add: log_written_def verdict_log_proposed)
      then have "verdict_log v (l0 @ (new @ [e])) d'"
        using release_world(3) [OF wf rel] by (simp add: verdict_log_def)
      then have "settled i v l0 (rs_world s3)"
        using release_world(1,2) [OF wf rel] h(2) id e new
        unfolding settled_def by (intro exI [of _ "new @ [e]"]) simp
      then show ?thesis unfolding eq y h(1) by (simp add: ok_at_simps)
    qed
  qed
qed

lemma staging_link_world: "staging_link r a b w = (x, w') \<Longrightarrow> w_db w' = w_db w"
  by (auto simp: staging_link_def split: prod.splits sum.splits dest!: os_call_world)

lemma steps_hardlink: "steps_ok i v l0 (\<lambda>_. True) (hardlink_step r sp)"
proof (rule steps_pointwise)
  fix s assume g: "going i v l0 s"
  let ?local = "path_str (mk_path (f_local_path (rs_file s)))"
  obtain x w where sl: "staging_link r ?local sp (rs_world s) = (x, w)"
    by (cases "staging_link r ?local sp (rs_world s)")
  obtain y w' where cp: "os_call (re_env r) (OsCopy2 ?local sp) w = (y, w')"
    by (cases "os_call (re_env r) (OsCopy2 ?local sp) w")
  have "going i v l0 (s\<lparr>rs_world := w\<rparr>)" "going i v l0 (s\<lparr>rs_world := w'\<rparr>)"
    using g staging_link_world [OF sl] os_call_world [OF cp] by (auto intro: going_world)
  with g sl cp show "ok_at i v l0 (\<lambda>_. True) (hardlink_step r sp s)"
    by (cases x; cases y)
      (auto simp: hardlink_step_def Let_def ok_at_simps going_log split: exn.splits intro!: steps_refused)
qed

lemma steps_True: "steps_ok i v l0 F m \<Longrightarrow> steps_ok i v l0 (\<lambda>_. True) m"
  by (erule ensures_weaken) auto

lemma steps_candidates:
  assumes "wf_env (re_env r)"
  shows "steps_ok i v l0 (\<lambda>_. True) (candidates_step r sp)"
proof (rule steps_pointwise)
  fix s assume g: "going i v l0 s"
  show "ok_at i v l0 (\<lambda>_. True) (candidates_step r sp s)" unfolding candidates_step_def
  proof (rule ok_atI [OF ensures_bind [OF ensures_sonarr [OF good_gets(2) [OF assms]] steps_pointwise] g])
    fix cs s' assume g': "going i v l0 s'"
    then show "ok_at i v l0 (\<lambda>_. True) (case match_candidate sp cs of
             None \<Rightarrow> refuse r ''manual_import_candidates''
                 (''no candidate matched staged file '' @ path_name (mk_path sp) @ ''; staging_path='' @ sp) s'
           | Some m \<Rightarrow> (Go m, log_step r ''manual_import_candidates'' True
                        (''matched candidate path='' @ mi_path m) s'))"
      by (auto simp: ok_at_simps going_log intro!: steps_refused split: option.splits)
  qed simp
qed

lemma steps_import:
  assumes "wf_env (re_env r)"
  shows "steps_ok i v l0 (\<lambda>_. True) (flow_bind (import_step r eps sp m) (\<lambda>_. settle_job r Remediated))"
proof (rule steps_pointwise)
  fix s assume g: "going i v l0 s"
  show "ok_at i v l0 (\<lambda>_. True) (flow_bind (import_step r eps sp m) (\<lambda>_. settle_job r Remediated) s)"
    unfolding import_step_def flow_bind_at [of "\<lambda>t. flow_bind (sonarr_step r ''execute_manual_import'' (''; staging_path='' @ sp)
          (execute_manual_import (re_env r) (re_client r)
             [import_payload (rs_file t) (set (map ep_id eps)) m] ''move'')) _"]
    by (rule ok_atI [OF steps_True [OF steps_last [OF good_mutations(4) [OF assms] call_exn_lease]] g])
qed

lemma steps_tail:
  assumes "wf_env (re_env r)"
  shows "steps_ok i v l0 (\<lambda>_. True) (import_tail r eps sp)"
proof (cases "re_dry_run r")
  case True
  have "steps_ok i v l0 (\<lambda>_. True) (flow_bind (\<lambda>s. (Go (), log_step r ''manual_import'' True (import_detail eps) s))
      (\<lambda>_. settle_job r Remediated))"
    by (rule ensures_bind [OF ensures_logged], rule ensures_weaken [OF ensures_settle]) auto
  with True show ?thesis by (simp add: import_tail_def flow_bind_def ensures_def)
next
  case False
  have "steps_ok i v l0 (\<lambda>_. True) (flow_bind (candidates_step r sp) (\<lambda>m.
        flow_bind (import_step r eps sp m) (\<lambda>_. settle_job r Remediated)))"
    by (rule ensures_bind [OF steps_candidates [OF assms] steps_import [OF assms]])
  with False show ?thesis by (simp add: import_tail_def ensures_def)
qed

lemma steps_stage_and_import:
  assumes "wf_env (re_env r)"
  shows "steps_ok i v l0 (\<lambda>_. True) (stage_and_import r eps)"
proof (rule steps_pointwise)
  fix s assume g: "going i v l0 s"
  show "ok_at i v l0 (\<lambda>_. True) (stage_and_import r eps s)"
  proof (cases "eps = []")
    case True
    then show ?thesis by (simp add: ok_at_simps stage_and_import_def)
  next
    case False
    show ?thesis unfolding stage_and_import_def Let_def if_not_P [OF False]
      by (rule ok_atI [OF ensures_bind [OF steps_hardlink ensures_bind [OF steps_True [OF steps_delete [OF assms]]
              steps_tail [OF assms]]] g])
  qed
qed

lemma steps_remap:
  assumes "wf_env (re_env r)"
  shows "steps_ok i v l0 (\<lambda>_. True) (remap_body r ts)"
  unfolding remap_body_def
  by (intro ensures_bind [OF steps_True [OF steps_guard]] ensures_bind [OF steps_fetch [OF assms]]
      ensures_bind [OF steps_resolution] ensures_bind [OF steps_occupied] steps_stage_and_import assms)

section \<open>No deletion without a copy\<close>

fun is_copy :: "string \<Rightarrow> effect \<Rightarrow> bool" where
  "is_copy p (EOs (OsLink s d) None) = (s = p)"
| "is_copy p (EOs (OsCopy2 s d) None) = (s = p)"
| "is_copy p _ = False"

fun copied_first :: "string \<Rightarrow> bool \<Rightarrow> effect list \<Rightarrow> bool" where
  "copied_first p seen [] = True"
| "copied_first p seen (e # es) = ((is_delete e \<longrightarrow> seen) \<and> copied_first p (seen \<or> is_copy p e) es)"

lemma copied_first_True: "copied_first p True es"
  by (induction es) auto

lemma copied_first_append:
  "copied_first p b (es @ fs) \<longleftrightarrow> copied_first p b es \<and> copied_first p (b \<or> list_ex (is_copy p) es) fs"
  by (induction es arbitrary: b) (auto simp: disj_ac)

lemma copied_first_no_delete: "list_all (\<lambda>e. \<not> is_delete e) es \<Longrightarrow> copied_first p b es"
  by (induction es arbitrary: b) auto

definition guarded :: "effect list \<Rightarrow> string \<Rightarrow> bool \<Rightarrow> rstate \<Rightarrow> bool" where
  "guarded tr p seen s \<longleftrightarrow> path_str (mk_path (f_local_path (rs_file s))) = p \<and>
     (\<exists>es. w_trace (rs_world s) = tr @ es \<and> copied_first p False es \<and> (seen \<longrightarrow> list_ex (is_copy p) es))"

lemma guarded_weaken: "guarded tr p b s \<Longrightarrow> guarded tr p False s"
  by (auto simp: guarded_def)

lemma frame_guarded:
  assumes "frame r E s s'" "guarded tr p b s" "b \<or> (\<forall>e. E e \<longrightarrow> \<not> is_delete e)"
  shows "guarded tr p b s'"
proof -
  obtain es where es: "w_trace (rs_world s) = tr @ es" "copied_first p False es" "b \<longrightarrow> list_ex (is_copy p) es"
    using assms(2) by (auto simp: guarded_def)
  obtain fs where fs: "w_trace (rs_world s') = tr @ es @ fs" "list_all E fs"
    using assms(1) es(1) by (auto simp: frame_def new_events_def)
  have "copied_first p False (es @ fs)"
    using es fs assms(3) by (cases b) (auto simp: copied_first_append copied_first_True list_all_iff
        intro!: copied_first_no_delete)
  with es fs assms(1,2) show ?thesis by (auto simp: guarded_def frame_def)
qed

abbreviation guards :: "effect list \<Rightarrow> string \<Rightarrow> bool \<Rightarrow> bool \<Rightarrow> 'a step \<Rightarrow> bool" where
  "guards tr p b b' m \<equiv>
     ensures (guarded tr p b) m (\<lambda>_. guarded tr p b') (guarded tr p False) (\<lambda>_. guarded tr p False)"

lemma framed_guards:
  assumes "framed r E m" "b \<or> (\<forall>e. E e \<longrightarrow> \<not> is_delete e)"
  shows "guards tr p b b m"
  by (rule ensuresI) (meson frame_guarded [OF framedD [OF assms(1)] _ assms(2)] guarded_weaken)+

lemma no_delete_emits:
  "emits (\<lambda>e. \<not> is_delete e) (mark_history_failed env c h)"
  "emits (\<lambda>e. \<not> is_delete e) (command env c n b)"
  "emits (\<lambda>e. \<not> is_delete e) (execute_manual_import env c fs m)"
  unfolding mark_history_failed_def command_def execute_manual_import_def
  by (intro emits_unless disjI2 emits_get)+

lemma any_emits:
  "emits (\<lambda>e. True) (delete_episode_file env c h)" "emits (\<lambda>e. True) (command env c n b)"
  "emits (\<lambda>e. True) (manual_import_candidates env cd c f)" "emits (\<lambda>e. True) (execute_manual_import env c fs m)"
  unfolding delete_episode_file_def command_def execute_manual_import_def manual_import_candidates_def
  by (intro emits_then_decode emits_unless disjI2 emits_True)+

lemma os_call_copy:
  "os_call env op w = (Inr u, w') \<Longrightarrow> w_trace w' = w_trace w @ [EOs op None]"
  by (auto simp: os_call_def split: option.splits)

lemma link_or_copy_trace:
  assumes "link_or_copy env a b w = (Inr u, w')"
  shows "\<exists>es. w_trace w' = w_trace w @ es \<and> list_ex (is_copy a) es \<and> list_all (\<lambda>e. \<not> is_delete e) es"
proof -
  obtain y w1 where l: "os_call env (OsLink a b) w = (y, w1)" by (cases "os_call env (OsLink a b) w")
  obtain es where es: "w_trace w1 = w_trace w @ es" "list_all (\<lambda>e. \<exists>err. e = EOs (OsLink a b) err) es"
    using os_call_events [OF l] by (auto simp: new_events_def)
  show ?thesis
  proof (cases y)
    case (Inr v)
    with assms l os_call_copy [of env "OsLink a b" w v w1] show ?thesis by (auto simp: link_or_copy_def)
  next
    case (Inl e)
    with assms l have "os_call env (OsCopy2 a b) w1 = (Inr u, w')"
      by (auto simp: link_or_copy_def split: exn.splits if_splits)
    from os_call_copy [OF this] es show ?thesis
      by (intro exI [of _ "es @ [EOs (OsCopy2 a b) None]"]) (auto simp: list_all_iff)
  qed
qed

lemma guarded_copied:
  assumes "guarded tr p b s" "w_trace w = w_trace (rs_world s) @ es" "list_ex (is_copy p) es"
    "list_all (\<lambda>e. \<not> is_delete e) es"
  shows "guarded tr p True (s\<lparr>rs_world := w\<rparr>)"
  using assms by (auto simp: guarded_def copied_first_append copied_first_no_delete)

lemma guarded_log: "guarded tr p b s \<Longrightarrow> guarded tr p b (log_step r st ok d s)"
  by (simp add: guarded_def log_step_facts)

lemma guarded_insert: "guarded tr p b s \<Longrightarrow> guarded tr p b (insert_trash r tc ex s)"
  by (simp add: guarded_def insert_trash_def Let_def)

lemma refuse_guarded:
  assumes "guarded tr p b s" "refuse r st d s = (x, s')"
  shows "guarded tr p b s' \<and> x \<noteq> Go y"
proof
  show "guarded tr p b s'"
    by (rule frame_guarded [OF framedD [OF framed_refuse assms(2)] assms(1), of "\<lambda>_. False"]) simp
  show "x \<noteq> Go y" using assms(2) by (auto simp: refuse_def split: prod.splits flow.splits)
qed


lemma guarded_world:
  assumes "guarded tr p False s" "new_events (\<lambda>e. \<not> is_delete e) (rs_world s) w"
  shows "guarded tr p False (s\<lparr>rs_world := w\<rparr>)"
  using frame_guarded [OF frame_world [OF assms(2)] assms(1)] by simp

lemma os_no_delete: "os_call env op w = (x, w') \<Longrightarrow> new_events (\<lambda>e. \<not> is_delete e) w w'"
  by (rule new_events_mono [OF os_call_events]) auto

definition guarded_at :: "effect list \<Rightarrow> string \<Rightarrow> 'a flow \<times> rstate \<Rightarrow> bool" where
  "guarded_at tr p r = (case r of (Go x, s') \<Rightarrow> guarded tr p True s' | (_, s') \<Rightarrow> guarded tr p False s')"

lemma guarded_at_simps [simp]:
  "guarded_at tr p (Go x, s) \<longleftrightarrow> guarded tr p True s"
  "guarded_at tr p (Fail e, s) \<longleftrightarrow> guarded tr p False s"
  by (simp_all add: guarded_at_def)

lemma guarded_refuse: "guarded tr p False s \<Longrightarrow> guarded_at tr p (refuse r st d s :: 'a flow \<times> rstate)"
proof -
  assume g: "guarded tr p False s"
  obtain x s' where e: "(refuse r st d s :: 'a flow \<times> rstate) = (x, s')" by (metis surj_pair)
  from refuse_guarded [OF g e] show ?thesis unfolding e by (cases x) (auto simp: guarded_at_def)
qed

lemma guards_pointwise: "(\<And>s. guarded tr p False s \<Longrightarrow> guarded_at tr p (m s)) \<Longrightarrow> guards tr p False True m"
  by (auto simp: ensures_def guarded_at_def split: flow.splits prod.splits)

definition trash_on :: "remediator \<Rightarrow> bool" where
  "trash_on r \<longleftrightarrow> (case re_trash r of None \<Rightarrow> False | Some tc \<Rightarrow> tc_enabled tc)"

lemma guards_trash:
  assumes "\<not> re_dry_run r" "trash_on r"
  shows "guards tr p False True (trash_step r)"
proof (rule guards_pointwise)
  fix s assume g: "guarded tr p False s"
  obtain tc where tc: "re_trash r = Some tc" "tc_enabled tc"
    using assms(2) by (auto simp: trash_on_def split: option.splits)
  have p: "path_str (mk_path (f_local_path (rs_file s))) = p" using g by (simp add: guarded_def)
  obtain x w where mk: "os_call (re_env r) (OsMkdir (path_str (trash_dir r tc))) (rs_world s) = (x, w)"
    by (cases "os_call (re_env r) (OsMkdir (path_str (trash_dir r tc))) (rs_world s)")
  have g1: "guarded tr p False (s\<lparr>rs_world := w\<rparr>)" by (rule guarded_world [OF g os_no_delete [OF mk]])
  obtain y w' where lc: "link_or_copy (re_env r) p (trash_path_of r tc s) w = (y, w')"
    by (cases "link_or_copy (re_env r) p (trash_path_of r tc s) w")
  have g2: "guarded tr p False (s\<lparr>rs_world := w'\<rparr>)"
    using guarded_world [OF g1, of w'] link_or_copy_events [OF lc] by simp
  show "guarded_at tr p (trash_step r s)"
  proof (cases x)
    case (Inl e)
    with tc mk p assms(1) guarded_refuse [OF g1] show ?thesis by (simp add: trash_step_def Let_def)
  next
    case x: (Inr u)
    show ?thesis
    proof (cases y)
      case (Inl e)
      with x tc mk lc p assms(1) guarded_refuse [OF g2] show ?thesis by (simp add: trash_step_def Let_def)
    next
      case (Inr u')
      with lc obtain es where "w_trace w' = w_trace w @ es" "list_ex (is_copy p) es" "list_all (\<lambda>e. \<not> is_delete e) es"
        using link_or_copy_trace by blast
      then have "guarded tr p True (s\<lparr>rs_world := w'\<rparr>)"
        using guarded_copied [OF g1, of w' es] by simp
      with x Inr tc mk lc p assms(1) show ?thesis
        by (simp add: trash_step_def Let_def guarded_log guarded_insert)
    qed
  qed
qed

lemma guards_hardlink:
  assumes "\<not> re_dry_run r"
  shows "guards tr p False True (hardlink_step r sp)"
proof (rule guards_pointwise)
  fix s assume g: "guarded tr p False s"
  have p: "path_str (mk_path (f_local_path (rs_file s))) = p" using g by (simp add: guarded_def)
  obtain x w where mk: "os_call (re_env r) (OsMkdir (staging_dir_of r)) (rs_world s) = (x, w)"
    by (cases "os_call (re_env r) (OsMkdir (staging_dir_of r)) (rs_world s)")
  have g1: "guarded tr p False (s\<lparr>rs_world := w\<rparr>)" by (rule guarded_world [OF g os_no_delete [OF mk]])
  obtain y w1 where sl: "staging_link r p sp (rs_world s) = (y, w1)" by (cases "staging_link r p sp (rs_world s)")
  have g2: "guarded tr p (\<not> isl y) (s\<lparr>rs_world := w1\<rparr>)"
  proof (cases x)
    case (Inl e)
    with sl mk g1 show ?thesis by (auto simp: staging_link_def)
  next
    case (Inr u)
    with sl mk have lk: "os_call (re_env r) (OsLink p sp) w = (y, w1)" by (simp add: staging_link_def)
    show ?thesis
    proof (cases y)
      case (Inl e)
      with guarded_world [OF g1, of w1] os_no_delete [OF lk] show ?thesis by simp
    next
      case (Inr u')
      with guarded_copied [OF g1, of w1 "[EOs (OsLink p sp) None]"] os_call_copy lk show ?thesis by simp
    qed
  qed
  obtain z w2 where cp: "os_call (re_env r) (OsCopy2 p sp) w1 = (z, w2)" by (cases "os_call (re_env r) (OsCopy2 p sp) w1")
  have g3: "guarded tr p (\<not> isl z) (s\<lparr>rs_world := w2\<rparr>)" if "isl y"
  proof (cases z)
    case (Inl e)
    with guarded_world [of tr p "s\<lparr>rs_world := w1\<rparr>" w2] g2 that os_no_delete [OF cp] show ?thesis by simp
  next
    case (Inr u')
    with guarded_copied [of tr p False "s\<lparr>rs_world := w1\<rparr>" w2 "[EOs (OsCopy2 p sp) None]"] g2 that os_call_copy cp
    show ?thesis by simp
  qed
  show "guarded_at tr p (hardlink_step r sp s)"
    using assms p sl cp g2 g3
    by (cases y; cases z) (auto simp: hardlink_step_def Let_def guarded_log split: exn.splits intro!: guarded_refuse)
qed

text \<open>The two sequences.\<close>

lemma ensures_at: "ensures P m Q H F \<Longrightarrow> P s \<Longrightarrow>
    (case m s of (Go x, s') \<Rightarrow> Q x s' | (Halt, s') \<Rightarrow> H s' | (Fail e, s') \<Rightarrow> F e s')"
  by (simp add: ensures_def)

lemmas framed_no_delete = framed_guards [where E = "\<lambda>e. \<not> is_delete e" and b = False, simplified]
lemmas framed_any = framed_guards [where E = "\<lambda>e. True" and b = True, simplified]

lemma guards_replace:
  assumes "\<not> re_dry_run r" "trash_on r"
  shows "guards tr p False True (replace_body r)"
  unfolding replace_body_def
  by (rule ensures_bind [OF framed_no_delete [OF framed_guard]],
      rule ensures_bind [OF framed_no_delete [OF framed_blocklist [OF no_delete_emits(1)]]],
      rule ensures_bind [OF guards_trash [OF assms]],
      rule framed_any [OF framed_delete_and_search [OF any_emits(1,2)]])

lemma guards_stage_and_import:
  assumes "\<not> re_dry_run r"
  shows "guards tr p False False (stage_and_import r eps)"
proof (cases "eps = []")
  case True
  then show ?thesis by (simp add: ensures_def stage_and_import_def)
next
  case False
  have body: "guards tr p False False (flow_bind (hardlink_step r sp) (\<lambda>_.
           flow_bind (delete_step r (''; staging_path='' @ sp) d) (\<lambda>_. import_tail r eps sp)))" for sp d
  proof (rule ensures_bind [OF guards_hardlink [OF assms]])
    have "framed r (\<lambda>e. True) (flow_bind (delete_step r (''; staging_path='' @ sp) d) (\<lambda>_. import_tail r eps sp))"
      by (intro framed_bind framed_delete framed_tail any_emits)
    from framed_any [OF this]
    show "guards tr p True False (flow_bind (delete_step r (''; staging_path='' @ sp) d) (\<lambda>_. import_tail r eps sp))"
      by (rule ensures_weaken) (auto intro: guarded_weaken)
  qed
  show ?thesis
    unfolding ensures_def
  proof (intro allI impI)
    fix s assume g: "guarded tr p False s"
    show "case stage_and_import r eps s of (Go x, s') \<Rightarrow> guarded tr p False s'
        | (Halt, s') \<Rightarrow> guarded tr p False s' | (Fail e, s') \<Rightarrow> guarded tr p False s'"
      unfolding stage_and_import_def Let_def if_not_P [OF False]
      by (rule ensures_at [OF body g])
  qed
qed

lemma guards_remap:
  assumes "\<not> re_dry_run r"
  shows "guards tr p False False (remap_body r ts)"
  unfolding remap_body_def
  by (rule ensures_bind [OF framed_no_delete [OF framed_guard]],
      rule ensures_bind [OF framed_no_delete [OF framed_fetch [OF get_emits(2)]]],
      rule ensures_bind [OF framed_no_delete [OF framed_resolution]],
      rule ensures_bind [OF framed_no_delete [OF framed_occupied]],
      rule guards_stage_and_import [OF assms])

section \<open>No file is overwritten\<close>

text \<open>The content of a file that exists stays, when nobody else touches the disk.\<close>

definition fs_quiet :: "environ \<Rightarrow> bool" where
  "fs_quiet env \<longleftrightarrow> (\<forall>tr f. en_fs env tr f = f) \<and> (\<forall>tr p. en_fault env tr (OsMkdir p) \<noteq> Some EXDEV)"

definition keeps_files :: "file_system \<Rightarrow> file_system \<Rightarrow> bool" where
  "keeps_files f g \<longleftrightarrow> (\<forall>p. f p \<noteq> None \<longrightarrow> g p = f p)"

lemma keeps_refl [simp]: "keeps_files f f"
  by (simp add: keeps_files_def)

lemma keeps_trans: "keeps_files f g \<Longrightarrow> keeps_files g h \<Longrightarrow> keeps_files f h"
  by (auto simp: keeps_files_def)

lemma os_call_keeps:
  assumes "os_call env op w = (x, w')" "\<And>p. op \<noteq> OsUnlink p"
    "\<And>s d. op = OsCopy2 s d \<Longrightarrow> w_fs w d = None"
  shows "keeps_files (w_fs w) (w_fs w')"
  using assms by (cases op) (auto simp: os_call_def keeps_files_def split: option.splits if_splits)

lemma os_link_EXDEV: "os_call env (OsLink a b) w = (Inl (OSErr EXDEV m), w') \<Longrightarrow> w_fs w' = w_fs w \<and> w_fs w b = None"
  by (auto simp: os_call_def os_exn_def split: option.splits if_splits)

lemma os_call_fail_fs: "os_call env op w = (Inl e, w') \<Longrightarrow> w_fs w' = w_fs w"
  by (auto simp: os_call_def split: option.splits)

lemma link_or_copy_keeps:
  assumes "link_or_copy env a b w = (x, w')"
  shows "keeps_files (w_fs w) (w_fs w')"
proof -
  obtain y w1 where l: "os_call env (OsLink a b) w = (y, w1)" by (cases "os_call env (OsLink a b) w")
  have 1: "keeps_files (w_fs w) (w_fs w1)" by (rule os_call_keeps [OF l]) auto
  show ?thesis
  proof (cases "\<exists>m. y = Inl (OSErr EXDEV m)")
    case True
    then obtain m where y: "y = Inl (OSErr EXDEV m)" by blast
    with assms l have c: "os_call env (OsCopy2 a b) w1 = (x, w')" by (simp add: link_or_copy_def)
    from os_link_EXDEV [of env a b w m w1] l y have "w_fs w1 b = None" by simp
    then have "keeps_files (w_fs w1) (w_fs w')" by (intro os_call_keeps [OF c]) auto
    with 1 show ?thesis by (rule keeps_trans)
  next
    case False
    with assms l have "w' = w1" by (auto simp: link_or_copy_def split: sum.splits exn.splits if_splits)
    with 1 show ?thesis by simp
  qed
qed

text \<open>The relation between two states that a step must keep.\<close>

definition files_kept :: "'a step \<Rightarrow> bool" where
  "files_kept m \<longleftrightarrow> (\<forall>s x s'. m s = (x, s') \<longrightarrow> keeps_files (w_fs (rs_world s)) (w_fs (rs_world s')))"

lemma files_keptD: "files_kept m \<Longrightarrow> m s = (x, s') \<Longrightarrow> keeps_files (w_fs (rs_world s)) (w_fs (rs_world s'))"
  by (simp add: files_kept_def)

lemma kept_bind:
  assumes "files_kept m" "\<And>x. files_kept (f x)"
  shows "files_kept (flow_bind m f)"
  unfolding files_kept_def
proof (intro allI impI)
  fix s x s' assume e: "flow_bind m f s = (x, s')"
  obtain y s1 where m: "m s = (y, s1)" by (cases "m s")
  have "keeps_files (w_fs (rs_world s)) (w_fs (rs_world s1))" by (rule files_keptD [OF assms(1) m])
  moreover have "keeps_files (w_fs (rs_world s1)) (w_fs (rs_world s'))"
    using e m files_keptD [OF assms(2)] by (cases y) (auto simp: flow_bind_def)
  ultimately show "keeps_files (w_fs (rs_world s)) (w_fs (rs_world s'))" by (rule keeps_trans)
qed

lemma kept_self: "(\<And>t. files_kept (f t)) \<Longrightarrow> files_kept (\<lambda>s. f s s)"
  by (simp add: files_kept_def)

lemma kept_log: "files_kept (\<lambda>s. (Go x, log_step r st ok (d s) s))" and kept_Go: "files_kept (\<lambda>s. (Go x, s))"
  by (simp_all add: files_kept_def log_step_facts)

lemma settle_fs: "settle_job r st s = (x, s') \<Longrightarrow> w_fs (rs_world s') = w_fs (rs_world s)"
  by (auto dest!: settle_job_Halt)

lemma kept_settle: "files_kept (settle_job r st)"
  by (simp add: files_kept_def settle_fs)

lemma refuse_fs: "refuse r st d s = (x, s') \<Longrightarrow> w_fs (rs_world s') = w_fs (rs_world s)"
  by (auto simp: refuse_def log_step_facts split: prod.splits flow.splits dest!: settle_fs)

definition fs_call :: "(world \<Rightarrow> 'a \<times> world) \<Rightarrow> bool" where
  "fs_call call \<longleftrightarrow> (\<forall>w x w'. call w = (x, w') \<longrightarrow> w_fs w' = w_fs w)"

lemma fs_ask: "fs_quiet env \<Longrightarrow> fs_call (ask env c rq)"
  unfolding fs_call_def
proof (intro allI impI)
  fix w x w' assume q: "fs_quiet env" and a: "ask env c rq w = (x, w')"
  show "w_fs w' = w_fs w"
    by (rule sonarr_request_fs [where I = "\<lambda>f. f = w_fs w", OF _ a]) (use q in \<open>auto simp: fs_quiet_def\<close>)
qed

lemma fs_unless: "fs_call m \<Longrightarrow> fs_call (unless_dry_run c x m)"
  by (auto simp: fs_call_def unless_dry_run_def split: if_splits)

lemma fs_decode: "fs_call m \<Longrightarrow> fs_call (\<lambda>w. then_decode f (m w))"
  by (auto simp: fs_call_def then_decode_def) (metis prod.collapse)

lemma fs_calls:
  assumes "fs_quiet env"
  shows "fs_call (mark_history_failed env c h)" "fs_call (delete_episode_file env c j)"
    "fs_call (command env c n b)" "fs_call (execute_manual_import env c fs m)"
    "fs_call (get_episodes env cd c j)" "fs_call (manual_import_candidates env cd c f)"
  unfolding mark_history_failed_def delete_episode_file_def command_def execute_manual_import_def
    get_episodes_def manual_import_candidates_def
  by (intro fs_unless fs_decode fs_ask assms)+

lemma kept_sonarr:
  assumes "fs_call call"
  shows "files_kept (sonarr_step r st sfx call)"
  unfolding files_kept_def
proof (intro allI impI)
  fix s x s' assume e: "sonarr_step r st sfx call s = (x, s')"
  obtain y w where c: "call (rs_world s) = (y, w)" by (cases "call (rs_world s)")
  have "w_fs w = w_fs (rs_world s)" using assms c by (auto simp: fs_call_def)
  with e c have "w_fs (rs_world s') = w_fs (rs_world s)"
    by (cases rule: sonarr_step_cases) (auto dest: refuse_fs)
  then show "keeps_files (w_fs (rs_world s)) (w_fs (rs_world s'))" by simp
qed

lemma kept_guard: "files_kept (interruption_guard r)"
  by (auto simp: files_kept_def interruption_guard_def dest!: refuse_fs split: if_splits)

lemma kept_blocklist:
  assumes "fs_quiet (re_env r)"
  shows "files_kept (blocklist_step r)"
  unfolding files_kept_def
proof (intro allI impI)
  fix s x s' assume e: "blocklist_step r s = (x, s')"
  show "keeps_files (w_fs (rs_world s)) (w_fs (rs_world s'))"
  proof (cases "f_history_id (rs_file s)")
    case None
    with e show ?thesis by (auto simp: blocklist_step_def log_step_facts)
  next
    case (Some h)
    have "files_kept (flow_bind (sonarr_step r ''mark_history_failed'' [] (mark_history_failed (re_env r) (re_client r) h))
            (\<lambda>_ s. (Go (), log_step r ''mark_history_failed'' True (''history_id='' @ show_int h) s)))"
      by (intro kept_bind kept_sonarr kept_log fs_calls assms)
    with e Some show ?thesis by (auto simp: blocklist_step_def dest: files_keptD)
  qed
qed

lemma kept_trash: "files_kept (trash_step r)"
  unfolding files_kept_def
proof (intro allI impI)
  fix s x s' assume e: "trash_step r s = (x, s')"
  show "keeps_files (w_fs (rs_world s)) (w_fs (rs_world s'))"
  proof (cases "re_trash r")
    case None
    with e show ?thesis by (simp add: trash_step_def)
  next
    case (Some tc)
    let ?local = "path_str (mk_path (f_local_path (rs_file s)))"
    obtain y w where mk: "os_call (re_env r) (OsMkdir (path_str (trash_dir r tc))) (rs_world s) = (y, w)"
      by (cases "os_call (re_env r) (OsMkdir (path_str (trash_dir r tc))) (rs_world s)")
    obtain z w' where lc: "link_or_copy (re_env r) ?local (trash_path_of r tc s) w = (z, w')"
      by (cases "link_or_copy (re_env r) ?local (trash_path_of r tc s) w")
    have 1: "keeps_files (w_fs (rs_world s)) (w_fs w)" by (rule os_call_keeps [OF mk]) auto
    have "keeps_files (w_fs (rs_world s)) (w_fs w')" by (rule keeps_trans [OF 1 link_or_copy_keeps [OF lc]])
    with 1 e Some mk lc show ?thesis
      by (auto simp: trash_step_def Let_def log_step_facts insert_trash_def dest!: refuse_fs
          split: if_splits sum.splits)
  qed
qed

lemma kept_delete: "fs_quiet (re_env r) \<Longrightarrow> files_kept (delete_step r sfx d)"
  unfolding delete_step_def by (rule kept_self) (intro kept_bind kept_sonarr kept_log fs_calls)

lemma kept_search: "fs_quiet (re_env r) \<Longrightarrow> files_kept (search_step r)"
  unfolding search_step_def by (rule kept_self) (intro kept_bind kept_sonarr kept_log fs_calls)

lemma kept_delete_and_search:
  assumes "fs_quiet (re_env r)"
  shows "files_kept (delete_and_search r sfx)"
  unfolding delete_and_search_def
  by (rule kept_self) (intro kept_bind kept_delete kept_search kept_settle assms)

lemma kept_replace: "fs_quiet (re_env r) \<Longrightarrow> files_kept (replace_body r)"
  unfolding replace_body_def
  by (intro kept_bind kept_guard kept_blocklist kept_trash kept_delete_and_search)

lemma kept_fetch:
  assumes "fs_quiet (re_env r)"
  shows "files_kept (fetch_targets r ts)"
  unfolding files_kept_def
proof (intro allI impI)
  fix s x s' assume e: "fetch_targets r ts s = (x, s')"
  obtain y w where c: "get_episodes (re_env r) (re_codec r) (re_client r) (f_series_id (rs_file s)) (rs_world s) = (y, w)"
    by (cases "get_episodes (re_env r) (re_codec r) (re_client r) (f_series_id (rs_file s)) (rs_world s)")
  have "w_fs w = w_fs (rs_world s)" using fs_calls(5) [OF assms] c by (auto simp: fs_call_def)
  with e c show "keeps_files (w_fs (rs_world s)) (w_fs (rs_world s'))"
    by (cases y) (auto simp: fetch_targets_def)
qed

lemma kept_resolution: "files_kept (resolution_check r ts eps)"
  by (auto simp: files_kept_def resolution_check_def Let_def dest!: refuse_fs split: if_splits)

lemma kept_occupied: "files_kept (occupied_check r ts eps)"
  by (auto simp: files_kept_def occupied_check_def Let_def log_step_facts
      dest!: settle_fs split: if_splits prod.splits flow.splits)

lemma kept_hardlink:
  assumes "fs_quiet (re_env r)"
  shows "files_kept (hardlink_step r sp)"
  unfolding files_kept_def
proof (intro allI impI)
  fix s x s' assume e: "hardlink_step r sp s = (x, s')"
  let ?local = "path_str (mk_path (f_local_path (rs_file s)))"
  obtain y w where mk: "os_call (re_env r) (OsMkdir (staging_dir_of r)) (rs_world s) = (y, w)"
    by (cases "os_call (re_env r) (OsMkdir (staging_dir_of r)) (rs_world s)")
  have fw: "w_fs w = w_fs (rs_world s)" using mk by (auto simp: os_call_def split: option.splits)
  obtain z w1 where lk: "os_call (re_env r) (OsLink ?local sp) w = (z, w1)"
    by (cases "os_call (re_env r) (OsLink ?local sp) w")
  obtain u w2 where cp: "os_call (re_env r) (OsCopy2 ?local sp) w1 = (u, w2)"
    by (cases "os_call (re_env r) (OsCopy2 ?local sp) w1")
  have 1: "keeps_files (w_fs (rs_world s)) (w_fs w1)"
    using os_call_keeps [OF lk] fw by simp
  have 2: "keeps_files (w_fs (rs_world s)) (w_fs w2)" if "z = Inl (OSErr EXDEV m)" for m
  proof -
    have "w_fs w1 sp = None" using os_link_EXDEV [of "re_env r" ?local sp w m w1] lk that by simp
    then have "keeps_files (w_fs w1) (w_fs w2)" by (intro os_call_keeps [OF cp]) auto
    with 1 show ?thesis by (rule keeps_trans)
  qed
  have mkx: "n \<noteq> EXDEV" if "y = Inl (OSErr n m)" for n m
    using mk that assms by (auto simp: os_call_def os_exn_def fs_quiet_def split: option.splits)
  show "keeps_files (w_fs (rs_world s)) (w_fs (rs_world s'))"
  proof (cases "re_dry_run r")
    case True
    with e show ?thesis by (auto simp: hardlink_step_def Let_def log_step_facts)
  next
    case False
    show ?thesis
    proof (cases y)
      case (Inl ex)
      with e False mk fw mkx show ?thesis
        by (auto simp: hardlink_step_def Let_def staging_link_def dest!: refuse_fs split: exn.splits if_splits)
    next
      case (Inr unit)
      then have sl: "staging_link r ?local sp (rs_world s) = (z, w1)" using mk lk by (simp add: staging_link_def)
      show ?thesis
      proof (cases "\<exists>m. z = Inl (OSErr EXDEV m)")
        case True
        with e False sl cp 2 show ?thesis
          by (auto simp: hardlink_step_def Let_def log_step_facts dest!: refuse_fs split: sum.splits)
      next
        case nx: False
        with e False sl 1 show ?thesis
          by (cases z) (auto simp: hardlink_step_def Let_def log_step_facts dest!: refuse_fs
              split: exn.splits if_splits)
      qed
    qed
  qed
qed

lemma kept_candidates: "fs_quiet (re_env r) \<Longrightarrow> files_kept (candidates_step r sp)"
  unfolding candidates_step_def
  by (rule kept_self, intro kept_bind kept_sonarr fs_calls)
    (auto simp: files_kept_def log_step_facts dest!: refuse_fs split: option.splits)

lemma kept_import: "fs_quiet (re_env r) \<Longrightarrow> files_kept (import_step r eps sp m)"
  unfolding import_step_def by (rule kept_self) (intro kept_bind kept_sonarr kept_log fs_calls)

lemma kept_tail:
  assumes "fs_quiet (re_env r)"
  shows "files_kept (import_tail r eps sp)"
proof (cases "re_dry_run r")
  case True
  then show ?thesis by (auto simp: files_kept_def import_tail_def log_step_facts dest!: settle_fs)
next
  case False
  have "files_kept (flow_bind (candidates_step r sp) (\<lambda>m.
        flow_bind (import_step r eps sp m) (\<lambda>_. settle_job r Remediated)))"
    by (intro kept_bind kept_candidates kept_import kept_settle assms)
  with False show ?thesis by (simp add: files_kept_def import_tail_def)
qed

lemma kept_remap:
  assumes "fs_quiet (re_env r)"
  shows "files_kept (remap_body r ts)"
  unfolding remap_body_def
proof (intro kept_bind kept_guard kept_fetch kept_resolution kept_occupied assms)
  fix eps
  have "files_kept (\<lambda>s. let sp = staged_path r eps (rs_file s)
        in flow_bind (hardlink_step r sp) (\<lambda>_.
           flow_bind (delete_step r (''; staging_path='' @ sp)
                (''released the mislabelled file record from Sonarr (episode_file_id='' @
                 show_int (f_episode_file_id (rs_file s)) @ ''; file data preserved in staging)'')) (\<lambda>_.
           import_tail r eps sp)) s)"
    unfolding Let_def by (rule kept_self) (intro kept_bind kept_hardlink kept_delete kept_tail assms)
  then show "files_kept (stage_and_import r eps)"
    by (cases "eps = []") (simp_all add: files_kept_def stage_and_import_def)
qed

end
