(* ===== verification/RemediateSpec.thy ===== *)
theory RemediateSpec
  imports RemediateSteps
begin

text \<open>
  The properties of the remediation sequences and of the trash: dry runs, how a run settles the
  job, refusals, the interruption guard, what is sent when nothing goes wrong, and that replaced
  content can be restored.
\<close>

section \<open>A run as a whole\<close>

lemma load_run_facts:
  assumes "load_run r i w = Inr s"
  shows "rs_world s = w" "j_id (rs_job s) = i" "get_job (w_db w) i = Some (rs_job s)"
    and "latest_verdict (w_db w) i = Inr v \<Longrightarrow> rs_verdict s = v_id v \<and> rs_log s = v_remediation_log v"
  using assms by (auto simp: load_run_def split: option.splits sum.splits dest: get_job_id)

lemma replace_run: "load_run r i w = Inr s \<Longrightarrow> replace r i w = run_result (replace_body r s)"
  by (simp add: replace_def)

lemma remap_run: "load_run r i w = Inr s \<Longrightarrow> remap r i ts w = run_result (remap_body r ts s)"
  by (simp add: remap_def)

lemma going_start:
  assumes "load_run r i w = Inr s" "jobs_wf (w_db w)"
  shows "going i (rs_verdict s) (rs_log s) s"
  using load_run_facts [OF assms(1)] assms(2) by (auto simp: going_def intro: exI [of _ "[]"])

text \<open>The sequences never fall through.\<close>

lemma settle_not_Go: "settle_job r st s \<noteq> (Go x, s')"
  by (auto dest!: settle_job_Halt)

lemma bind_not_Go: "(\<And>x s s'. f x s \<noteq> (Go y, s')) \<Longrightarrow> flow_bind m f s \<noteq> (Go y, s')"
  by (auto simp: flow_bind_def split: prod.splits flow.splits)

lemma replace_not_Go: "replace_body r s \<noteq> (Go x, s')"
  unfolding replace_body_def delete_and_search_def
  by (intro bind_not_Go) (rule settle_not_Go)

lemma remap_not_Go: "remap_body r ts s \<noteq> (Go x, s')"
proof -
  have "import_tail r eps sp s \<noteq> (Go x, s')" for eps sp s s'
    unfolding import_tail_def by (auto simp: settle_not_Go intro!: bind_not_Go dest: sym)
  then have "stage_and_import r eps s \<noteq> (Go x, s')" for eps s s'
    unfolding stage_and_import_def Let_def by (auto dest!: bind_not_Go [THEN notE, rotated])
  then show ?thesis unfolding remap_body_def by (intro bind_not_Go)
qed


section \<open>Properties\<close>

lemma dry_run_events:
  assumes "dry r"
  shows "new_events (\<lambda>e. \<not> mutating e) w (snd (replace r i w))"
    "new_events (\<lambda>e. \<not> mutating e) w (snd (remap r i ts w))"
proof -
  obtain res w' where a: "replace r i w = (res, w')" by (cases "replace r i w")
  then show "new_events (\<lambda>e. \<not> mutating e) w (snd (replace r i w))"
    using run_frame [OF dry_replace_frame [OF assms], where i = i and w = w and res = res and w' = w'] by (simp add: replace_def)
  obtain res w' where b: "remap r i ts w = (res, w')" by (cases "remap r i ts w")
  then show "new_events (\<lambda>e. \<not> mutating e) w (snd (remap r i ts w))"
    using run_frame [OF dry_remap_frame [OF assms], where i = i and w = w and res = res and w' = w' and ts1 = ts] by (simp add: remap_def)
qed

text \<open>A dry run of either remediation touches nothing: whatever Sonarr answers and however the
  run ends, it sends only GET requests and performs no file operation.\<close>

theorem dry_run_touches_nothing:
  assumes "dry r"
  shows "new_events (\<lambda>e. \<not> mutating e) w (snd (replace r i w)) \<and>
    new_events (\<lambda>e. \<not> mutating e) w (snd (remap r i ts w))"
  using dry_run_events [OF assms] by blast

text \<open>A small library to run on: job 1 is active, leased to \<open>pool-a-1\<close>, with a fresh verdict.\<close>

definition sample_file :: file_row where
  "sample_file =
     \<lparr>f_id = 7, f_instance_id = 1, f_sonarr_path = ''/tv/x.mkv'', f_local_path = ''/media/x.mkv'',
      f_size = 10, f_content_hash = ''h'', f_series_id = 5, f_episode_ids = [11], f_episode_file_id = 70,
      f_quality = JNull, f_languages = JNull, f_history_id = Some 3, f_download_id = None,
      f_source_title = None, f_indexer = None, f_guid = None\<rparr>"

definition sample_verdict :: "log_entry list \<Rightarrow> verdict_row" where
  "sample_verdict entries =
     \<lparr>v_id = 1, v_job_id = 1, v_s_claimed = Some 0, v_s_alt = Some 1, v_outcome = ORemediate,
      v_proposed_action = None, v_remediation_log = entries, v_source = SrcAuto, v_human_ident = None,
      v_dupe_info = None, v_apply_at = None, v_created_at = 0\<rparr>"

definition sample_db :: "log_entry list \<Rightarrow> db" where
  "sample_db entries = empty_db\<lparr>db_files := [sample_file],
     db_jobs := [leased Active ''pool-a-1'' 200 (new_job 1 7 Pending 100)],
     db_verdicts := [sample_verdict entries]\<rparr>"

definition sample_world :: "log_entry list \<Rightarrow> world" where
  "sample_world entries =
     \<lparr>w_db = sample_db entries, w_fs = (\<lambda>p. if p = ''/media/x.mkv'' then Some 42 else None), w_trace = []\<rparr>"

definition sample_instance :: sonarr_instance where
  "sample_instance =
     \<lparr>si_name = ''a'', si_url = ''u'', si_api_key = ''k'', si_path_mappings = [], si_staging_dir = ''/staging'',
      si_watch_dirs = [], si_poll_interval_s = 300, si_auto_remap = True, si_auto_replace = True\<rparr>"

text \<open>Episode 11 has a file, episode 12 is free; every call succeeds.\<close>

definition sample_peer :: "effect list \<Rightarrow> request \<Rightarrow> http_result" where
  "sample_peer tr rq =
     HttpResponse 200 (if rq_path rq = ''/episode'' then JList [JInt 11, JInt 12]
       else if rq_path rq = ''/manualimport'' then JList [JStr ''/staging/S01E12.mkv''] else JNull) []"

definition sample_ep :: "int \<Rightarrow> episode" where
  "sample_ep n =
     \<lparr>ep_id = n, ep_title = None, ep_season_number = 1, ep_episode_number = n, ep_tvdb_id = None,
      ep_absolute_episode_number = None, ep_scene_season_number = None, ep_scene_episode_number = None,
      ep_scene_absolute_episode_number = None, ep_episode_file_id = 70, ep_has_file = (n = 11)\<rparr>"

fun sample_episode :: "json \<Rightarrow> episode res" where
  "sample_episode (JInt n) = Inr (sample_ep n)"
| "sample_episode _ = Inl ValidationError"

definition sample_codec :: codec where
  "sample_codec =
     \<lparr>cd_history = (\<lambda>_. Inl ValidationError), cd_episode = sample_episode,
      cd_series = (\<lambda>_. Inl ValidationError), cd_episode_file = (\<lambda>_. Inl ValidationError),
      cd_import = (\<lambda>j. case j of JStr p \<Rightarrow> Inr \<lparr>mi_path = p, mi_quality = JNull, mi_languages = JNull\<rparr>
                     | _ \<Rightarrow> Inl ValidationError)\<rparr>"

definition sample_remediator :: "(effect list \<Rightarrow> request \<Rightarrow> http_result) \<Rightarrow> bool \<Rightarrow> remediator" where
  "sample_remediator peer d =
     \<lparr>re_env = quiet_env peer, re_codec = sample_codec, re_client = default_client d,
      re_instance = sample_instance, re_dry_run = d, re_trash = Some default_trash, re_worker = ''pool-a-1''\<rparr>"

definition sample_run :: "log_entry list \<Rightarrow> rstate" where
  "sample_run entries =
     \<lparr>rs_world = sample_world entries, rs_job = leased Active ''pool-a-1'' 200 (new_job 1 7 Pending 100),
      rs_file = sample_file, rs_verdict = 1, rs_log = entries\<rparr>"

lemma sample_load: "load_run r 1 (sample_world entries) = Inr (sample_run entries)"
  by (simp add: load_run_def sample_world_def sample_db_def sample_run_def get_job_def get_row_def
      new_job_def leased_def sample_file_def latest_verdict_def sample_verdict_def)

lemma sample_run_simps:
  "rs_verdict (sample_run entries) = 1" "rs_log (sample_run entries) = entries"
  by (simp_all add: sample_run_def)

lemma sample_facts:
  "jobs_wf (w_db (sample_world entries))" "wf_env (re_env (sample_remediator peer d))"
  "fs_quiet (re_env (sample_remediator peer d))" "trash_on (sample_remediator peer d)"
  "re_dry_run (sample_remediator peer d) = d" "dry (sample_remediator peer True)"
  "w_trace (sample_world entries) = []" "holds_lease (w_db (sample_world entries)) 1 ''pool-a-1''"
  by (simp_all add: jobs_wf_def sample_world_def sample_db_def wf_env_def sample_remediator_def quiet_env_def
      fs_quiet_def trash_on_def default_trash_def dry_def default_client_def holds_lease_def get_job_def
      get_row_def lease_held_def new_job_def leased_def)

lemma dry_run_touches_nothing_witness:
  "new_events (\<lambda>e. \<not> mutating e) (sample_world [])
     (snd (replace (sample_remediator sample_peer True) 1 (sample_world [])))"
  using dry_run_touches_nothing [OF sample_facts(6)] by blast



text \<open>When \<open>remap\<close> returns, the job is out of its lease: remediated with every logged step a
  success, or quarantined with exactly the last logged step a failure, and the verdict's row holds the
  old log extended by those entries.\<close>

theorem remap_settles:
  assumes "wf_env (re_env r)" "jobs_wf (w_db w)" "load_run r i w = Inr s"
  shows "case remap r i ts w of (Inr _, w') \<Rightarrow> settled i (rs_verdict s) (rs_log s) w' | (Inl e, w') \<Rightarrow> True"
proof -
  obtain x s' where b: "remap_body r ts s = (x, s')" by (cases "remap_body r ts s")
  have "ok_at i (rs_verdict s) (rs_log s) (\<lambda>_. True) (x, s')"
    using ok_atI [OF steps_remap [OF assms(1)] going_start [OF assms(3,2)]] b by metis
  moreover have "x \<noteq> Go ()" using remap_not_Go [of r ts s "()" s'] b by auto
  ultimately show ?thesis using b
    by (cases x) (simp_all add: remap_run [OF assms(3)] run_result_def ok_at_simps)
qed

lemma remap_settles_witness:
  "case remap (sample_remediator sample_peer False) 1 {12} (sample_world []) of
     (Inr _, w') \<Rightarrow> settled 1 1 [] w' | (Inl e, w') \<Rightarrow> True"
  by (rule remap_settles [OF sample_facts(2) [where peer = sample_peer and d = False] sample_facts(1) [where entries = "[]"]
        sample_load, unfolded sample_run_simps])

text \<open>C4: The original is never deleted before a copy of it exists: outside dry runs, every
  \<open>DELETE\<close> that \<open>remap\<close>, or \<open>replace\<close> with the trash on, sends to Sonarr comes after a
  link or copy of the local file succeeded.\<close>

theorem delete_needs_copy:
  assumes "\<not> re_dry_run r" "load_run r i w = Inr s"
  shows "copied_first (path_str (mk_path (f_local_path (rs_file s)))) False
           (drop (length (w_trace w)) (w_trace (snd (remap r i ts w)))) \<and>
         (trash_on r \<longrightarrow> copied_first (path_str (mk_path (f_local_path (rs_file s)))) False
           (drop (length (w_trace w)) (w_trace (snd (replace r i w)))))"
proof -
  let ?p = "path_str (mk_path (f_local_path (rs_file s)))"
  have g: "guarded (w_trace w) ?p False s" using load_run_facts(1) [OF assms(2)] by (simp add: guarded_def)
  have fin: "copied_first ?p False (drop (length (w_trace w)) (w_trace (snd (run_result (x, s')))))"
    if "guarded (w_trace w) ?p b s'" for x s' b
    using that by (auto simp: guarded_def run_result_def)
  obtain x s' where b: "remap_body r ts s = (x, s')" by (cases "remap_body r ts s")
  have "guarded (w_trace w) ?p False s'"
    using ensures_at [OF guards_remap [OF assms(1)] g, of ts] b by (cases x) auto
  with fin b have 1: "copied_first ?p False (drop (length (w_trace w)) (w_trace (snd (remap r i ts w))))"
    by (simp add: remap_run [OF assms(2)])
  obtain y s2 where c: "replace_body r s = (y, s2)" by (cases "replace_body r s")
  have "copied_first ?p False (drop (length (w_trace w)) (w_trace (snd (replace r i w))))" if t: "trash_on r"
  proof -
    have "\<exists>b. guarded (w_trace w) ?p b s2"
      using ensures_at [OF guards_replace [OF assms(1) t] g] c by (cases y) auto
    with fin c show ?thesis by (auto simp: replace_run [OF assms(2)])
  qed
  with 1 show ?thesis by blast
qed

lemma delete_needs_copy_witness:
  "copied_first ''/media/x.mkv'' False
     (w_trace (snd (remap (sample_remediator sample_peer False) 1 {12} (sample_world []))))"
proof -
  have "path_str (mk_path ''/media/x.mkv'') = ''/media/x.mkv''" by code_simp
  with delete_needs_copy [of "sample_remediator sample_peer False", OF _ sample_load [of _ "[]"], of "{12}"]
  show ?thesis by (simp add: sample_facts sample_run_def sample_file_def)
qed

text \<open>Neither sequence overwrites a file: when nobody else touches the disk, every file that
  existed before the run has the same content after it, however the run ends.\<close>

theorem remediation_overwrites_nothing:
  assumes "fs_quiet (re_env r)" "w_fs w p = Some content"
  shows "w_fs (snd (replace r i w)) p = Some content \<and> w_fs (snd (remap r i ts w)) p = Some content"
proof (cases "load_run r i w")
  case (Inl e)
  with assms show ?thesis by (simp add: replace_def remap_def)
next
  case (Inr s)
  obtain x s1 where b: "replace_body r s = (x, s1)" by (cases "replace_body r s")
  obtain y s2 where c: "remap_body r ts s = (y, s2)" by (cases "remap_body r ts s")
  from files_keptD [OF kept_replace [OF assms(1)] b] files_keptD [OF kept_remap [OF assms(1)] c]
  show ?thesis using b c assms(2) load_run_facts(1) [OF Inr]
    by (auto simp: replace_run [OF Inr] remap_run [OF Inr] run_result_def keeps_files_def)
qed

lemma remediation_overwrites_nothing_witness:
  "w_fs (snd (replace (sample_remediator sample_peer False) 1 (sample_world []))) ''/media/x.mkv'' = Some 42"
proof -
  have "w_fs (sample_world []) ''/media/x.mkv'' = Some 42" by (simp add: sample_world_def)
  from remediation_overwrites_nothing [OF sample_facts(3) this] show ?thesis by blast
qed


text \<open>What ending in quarantine leaves: no effect, and the job in quarantine or the lease lost.\<close>

definition ends_quarantined :: "rstate \<Rightarrow> 'a flow \<times> rstate \<Rightarrow> bool" where
  "ends_quarantined s p \<longleftrightarrow>
     w_trace (rs_world (snd p)) = w_trace (rs_world s) \<and> w_fs (rs_world (snd p)) = w_fs (rs_world s) \<and>
     (case fst p of Go _ \<Rightarrow> False | Fail e \<Rightarrow> lease_exn e
      | Halt \<Rightarrow> status_of (w_db (rs_world (snd p))) (j_id (rs_job s)) = Some Quarantine)"

lemma settle_quarantined:
  assumes "jobs_wf (w_db (rs_world s))"
  shows "ends_quarantined s (settle_job r Quarantine s)"
proof -
  obtain x s' where e: "settle_job r Quarantine s = (x, s')" by (cases "settle_job r Quarantine s")
  from settle_job_Halt [OF e] show ?thesis
    using release_errors release_world(1) [OF assms] unfolding e ends_quarantined_def by fastforce
qed

lemma refuse_quarantined:
  assumes "jobs_wf (w_db (rs_world s))"
  shows "ends_quarantined s (refuse r st d s :: 'a flow \<times> rstate)"
proof -
  let ?t = "log_step r st False d s"
  obtain x s' where e: "settle_job r Quarantine ?t = (x, s')" by (cases "settle_job r Quarantine ?t")
  have "jobs_wf (w_db (rs_world ?t))" using assms by (simp add: log_step_facts jobs_wf_def)
  from settle_quarantined [OF this, of r] show ?thesis
    unfolding refuse_def e ends_quarantined_def
    by (cases x) (simp_all add: log_step_facts)
qed

lemma occupied_quarantined:
  assumes "jobs_wf (w_db (rs_world s))" "filter ep_has_file eps \<noteq> []"
  shows "ends_quarantined s (occupied_check r ts eps s)"
proof -
  let ?occ = "filter ep_has_file eps"
  let ?d = "''refusing remap: target episode(s) already have a file: '' @
                   join '', '' (map episode_label ?occ) @ '' (ids='' @ show_ints (map ep_id ?occ) @ '')''"
  let ?s1 = "log_step r ''occupied_check'' False ?d s"
  let ?s2 = "?s1\<lparr>rs_world := (rs_world ?s1)\<lparr>w_db := set_proposed (rs_verdict ?s1)
                       (Some (RemapJson (sorted_list_of_set ts))) (w_db (rs_world ?s1))\<rparr>\<rparr>"
  obtain x s' where e: "settle_job r Quarantine ?s2 = (x, s')" by (cases "settle_job r Quarantine ?s2")
  have wf: "jobs_wf (w_db (rs_world ?s2))" using assms(1) by (simp add: log_step_facts jobs_wf_def)
  have eq: "occupied_check r ts eps s = (case settle_job r Quarantine ?s2 of
        (Fail e, _) \<Rightarrow> (Fail e, ?s1) | (_, s') \<Rightarrow> (Halt, s'))"
    by (simp only: occupied_check_def Let_def if_P [OF assms(2)])
  from settle_quarantined [OF wf, of r] show ?thesis
    unfolding eq e ends_quarantined_def
    by (cases x) (simp_all add: log_step_facts)
qed

lemma quarantined_bind: "ends_quarantined s (m s) \<Longrightarrow> ends_quarantined s (flow_bind m f s)"
  by (auto simp: ends_quarantined_def flow_bind_def split: prod.splits flow.splits)

text \<open>\<open>remap\<close> into episodes that are not in the series, or that already have a file, does
  nothing beyond listing the episodes: no further request, no file operation; if it returns, the job is
  in quarantine.\<close>

theorem remap_refuses_bad_targets:
  assumes "load_run r i w = Inr s" "\<not> was_interrupted (rs_log s)"
    and "get_episodes (re_env r) (re_codec r) (re_client r) (f_series_id (rs_file s)) w = (Inr eps, w1)"
    and "\<not> ts \<subseteq> ep_id ` set eps \<or> (\<exists>e \<in> set eps. ep_id e \<in> ts \<and> ep_has_file e)"
    and "jobs_wf (w_db w1)"
  shows "w_trace (snd (remap r i ts w)) = w_trace w1 \<and> w_fs (snd (remap r i ts w)) = w_fs w1 \<and>
    (case remap r i ts w of
       (Inr _, w') \<Rightarrow> status_of (w_db w') i = Some Quarantine
     | (Inl e, w') \<Rightarrow> e \<in> {LeaseLost, InvalidTransition})"
proof -
  let ?s1 = "s\<lparr>rs_world := w1\<rparr>" and ?eps = "target_episodes_of ts eps"
  note f = load_run_facts [OF assms(1)]
  have body: "remap_body r ts s = flow_bind (resolution_check r ts ?eps) (\<lambda>_.
     flow_bind (occupied_check r ts ?eps) (\<lambda>_. stage_and_import r ?eps)) ?s1"
    using assms(2,3) f(1) by (simp add: remap_body_def flow_bind_def [of "interruption_guard r"]
        flow_bind_def [of "fetch_targets r ts"] interruption_guard_def fetch_targets_def)
  have set: "set ?eps = {e \<in> set eps. ep_id e \<in> ts}" by (auto simp: target_episodes_of_def)
  have g: "going i (rs_verdict s) (rs_log s) ?s1"
    using assms(5) f(2) by (auto simp: going_def intro: exI [of _ "[]"])
  have q: "ends_quarantined ?s1 (remap_body r ts s)"
  proof (cases "ts - set (map ep_id ?eps) = {}")
    case False
    then show ?thesis unfolding body
      by (intro quarantined_bind) (simp add: resolution_check_def Let_def refuse_quarantined assms(5))
  next
    case True
    then have "ts \<subseteq> ep_id ` set eps" using set by auto
    with assms(4) obtain e0 where "e0 \<in> set ?eps" "ep_has_file e0" using set by auto
    then have occ: "filter ep_has_file ?eps \<noteq> []" by (auto simp: filter_empty_conv)
    have "flow_bind (resolution_check r ts ?eps) (\<lambda>_. flow_bind (occupied_check r ts ?eps) (\<lambda>_. stage_and_import r ?eps)) ?s1
      = flow_bind (occupied_check r ts ?eps) (\<lambda>_. stage_and_import r ?eps) ?s1"
      using True by (simp add: flow_bind_def [of "resolution_check r ts ?eps"] resolution_check_def Let_def)
    moreover have "ends_quarantined ?s1 (flow_bind (occupied_check r ts ?eps) (\<lambda>_. stage_and_import r ?eps) ?s1)"
      by (rule quarantined_bind, rule occupied_quarantined) (use assms(5) occ in simp_all)
    ultimately show ?thesis unfolding body by simp
  qed
  obtain x s' where e: "remap_body r ts s = (x, s')" by (cases "remap_body r ts s")
  from q show ?thesis
    unfolding remap_run [OF assms(1)] run_result_def e ends_quarantined_def lease_exn_def
    by (cases x) (simp_all add: f(2))
qed

lemma remap_refuses_bad_targets_witness:
  "w_fs (snd (remap (sample_remediator sample_peer False) 1 {99} (sample_world []))) ''/media/x.mkv'' = Some 42"
proof -
  let ?r = "sample_remediator sample_peer False"
  let ?w1 = "snd (http_send (re_env ?r) (GET_of ''/episode'' [(''seriesId'', JInt 5)]) (sample_world []))"
  have a: "ask (re_env ?r) (re_client ?r) (GET_of ''/episode'' [(''seriesId'', JInt 5)]) (sample_world []) =
      (Inr (JList [JInt 11, JInt 12]), ?w1)"
    by (subst ask_answered [where st = 200 and b = "JList [JInt 11, JInt 12]" and t = "[]"])
      (simp_all add: sample_remediator_def quiet_env_def sample_peer_def GET_of_def)
  let ?eps = "[sample_ep 11, sample_ep 12]"
  have d: "decode_all (cd_episode sample_codec) (JList [JInt 11, JInt 12]) = Inr ?eps"
    by (simp add: decode_all_def sample_codec_def)
  have g: "get_episodes (re_env ?r) (re_codec ?r) (re_client ?r) 5 (sample_world []) = (Inr ?eps, ?w1)"
    unfolding get_episodes_def a then_decode_def using d by (simp add: sample_remediator_def)
  have w1: "w_fs ?w1 = w_fs (sample_world [])" "jobs_wf (w_db ?w1)"
    using sample_facts(1) [of "[]"] by (simp_all add: http_send_def Let_def sample_remediator_def quiet_env_def)
  have s5: "f_series_id (rs_file (sample_run [])) = 5" "\<not> was_interrupted (rs_log (sample_run []))"
    by (simp_all add: sample_run_def sample_file_def was_interrupted_def)
  have "\<not> {99} \<subseteq> ep_id ` set ?eps" by (simp add: sample_ep_def)
  with remap_refuses_bad_targets [OF sample_load s5(2), of ?r ?eps ?w1 "{99}"] g w1 s5(1)
  have "w_fs (snd (remap ?r 1 {99} (sample_world []))) = w_fs (sample_world [])" by simp
  then show ?thesis by (simp add: sample_world_def)
qed

text \<open>C13: A verdict whose log already holds a mutating step is not acted on again: neither sequence
  sends a request or touches a file; the job goes to quarantine unless its lease is lost.\<close>

theorem interrupted_run_is_quarantined:
  assumes "load_run r i w = Inr s" "was_interrupted (rs_log s)" "jobs_wf (w_db w)"
  shows "\<forall>(res, w') \<in> {replace r i w, remap r i ts w}.
    w_trace w' = w_trace w \<and> w_fs w' = w_fs w \<and>
    (case res of Inr _ \<Rightarrow> status_of (w_db w') i = Some Quarantine | Inl e \<Rightarrow> e \<in> {LeaseLost, InvalidTransition})"
proof -
  note f = load_run_facts [OF assms(1)]
  have g: "ends_quarantined s (interruption_guard r s)"
    using assms(2,3) f(1) by (simp add: interruption_guard_def refuse_quarantined)
  have "ends_quarantined s (replace_body r s)" "ends_quarantined s (remap_body r ts s)"
    unfolding replace_body_def remap_body_def by (rule quarantined_bind, rule g)+
  then show ?thesis
    unfolding replace_run [OF assms(1)] remap_run [OF assms(1)] run_result_def ends_quarantined_def lease_exn_def
    by (auto simp: f split: flow.splits prod.splits)
qed

definition sample_interrupted :: "log_entry list" where
  "sample_interrupted = [\<lparr>le_step = ''delete_episode_file'', le_ok = True, le_detail = ''removed'', le_ts = 1\<rparr>]"

lemma interrupted_run_is_quarantined_witness:
  "w_trace (snd (replace (sample_remediator sample_peer False) 1 (sample_world sample_interrupted))) = []"
proof -
  have "was_interrupted (rs_log (sample_run sample_interrupted))"
    by (simp add: sample_run_def sample_interrupted_def was_interrupted_def is_mutating_entry_def
        MUTATING_STEPS_def starts_with_def)
  from interrupted_run_is_quarantined [OF sample_load this sample_facts(1), of "sample_remediator sample_peer False" "{}"]
  show ?thesis by (auto simp: sample_world_def split: prod.splits)
qed

text \<open>A failing episode listing gets out of \<open>remap\<close> as the \<open>SonarrError\<close> it is: no
  entry is logged and the job is not settled, although every step failure is documented to
  quarantine it.\<close>

theorem remap_listing_failure_escapes:
  assumes "load_run r i w = Inr s" "\<not> was_interrupted (rs_log s)"
    and "get_episodes (re_env r) (re_codec r) (re_client r) (f_series_id (rs_file s)) w = (Inl (SonarrError c b), w1)"
  shows "remap r i ts w = (Inl (SonarrError c b), w1)"
  using assms load_run_facts(1) [OF assms(1)]
  by (simp add: remap_run [OF assms(1)] remap_body_def flow_bind_def interruption_guard_def fetch_targets_def
      run_result_def)

definition broken_peer :: "effect list \<Rightarrow> request \<Rightarrow> http_result" where
  "broken_peer tr rq = HttpResponse 404 JNull ''gone''"

lemma remap_listing_failure_escapes_witness:
  "\<exists>w1. remap (sample_remediator broken_peer False) 1 {12} (sample_world []) = (Inl (SonarrError 404 ''gone''), w1) \<and>
     status_of (w_db w1) 1 = Some Active"
proof -
  let ?r = "sample_remediator broken_peer False"
  have "\<exists>w1. get_episodes (re_env ?r) (re_codec ?r) (re_client ?r) 5 (sample_world []) = (Inl (SonarrError 404 ''gone''), w1)
      \<and> w_db w1 = w_db (sample_world [])"
    by (simp add: get_episodes_def then_decode_def ask_answered http_send_def Let_def sample_remediator_def
        quiet_env_def broken_peer_def default_client_def)
  then obtain w1 where g: "get_episodes (re_env ?r) (re_codec ?r) (re_client ?r) 5 (sample_world []) = (Inl (SonarrError 404 ''gone''), w1)"
    and d: "w_db w1 = w_db (sample_world [])" by blast
  have s5: "f_series_id (rs_file (sample_run [])) = 5" "\<not> was_interrupted (rs_log (sample_run []))"
    by (simp_all add: sample_run_def sample_file_def was_interrupted_def)
  from remap_listing_failure_escapes [OF sample_load s5(2), of ?r 404 "''gone''" w1 "{12}"] g s5(1)
  have "remap ?r 1 {12} (sample_world []) = (Inl (SonarrError 404 ''gone''), w1)" by simp
  moreover have "status_of (w_db w1) 1 = Some Active"
    unfolding d by (simp add: sample_world_def sample_db_def status_of_def get_job_def get_row_def new_job_def leased_def)
  ultimately show ?thesis by blast
qed

section \<open>The trash\<close>

lemma unlink_world:
  "w_db (unlink_tolerant env p w) = w_db w"
  "q \<noteq> p \<Longrightarrow> w_fs (unlink_tolerant env p w) q = w_fs w q"
  "w_fs w q = None \<Longrightarrow> w_fs (unlink_tolerant env p w) q = None"
  "(\<forall>tr q. en_fault env tr (OsUnlink q) = None) \<Longrightarrow> w_fs (unlink_tolerant env p w) p = None"
  by (auto simp: unlink_tolerant_def os_call_def split: option.splits)

lemma unlink_fold:
  fixes path :: "'r \<Rightarrow> string"
  shows "w_db (fold (\<lambda>t. unlink_tolerant env (path t)) ts w) = w_db w"
    and "q \<notin> path ` set ts \<Longrightarrow> w_fs (fold (\<lambda>t. unlink_tolerant env (path t)) ts w) q = w_fs w q"
    and "w_fs w q = None \<Longrightarrow> w_fs (fold (\<lambda>t. unlink_tolerant env (path t)) ts w) q = None"
    and "(\<forall>tr q. en_fault env tr (OsUnlink q) = None) \<Longrightarrow> q \<in> path ` set ts \<Longrightarrow>
      w_fs (fold (\<lambda>t. unlink_tolerant env (path t)) ts w) q = None"
proof (induction ts arbitrary: w)
  case (Cons t ts)
  { case 1 show ?case using Cons(1) unlink_world(1) by simp }
  { case 2 then show ?case using Cons(2) unlink_world(2) by simp }
  { case 3 then show ?case using Cons(3) unlink_world(3) by simp }
  { case 4 then show ?case using Cons(3,4) unlink_world(4) by (cases "q \<in> path ` set ts") auto }
qed simp_all

text \<open>The sweeper takes exactly the rows that are past their expiry and still active: it marks
  them expired, counts them, removes their files where the operating system lets it, and leaves every
  other row and every other file alone.\<close>

theorem sweep_exact:
  assumes "sweep_expired env w = (n, w')"
  shows "db_trash (w_db w') = map (\<lambda>t. if t_expires_at t < now_of env w \<and> t_deleted_at t = None
        then t\<lparr>t_deleted_at := Some (now_of env w), t_outcome := Some Expired\<rparr> else t) (db_trash (w_db w)) \<and>
    n = int (length (filter (trash_expired (now_of env w)) (db_trash (w_db w)))) \<and>
    (\<forall>p. p \<notin> t_trash_path ` set (filter (trash_expired (now_of env w)) (db_trash (w_db w))) \<longrightarrow>
       w_fs w' p = w_fs w p) \<and>
    ((\<forall>tr q. en_fault env tr (OsUnlink q) = None) \<longrightarrow>
       (\<forall>t \<in> set (db_trash (w_db w)). trash_expired (now_of env w) t \<longrightarrow> w_fs w' (t_trash_path t) = None))"
proof -
  let ?ex = "filter (trash_expired (now_of env w)) (db_trash (w_db w))"
  let ?w1 = "fold (\<lambda>t. unlink_tolerant env (t_trash_path t)) ?ex w"
  have w': "w' = ?w1\<lparr>w_db := (w_db ?w1)\<lparr>db_trash :=
       update_where (trash_expired (now_of env w)) (mark_trash Expired (now_of env w)) (db_trash (w_db ?w1))\<rparr>\<rparr>"
    and n: "n = int (length ?ex)"
    using assms by (auto simp: sweep_expired_def Let_def)
  have "db_trash (w_db w') = map (\<lambda>t. if t_expires_at t < now_of env w \<and> t_deleted_at t = None
        then t\<lparr>t_deleted_at := Some (now_of env w), t_outcome := Some Expired\<rparr> else t) (db_trash (w_db w))"
    by (simp add: w' unlink_fold(1) update_where_def mark_trash_def trash_expired_def cong: if_cong)
  moreover have "w_fs w' p = w_fs w p" if "p \<notin> t_trash_path ` set ?ex" for p
    using unlink_fold(2) [OF that] by (simp add: w')
  moreover have "w_fs w' (t_trash_path t) = None"
    if "\<forall>tr q. en_fault env tr (OsUnlink q) = None" "t \<in> set (db_trash (w_db w))" "trash_expired (now_of env w) t" for t
    using unlink_fold(4) [OF that(1), of "t_trash_path t" t_trash_path ?ex w] that(2,3) by (simp add: w')
  ultimately show ?thesis using n by blast
qed

definition sample_trash :: "datetime \<Rightarrow> trash_row" where
  "sample_trash expires =
     \<lparr>t_id = 1, t_file_id = Some 7, t_job_id = Some 1, t_instance = ''a'', t_original_path = ''/media/y.mkv'',
      t_trash_path = ''/trash/a/y.mkv-1'', t_size = 10, t_series_id = 5, t_episode_ids = [11], t_trashed_at = 0,
      t_expires_at = expires, t_deleted_at = None, t_outcome = None\<rparr>"

definition trash_world :: "datetime \<Rightarrow> world" where
  "trash_world expires = \<lparr>w_db = empty_db\<lparr>db_trash := [sample_trash expires]\<rparr>,
     w_fs = (\<lambda>p. if p = ''/trash/a/y.mkv-1'' then Some 42 else None), w_trace = []\<rparr>"

lemma sweep_exact_witness:
  "fst (sweep_expired (quiet_env sample_peer) (trash_world (- 5))) = 1 \<and>
   w_fs (snd (sweep_expired (quiet_env sample_peer) (trash_world (- 5)))) ''/trash/a/y.mkv-1'' = None"
  using sweep_exact [OF prod.collapse [symmetric], of "quiet_env sample_peer" "trash_world (- 5)"]
  by (simp add: quiet_env_def trash_world_def sample_trash_def trash_expired_def now_of_def empty_db_def)

lemma os_link_ok: "os_call env (OsLink a b) w = (Inr u, w') \<Longrightarrow>
    \<exists>c. w_fs w a = Some c \<and> w_fs w b = None \<and> w_fs w' = (w_fs w)(b \<mapsto> c) \<and> w_db w' = w_db w"
  by (auto simp: os_call_def split: option.splits if_splits)

lemma os_copy_ok: "os_call env (OsCopy2 a b) w = (Inr u, w') \<Longrightarrow>
    \<exists>c. w_fs w a = Some c \<and> w_fs w' = (w_fs w)(b \<mapsto> c) \<and> w_db w' = w_db w"
  by (auto simp: os_call_def split: option.splits if_splits)

lemma link_or_copy_cases:
  assumes "link_or_copy env a b w = (x, w')"
  shows "case x of Inr _ \<Rightarrow> (\<exists>c. w_fs w a = Some c \<and> w_fs w b = None \<and> w_fs w' = (w_fs w)(b \<mapsto> c))
    | Inl e \<Rightarrow> w_fs w' = w_fs w \<and> (\<exists>n m. e = OSErr n m)"
proof -
  obtain y w1 where l: "os_call env (OsLink a b) w = (y, w1)" by (cases "os_call env (OsLink a b) w")
  show ?thesis
  proof (cases y)
    case (Inr u)
    with assms l os_link_ok [of env a b w u w1] show ?thesis by (auto simp: link_or_copy_def)
  next
    case (Inl e)
    obtain n m where e: "e = OSErr n m" using os_call_OSErr l Inl by blast
    show ?thesis
    proof (cases "n = EXDEV")
      case True
      have 1: "w_fs w1 = w_fs w" "w_fs w b = None" using os_link_EXDEV [of env a b w m w1] l Inl e True by auto
      have c: "os_call env (OsCopy2 a b) w1 = (x, w')" using assms l Inl e True by (simp add: link_or_copy_def)
      show ?thesis
      proof (cases x)
        case (Inr u)
        with os_copy_ok c 1 show ?thesis by fastforce
      next
        case (Inl e')
        with os_call_fail_fs c 1 os_call_OSErr show ?thesis by fastforce
      qed
    next
      case False
      with assms l Inl e have "x = Inl e" "w' = w1" by (auto simp: link_or_copy_def)
      with os_call_fail_fs l Inl e show ?thesis by fastforce
    qed
  qed
qed

text \<open>C36: \<open>restore\<close> never overwrites: it succeeds only when there is no file at the original
  path, which then holds the trashed content while nothing else on disk changes and the row is marked
  restored; otherwise neither disk nor database changes, and the exception is an \<open>OSError\<close> or,
  with a file at the original path, \<open>RestoreConflict\<close>.\<close>

theorem restore_exact:
  "let orig = path_str (mk_path (t_original_path item)); kept = path_str (mk_path (t_trash_path item))
   in case restore env item w of
      (Inr _, w') \<Rightarrow> w_fs w orig = None \<and>
        (\<exists>c. w_fs w kept = Some c \<and> w_fs w' = (w_fs w)(orig \<mapsto> c)) \<and>
        (\<exists>now. w_db w' = (w_db w)\<lparr>db_trash := update_where (\<lambda>t. t_id t = t_id item)
           (mark_trash Restored now) (db_trash (w_db w))\<rparr>)
    | (Inl e, w') \<Rightarrow> w_fs w' = w_fs w \<and> w_db w' = w_db w \<and>
        (e = RestoreConflict \<and> w' = w \<and> w_fs w orig \<noteq> None \<or> (\<exists>n m. e = OSErr n m))"
proof -
  let ?o = "path_str (mk_path (t_original_path item))" and ?t = "path_str (mk_path (t_trash_path item))"
  let ?mk = "OsMkdir (path_str (path_parent (mk_path (t_original_path item))))"
  show ?thesis
  proof (cases "path_exists env ?o w = Inr False")
    case False
    then show ?thesis
      by (auto simp: restore_def Let_def path_exists_def os_exn_def split: option.splits if_splits bool.splits)
  next
    case True
    obtain x w1 where mk: "os_call env ?mk w = (x, w1)" by (cases "os_call env ?mk w")
    have fs1: "w_fs w1 = w_fs w" using mk by (auto simp: os_call_def split: option.splits)
    have db1: "w_db w1 = w_db w" by (rule os_call_world [OF mk])
    obtain y w2 where lc: "link_or_copy env ?t ?o w1 = (y, w2)" by (cases "link_or_copy env ?t ?o w1")
    have db2: "w_db w2 = w_db w" using link_or_copy_world [OF lc] db1 by simp
    show ?thesis
    proof (cases x)
      case (Inl e)
      with True mk fs1 db1 os_call_OSErr show ?thesis by (fastforce simp: restore_def Let_def)
    next
      case (Inr u)
      with True mk lc link_or_copy_cases [OF lc] fs1 db2 show ?thesis
        by (cases y) (auto simp: restore_def Let_def mark_trash_row_def)
    qed
  qed
qed

section \<open>What replace trashes can be restored\<close>

definition path_ok :: "path \<Rightarrow> bool" where
  "path_ok p \<longleftrightarrow> pa_root p \<in> {[], ''/'', ''//''} \<and>
     list_all (\<lambda>x. x \<noteq> [] \<and> x \<noteq> ''.'' \<and> CHR ''/'' \<notin> set x) (pa_parts p)"

lemma mk_path_ok: "path_ok (mk_path s)"
  using split_on_no_sep [of _ "CHR ''/''" s] by (auto simp: path_ok_def mk_path_def list_all_iff)

lemma path_join_ok: "path_ok a \<Longrightarrow> path_ok b \<Longrightarrow> path_ok (path_join a b)"
  by (auto simp: path_ok_def path_join_def)

lemma path_parse_print:
  assumes "path_ok p"
  shows "mk_path (path_str p) = p"
proof (cases "pa_parts p")
  case Nil
  from assms have "pa_root p = [] \<or> pa_root p = ''/'' \<or> pa_root p = ''//''" by (simp add: path_ok_def)
  with Nil show ?thesis by (cases p) (auto simp: path_str_def mk_path_def)
next
  case (Cons x xs)
  then obtain y ys where x: "x = y # ys" "y \<noteq> CHR ''/''"
    using assms by (cases x) (auto simp: path_ok_def)
  have ok: "list_all (\<lambda>x. x \<noteq> [] \<and> x \<noteq> ''.'' \<and> CHR ''/'' \<notin> set x) (pa_parts p)"
    using assms by (simp add: path_ok_def)
  have sp: "split_on (CHR ''/'') (join ''/'' (pa_parts p)) = pa_parts p"
    by (rule split_on_join) (use Cons ok in \<open>auto simp: list_all_iff\<close>)
  have keep: "filter (\<lambda>p. p \<noteq> [] \<and> p \<noteq> ''.'') (pa_parts p) = pa_parts p"
    using ok by (auto simp: list_all_iff filter_id_conv)
  obtain t where j: "join ''/'' (pa_parts p) = y # t"
    using Cons x by (cases xs) auto
  from assms consider "pa_root p = []" | "pa_root p = ''/''" | "pa_root p = ''//''" by (auto simp: path_ok_def)
  then show ?thesis
    using Cons sp keep j x by cases (cases p; auto simp: path_str_def mk_path_def)+
qed

lemma path_print_parse: "path_ok p \<Longrightarrow> path_str (mk_path (path_str p)) = path_str p"
  by (simp add: path_parse_print)

definition recoverable :: "string \<Rightarrow> int \<Rightarrow> rstate \<Rightarrow> bool" where
  "recoverable p c s \<longleftrightarrow> (\<exists>t \<in> set (db_trash (w_db (rs_world s))).
     path_str (mk_path (t_original_path t)) = p \<and> t_deleted_at t = None \<and>
     w_fs (rs_world s) (path_str (mk_path (t_trash_path t))) = Some c)"

text \<open>Other sessions keep the trash rows: nothing in them is past its expiry.\<close>

definition keeps_trash :: "environ \<Rightarrow> bool" where
  "keeps_trash env \<longleftrightarrow> (\<forall>tr d. set (db_trash d) \<subseteq> set (db_trash (en_db env tr d)))"

text \<open>Steps that keep rows and files keep what is recoverable.\<close>

definition trash_kept :: "'a step \<Rightarrow> bool" where
  "trash_kept m \<longleftrightarrow> (\<forall>s x s'. m s = (x, s') \<longrightarrow>
     set (db_trash (w_db (rs_world s))) \<subseteq> set (db_trash (w_db (rs_world s'))))"

lemma trash_keptD: "trash_kept m \<Longrightarrow> m s = (x, s') \<Longrightarrow>
    set (db_trash (w_db (rs_world s))) \<subseteq> set (db_trash (w_db (rs_world s')))"
  by (simp add: trash_kept_def)

lemma trash_kept_bind:
  assumes "trash_kept m" "\<And>x. trash_kept (f x)"
  shows "trash_kept (flow_bind m f)"
  unfolding trash_kept_def
proof (intro allI impI)
  fix s x s' assume e: "flow_bind m f s = (x, s')"
  obtain y s1 where m: "m s = (y, s1)" by (cases "m s")
  show "set (db_trash (w_db (rs_world s))) \<subseteq> set (db_trash (w_db (rs_world s')))"
    using trash_keptD [OF assms(1) m] e m trash_keptD [OF assms(2)]
    by (cases y) (fastforce simp: flow_bind_def)+
qed

lemma trash_kept_self: "(\<And>t. trash_kept (f t)) \<Longrightarrow> trash_kept (\<lambda>s. f s s)"
  by (simp add: trash_kept_def)

lemma set_verdict_log_trash [simp]: "db_trash (set_verdict_log v l d) = db_trash d"
  by (simp add: set_verdict_log_def)

lemma trash_kept_log: "trash_kept (\<lambda>s. (Go x, log_step r st ok (d s) s))"
  by (simp add: trash_kept_def log_step_facts)

lemma settle_trash: "settle_job r st s = (x, s') \<Longrightarrow> db_trash (w_db (rs_world s')) = db_trash (w_db (rs_world s))"
  by (auto dest!: settle_job_Halt simp: release_Inr update_job_def)

lemma trash_kept_settle: "trash_kept (settle_job r st)"
  by (simp add: trash_kept_def settle_trash)

lemma refuse_trash: "refuse r st d s = (x, s') \<Longrightarrow> db_trash (w_db (rs_world s')) = db_trash (w_db (rs_world s))"
  by (auto simp: refuse_def log_step_facts split: prod.splits flow.splits dest!: settle_trash)

lemma ask_trash:
  assumes "keeps_trash env" "ask env c rq w = (x, w')"
  shows "set (db_trash (w_db w)) \<subseteq> set (db_trash (w_db w'))"
  by (rule sonarr_request_db [where I = "\<lambda>d. set (db_trash (w_db w)) \<subseteq> set (db_trash d)", OF _ assms(2)])
    (use assms(1) in \<open>auto simp: keeps_trash_def\<close>)

lemma mutation_trash:
  assumes "keeps_trash env"
  shows "mark_history_failed env c h w = (x, w') \<Longrightarrow> set (db_trash (w_db w)) \<subseteq> set (db_trash (w_db w'))"
    "delete_episode_file env c j w = (x, w') \<Longrightarrow> set (db_trash (w_db w)) \<subseteq> set (db_trash (w_db w'))"
    "command env c n b w = (x, w') \<Longrightarrow> set (db_trash (w_db w)) \<subseteq> set (db_trash (w_db w'))"
  using ask_trash [OF assms]
  by (auto simp: mark_history_failed_def delete_episode_file_def command_def unless_dry_run_def split: if_splits)

lemma trash_kept_sonarr:
  assumes "\<And>w x w'. call w = (x, w') \<Longrightarrow> set (db_trash (w_db w)) \<subseteq> set (db_trash (w_db w'))"
  shows "trash_kept (sonarr_step r st sfx call)"
  unfolding trash_kept_def
proof (intro allI impI)
  fix s x s' assume e: "sonarr_step r st sfx call s = (x, s')"
  obtain y w where c: "call (rs_world s) = (y, w)" by (cases "call (rs_world s)")
  from e c have "db_trash (w_db (rs_world s')) = db_trash (w_db w)"
    by (cases rule: sonarr_step_cases) (auto dest: refuse_trash)
  then show "set (db_trash (w_db (rs_world s))) \<subseteq> set (db_trash (w_db (rs_world s')))"
    using assms [OF c] by simp
qed

lemma trash_kept_delete_and_search:
  assumes "keeps_trash (re_env r)"
  shows "trash_kept (delete_and_search r sfx)"
proof -
  have d: "trash_kept (delete_step r a b)" for a b unfolding delete_step_def
    by (rule trash_kept_self, intro trash_kept_bind trash_kept_sonarr trash_kept_log)
      (rule mutation_trash(2) [OF assms])
  have c: "trash_kept (search_step r)" unfolding search_step_def
    by (rule trash_kept_self, intro trash_kept_bind trash_kept_sonarr trash_kept_log)
      (rule mutation_trash(3) [OF assms])
  show ?thesis unfolding delete_and_search_def
    by (rule trash_kept_self) (intro trash_kept_bind trash_kept_settle d c)
qed

lemma recoverable_kept:
  assumes "trash_kept m" "files_kept m" "recoverable p c s" "m s = (x, s')"
  shows "recoverable p c s'"
  using assms(3) trash_keptD [OF assms(1,4)] files_keptD [OF assms(2,4)]
  unfolding recoverable_def keeps_files_def by (metis option.distinct(1) subsetD)


lemma kept_delete_and_search_all:
  "fs_quiet (re_env r) \<Longrightarrow> keeps_trash (re_env r) \<Longrightarrow> recoverable p c s \<Longrightarrow>
     delete_and_search r sfx s = (x, s') \<Longrightarrow> recoverable p c s'"
  by (rule recoverable_kept [OF trash_kept_delete_and_search kept_delete_and_search])

text \<open>The trash step itself.\<close>

lemma trash_path_ok: "path_ok (path_div (trash_dir r tc) n)"
  by (simp add: path_div_def trash_dir_def path_join_ok mk_path_ok)

lemma trash_step_recoverable:
  assumes "\<not> re_dry_run r" "trash_on r"
    and "path_str (mk_path (f_local_path (rs_file s))) = p" "w_fs (rs_world s) p = Some c"
    and "trash_step r s = (Go sfx, s')"
  shows "recoverable p c s'"
proof -
  obtain tc where tc: "re_trash r = Some tc" "tc_enabled tc"
    using assms(2) by (auto simp: trash_on_def split: option.splits)
  obtain x w where mk: "os_call (re_env r) (OsMkdir (path_str (trash_dir r tc))) (rs_world s) = (x, w)"
    by (cases "os_call (re_env r) (OsMkdir (path_str (trash_dir r tc))) (rs_world s)")
  have fw: "w_fs w = w_fs (rs_world s)" using mk by (auto simp: os_call_def split: option.splits)
  obtain y w' where lc: "link_or_copy (re_env r) p (trash_path_of r tc s) w = (y, w')"
    by (cases "link_or_copy (re_env r) p (trash_path_of r tc s) w")
  have noGo: "refuse r st d s0 \<noteq> (Go (z :: string), s1)" for st d s0 z s1
    by (auto simp: refuse_def split: prod.splits flow.splits)
  from assms(5) mk lc tc assms(1,3) noGo obtain u where y: "y = Inr u"
    and s': "\<exists>d ex. s' = log_step r ''trash'' True d (insert_trash r tc ex (s\<lparr>rs_world := w'\<rparr>))"
    by (cases x; cases y) (auto simp: trash_step_def Let_def)
  from s' obtain d ex where s': "s' = log_step r ''trash'' True d (insert_trash r tc ex (s\<lparr>rs_world := w'\<rparr>))" by blast
  have fs': "w_fs w' (trash_path_of r tc s) = Some c"
    using link_or_copy_cases [OF lc] y fw assms(4) by auto
  have "path_str (mk_path (trash_path_of r tc s)) = trash_path_of r tc s"
    unfolding trash_path_of_def by (rule path_print_parse [OF trash_path_ok])
  moreover have "path_str (mk_path p) = p"
    using assms(3) path_print_parse [OF mk_path_ok] by metis
  ultimately show ?thesis
    using fs' assms(3) unfolding s' recoverable_def
    by (intro bexI [of _ "new_trash_item r tc ex (s\<lparr>rs_world := w'\<rparr>) (w_db w') (now_of (re_env r) w')"])
      (simp_all add: log_step_facts insert_trash_def Let_def new_trash_item_def trash_path_of_def)
qed


definition untouched :: "effect list \<Rightarrow> string \<Rightarrow> int \<Rightarrow> rstate \<Rightarrow> bool" where
  "untouched tr p c s \<longleftrightarrow> path_str (mk_path (f_local_path (rs_file s))) = p \<and> w_fs (rs_world s) p = Some c \<and>
     (\<exists>es. w_trace (rs_world s) = tr @ es \<and> list_all (\<lambda>e. \<not> is_delete e) es)"

lemma untouched_kept:
  assumes "framed r (\<lambda>e. \<not> is_delete e) m" "files_kept m" "untouched tr p c s" "m s = (x, s')"
  shows "untouched tr p c s'"
  using framedD [OF assms(1,4)] files_keptD [OF assms(2,4)] assms(3)
  by (fastforce simp: untouched_def frame_def new_events_def keeps_files_def)

definition safe_content :: "effect list \<Rightarrow> string \<Rightarrow> int \<Rightarrow> rstate \<Rightarrow> bool" where
  "safe_content tr p c s \<longleftrightarrow> untouched tr p c s \<or> recoverable p c s"

lemma framed_trash: "framed r (\<lambda>e. \<not> is_delete e) (trash_step r)"
  unfolding framed_def
proof (intro allI impI)
  fix s x s' assume e: "trash_step r s = (x, s')"
  show "frame r (\<lambda>e. \<not> is_delete e) s s'"
  proof (cases "re_trash r")
    case None
    with e show ?thesis by (simp add: trash_step_def)
  next
    case (Some tc)
    let ?local = "path_str (mk_path (f_local_path (rs_file s)))"
    obtain y w where mk: "os_call (re_env r) (OsMkdir (path_str (trash_dir r tc))) (rs_world s) = (y, w)"
      by (cases "os_call (re_env r) (OsMkdir (path_str (trash_dir r tc))) (rs_world s)")
    obtain z w' where lc: "link_or_copy (re_env r) ?local (trash_path_of r tc s) w = (z, w')"
      by (cases "link_or_copy (re_env r) ?local (trash_path_of r tc s) w")
    have 1: "frame r (\<lambda>e. \<not> is_delete e) s (s\<lparr>rs_world := w\<rparr>)"
      by (rule frame_world [OF os_no_delete [OF mk]])
    have 2: "frame r (\<lambda>e. \<not> is_delete e) s (s\<lparr>rs_world := w'\<rparr>)"
      by (rule frame_world [OF new_events_trans [OF os_no_delete [OF mk] link_or_copy_events [OF lc]]])
    have 3: "frame r (\<lambda>e. \<not> is_delete e) t (insert_trash r tc ex t)" for t ex
      by (simp add: frame_def insert_trash_def Let_def new_events_same)
    consider "\<not> tc_enabled tc \<or> re_dry_run r" | "tc_enabled tc" "\<not> re_dry_run r" by blast
    then show ?thesis
    proof cases
      case 1
      with e Some show ?thesis by (auto simp: trash_step_def Let_def log_step_frame split: if_splits)
    next
      case on: 2
      show ?thesis
      proof (cases y)
        case (Inl ex)
        with e Some mk on obtain d where "refuse r ''trash'' d (s\<lparr>rs_world := w\<rparr>) = (x, s')"
          by (auto simp: trash_step_def Let_def)
        with 1 show ?thesis by (blast intro: frame_trans framedD [OF framed_refuse])
      next
        case y: (Inr u)
        show ?thesis
        proof (cases z)
          case (Inl ex)
          with e Some mk lc on y obtain d where "refuse r ''trash'' d (s\<lparr>rs_world := w'\<rparr>) = (x, s')"
            by (auto simp: trash_step_def Let_def)
          with 2 show ?thesis by (blast intro: frame_trans framedD [OF framed_refuse])
        next
          case (Inr u')
          with e Some mk lc on y obtain d ex
            where "s' = log_step r ''trash'' True d (insert_trash r tc ex (s\<lparr>rs_world := w'\<rparr>))"
            by (auto simp: trash_step_def Let_def)
          with frame_trans [OF 2 frame_trans [OF 3 log_step_frame]] show ?thesis by simp
        qed
      qed
    qed
  qed
qed

lemma replace_safe:
  assumes "\<not> re_dry_run r" "trash_on r" "fs_quiet (re_env r)" "keeps_trash (re_env r)"
  shows "ensures (untouched tr p c) (replace_body r) (\<lambda>_. safe_content tr p c) (safe_content tr p c)
    (\<lambda>_. safe_content tr p c)"
  unfolding replace_body_def
proof (rule ensures_bind [where R = "\<lambda>_. untouched tr p c"])
  have pre: "ensures (untouched tr p c) m (\<lambda>_. untouched tr p c) (safe_content tr p c) (\<lambda>_. safe_content tr p c)"
    if "framed r (\<lambda>e. \<not> is_delete e) m" "files_kept m" for m :: "unit step"
    by (rule ensuresI) (auto simp: safe_content_def intro: untouched_kept [OF that])
  show "ensures (untouched tr p c) (interruption_guard r) (\<lambda>_. untouched tr p c) (safe_content tr p c) (\<lambda>_. safe_content tr p c)"
    by (rule pre [OF framed_guard kept_guard])
  show "ensures (untouched tr p c) (flow_bind (blocklist_step r) (\<lambda>_. flow_bind (trash_step r) (delete_and_search r)))
     (\<lambda>_. safe_content tr p c) (safe_content tr p c) (\<lambda>_. safe_content tr p c)"
  proof (rule ensures_bind [OF pre [OF framed_blocklist [OF no_delete_emits(1)] kept_blocklist [OF assms(3)]]])
    show "ensures (untouched tr p c) (flow_bind (trash_step r) (delete_and_search r))
     (\<lambda>_. safe_content tr p c) (safe_content tr p c) (\<lambda>_. safe_content tr p c)"
    proof (rule ensures_bind [where R = "\<lambda>_. recoverable p c"])
      show "ensures (untouched tr p c) (trash_step r) (\<lambda>_. recoverable p c) (safe_content tr p c) (\<lambda>_. safe_content tr p c)"
      proof (rule ensuresI)
        fix s x s' assume "untouched tr p c s" "trash_step r s = (Go x, s')"
        then show "recoverable p c s'"
          by (auto simp: untouched_def intro: trash_step_recoverable [OF assms(1,2)])
      qed (auto simp: safe_content_def intro: untouched_kept [OF framed_trash kept_trash])
      show "ensures (recoverable p c) (delete_and_search r x) (\<lambda>_. safe_content tr p c) (safe_content tr p c)
        (\<lambda>_. safe_content tr p c)" for x
        by (rule ensuresI) (auto simp: safe_content_def intro: kept_delete_and_search_all [OF assms(3,4)])
    qed
  qed
qed


section \<open>What the sequences do when nothing goes wrong\<close>

lemma settle_held:
  assumes "jobs_wf (w_db (rs_world s))" "holds_lease (w_db (rs_world s)) (j_id (rs_job s)) (re_worker r)"
    "j_status (rs_job s) = Active"
  shows "\<exists>s'. settle_job r Remediated s = (Halt, s') \<and> w_trace (rs_world s') = w_trace (rs_world s) \<and>
    w_fs (rs_world s') = w_fs (rs_world s) \<and> status_of (w_db (rs_world s')) (j_id (rs_job s)) = Some Remediated \<and>
    db_trash (w_db (rs_world s')) = db_trash (w_db (rs_world s))"
proof -
  let ?now = "now_of (re_env r) (rs_world s)"
  have "Remediated \<in> VALID_TRANSITIONS Active" by (simp add: TERMINAL_STATUSES_def)
  with settle_iff [OF assms(1)] assms(2) obtain d' where
    d: "settle (w_db (rs_world s)) (j_id (rs_job s)) Remediated (re_worker r) ?now = Some d'" by blast
  then have r: "release (w_db (rs_world s)) (rs_job s) Remediated (re_worker r) ?now = Inr (unleased Remediated (rs_job s), d')"
    using release_settle [OF assms(3)] by blast
  from release_world [OF assms(1) r] r show ?thesis
    by (simp add: settle_job_def Let_def)
qed


definition evs :: "effect list \<Rightarrow> rstate \<Rightarrow> rstate \<Rightarrow> bool" where
  "evs es s s' \<longleftrightarrow> w_trace (rs_world s') = w_trace (rs_world s) @ es \<and> rs_job s' = rs_job s \<and>
     rs_file s' = rs_file s \<and> rs_verdict s' = rs_verdict s \<and>
     db_jobs (w_db (rs_world s')) = db_jobs (w_db (rs_world s)) \<and>
     (\<exists>new. rs_log s' = rs_log s @ new \<and> list_all le_ok new)"

definition does :: "effect list \<Rightarrow> rstate \<Rightarrow> 'a \<Rightarrow> 'a flow \<times> rstate \<Rightarrow> bool" where
  "does es s x p \<longleftrightarrow> (\<exists>s'. p = (Go x, s') \<and> evs es s s')"

lemma evs_trans: "evs es s s' \<Longrightarrow> evs fs s' s'' \<Longrightarrow> evs (es @ fs) s s''"
  by (auto simp: evs_def)

lemma evs_log: "evs [] s (log_step r st True d s)"
  using log_step_facts [of r st True d s] by (auto simp: evs_def)

lemma evs_world: "w_db w = w_db (rs_world s) \<Longrightarrow> w_trace w = w_trace (rs_world s) @ es \<Longrightarrow> evs es s (s\<lparr>rs_world := w\<rparr>)"
  by (simp add: evs_def)

definition calls_ok :: "(world \<Rightarrow> 'a res \<times> world) \<Rightarrow> effect list \<Rightarrow> 'a \<Rightarrow> bool" where
  "calls_ok call es x \<longleftrightarrow> (\<forall>w. call w = (Inr x, w\<lparr>w_trace := w_trace w @ es\<rparr>))"

lemma does_call:
  assumes "calls_ok call es x"
  shows "does es s x (sonarr_step r st sfx call s)"
  using assms evs_world [of "(rs_world s)\<lparr>w_trace := w_trace (rs_world s) @ es\<rparr>" s es]
  by (simp add: does_def sonarr_step_def calls_ok_def)

lemma does_sonarr:
  assumes "calls_ok call es x"
  shows "does es s () (flow_bind (sonarr_step r st sfx call) (\<lambda>_ s. (Go (), log_step r st' True (d s) s)) s)"
proof -
  from does_call [OF assms, of s r st sfx] obtain s' where
    s': "sonarr_step r st sfx call s = (Go x, s')" "evs es s s'" by (auto simp: does_def)
  with evs_trans [OF s'(2) evs_log] show ?thesis by (auto simp: does_def flow_bind_def)
qed

lemma does_bind:
  assumes "does es s x (m s)" "\<And>s'. evs es s s' \<Longrightarrow> f x s' = p s'"
  shows "\<exists>s'. evs es s s' \<and> m s = (Go x, s') \<and> flow_bind m f s = p s'"
  using assms by (auto simp: does_def flow_bind_def)

abbreviation live :: "remediator \<Rightarrow> (request \<Rightarrow> json) \<Rightarrow> bool" where
  "live r f \<equiv> calm (re_env r) \<and> answers (re_env r) f \<and> \<not> cn_dry_run (re_client r) \<and> \<not> re_dry_run r"

definition blocklist_events :: "int option \<Rightarrow> effect list" where
  "blocklist_events h = (case h of None \<Rightarrow> [] | Some h \<Rightarrow> [EHttp (POST_of (''/history/failed/'' @ show_int h) None)])"

lemma does_blocklist:
  assumes "live r f"
  shows "does (blocklist_events (f_history_id (rs_file s))) s () (blocklist_step r s)"
proof (cases "f_history_id (rs_file s)")
  case None
  then show ?thesis by (auto simp: does_def blocklist_step_def blocklist_events_def intro: evs_log)
next
  case (Some h)
  have c: "calls_ok (mark_history_failed (re_env r) (re_client r) h) [EHttp (POST_of (''/history/failed/'' @ show_int h) None)] (f (POST_of (''/history/failed/'' @ show_int h) None))"
    using assms by (simp add: calls_ok_def mark_history_failed_def unless_dry_run_def ask_calm)
  show ?thesis unfolding blocklist_step_def Some option.case blocklist_events_def
    by (rule does_sonarr [OF c])
qed

definition delete_event :: "file_row \<Rightarrow> effect" where
  "delete_event f = EHttp (DELETE_of (''/episodefile/'' @ show_int (f_episode_file_id f)))"

lemma does_delete:
  assumes "live r f"
  shows "does [delete_event (rs_file s)] s () (delete_step r sfx d s)"
proof -
  let ?rq = "DELETE_of (''/episodefile/'' @ show_int (f_episode_file_id (rs_file s)))"
  have c: "calls_ok (delete_episode_file (re_env r) (re_client r) (f_episode_file_id (rs_file s))) [EHttp ?rq] (f ?rq)"
    using assms by (simp add: calls_ok_def delete_episode_file_def unless_dry_run_def ask_calm)
  show ?thesis unfolding delete_step_def delete_event_def
    by (rule does_sonarr [OF c])
qed

definition command_event :: "string \<Rightarrow> (string \<times> json) list \<Rightarrow> effect" where
  "command_event n b = EHttp (POST_of ''/command'' (Some (JObj ((''name'', JStr n) # b))))"

definition search_event :: "file_row \<Rightarrow> effect" where
  "search_event f = command_event ''EpisodeSearch'' [(''episodeIds'', JList (map JInt (f_episode_ids f)))]"

lemma does_search:
  assumes "live r f"
  shows "does [search_event (rs_file s)] s () (search_step r s)"
proof -
  let ?b = "[(''episodeIds'', JList (map JInt (f_episode_ids (rs_file s))))]"
  let ?rq = "POST_of ''/command'' (Some (JObj ((''name'', JStr ''EpisodeSearch'') # ?b)))"
  have c: "calls_ok (command (re_env r) (re_client r) ''EpisodeSearch'' ?b) [EHttp ?rq] (f ?rq)"
    using assms by (simp add: calls_ok_def command_def unless_dry_run_def ask_calm)
  show ?thesis unfolding search_step_def search_event_def command_event_def
    by (rule does_sonarr [OF c])
qed

lemma does_trash:
  assumes "live r f" "re_trash r = Some tc" "tc_enabled tc"
    and "w_fs (rs_world s) (path_str (mk_path (f_local_path (rs_file s)))) \<noteq> None"
    and "w_fs (rs_world s) (trash_path_of r tc s) = None"
  shows "\<exists>sfx. does [EOs (OsMkdir (path_str (trash_dir r tc))) None,
      EOs (OsLink (path_str (mk_path (f_local_path (rs_file s)))) (trash_path_of r tc s)) None] s sfx (trash_step r s)"
proof -
  let ?l = "path_str (mk_path (f_local_path (rs_file s)))" and ?t = "trash_path_of r tc s"
  let ?w1 = "(rs_world s)\<lparr>w_trace := w_trace (rs_world s) @ [EOs (OsMkdir (path_str (trash_dir r tc))) None]\<rparr>"
  let ?w2 = "?w1\<lparr>w_trace := w_trace ?w1 @ [EOs (OsLink ?l ?t) None], w_fs := os_apply (OsLink ?l ?t) (w_fs ?w1)\<rparr>"
  have c: "calm (re_env r)" using assms(1) by simp
  then have nf: "en_fault (re_env r) tr op = None" for tr op by (simp add: calm_def)
  have mk: "os_call (re_env r) (OsMkdir (path_str (trash_dir r tc))) (rs_world s) = (Inr (), ?w1)"
    by (subst os_calm [OF c]) (simp_all add: nf)
  have ln: "os_call (re_env r) (OsLink ?l ?t) ?w1 = (Inr (), ?w2)"
    by (subst os_calm [OF c]) (use assms(4,5) in \<open>simp_all add: nf\<close>)
  have lc: "link_or_copy (re_env r) ?l ?t ?w1 = (Inr (), ?w2)" by (simp only: link_or_copy_def ln prod.case sum.case)
  have ins: "evs [] t (insert_trash r tc ex t)" for t ex
    by (simp add: evs_def insert_trash_def Let_def)
  have w: "evs [EOs (OsMkdir (path_str (trash_dir r tc))) None, EOs (OsLink ?l ?t) None] s (s\<lparr>rs_world := ?w2\<rparr>)"
    by (rule evs_world) simp_all
  have step: "\<exists>sfx d ex. trash_step r s = (Go sfx, log_step r ''trash'' True d (insert_trash r tc ex (s\<lparr>rs_world := ?w2\<rparr>)))"
    unfolding trash_step_def assms(2) option.case Let_def mk prod.case sum.case lc
    using assms(1,3) by auto
  then obtain sfx d ex where "trash_step r s = (Go sfx, log_step r ''trash'' True d (insert_trash r tc ex (s\<lparr>rs_world := ?w2\<rparr>)))"
    by blast
  moreover have "evs [EOs (OsMkdir (path_str (trash_dir r tc))) None, EOs (OsLink ?l ?t) None] s
      (log_step r ''trash'' True d (insert_trash r tc ex (s\<lparr>rs_world := ?w2\<rparr>)))"
    using evs_trans [OF evs_trans [OF w ins] evs_log] by simp
  ultimately show ?thesis by (auto simp: does_def)
qed

definition ready :: "remediator \<Rightarrow> rstate \<Rightarrow> bool" where
  "ready r s \<longleftrightarrow> jobs_wf (w_db (rs_world s)) \<and> j_status (rs_job s) = Active \<and>
     holds_lease (w_db (rs_world s)) (j_id (rs_job s)) (re_worker r)"

lemma ready_evs: "ready r s \<Longrightarrow> evs es s s' \<Longrightarrow> ready r s'"
  by (simp add: ready_def evs_def jobs_wf_def holds_lease_def get_job_def)

lemma settle_ready:
  assumes "ready r s0" "evs es s0 s"
  shows "\<exists>s'. settle_job r Remediated s = (Halt, s') \<and> w_trace (rs_world s') = w_trace (rs_world s0) @ es \<and>
    status_of (w_db (rs_world s')) (j_id (rs_job s0)) = Some Remediated"
  using settle_held [of s r] ready_evs [OF assms] assms(2) by (auto simp: ready_def evs_def)

definition replace_events :: "remediator \<Rightarrow> trash_config \<Rightarrow> rstate \<Rightarrow> effect list" where
  "replace_events r tc s =
     blocklist_events (f_history_id (rs_file s)) @
     [EOs (OsMkdir (path_str (trash_dir r tc))) None,
      EOs (OsLink (path_str (mk_path (f_local_path (rs_file s)))) (trash_path_of r tc s)) None,
      delete_event (rs_file s), search_event (rs_file s)]"

lemma evs_file: "evs es s s' \<Longrightarrow> rs_file s' = rs_file s"
  by (simp add: evs_def)

lemma replace_run_calm:
  assumes "load_run r i w = Inr s" "\<not> was_interrupted (rs_log s)" "ready r s"
    and "calm (re_env r)" "answers (re_env r) f" "\<not> cn_dry_run (re_client r)" "\<not> re_dry_run r"
    and "re_trash r = Some tc" "tc_enabled tc"
    and "w_fs w (path_str (mk_path (f_local_path (rs_file s)))) = Some content" "w_fs w (trash_path_of r tc s) = None"
  shows "\<exists>w'. replace r i w = (Inr (), w') \<and> w_trace w' = w_trace w @ replace_events r tc s \<and>
    status_of (w_db w') i = Some Remediated"
proof -
  note l = load_run_facts [OF assms(1)]
  have live: "live r f" using assms(4-7) by simp
  have g: "does [] s () (interruption_guard r s)"
    using assms(2) by (simp add: does_def interruption_guard_def evs_def)
  obtain s1 where s1: "evs (blocklist_events (f_history_id (rs_file s))) s s1" "blocklist_step r s = (Go (), s1)"
    using does_blocklist [OF live, of s] by (auto simp: does_def)
  have fs1: "w_fs (rs_world s1) = w_fs w"
    using s1(2) live l(1) by (auto simp: blocklist_step_def flow_bind_def sonarr_step_def mark_history_failed_def
        unless_dry_run_def ask_calm log_step_facts split: option.splits)
  have t1: "trash_path_of r tc s1 = trash_path_of r tc s" "rs_file s1 = rs_file s"
    using s1(1) by (simp_all add: evs_def trash_path_of_def)
  obtain sfx s2 where s2: "trash_step r s1 = (Go sfx, s2)"
    "evs [EOs (OsMkdir (path_str (trash_dir r tc))) None,
      EOs (OsLink (path_str (mk_path (f_local_path (rs_file s)))) (trash_path_of r tc s)) None] s1 s2"
    using does_trash [OF live assms(8,9), of s1] fs1 t1 assms(10,11) by (auto simp: does_def)
  let ?d = "''removed file via Sonarr (episode_file_id='' @ show_int (f_episode_file_id (rs_file s2)) @ sfx @ '')''"
  obtain s3 where s3: "delete_step r [] ?d s2 = (Go (), s3)" "evs [delete_event (rs_file s2)] s2 s3"
    using does_delete [OF live, of s2 "[]" ?d] by (auto simp: does_def)
  obtain s4 where s4: "search_step r s3 = (Go (), s4)" "evs [search_event (rs_file s3)] s3 s4"
    using does_search [OF live, of s3] by (auto simp: does_def)
  have all: "evs (replace_events r tc s) s s4"
    using evs_trans [OF s1(1) evs_trans [OF s2(2) evs_trans [OF s3(2) s4(2)]]]
      evs_file [OF s1(1)] evs_file [OF s2(2)] evs_file [OF s3(2)]
    by (simp add: replace_events_def)
  obtain s' where s': "settle_job r Remediated s4 = (Halt, s')"
    "w_trace (rs_world s') = w_trace (rs_world s) @ replace_events r tc s"
    "status_of (w_db (rs_world s')) (j_id (rs_job s)) = Some Remediated"
    using settle_ready [OF assms(3) all] by blast
  have "replace_body r s = (Halt, s')"
    unfolding replace_body_def delete_and_search_def
    using g s1(2) s2(1) s3(1) s4(1) s'(1) by (auto simp: flow_bind_def interruption_guard_def assms(2))
  then show ?thesis
    using s'(2,3) l by (simp add: replace_run [OF assms(1)] run_result_def)
qed

text \<open>C34: When every call succeeds, \<open>replace\<close> does exactly its four steps in order (blocklist the
  grab if it is known, copy to the trash, delete through Sonarr, search for the claimed episodes), sends
  nothing else, and the job ends remediated.\<close>

theorem replace_does:
  assumes "load_run r i w = Inr s" "\<not> was_interrupted (rs_log s)" "ready r s"
    and "calm (re_env r)" "answers (re_env r) f" "\<not> cn_dry_run (re_client r)" "\<not> re_dry_run r"
    and "re_trash r = Some tc" "tc_enabled tc"
    and "w_fs w (path_str (mk_path (f_local_path (rs_file s)))) = Some content" "w_fs w (trash_path_of r tc s) = None"
  shows "\<exists>w'. replace r i w = (Inr (), w') \<and> w_trace w' = w_trace w @ replace_events r tc s \<and>
    status_of (w_db w') i = Some Remediated"
  by (rule replace_run_calm [OF assms])

text \<open>The steps of \<open>remap\<close>.\<close>

definition list_episodes_event :: "file_row \<Rightarrow> effect" where
  "list_episodes_event f = EHttp (GET_of ''/episode'' [(''seriesId'', JInt (f_series_id f))])"

definition list_staged_request :: "remediator \<Rightarrow> request" where
  "list_staged_request r = GET_of ''/manualimport''
     [(''folder'', JStr (staging_dir_of r)), (''filterExistingFiles'', JStr ''false'')]"

definition import_event :: "file_row \<Rightarrow> int set \<Rightarrow> manual_import_item \<Rightarrow> effect" where
  "import_event f ids m = command_event ''ManualImport''
     [(''files'', JList [import_payload f ids m]), (''importMode'', JStr ''move'')]"

lemma calls_decode:
  assumes "calls_ok call es j" "decode j = Inr x"
  shows "calls_ok (\<lambda>w. then_decode decode (call w)) es x"
  using assms by (simp add: calls_ok_def then_decode_def)

lemma calls_ask: "calm env \<Longrightarrow> answers env f \<Longrightarrow> calls_ok (ask env c rq) [EHttp rq] (f rq)"
  by (simp add: calls_ok_def ask_calm)

lemma does_fetch:
  assumes "live r f"
    and "decode_all (cd_episode (re_codec r)) (f (GET_of ''/episode'' [(''seriesId'', JInt (f_series_id (rs_file s)))])) = Inr eps"
  shows "does [list_episodes_event (rs_file s)] s (target_episodes_of ts eps) (fetch_targets r ts s)"
proof -
  have "calls_ok (get_episodes (re_env r) (re_codec r) (re_client r) (f_series_id (rs_file s)))
      [list_episodes_event (rs_file s)] eps"
    unfolding get_episodes_def list_episodes_event_def
    by (rule calls_decode [where decode = "decode_all (cd_episode (re_codec r))", OF _ assms(2)], rule calls_ask) (use assms(1) in auto)
  then show ?thesis
    using evs_world [of "(rs_world s)\<lparr>w_trace := w_trace (rs_world s) @ [list_episodes_event (rs_file s)]\<rparr>" s]
    by (simp add: does_def fetch_targets_def calls_ok_def)
qed

lemma does_hardlink:
  assumes "live r f" "w_fs (rs_world s) (path_str (mk_path (f_local_path (rs_file s)))) \<noteq> None"
    "w_fs (rs_world s) sp = None"
  shows "does [EOs (OsMkdir (staging_dir_of r)) None, EOs (OsLink (path_str (mk_path (f_local_path (rs_file s)))) sp) None]
    s () (hardlink_step r sp s)"
proof -
  let ?l = "path_str (mk_path (f_local_path (rs_file s)))"
  let ?w1 = "(rs_world s)\<lparr>w_trace := w_trace (rs_world s) @ [EOs (OsMkdir (staging_dir_of r)) None]\<rparr>"
  let ?w2 = "?w1\<lparr>w_trace := w_trace ?w1 @ [EOs (OsLink ?l sp) None], w_fs := os_apply (OsLink ?l sp) (w_fs ?w1)\<rparr>"
  have c: "calm (re_env r)" using assms(1) by simp
  then have nf: "en_fault (re_env r) tr op = None" for tr op by (simp add: calm_def)
  have mk: "os_call (re_env r) (OsMkdir (staging_dir_of r)) (rs_world s) = (Inr (), ?w1)"
    by (subst os_calm [OF c]) (simp_all add: nf)
  have ln: "os_call (re_env r) (OsLink ?l sp) ?w1 = (Inr (), ?w2)"
    by (subst os_calm [OF c]) (use assms(2,3) in \<open>simp_all add: nf\<close>)
  have sl: "staging_link r ?l sp (rs_world s) = (Inr (), ?w2)"
    by (simp only: staging_link_def mk ln prod.case sum.case)
  have w: "evs [EOs (OsMkdir (staging_dir_of r)) None, EOs (OsLink ?l sp) None] s (s\<lparr>rs_world := ?w2\<rparr>)"
    by (rule evs_world) simp_all
  have "hardlink_step r sp s = (Go (), log_step r ''hardlink'' True (''preserved file data in staging: '' @ sp) (s\<lparr>rs_world := ?w2\<rparr>))"
    unfolding hardlink_step_def Let_def sl prod.case sum.case using assms(1) by simp
  with evs_trans [OF w evs_log] show ?thesis by (auto simp: does_def)
qed

lemma does_candidates:
  assumes "live r f" "decode_all (cd_import (re_codec r)) (f (list_staged_request r)) = Inr cs"
    "match_candidate sp cs = Some m"
  shows "does [EHttp (list_staged_request r)] s m (candidates_step r sp s)"
proof -
  have c: "calls_ok (manual_import_candidates (re_env r) (re_codec r) (re_client r) (staging_dir_of r))
      [EHttp (list_staged_request r)] cs"
    unfolding manual_import_candidates_def list_staged_request_def
    by (rule calls_decode [where decode = "decode_all (cd_import (re_codec r))", OF _ assms(2) [unfolded list_staged_request_def]], rule calls_ask) (use assms(1) in auto)
  from does_call [OF c, of s r "''manual_import_candidates''" "''; staging_path='' @ sp"]
  obtain s' where s': "sonarr_step r ''manual_import_candidates'' (''; staging_path='' @ sp)
      (manual_import_candidates (re_env r) (re_codec r) (re_client r) (staging_dir_of r)) s = (Go cs, s')"
    "evs [EHttp (list_staged_request r)] s s'" by (auto simp: does_def)
  show ?thesis
    unfolding candidates_step_def flow_bind_def s'(1)
    using evs_trans [OF s'(2) evs_log] assms(3) by (auto simp: does_def)
qed

lemma does_import:
  assumes "live r f"
  shows "does [import_event (rs_file s) (set (map ep_id eps)) m] s () (import_step r eps sp m s)"
proof -
  have c: "calls_ok (execute_manual_import (re_env r) (re_client r) [import_payload (rs_file s) (set (map ep_id eps)) m] ''move'')
      [import_event (rs_file s) (set (map ep_id eps)) m]
      (f (POST_of ''/command'' (Some (JObj [(''name'', JStr ''ManualImport''),
          (''files'', JList [import_payload (rs_file s) (set (map ep_id eps)) m]), (''importMode'', JStr ''move'')]))))"
    using assms by (simp add: calls_ok_def execute_manual_import_def unless_dry_run_def ask_calm import_event_def command_event_def)
  show ?thesis unfolding import_step_def by (rule does_sonarr [OF c])
qed

definition remap_events :: "remediator \<Rightarrow> episode list \<Rightarrow> manual_import_item \<Rightarrow> rstate \<Rightarrow> effect list" where
  "remap_events r eps m s =
     [list_episodes_event (rs_file s), EOs (OsMkdir (staging_dir_of r)) None,
      EOs (OsLink (path_str (mk_path (f_local_path (rs_file s)))) (staged_path r eps (rs_file s))) None,
      delete_event (rs_file s), EHttp (list_staged_request r),
      import_event (rs_file s) (set (map ep_id eps)) m]"

text \<open>When every call succeeds and the targets exist and are free, \<open>remap\<close> does exactly its
  steps in order (list the episodes, hardlink into staging under the corrected name, delete the old
  file record, find the staged file among Sonarr's candidates, import that candidate into exactly the
  target episodes), and the job ends remediated.\<close>

theorem remap_does:
  assumes "load_run r i w = Inr s" "\<not> was_interrupted (rs_log s)" "ready r s"
    and "calm (re_env r)" "answers (re_env r) f" "\<not> cn_dry_run (re_client r)" "\<not> re_dry_run r"
    and "decode_all (cd_episode (re_codec r)) (f (GET_of ''/episode'' [(''seriesId'', JInt (f_series_id (rs_file s)))])) = Inr eps"
    and "ts \<noteq> {}" "ts \<subseteq> ep_id ` set eps" "\<forall>e \<in> set eps. ep_id e \<in> ts \<longrightarrow> \<not> ep_has_file e"
    and "w_fs w (path_str (mk_path (f_local_path (rs_file s)))) = Some content"
    and "w_fs w (staged_path r (target_episodes_of ts eps) (rs_file s)) = None"
    and "decode_all (cd_import (re_codec r)) (f (list_staged_request r)) = Inr cs"
    and "match_candidate (staged_path r (target_episodes_of ts eps) (rs_file s)) cs = Some m"
  shows "\<exists>w'. remap r i ts w = (Inr (), w') \<and>
    w_trace w' = w_trace w @ remap_events r (target_episodes_of ts eps) m s \<and>
    set (map ep_id (target_episodes_of ts eps)) = ts \<and> status_of (w_db w') i = Some Remediated"
proof -
  note l = load_run_facts [OF assms(1)]
  have live: "live r f" using assms(4-7) by simp
  let ?eps = "target_episodes_of ts eps"
  have ids: "set (map ep_id ?eps) = ts" using assms(10) by (auto simp: target_episodes_of_def)
  have ne: "?eps \<noteq> []" using ids assms(9) by (metis list.map_disc_iff set_empty)
  have free: "filter ep_has_file ?eps = []" using assms(11) by (auto simp: target_episodes_of_def filter_empty_conv)
  let ?sp = "staged_path r ?eps (rs_file s)"
  obtain s1 where s1: "fetch_targets r ts s = (Go ?eps, s1)" "evs [list_episodes_event (rs_file s)] s s1"
    using does_fetch [OF live assms(8)] by (auto simp: does_def)
  have f1: "rs_file s1 = rs_file s" by (rule evs_file [OF s1(2)])
  have fs1: "w_fs (rs_world s1) = w_fs w"
    using s1(1) live l(1) by (auto simp: fetch_targets_def get_episodes_def then_decode_def ask_calm split: sum.splits)
  obtain s2 where s2: "hardlink_step r ?sp s1 = (Go (), s2)"
    "evs [EOs (OsMkdir (staging_dir_of r)) None, EOs (OsLink (path_str (mk_path (f_local_path (rs_file s)))) ?sp) None] s1 s2"
    using does_hardlink [OF live, of s1 ?sp] f1 fs1 assms(12,13) by (auto simp: does_def)
  let ?d = "''released the mislabelled file record from Sonarr (episode_file_id='' @
                  show_int (f_episode_file_id (rs_file s1)) @ ''; file data preserved in staging)''"
  obtain s3 where s3: "delete_step r (''; staging_path='' @ ?sp) ?d s2 = (Go (), s3)" "evs [delete_event (rs_file s2)] s2 s3"
    using does_delete [OF live, of s2 "''; staging_path='' @ ?sp" ?d] by (auto simp: does_def)
  obtain s4 where s4: "candidates_step r ?sp s3 = (Go m, s4)" "evs [EHttp (list_staged_request r)] s3 s4"
    using does_candidates [OF live assms(14,15), of s3] by (auto simp: does_def)
  obtain s5 where s5: "import_step r ?eps ?sp m s4 = (Go (), s5)" "evs [import_event (rs_file s4) (set (map ep_id ?eps)) m] s4 s5"
    using does_import [OF live, of s4 ?eps m ?sp] by (auto simp: does_def)
  have all: "evs (remap_events r ?eps m s) s s5"
    using evs_trans [OF s1(2) evs_trans [OF s2(2) evs_trans [OF s3(2) evs_trans [OF s4(2) s5(2)]]]]
      evs_file [OF s1(2)] evs_file [OF s2(2)] evs_file [OF s3(2)] evs_file [OF s4(2)]
    by (simp add: remap_events_def)
  obtain s' where s': "settle_job r Remediated s5 = (Halt, s')"
    "w_trace (rs_world s') = w_trace (rs_world s) @ remap_events r ?eps m s"
    "status_of (w_db (rs_world s')) (j_id (rs_job s)) = Some Remediated"
    using settle_ready [OF assms(3) all] by blast
  have res: "resolution_check r ts ?eps s1 = (Go (), s1)" using ids by (simp add: resolution_check_def)
  have occ: "occupied_check r ts ?eps s1 = (Go (), s1)" using free by (simp add: occupied_check_def)
  have tail: "import_tail r ?eps ?sp s3 = (Halt, s')"
    using s4(1) s5(1) s'(1) assms(7) by (simp add: import_tail_def flow_bind_def)
  have "stage_and_import r ?eps s1 = (Halt, s')"
    using ne s2(1) s3(1) tail f1 by (simp add: stage_and_import_def Let_def flow_bind_def)
  then have "remap_body r ts s = (Halt, s')"
    using s1(1) res occ assms(2) by (simp add: remap_body_def flow_bind_def interruption_guard_def)
  then show ?thesis
    using s'(2,3) l ids by (simp add: remap_run [OF assms(1)] run_result_def)
qed

lemma sample_env_ok:
  "calm (re_env (sample_remediator sample_peer d))"
  "answers (re_env (sample_remediator sample_peer d)) (\<lambda>rq. if rq_path rq = ''/episode'' then JList [JInt 11, JInt 12]
       else if rq_path rq = ''/manualimport'' then JList [JStr ''/staging/S01E12.mkv''] else JNull)"
  by (simp_all add: calm_def answers_def sample_remediator_def quiet_env_def sample_peer_def)

lemma sample_ready: "ready (sample_remediator peer d) (sample_run entries)"
  by (simp add: ready_def sample_run_def sample_world_def sample_db_def jobs_wf_def holds_lease_def get_job_def
      get_row_def lease_held_def new_job_def leased_def sample_remediator_def)

lemma sample_file_path: "f_local_path (rs_file (sample_run entries)) = ''/media/x.mkv''"
  by (simp add: sample_run_def sample_file_def)

lemma sample_paths:
  "path_str (mk_path ''/media/x.mkv'') = ''/media/x.mkv''"
  "trash_path_of (sample_remediator peer d) default_trash (sample_run entries) = ''/trash/a/x.mkv-1''"
proof -
  show p: "path_str (mk_path ''/media/x.mkv'') = ''/media/x.mkv''" by code_simp
  have "path_str (path_div (path_div (mk_path ''/trash'') ''a'') (path_name (mk_path ''/media/x.mkv'') @ ''-'' @ show_int 1))
      = ''/trash/a/x.mkv-1''" by code_simp
  then show "trash_path_of (sample_remediator peer d) default_trash (sample_run entries) = ''/trash/a/x.mkv-1''"
    by (simp add: trash_path_of_def trash_dir_def sample_remediator_def sample_instance_def default_trash_def
        sample_run_def sample_file_def new_job_def leased_def)
qed

lemma sample_replace:
  "\<exists>w'. replace (sample_remediator sample_peer False) 1 (sample_world []) = (Inr (), w') \<and>
     w_trace w' = replace_events (sample_remediator sample_peer False) default_trash (sample_run []) \<and>
     status_of (w_db w') 1 = Some Remediated"
proof -
  let ?r = "sample_remediator sample_peer False"
  have ni: "\<not> was_interrupted (rs_log (sample_run []))" by (simp add: sample_run_def was_interrupted_def)
  have tc: "re_trash ?r = Some default_trash" "tc_enabled default_trash" "\<not> cn_dry_run (re_client ?r)" "\<not> re_dry_run ?r"
    by (simp_all add: sample_remediator_def default_trash_def default_client_def)
  have fs: "w_fs (sample_world []) (path_str (mk_path (f_local_path (rs_file (sample_run []))))) = Some 42"
    "w_fs (sample_world []) (trash_path_of ?r default_trash (sample_run [])) = None"
    by (simp_all only: sample_paths sample_run_simps sample_file_path) (simp_all add: sample_world_def)
  from replace_run_calm [OF sample_load ni sample_ready sample_env_ok tc(3,4,1,2) fs] show ?thesis
    by (simp add: sample_world_def)
qed


lemma replace_does_witness:
  "\<exists>w'. replace (sample_remediator sample_peer False) 1 (sample_world []) = (Inr (), w') \<and>
     length (w_trace w') = 5 \<and> status_of (w_db w') 1 = Some Remediated"
proof -
  let ?r = "sample_remediator sample_peer False"
  have ni: "\<not> was_interrupted (rs_log (sample_run []))" by (simp add: sample_run_def was_interrupted_def)
  have tc: "re_trash ?r = Some default_trash" "tc_enabled default_trash" "\<not> cn_dry_run (re_client ?r)" "\<not> re_dry_run ?r"
    by (simp_all add: sample_remediator_def default_trash_def default_client_def)
  have fs: "w_fs (sample_world []) (path_str (mk_path (f_local_path (rs_file (sample_run []))))) = Some 42"
    "w_fs (sample_world []) (trash_path_of ?r default_trash (sample_run [])) = None"
    by (simp_all only: sample_paths sample_run_simps sample_file_path) (simp_all add: sample_world_def)
  from replace_does [OF sample_load ni sample_ready sample_env_ok tc(3,4,1,2) fs] obtain w' where
    "replace ?r 1 (sample_world []) = (Inr (), w')"
    "w_trace w' = w_trace (sample_world []) @ replace_events ?r default_trash (sample_run [])"
    "status_of (w_db w') 1 = Some Remediated" by blast
  then show ?thesis
    by (simp add: replace_events_def blocklist_events_def sample_run_def sample_file_def sample_world_def)
qed


lemma sample_staged:
  "staged_path (sample_remediator peer d) [sample_ep 12] (rs_file (sample_run entries)) = ''/staging/S01E12.mkv''"
proof -
  have "path_str (path_div (mk_path ''/staging'') ((''S'' @ show_int02 1 @ join ''-'' [''E'' @ show_int02 12]) @
      path_suffix (mk_path ''/media/x.mkv''))) = ''/staging/S01E12.mkv''" by code_simp
  then show ?thesis
    by (simp add: staged_path_def staged_name_def staged_label_def sample_ep_def sample_remediator_def
        sample_instance_def sample_file_path)
qed

lemma remap_does_witness:
  "\<exists>w'. remap (sample_remediator sample_peer False) 1 {12} (sample_world []) = (Inr (), w') \<and>
     length (w_trace w') = 6 \<and> status_of (w_db w') 1 = Some Remediated"
proof -
  let ?r = "sample_remediator sample_peer False" and ?m = "\<lparr>mi_path = ''/staging/S01E12.mkv'', mi_quality = JNull, mi_languages = JNull\<rparr>"
  let ?f = "\<lambda>rq. if rq_path rq = ''/episode'' then JList [JInt 11, JInt 12]
       else if rq_path rq = ''/manualimport'' then JList [JStr ''/staging/S01E12.mkv''] else JNull"
  have ni: "\<not> was_interrupted (rs_log (sample_run []))" by (simp add: sample_run_def was_interrupted_def)
  have nd: "\<not> cn_dry_run (re_client ?r)" "\<not> re_dry_run ?r" by (simp_all add: sample_remediator_def default_client_def)
  have eps: "decode_all (cd_episode (re_codec ?r)) (?f (GET_of ''/episode''
      [(''seriesId'', JInt (f_series_id (rs_file (sample_run []))))])) = Inr [sample_ep 11, sample_ep 12]"
    by (simp add: decode_all_def sample_remediator_def sample_codec_def GET_of_def)
  have t: "target_episodes_of {12} [sample_ep 11, sample_ep 12] = [sample_ep 12]"
    by (simp add: target_episodes_of_def sample_ep_def)
  have ts: "{12} \<noteq> ({} :: int set)" "{12} \<subseteq> ep_id ` set [sample_ep 11, sample_ep 12]"
    "\<forall>e \<in> set [sample_ep 11, sample_ep 12]. ep_id e \<in> {12} \<longrightarrow> \<not> ep_has_file e"
    by (simp_all add: sample_ep_def)
  have fs: "w_fs (sample_world []) (path_str (mk_path (f_local_path (rs_file (sample_run []))))) = Some 42"
    "w_fs (sample_world []) (staged_path ?r (target_episodes_of {12} [sample_ep 11, sample_ep 12]) (rs_file (sample_run []))) = None"
    unfolding t by (simp_all only: sample_paths sample_staged sample_file_path) (simp_all add: sample_world_def)
  have cs: "decode_all (cd_import (re_codec ?r)) (?f (list_staged_request ?r)) = Inr [?m]"
    by (simp add: decode_all_def sample_remediator_def sample_codec_def GET_of_def list_staged_request_def)
  have m: "match_candidate (staged_path ?r (target_episodes_of {12} [sample_ep 11, sample_ep 12]) (rs_file (sample_run []))) [?m] = Some ?m"
    unfolding t by (simp add: sample_staged match_candidate_def)
  from remap_does [OF sample_load ni sample_ready sample_env_ok nd eps ts fs cs m] obtain w' where
    "remap ?r 1 {12} (sample_world []) = (Inr (), w')" "status_of (w_db w') 1 = Some Remediated"
    "w_trace w' = w_trace (sample_world []) @ remap_events ?r (target_episodes_of {12} [sample_ep 11, sample_ep 12]) ?m (sample_run [])"
    by blast
  then show ?thesis by (simp add: remap_events_def sample_world_def)
qed

end
