(* ===== verification/Discovery.thy ===== *)
theory Discovery
  imports SonarrClient Config Jobs
begin

text \<open>
  \<open>impostarr/discovery.py\<close>: history polling and library backfill. A batch runs in one
  session that commits once: the rows it stages are kept apart from the database (\<open>ds_files\<close>)
  and enter it in \<open>commit_batch\<close>, so that an exception leaves nothing of the batch behind.
  While the batch awaits Sonarr, other sessions may commit; the unique constraint on
  (instance, episode file) is checked against what they committed. xxh64 is a parameter, and so
  is the content a content token of the file system stands for.
\<close>

record disc =
  di_cfg :: sonarr_instance
  di_env :: environ
  di_codec :: codec
  di_client :: client
  di_bytes :: "int \<Rightarrow> string"
  di_xxh64 :: "string \<Rightarrow> string"

record discovery_result =
  dr_created :: int
  dr_skipped :: int

record dstate =
  ds_world :: world
  ds_files :: "file_row list"
  ds_created :: int
  ds_skipped :: int
  ds_processed :: int
  ds_cursor :: "(int \<times> int) option"
  ds_cache :: "(int \<times> (int \<times> int list) list) list"

definition begin_batch :: "world \<Rightarrow> dstate" where
  "begin_batch w =
     \<lparr>ds_world = w, ds_files = [], ds_created = 0, ds_skipped = 0, ds_processed = 0,
      ds_cursor = None, ds_cache = []\<rparr>"

section \<open>The content hash\<close>

definition HASH_CHUNK_SIZE :: int where
  "HASH_CHUNK_SIZE = 8 * 1024 * 1024"

text \<open>What the hasher is fed: the head, for a larger file the tail, then the size in decimal.\<close>

definition digest_input :: "string \<Rightarrow> string" where
  "digest_input bs =
     (let size = int (length bs)
      in take (nat HASH_CHUNK_SIZE) bs @
         (if size > HASH_CHUNK_SIZE
          then take (nat HASH_CHUNK_SIZE) (drop (nat (max (size - HASH_CHUNK_SIZE) 0)) bs) else []) @
         show_int size)"

definition hash_file :: "disc \<Rightarrow> string \<Rightarrow> world \<Rightarrow> string res \<times> world" where
  "hash_file d p w =
     (case os_call (di_env d) (OsStat p) w of
        (Inl e, w1) \<Rightarrow> (Inl e, w1)
      | (Inr _, w1) \<Rightarrow>
          (case os_call (di_env d) (OsRead p) w1 of
             (Inl e, w2) \<Rightarrow> (Inl e, w2)
           | (Inr _, w2) \<Rightarrow>
               (Inr (di_xxh64 d (digest_input (case w_fs w1 p of None \<Rightarrow> [] | Some c \<Rightarrow> di_bytes d c))), w2)))"

section \<open>Shared helpers\<close>

definition new_instance :: "disc \<Rightarrow> int \<Rightarrow> instance_row" where
  "new_instance d i =
     \<lparr>in_id = i, in_name = si_name (di_cfg d), in_url = si_url (di_cfg d), in_history_watermark = Some 0,
      in_backfill_cursor = None, in_last_polled_at = None, in_last_backfilled_at = None\<rparr>"

definition get_or_create_instance :: "disc \<Rightarrow> world \<Rightarrow> instance_row \<times> world" where
  "get_or_create_instance d w =
     (case find (\<lambda>i. in_name i = si_name (di_cfg d)) (db_instances (w_db w)) of
        Some i \<Rightarrow> (i, w)
      | None \<Rightarrow>
          (let i = new_instance d (fresh_id (map in_id (db_instances (w_db w))))
           in (i, w\<lparr>w_db := (w_db w)\<lparr>db_instances := db_instances (w_db w) @ [i]\<rparr>\<rparr>)))"

text \<open>The mapping whose Sonarr prefix has the most parts; the first one on a tie.\<close>

definition better_mapping :: "path \<Rightarrow> path_mapping \<Rightarrow> path_mapping option \<Rightarrow> path_mapping option" where
  "better_mapping sp m best =
     (let pre = mk_path (pm_sonarr m)
      in if (sp = pre \<or> is_relative_to sp pre) \<and>
            (case best of None \<Rightarrow> True
             | Some b \<Rightarrow> path_length pre > path_length (mk_path (pm_sonarr b)))
         then Some m else best)"

definition map_local_path :: "disc \<Rightarrow> string \<Rightarrow> path option res" where
  "map_local_path d sonarr_path =
     (let sp = mk_path sonarr_path
      in case fold (better_mapping sp) (si_path_mappings (di_cfg d)) None of
           None \<Rightarrow> Inr None
         | Some b \<Rightarrow>
             res_map (\<lambda>rel. Some (path_join (mk_path (pm_local b)) rel))
               (relative_to sp (mk_path (pm_sonarr b))))"

definition watch_dirs_allowed :: "disc \<Rightarrow> path \<Rightarrow> bool" where
  "watch_dirs_allowed d lp \<longleftrightarrow>
     si_watch_dirs (di_cfg d) = [] \<or> list_ex (\<lambda>x. is_relative_to lp (mk_path x)) (si_watch_dirs (di_cfg d))"

definition has_key :: "int \<Rightarrow> int \<Rightarrow> file_row list \<Rightarrow> bool" where
  "has_key inst fid rows = list_ex (\<lambda>f. f_instance_id f = inst \<and> f_episode_file_id f = fid) rows"

text \<open>The session sees what is committed and what it has flushed itself.\<close>

definition file_exists :: "int \<Rightarrow> int \<Rightarrow> dstate \<Rightarrow> bool" where
  "file_exists inst fid s = has_key inst fid (db_files (w_db (ds_world s)) @ ds_files s)"

section \<open>Capturing one file\<close>

record capture =
  cp_file :: episode_file
  cp_series_id :: int
  cp_quality :: json
  cp_languages :: json
  cp_history_id :: "int option"
  cp_download_id :: "string option"
  cp_source_title :: "string option"
  cp_indexer :: "string option"
  cp_guid :: "string option"

text \<open>The row of a captured file; its key is assigned when the batch enters the database.\<close>

definition captured_file :: "int \<Rightarrow> capture \<Rightarrow> string \<Rightarrow> string \<Rightarrow> int list \<Rightarrow> file_row" where
  "captured_file inst c local_path digest ids =
     \<lparr>f_id = 0, f_instance_id = inst, f_sonarr_path = ef_path (cp_file c), f_local_path = local_path,
      f_size = ef_size (cp_file c), f_content_hash = digest, f_series_id = cp_series_id c,
      f_episode_ids = ids, f_episode_file_id = ef_id (cp_file c), f_quality = cp_quality c,
      f_languages = cp_languages c, f_history_id = cp_history_id c, f_download_id = cp_download_id c,
      f_source_title = cp_source_title c, f_indexer = cp_indexer c, f_guid = cp_guid c\<rparr>"

text \<open>The insertion: the row is flushed, and the unique constraint answers.\<close>

definition stage_file :: "file_row \<Rightarrow> dstate \<Rightarrow> (bool \<times> bool) res \<times> dstate" where
  "stage_file row s =
     (if file_exists (f_instance_id row) (f_episode_file_id row) s then (Inl IntegrityError, s)
      else (Inr (True, False), s\<lparr>ds_files := ds_files s @ [row]\<rparr>))"

text \<open>
  \<open>_capture_file\<close>: whether a job was created, and whether the file was skipped over an
  \<open>OSError\<close>. The episode ids come from \<open>resolve\<close>, run only when the file will be read; a
  caller that knows them passes a constant.
\<close>

definition capture_file ::
  "disc \<Rightarrow> int \<Rightarrow> capture \<Rightarrow> (dstate \<Rightarrow> int list res \<times> dstate) \<Rightarrow> dstate \<Rightarrow> (bool \<times> bool) res \<times> dstate"
  where
  "capture_file d inst c resolve s =
     (if file_exists inst (ef_id (cp_file c)) s then (Inr (False, False), s)
      else case map_local_path d (ef_path (cp_file c)) of
        Inl e \<Rightarrow> (Inl e, s)
      | Inr None \<Rightarrow> (Inr (False, False), s)
      | Inr (Some lp) \<Rightarrow>
          if \<not> watch_dirs_allowed d lp then (Inr (False, False), s)
          else case path_exists (di_env d) (path_str lp) (ds_world s) of
            Inl e \<Rightarrow> (Inr (False, True), s)
          | Inr False \<Rightarrow> (Inr (False, False), s)
          | Inr True \<Rightarrow>
              (case resolve s of
                 (Inl e, s1) \<Rightarrow> (Inl e, s1)
               | (Inr ids, s1) \<Rightarrow>
                   (case hash_file d (path_str lp) (ds_world s1) of
                      (Inl e, w2) \<Rightarrow> (Inr (False, True), s1\<lparr>ds_world := w2\<rparr>)
                    | (Inr digest, w2) \<Rightarrow>
                        stage_file (captured_file inst c (path_str lp) digest ids) (s1\<lparr>ds_world := w2\<rparr>))))"

definition count_capture :: "bool \<times> bool \<Rightarrow> dstate \<Rightarrow> dstate" where
  "count_capture ce s =
     s\<lparr>ds_created := ds_created s + (if fst ce then 1 else 0),
       ds_skipped := ds_skipped s + (if snd ce then 1 else 0)\<rparr>"

text \<open>
  \<open>session.commit()\<close>: the staged files enter under fresh keys, each with its pending job. A row
  another session committed under the same (instance, episode file) meanwhile fails the commit.
\<close>

definition insert_captured :: "datetime \<Rightarrow> file_row \<Rightarrow> db \<Rightarrow> db" where
  "insert_captured now row d =
     (let f = row\<lparr>f_id := fresh_id (map f_id (db_files d))\<rparr>
      in d\<lparr>db_files := db_files d @ [f],
           db_jobs := db_jobs d @ [new_job (fresh_id (map j_id (db_jobs d))) (f_id f) Pending now]\<rparr>)"

definition commit_batch ::
  "disc \<Rightarrow> int \<Rightarrow> (datetime \<Rightarrow> instance_row \<Rightarrow> instance_row) \<Rightarrow> dstate \<Rightarrow> discovery_result res \<times> world"
  where
  "commit_batch d inst upd s =
     (let w = ds_world s; now = now_of (di_env d) w
      in if list_ex (\<lambda>f. has_key (f_instance_id f) (f_episode_file_id f) (db_files (w_db w))) (ds_files s)
         then (Inl IntegrityError, w)
         else (Inr \<lparr>dr_created = ds_created s, dr_skipped = ds_skipped s\<rparr>,
           w\<lparr>w_db := (fold (insert_captured now) (ds_files s) (w_db w))
                \<lparr>db_instances := update_where (\<lambda>i. in_id i = inst) (upd now) (db_instances (w_db w))\<rparr>\<rparr>))"

section \<open>Episode ids of a series' files\<close>

definition group_episodes :: "episode list \<Rightarrow> (int \<times> int list) list" where
  "group_episodes es =
     fold (\<lambda>e m. if ep_has_file e then dict_append (ep_episode_file_id e) (ep_id e) m else m) es []"

definition episode_ids_by_file :: "disc \<Rightarrow> int \<Rightarrow> world \<Rightarrow> (int \<times> int list) list res \<times> world" where
  "episode_ids_by_file d sid w =
     (case get_episodes (di_env d) (di_codec d) (di_client d) sid w of
        (r, w1) \<Rightarrow> (res_map group_episodes r, w1))"

text \<open>\<open>resolve_episode_ids\<close>: grouped once per series and cached; the record's own ids otherwise.\<close>

definition ids_or_fallback :: "int \<Rightarrow> int list \<Rightarrow> (int \<times> int list) list \<Rightarrow> int list" where
  "ids_or_fallback fid fallback m =
     (case map_of m fid of Some (i # ids) \<Rightarrow> i # ids | _ \<Rightarrow> fallback)"

definition resolve_episode_ids ::
  "disc \<Rightarrow> int \<Rightarrow> int \<Rightarrow> int list \<Rightarrow> dstate \<Rightarrow> int list res \<times> dstate" where
  "resolve_episode_ids d sid fid fallback s =
     (case map_of (ds_cache s) sid of
        Some m \<Rightarrow> (Inr (ids_or_fallback fid fallback m), s)
      | None \<Rightarrow>
          (case episode_ids_by_file d sid (ds_world s) of
             (Inl e, w1) \<Rightarrow> (Inl e, s\<lparr>ds_world := w1\<rparr>)
           | (Inr m, w1) \<Rightarrow>
               (Inr (ids_or_fallback fid fallback m),
                s\<lparr>ds_world := w1, ds_cache := AList.update sid m (ds_cache s)\<rparr>)))"

section \<open>Polling\<close>

definition record_capture :: "history_record \<Rightarrow> episode_file \<Rightarrow> capture" where
  "record_capture r ef =
     \<lparr>cp_file = ef, cp_series_id = hr_series_id r, cp_quality = hr_quality r,
      cp_languages = hr_languages r, cp_history_id = Some (hr_id r), cp_download_id = hr_download_id r,
      cp_source_title = hr_source_title r, cp_indexer = hr_indexer r, cp_guid = hr_guid r\<rparr>"

definition poll_record :: "disc \<Rightarrow> int \<Rightarrow> history_record \<Rightarrow> dstate \<Rightarrow> unit res \<times> dstate" where
  "poll_record d inst r s =
     (case hr_episode_file_id r of
        Inl e \<Rightarrow> (Inl e, s)
      | Inr None \<Rightarrow> (Inr (), s)
      | Inr (Some fid) \<Rightarrow>
          if file_exists inst fid s then (Inr (), s)
          else
            (case get_episode_file (di_env d) (di_codec d) (di_client d) fid (ds_world s) of
               (Inl (SonarrError status body), w1) \<Rightarrow>
                 (if status = 404 then Inr () else Inl (SonarrError status body), s\<lparr>ds_world := w1\<rparr>)
             | (Inl e, w1) \<Rightarrow> (Inl e, s\<lparr>ds_world := w1\<rparr>)
             | (Inr ef, w1) \<Rightarrow>
                 (case capture_file d inst (record_capture r ef)
                         (resolve_episode_ids d (hr_series_id r) fid (hr_episode_ids r))
                         (s\<lparr>ds_world := w1\<rparr>) of
                    (Inl e, s2) \<Rightarrow> (Inl e, s2)
                  | (Inr ce, s2) \<Rightarrow> (Inr (), count_capture ce s2))))"

fun poll_records :: "disc \<Rightarrow> int \<Rightarrow> history_record list \<Rightarrow> dstate \<Rightarrow> unit res \<times> dstate" where
  "poll_records d inst [] s = (Inr (), s)"
| "poll_records d inst (r # rs) s =
     (case poll_record d inst r s of
        (Inl e, s1) \<Rightarrow> (Inl e, s1)
      | (Inr _, s1) \<Rightarrow> poll_records d inst rs s1)"

text \<open>A column set to the value the session loaded is not part of the \<open>UPDATE\<close>.\<close>

definition set_watermark :: "int option \<Rightarrow> int \<Rightarrow> instance_row \<Rightarrow> instance_row" where
  "set_watermark loaded v i = (if loaded = Some v then i else i\<lparr>in_history_watermark := Some v\<rparr>)"

definition poll_batch :: "disc \<Rightarrow> int \<Rightarrow> history_record list \<Rightarrow> world \<Rightarrow> discovery_result res \<times> world" where
  "poll_batch d inst records w =
     (case get_row in_id inst (db_instances (w_db w)) of
        None \<Rightarrow> (Inl AttributeError, w)
      | Some i \<Rightarrow>
          (case poll_records d inst records (begin_batch w) of
             (Inl e, s) \<Rightarrow> (Inl e, ds_world s)
           | (Inr _, s) \<Rightarrow>
               commit_batch d inst
                 (\<lambda>now row. set_watermark (in_history_watermark i) (hr_id (last records))
                    (row\<lparr>in_last_polled_at := Some now\<rparr>)) s))"

definition poll_once :: "disc \<Rightarrow> world \<Rightarrow> (discovery_result res \<times> world) option" where
  "poll_once d w =
     (let (i, w1) = get_or_create_instance d w;
          watermark = (case in_history_watermark i of None \<Rightarrow> 0 | Some v \<Rightarrow> v)
      in case history_since (di_env d) (di_codec d) (di_client d) watermark w1 of
           None \<Rightarrow> None
         | Some (Inl e, w2) \<Rightarrow> Some (Inl e, w2)
         | Some (Inr records, w2) \<Rightarrow>
             Some (if records = []
                   then (case get_row in_id (in_id i) (db_instances (w_db w2)) of
                           None \<Rightarrow> (Inl AttributeError, w2)
                         | Some _ \<Rightarrow>
                             commit_batch d (in_id i) (\<lambda>now row. row\<lparr>in_last_polled_at := Some now\<rparr>)
                               (begin_batch w2))
                   else poll_batch d (in_id i) records w2))"

section \<open>Backfill\<close>

definition backfill_capture :: "int \<Rightarrow> episode_file \<Rightarrow> capture" where
  "backfill_capture sid ef =
     \<lparr>cp_file = ef, cp_series_id = sid, cp_quality = ef_quality ef, cp_languages = ef_languages ef,
      cp_history_id = None, cp_download_id = None, cp_source_title = None, cp_indexer = None,
      cp_guid = None\<rparr>"

text \<open>The inner loop; it returns whether the series is exhausted.\<close>

fun backfill_files ::
  "disc \<Rightarrow> int \<Rightarrow> int \<Rightarrow> int \<Rightarrow> (int \<times> int list) list \<Rightarrow> episode_file list \<Rightarrow> dstate \<Rightarrow> bool res \<times> dstate"
  where
  "backfill_files d inst batch sid ids [] s = (Inr True, s)"
| "backfill_files d inst batch sid ids (ef # efs) s =
     (if ds_processed s \<ge> batch then (Inr False, s)
      else
        (case capture_file d inst (backfill_capture sid ef)
                (\<lambda>t. (Inr (case map_of ids (ef_id ef) of None \<Rightarrow> [] | Some x \<Rightarrow> x), t))
                (s\<lparr>ds_processed := ds_processed s + 1\<rparr>) of
           (Inl e, s1) \<Rightarrow> (Inl e, s1)
         | (Inr ce, s1) \<Rightarrow>
             backfill_files d inst batch sid ids efs
               ((count_capture ce s1)\<lparr>ds_cursor := Some (sid, ef_id ef)\<rparr>)))"

text \<open>The files of one series still to do: those after the cursor in the series it names.\<close>

definition after_cursor :: "int option \<Rightarrow> int option \<Rightarrow> int \<Rightarrow> episode_file list \<Rightarrow> episode_file list" where
  "after_cursor start_series start_after sid files =
     (if Some sid = start_series
      then (case start_after of None \<Rightarrow> files | Some a \<Rightarrow> filter (\<lambda>f. ef_id f > a) files)
      else files)"

text \<open>The outer loop; it returns whether every series was walked to its end.\<close>

fun backfill_series ::
  "disc \<Rightarrow> int \<Rightarrow> int \<Rightarrow> int option \<Rightarrow> int option \<Rightarrow> series list \<Rightarrow> dstate \<Rightarrow> bool res \<times> dstate" where
  "backfill_series d inst batch ss sa [] s = (Inr True, s)"
| "backfill_series d inst batch ss sa (se # rest) s =
     (if ds_processed s \<ge> batch then (Inr False, s)
      else
        (case episode_ids_by_file d (se_id se) (ds_world s) of
           (Inl e, w1) \<Rightarrow> (Inl e, s\<lparr>ds_world := w1\<rparr>)
         | (Inr ids, w1) \<Rightarrow>
             (case get_episode_files (di_env d) (di_codec d) (di_client d) (se_id se) w1 of
                (Inl e, w2) \<Rightarrow> (Inl e, s\<lparr>ds_world := w2\<rparr>)
              | (Inr files, w2) \<Rightarrow>
                  (case backfill_files d inst batch (se_id se) ids
                          (after_cursor ss sa (se_id se) (sort_key ef_id files)) (s\<lparr>ds_world := w2\<rparr>) of
                     (Inl e, s3) \<Rightarrow> (Inl e, s3)
                   | (Inr False, s3) \<Rightarrow> (Inr False, s3)
                   | (Inr True, s3) \<Rightarrow> backfill_series d inst batch ss sa rest s3))))"

definition set_cursor :: "(int \<times> int) option \<Rightarrow> (int \<times> int) option \<Rightarrow> instance_row \<Rightarrow> instance_row" where
  "set_cursor loaded v i = (if loaded = v then i else i\<lparr>in_backfill_cursor := v\<rparr>)"

definition backfill_batch ::
  "disc \<Rightarrow> int \<Rightarrow> int \<Rightarrow> int option \<Rightarrow> int option \<Rightarrow> series list \<Rightarrow> world \<Rightarrow> discovery_result res \<times> world"
  where
  "backfill_batch d inst batch ss sa todo w =
     (case get_row in_id inst (db_instances (w_db w)) of
        None \<Rightarrow> (Inl AttributeError, w)
      | Some i \<Rightarrow>
          (case backfill_series d inst batch ss sa todo (begin_batch w) of
             (Inl e, s) \<Rightarrow> (Inl e, ds_world s)
           | (Inr finished, s) \<Rightarrow>
               commit_batch d inst
                 (\<lambda>now row. set_cursor (in_backfill_cursor i) (if finished then None else ds_cursor s)
                    (row\<lparr>in_last_backfilled_at := Some now\<rparr>)) s))"

text \<open>The series from the start on: all of them, or those with an id of at least the start's.\<close>

definition series_from :: "int option \<Rightarrow> series list \<Rightarrow> series list" where
  "series_from start ses =
     (case start of None \<Rightarrow> ses | Some i \<Rightarrow> dropWhile (\<lambda>se. se_id se < i) ses)"

definition backfill_step ::
  "disc \<Rightarrow> int \<Rightarrow> bool \<Rightarrow> int option \<Rightarrow> world \<Rightarrow> discovery_result res \<times> world" where
  "backfill_step d batch reset series_id w =
     (let (i, w1) = get_or_create_instance d w;
          cursor = (if reset then None else in_backfill_cursor i);
          ss = (case series_id of Some sid \<Rightarrow> Some sid | None \<Rightarrow> map_option fst cursor);
          sa = (case series_id of Some _ \<Rightarrow> None | None \<Rightarrow> map_option snd cursor)
      in case get_all_series (di_env d) (di_codec d) (di_client d) w1 of
           (Inl e, w2) \<Rightarrow> (Inl e, w2)
         | (Inr ses, w2) \<Rightarrow>
             backfill_batch d (in_id i) batch ss sa (series_from ss (sort_key se_id ses)) w2)"

end
