(* ===== verification/DiscoverySteps.thy ===== *)
theory DiscoverySteps
  imports ClientSpec Discovery JobSpec
begin

text \<open>
  Lemmas about \<open>Discovery\<close>: what the content hash depends on, the interface of a history source
  and its implementation by the client's paging, and what one batch keeps: it talks to Sonarr
  (\<open>talks\<close>), stages sound rows of distinct episode files (\<open>staged_ok\<close>) and lands them in one
  commit (\<open>landed\<close>).
\<close>

section \<open>The content hash\<close>

lemma show_nat_length_mono: "m \<le> n \<Longrightarrow> length (show_nat m) \<le> length (show_nat n)"
proof (induction n arbitrary: m rule: show_nat.induct)
  case (1 n)
  show ?case
  proof (cases "n < 10")
    case True
    with "1.prems" show ?thesis by (simp add: show_nat.simps [of m] show_nat.simps [of n])
  next
    case False
    have s: "show_nat n = show_nat (n div 10) @ [''0123456789'' ! (n mod 10)]" if "\<not> n < 10" for n :: nat
      using that by (subst show_nat.simps) simp
    show ?thesis
    proof (cases "m < 10")
      case True
      with False show ?thesis by (simp add: show_nat.simps [of m] s [OF False] show_nat_nonempty Suc_le_eq)
    next
      case m: False
      have "m div 10 \<le> n div 10" using "1.prems" by (simp add: div_le_mono)
      from "1.IH" [OF False this] show ?thesis by (simp add: s [OF False] s [OF m])
    qed
  qed
qed

abbreviation chunk :: nat where "chunk \<equiv> nat HASH_CHUNK_SIZE"

definition hashed_part :: "string \<Rightarrow> string" where
  "hashed_part bs = take chunk bs @ (if length bs > chunk then take chunk (drop (length bs - chunk) bs) else [])"

lemma digest_input_alt: "digest_input bs = hashed_part bs @ show_nat (length bs)"
proof -
  have "0 < HASH_CHUNK_SIZE" by (simp add: HASH_CHUNK_SIZE_def)
  then have "int (length bs) > HASH_CHUNK_SIZE \<longleftrightarrow> length bs > chunk"
    "nat (max (int (length bs) - HASH_CHUNK_SIZE) 0) = length bs - chunk" by linarith+
  note e = this
  show ?thesis unfolding digest_input_def hashed_part_def Let_def show_int_def e by simp
qed

lemma hashed_part_length: "length (hashed_part bs) = (if length bs > chunk then 2 * chunk else length bs)"
  by (simp add: hashed_part_def)

lemma digest_input_length_inj:
  assumes "digest_input a = digest_input b"
  shows "length a = length b"
proof -
  have le: "length x = length y" if "length x \<le> length y" "digest_input x = digest_input y" for x y
  proof -
    from that(2) have l: "length (hashed_part x) + length (show_nat (length x)) =
        length (hashed_part y) + length (show_nat (length y))"
      unfolding digest_input_alt by (metis length_append)
    have "length (hashed_part x) \<le> length (hashed_part y)" using that(1) by (simp add: hashed_part_length)
    with l show_nat_length_mono [OF that(1)] have eq: "length (hashed_part x) = length (hashed_part y)" by linarith
    with that(2) have "show_nat (length x) = show_nat (length y)" by (simp add: digest_input_alt)
    then show ?thesis by (simp add: show_nat_inj)
  qed
  show ?thesis
    using le [of a b] le [of b a] assms by (cases "length a \<le> length b") auto
qed

text \<open>Two files are given the same hash input exactly when they have the same size, the same
  first 8 MiB and the same last 8 MiB: what is not read, the middle of a file of more than 16 MiB, is
  all the input does not determine.\<close>

theorem digest_input_exact:
  "digest_input a = digest_input b \<longleftrightarrow>
     length a = length b \<and> take (nat HASH_CHUNK_SIZE) a = take (nat HASH_CHUNK_SIZE) b \<and>
     drop (length a - nat HASH_CHUNK_SIZE) a = drop (length b - nat HASH_CHUNK_SIZE) b"
    (is "_ \<longleftrightarrow> ?R")
proof
  assume d: "digest_input a = digest_input b"
  note l = digest_input_length_inj [OF d]
  from d l have h: "hashed_part a = hashed_part b" by (simp add: digest_input_alt)
  show ?R
  proof (cases "length a > chunk")
    case True
    then have "length (take chunk a) = length (take chunk b)" using l by simp
    with h True l have "take chunk a = take chunk b \<and> take chunk (drop (length a - chunk) a) = take chunk (drop (length b - chunk) b)"
      by (auto simp: hashed_part_def)
    with True l show ?thesis by simp
  next
    case False
    with h l show ?thesis by (simp add: hashed_part_def)
  qed
next
  assume ?R
  then have l: "length a = length b" and t: "take chunk a = take chunk b"
    and d: "drop (length b - chunk) a = drop (length b - chunk) b" by metis+
  show "digest_input a = digest_input b" unfolding digest_input_alt hashed_part_def l t d ..
qed

section \<open>History since a watermark\<close>

text \<open>Validating a record keeps its id.\<close>

definition sound_codec :: "codec \<Rightarrow> bool" where
  "sound_codec cd \<longleftrightarrow> (\<forall>raw r. cd_history cd raw = Inr r \<longrightarrow> raw_id raw = Inr (hr_id r))"

lemma new_on_page_newer:
  assumes "new_on_page since batch = Inr new" "raw \<in> set new"
  shows "\<exists>i. raw_id raw = Inr i \<and> since < i"
proof -
  obtain ids where ids: "list_all2 (\<lambda>x y. raw_id x = Inr y) batch ids"
    "new = map fst (filter (\<lambda>(raw, i). i > since) (zip batch ids))"
    using assms(1) by (auto simp: new_on_page_def res_map_Inr_iff traverse_Inr_all)
  from assms(2) ids(2) obtain i where "(raw, i) \<in> set (zip batch ids)" "since < i" by auto
  with ids(1) show ?thesis by (auto simp: list_all2_iff)
qed

lemma new_records_newer:
  assumes "sound_codec cd" "new_on_page since batch = Inr new" "traverse (cd_history cd) new = Inr rs" "r \<in> set rs"
  shows "since < hr_id r"
proof -
  from assms(3) have "list_all2 (\<lambda>x y. cd_history cd x = Inr y) new rs" by (simp add: traverse_Inr_all)
  moreover from assms(4) obtain k where "k < length rs" "r = rs ! k" by (metis in_set_conv_nth)
  ultimately have "new ! k \<in> set new" "cd_history cd (new ! k) = Inr r" by (simp_all add: list_all2_conv_all_nth)
  with assms(1) new_on_page_newer [OF assms(2)] show ?thesis by (fastforce simp: sound_codec_def)
qed

text \<open>Induction over the pages: a page fails, ends the paging, or adds records and goes on.\<close>

lemma history_pages_induct:
  assumes run: "history_pages env cd c since page acc w = Some y"
    and fail: "\<And>page acc w x w1 e. ask env c (history_request page) w = (x, w1) \<Longrightarrow> P page acc w (Inl e, w1)"
    and stop: "\<And>page acc w x w1. ask env c (history_request page) w = (x, w1) \<Longrightarrow> P page acc w (Inr acc, w1)"
    and more: "\<And>page acc w x w1 batch new rs y. ask env c (history_request page) w = (x, w1) \<Longrightarrow>
      new_on_page since batch = Inr new \<Longrightarrow> traverse (cd_history cd) new = Inr rs \<Longrightarrow>
      P (page + 1) (acc @ rs) w1 y \<Longrightarrow> P page acc w y"
  shows "P page acc w y"
proof -
  let ?Q = "\<lambda>env' cd' c' since' page acc w y. env' = env \<and> cd' = cd \<and> c' = c \<and> since' = since \<longrightarrow> P page acc w y"
  have "?Q env cd c since page acc w y"
  proof (rule history_pages.raw_induct [where P = ?Q, OF _ run], intro impI, elim conjE)
    fix pages env' cd' c' since' page acc w y
    assume ih: "\<And>env' cd' c' since' page acc w y. pages env' cd' c' since' page acc w = Some y \<Longrightarrow>
        env' = env \<and> cd' = cd \<and> c' = c \<and> since' = since \<longrightarrow> P page acc w y"
      and eqs: "env' = env" "cd' = cd" "c' = c" "since' = since"
      and b: "(let (r, w1) = ask env' c' (history_request page) w
      in case res_bind r records_of of Inl e \<Rightarrow> Some (Inl e, w1)
         | Inr batch \<Rightarrow>
             if batch = [] then Some (Inr acc, w1)
             else case new_on_page since' batch of Inl e \<Rightarrow> Some (Inl e, w1)
                  | Inr new \<Rightarrow>
                      if new = [] then Some (Inr acc, w1)
                      else case traverse (cd_history cd') new of
                           Inl e \<Rightarrow> Some (Inl e, w1)
                           | Inr rs \<Rightarrow> pages env' cd' c' since' (page + 1) (acc @ rs) w1) = Some y"
    obtain x w1 where a: "ask env c (history_request page) w = (x, w1)" by (cases "ask env c (history_request page) w")
    have "(\<exists>e. y = (Inl e, w1)) \<or> y = (Inr acc, w1) \<or>
        (\<exists>batch new rs. new_on_page since batch = Inr new \<and> traverse (cd_history cd) new = Inr rs \<and>
          pages env cd c since (page + 1) (acc @ rs) w1 = Some y)"
      using b a unfolding eqs by (auto split: sum.splits if_splits)
    then show "P page acc w y"
      using fail [OF a] stop [OF a] more [OF a] ih by blast
  qed
  then show ?thesis by simp
qed

lemma history_pages_newer:
  assumes "sound_codec cd" "history_pages env cd c since page acc w = Some (Inr rs, w')"
    "\<forall>r \<in> set acc. since < hr_id r"
  shows "\<forall>r \<in> set rs. since < hr_id r"
proof -
  let ?P = "\<lambda>(page :: int) acc (w :: world) (y :: history_record list res \<times> world). (\<forall>r \<in> set acc. since < hr_id r) \<longrightarrow>
    (\<forall>rs. fst y = Inr rs \<longrightarrow> (\<forall>r \<in> set rs. since < hr_id (r :: history_record)))"
  have "?P page acc w (Inr rs, w')"
  proof (rule history_pages_induct [where P = ?P, OF assms(2)])
    fix page acc w x w1 batch new qs and y :: "history_record list res \<times> world"
    assume n: "new_on_page since batch = Inr new" "traverse (cd_history cd) new = Inr qs" and p: "?P (page + 1) (acc @ qs) w1 y"
    have "\<forall>r \<in> set qs. since < hr_id r" using new_records_newer [OF assms(1) n] by blast
    with p show "?P page acc w y" by (simp add: ball_Un)
  qed simp_all
  with assms(3) show ?thesis by simp
qed

locale history_source =
  fixes fetch :: "environ \<Rightarrow> codec \<Rightarrow> client \<Rightarrow> int \<Rightarrow> world \<Rightarrow> (history_record list res \<times> world) option"
    and sound :: "codec \<Rightarrow> bool"
  assumes newer: "sound cd \<Longrightarrow> fetch env cd c since w = Some (Inr rs, w') \<Longrightarrow> r \<in> set rs \<Longrightarrow> since < hr_id r"
    and ordered: "fetch env cd c since w = Some (Inr rs, w') \<Longrightarrow> sorted (map hr_id rs)"
begin

lemma last_is_highest:
  assumes "fetch env cd c since w = Some (Inr rs, w')" "r \<in> set rs"
  shows "hr_id r \<le> hr_id (last rs)"
proof -
  from assms(2) have ne: "rs \<noteq> []" by auto
  with ordered [OF assms(1)] have "sorted (map hr_id (butlast rs) @ [hr_id (last rs)])"
    by (metis append_butlast_last_id list.simps(8) list.simps(9) map_append)
  moreover from assms(2) ne have "r \<in> set (butlast rs) \<or> r = last rs"
    by (metis append_butlast_last_id in_set_conv_decomp rotate1.simps(2) set_ConsD set_rotate1)
  ultimately show ?thesis by (auto simp: sorted_append)
qed

lemma watermark_advances:
  assumes "sound cd" "fetch env cd c since w = Some (Inr rs, w')" "rs \<noteq> []"
  shows "since < hr_id (last rs)"
  using newer [OF assms(1,2), of "last rs"] assms(3) by simp

end

interpretation hist: history_source history_since sound_codec
proof unfold_locales
  fix cd env c since w rs w' r
  assume s: "sound_codec cd" and h: "history_since env cd c since w = Some (Inr rs, w')" and r: "r \<in> set rs"
  from h obtain qs where q: "history_pages env cd c since 1 [] w = Some (Inr qs, w')" "rs = sort_key hr_id qs"
    by (auto simp: history_since_def res_map_Inr_iff)
  have "\<forall>r \<in> set qs. since < hr_id r" by (rule history_pages_newer [OF s q(1)]) simp
  with r q(2) show "since < hr_id r" by simp
next
  fix env cd c since w rs w'
  assume "history_since env cd c since w = Some (Inr rs, w')"
  then show "sorted (map hr_id rs)" by (auto simp: history_since_def res_map_Inr_iff)
qed

section \<open>Paging ends\<close>

text \<open>From page \<open>n\<close> on the peer has no records, or refuses.\<close>

definition pages_end :: "environ \<Rightarrow> int \<Rightarrow> bool" where
  "pages_end env n \<longleftrightarrow> (\<forall>page \<ge> n. \<forall>tr. case en_http env tr (history_request page) of
     HttpTransportError m \<Rightarrow> True
   | HttpResponse status body text \<Rightarrow> status \<ge> 400 \<or> records_of body = Inr [])"

lemma request_answer:
  "sonarr_request env c rq a w = (Inr j, w') \<Longrightarrow>
     \<exists>tr st t. en_http env tr rq = HttpResponse st j t \<and> st < 400"
proof (induction "nat (cn_max_retries c - a)" arbitrary: a w rule: less_induct)
  case less
  from less.prems show ?case
  proof (cases rule: sonarr_request_cases)
    case (last res)
    then show ?thesis by (cases res) (fastforce simp: http_send_def Let_def split: if_splits)+
  next
    case (again res x w1)
    show ?thesis by (rule less.hyps [OF _ again(4)]) (use again(2) in simp)
  qed
qed

lemma pages_past_end:
  assumes "pages_end env n" "n \<le> page"
  shows "history_pages env cd c since page acc w \<noteq> None"
proof -
  obtain x w1 where a: "ask env c (history_request page) w = (x, w1)" by (cases "ask env c (history_request page) w")
  show ?thesis
  proof (cases x)
    case (Inl e)
    with a show ?thesis by (subst history_pages.simps) simp
  next
    case (Inr j)
    with a have a': "ask env c (history_request page) w = (Inr j, w1)" by simp
    obtain tr st t where h: "en_http env tr (history_request page) = HttpResponse st j t" "st < 400"
      using request_answer [OF a'] by blast
    from assms have "case en_http env tr (history_request page) of HttpTransportError m \<Rightarrow> True
        | HttpResponse status body text \<Rightarrow> status \<ge> 400 \<or> records_of body = Inr []"
      by (simp add: pages_end_def)
    with h have "records_of j = Inr []" by simp
    with a' show ?thesis by (subst history_pages.simps) simp
  qed
qed

lemma pages_return:
  assumes "pages_end env n"
  shows "history_pages env cd c since page acc w \<noteq> None"
proof (induction "nat (n - page)" arbitrary: page acc w)
  case 0
  then show ?case by (intro pages_past_end [OF assms]) simp
next
  case (Suc k)
  then have "history_pages env cd c since (page + 1) acc' w' \<noteq> None" for acc' w' by simp
  then show ?case by (subst history_pages.simps) (auto simp: Let_def split: prod.splits sum.splits)
qed

lemma poll_returns:
  assumes "pages_end (di_env d) n"
  shows "poll_once d w \<noteq> None"
proof -
  obtain i w1 where "get_or_create_instance d w = (i, w1)" by (cases "get_or_create_instance d w")
  moreover have "history_since (di_env d) (di_codec d) (di_client d) since w1 \<noteq> None" for since
    using pages_return [OF assms] by (auto simp: history_since_def)
  ultimately show ?thesis by (auto simp: poll_once_def split: option.splits sum.splits)
qed

section \<open>What a batch keeps\<close>

text \<open>\<open>I\<close> is what the commits of other sessions keep.\<close>

definition others_keep :: "(db \<Rightarrow> bool) \<Rightarrow> environ \<Rightarrow> bool" where
  "others_keep I env \<longleftrightarrow> (\<forall>tr d. I d \<longrightarrow> I (en_db env tr d))"

definition kept :: "(db \<Rightarrow> bool) \<Rightarrow> world \<Rightarrow> world \<Rightarrow> bool" where
  "kept I w w' \<longleftrightarrow> (I (w_db w) \<longrightarrow> I (w_db w'))"

lemma kept_refl [simp]: "kept I w w"
  by (simp add: kept_def)

lemma kept_trans: "kept I w w' \<Longrightarrow> kept I w' w'' \<Longrightarrow> kept I w w''"
  by (simp add: kept_def)

lemma kept_same_db: "w_db w' = w_db w \<Longrightarrow> kept I w w'"
  by (simp add: kept_def)

lemma ask_kept: "others_keep I env \<Longrightarrow> ask env c rq w = (x, w') \<Longrightarrow> kept I w w'"
  unfolding kept_def others_keep_def by (blast intro: sonarr_request_db [of I env])

lemma then_decode_kept:
  "others_keep I env \<Longrightarrow> then_decode f (ask env c rq w) = (x, w') \<Longrightarrow> kept I w w'"
  by (cases "ask env c rq w") (auto simp: then_decode_def dest: ask_kept)

lemma get_kept:
  assumes "others_keep I env"
  shows "get_episodes env cd c i w = (x1, w') \<Longrightarrow> kept I w w'"
    "get_episode_file env cd c i w = (x2, w') \<Longrightarrow> kept I w w'"
    "get_episode_files env cd c i w = (x3, w') \<Longrightarrow> kept I w w'"
    "get_all_series env cd c w = (x4, w') \<Longrightarrow> kept I w w'"
  unfolding get_episodes_def get_episode_file_def get_episode_files_def get_all_series_def
  by (rule then_decode_kept [OF assms], assumption)+

lemma hash_file_db: "hash_file d p w = (x, w') \<Longrightarrow> w_db w' = w_db w"
  by (auto simp: hash_file_def os_call_def split: prod.splits sum.splits option.splits)

text \<open>Steps that only talk to Sonarr: nothing is staged or counted.\<close>

definition talks :: "(db \<Rightarrow> bool) \<Rightarrow> dstate \<Rightarrow> dstate \<Rightarrow> bool" where
  "talks I s s' \<longleftrightarrow> kept I (ds_world s) (ds_world s') \<and> ds_files s' = ds_files s \<and>
     ds_created s' = ds_created s \<and> ds_skipped s' = ds_skipped s \<and>
     ds_processed s' = ds_processed s \<and> ds_cursor s' = ds_cursor s"

lemma talks_refl [simp]: "talks I s s"
  by (simp add: talks_def)

lemma talks_trans: "talks I s s' \<Longrightarrow> talks I s' s'' \<Longrightarrow> talks I s s''"
  by (auto simp: talks_def intro: kept_trans)

lemma talks_world: "kept I (ds_world s) w' \<Longrightarrow> talks I s (s\<lparr>ds_world := w'\<rparr>)"
  by (simp add: talks_def)

lemma talks_cache: "kept I (ds_world s) w' \<Longrightarrow> talks I s (s\<lparr>ds_world := w', ds_cache := x\<rparr>)"
  by (simp add: talks_def)

lemma resolve_talks:
  assumes "others_keep I (di_env d)" "resolve_episode_ids d sid fid fb s = (x, s')"
  shows "talks I s s'"
  using assms(2)
  by (auto simp: resolve_episode_ids_def episode_ids_by_file_def
      intro!: talks_world talks_cache get_kept(1) [OF assms(1)] split: option.splits prod.splits sum.splits)

definition only_talks :: "(db \<Rightarrow> bool) \<Rightarrow> (dstate \<Rightarrow> 'a \<times> dstate) \<Rightarrow> bool" where
  "only_talks I m \<longleftrightarrow> (\<forall>s x s'. m s = (x, s') \<longrightarrow> talks I s s')"

lemma only_talks_resolve: "others_keep I (di_env d) \<Longrightarrow> only_talks I (resolve_episode_ids d sid fid fb)"
  by (auto simp: only_talks_def intro: resolve_talks)

lemma only_talks_const: "only_talks I (\<lambda>s. (x, s))"
  by (simp add: only_talks_def)

text \<open>A row is sound when its path is mapped, watched and hashed from a content of the file.\<close>

definition sound_row :: "disc \<Rightarrow> int \<Rightarrow> file_row \<Rightarrow> bool" where
  "sound_row d inst f \<longleftrightarrow> f_instance_id f = inst \<and>
     (\<exists>lp. map_local_path d (f_sonarr_path f) = Inr (Some lp) \<and> watch_dirs_allowed d lp \<and>
       f_local_path f = path_str lp) \<and>
     (\<exists>bs. f_content_hash f = di_xxh64 d (digest_input bs))"

text \<open>The two outcomes of a capture.\<close>

lemma capture_cases:
  assumes "others_keep I (di_env d)" "only_talks I resolve"
    and "capture_file d inst c resolve s = (x, s')"
  obtains (skip) "talks I s s'" "\<forall>b. x \<noteq> Inr (True, b)"
  | (new) lp digest ids where "x = Inr (True, False)"
    "sound_row d inst (captured_file inst c (path_str lp) digest ids)"
    "\<not> has_key inst (ef_id (cp_file c)) (ds_files s)"
    "talks I s (s'\<lparr>ds_files := ds_files s\<rparr>)"
    "ds_files s' = ds_files s @ [captured_file inst c (path_str lp) digest ids]"
proof (cases "file_exists inst (ef_id (cp_file c)) s")
  case True
  with assms(3) have "x = Inr (False, False)" "s' = s" by (simp_all add: capture_file_def)
  with skip show ?thesis by simp
next
  case F: False
  note e = assms(3) [unfolded capture_file_def if_not_P [OF F]]
  show ?thesis
  proof (cases "map_local_path d (ef_path (cp_file c))")
    case (Inl ex)
    with e have "x = Inl ex" "s' = s" by simp_all
    with skip show ?thesis by simp
  next
    case m: (Inr o_lp)
    show ?thesis
    proof (cases o_lp)
      case None
      with e m have "x = Inr (False, False)" "s' = s" by simp_all
      with skip show ?thesis by simp
    next
      case lp: (Some lp)
      show ?thesis
      proof (cases "watch_dirs_allowed d lp \<and> path_exists (di_env d) (path_str lp) (ds_world s) = Inr True")
        case False
        with e m lp have "\<forall>b. x \<noteq> Inr (True, b)" "s' = s" by (auto split: if_splits sum.splits bool.splits)
        with skip show ?thesis by simp
      next
        case True
        obtain y s1 where r: "resolve s = (y, s1)" by (cases "resolve s")
        have t: "talks I s s1" using assms(2) r by (simp add: only_talks_def)
        show ?thesis
        proof (cases y)
          case (Inl ex)
          with e m lp True r have "x = Inl ex" "s' = s1" by simp_all
          with t skip show ?thesis by simp
        next
          case ids: (Inr ids)
          obtain z w2 where h: "hash_file d (path_str lp) (ds_world s1) = (z, w2)"
            by (cases "hash_file d (path_str lp) (ds_world s1)")
          have t2: "talks I s (s1\<lparr>ds_world := w2\<rparr>)"
            using t kept_same_db [OF hash_file_db [OF h]] by (auto intro: talks_trans talks_world)
          show ?thesis
          proof (cases z)
            case (Inl ex)
            with e m lp True r ids h have "x = Inr (False, True)" "s' = s1\<lparr>ds_world := w2\<rparr>" by simp_all
            with t2 skip show ?thesis by simp
          next
            case z: (Inr digest)
            let ?row = "captured_file inst c (path_str lp) digest ids"
            have st: "stage_file ?row (s1\<lparr>ds_world := w2\<rparr>) = (x, s')"
              using e m lp True r ids h z by simp
            show ?thesis
            proof (cases "x = Inl IntegrityError")
              case True
              with st have "s' = s1\<lparr>ds_world := w2\<rparr>" by (auto simp: stage_file_def split: if_splits)
              with True t2 skip show ?thesis by simp
            next
              case False
              with st have s': "x = Inr (True, False)" "s' = s1\<lparr>ds_world := w2, ds_files := ds_files s1 @ [?row]\<rparr>"
                by (auto simp: stage_file_def split: if_splits)
              have "sound_row d inst ?row"
                using m lp True h z by (auto simp: sound_row_def captured_file_def hash_file_def split: prod.splits sum.splits)
              moreover have "\<not> has_key inst (ef_id (cp_file c)) (ds_files s)"
                using F by (simp add: file_exists_def has_key_def)
              moreover have "talks I s (s'\<lparr>ds_files := ds_files s\<rparr>)" using t2 s' by (simp add: talks_def)
              moreover have "ds_files s' = ds_files s @ [?row]" using t s' by (simp add: talks_def)
              ultimately show ?thesis using new s'(1) by blast
            qed
          qed
        qed
      qed
    qed
  qed
qed

text \<open>The invariant of a batch: its rows are sound, of distinct files, and counted.\<close>

definition staged_ok :: "disc \<Rightarrow> int \<Rightarrow> (file_row \<Rightarrow> bool) \<Rightarrow> dstate \<Rightarrow> bool" where
  "staged_ok d inst Q s \<longleftrightarrow> list_all (\<lambda>f. sound_row d inst f \<and> Q f) (ds_files s) \<and>
     distinct (map f_episode_file_id (ds_files s)) \<and> ds_created s = int (length (ds_files s))"

lemma talks_staged: "talks I s s' \<Longrightarrow> staged_ok d inst Q s \<Longrightarrow> staged_ok d inst Q s'"
  by (simp add: staged_ok_def talks_def)

definition batch_step :: "(db \<Rightarrow> bool) \<Rightarrow> disc \<Rightarrow> int \<Rightarrow> (file_row \<Rightarrow> bool) \<Rightarrow> dstate \<Rightarrow> dstate \<Rightarrow> bool" where
  "batch_step I d inst Q s s' \<longleftrightarrow>
     kept I (ds_world s) (ds_world s') \<and> (staged_ok d inst Q s \<longrightarrow> staged_ok d inst Q s')"

lemma batch_step_refl [simp]: "batch_step I d inst Q s s"
  by (simp add: batch_step_def)

lemma batch_step_trans: "batch_step I d inst Q s s' \<Longrightarrow> batch_step I d inst Q s' s'' \<Longrightarrow> batch_step I d inst Q s s''"
  by (auto simp: batch_step_def intro: kept_trans)

lemma talks_batch: "talks I s s' \<Longrightarrow> batch_step I d inst Q s s'"
  using talks_staged [of I s s'] by (simp add: batch_step_def talks_def)

definition file_key :: "file_row \<Rightarrow> int \<times> int" where
  "file_key f = (f_instance_id f, f_episode_file_id f)"

lemma has_key_mem: "has_key (f_instance_id f) (f_episode_file_id f) rows \<longleftrightarrow> file_key f \<in> file_key ` set rows"
proof -
  have "has_key (f_instance_id f) (f_episode_file_id f) rows \<longleftrightarrow> (\<exists>g \<in> set rows. file_key f = file_key g)"
    unfolding has_key_def list_ex_iff file_key_def by (metis prod.inject)
  then show ?thesis by (simp add: image_iff)
qed

lemma staged_key:
  assumes "staged_ok d inst Q s" "\<not> has_key inst k (ds_files s)"
  shows "k \<notin> f_episode_file_id ` set (ds_files s)"
  using assms by (auto simp: staged_ok_def sound_row_def list_all_iff has_key_def list_ex_iff)

text \<open>A capture followed by its count; \<open>\<not> staged\<close> is the exception's case.\<close>

lemma count_nothing: "\<not> fst ce \<Longrightarrow> staged_ok d inst Q (count_capture ce s) = staged_ok d inst Q s"
  by (simp add: staged_ok_def count_capture_def)

lemma count_world [simp]: "ds_world (count_capture ce s) = ds_world s"
  by (simp add: count_capture_def)

lemma stage_counted:
  assumes "staged_ok d inst Q s" "talks I s (s'\<lparr>ds_files := ds_files s\<rparr>)" "ds_files s' = ds_files s @ [row]"
    and "sound_row d inst row" "Q row" "\<not> has_key inst (f_episode_file_id row) (ds_files s)"
  shows "staged_ok d inst Q (count_capture (True, b) s')"
proof -
  have c: "ds_created s' = ds_created s" using assms(2) by (simp add: talks_def)
  note k = staged_key [OF assms(1,6)]
  from assms(1) show ?thesis
    unfolding staged_ok_def using c k assms(3-5) by (simp add: count_capture_def)
qed

lemma capture_batch:
  assumes "others_keep I (di_env d)" "only_talks I resolve"
    and "capture_file d inst c resolve s = (x, s')"
    and "\<And>lp digest ids. Q (captured_file inst c lp digest ids)"
  shows "(x = Inr ce \<longrightarrow> batch_step I d inst Q s (count_capture ce s')) \<and> kept I (ds_world s) (ds_world s')"
  using assms(1-3)
proof (cases rule: capture_cases)
  case skip
  have "batch_step I d inst Q s (count_capture ce s')" if x: "x = Inr ce"
  proof -
    from skip(2) x have "\<not> fst ce" by (cases ce) auto
    from count_nothing [OF this] talks_batch [OF skip(1)] show ?thesis by (simp add: batch_step_def)
  qed
  with skip(1) show ?thesis by (simp add: talks_def)
next
  case (new lp digest ids)
  have k: "kept I (ds_world s) (ds_world s')" using new(4) by (simp add: talks_def)
  have key: "\<not> has_key inst (f_episode_file_id (captured_file inst c (path_str lp) digest ids)) (ds_files s)"
    using new(3) by (simp add: captured_file_def)
  have "staged_ok d inst Q s \<longrightarrow> staged_ok d inst Q (count_capture (True, False) s')"
    by (rule impI, rule stage_counted [where row = "captured_file inst c (path_str lp) digest ids"])
      (use new assms(4) key in auto)
  with k have "batch_step I d inst Q s (count_capture (True, False) s')" by (simp add: batch_step_def)
  with k new(1) show ?thesis by (cases ce) auto
qed


section \<open>The loops\<close>

text \<open>What the rows of a poll, and of a backfill, have.\<close>

definition from_record :: "history_record list \<Rightarrow> file_row \<Rightarrow> bool" where
  "from_record rs f \<longleftrightarrow> list_ex (\<lambda>r. f_history_id f = Some (hr_id r) \<and> f_series_id f = hr_series_id r \<and>
     f_download_id f = hr_download_id r \<and> f_source_title f = hr_source_title r) rs"

definition from_library :: "file_row \<Rightarrow> bool" where
  "from_library f \<longleftrightarrow> f_history_id f = None \<and> f_download_id f = None"

lemma batch_step_kept: "batch_step I d inst Q s s' \<Longrightarrow> kept I (ds_world s) (ds_world s')"
  by (simp add: batch_step_def)

lemma batch_step_talks: "batch_step I d inst Q s s' \<Longrightarrow> talks I s0 s \<Longrightarrow> batch_step I d inst Q s0 s'"
  by (blast intro: batch_step_trans talks_batch)

lemma poll_record_batch:
  assumes "others_keep I (di_env d)" "r \<in> set rs" "poll_record d inst r s = (x, s')"
  shows "kept I (ds_world s) (ds_world s') \<and> (x = Inr () \<longrightarrow> batch_step I d inst (from_record rs) s s')"
proof (cases "\<exists>fid. hr_episode_file_id r = Inr (Some fid) \<and> \<not> file_exists inst fid s")
  case False
  with assms(3) have "s' = s" by (auto simp: poll_record_def split: sum.splits option.splits if_splits)
  then show ?thesis by simp
next
  case True
  then obtain fid where f: "hr_episode_file_id r = Inr (Some fid)" "\<not> file_exists inst fid s" by blast
  obtain y w1 where g: "get_episode_file (di_env d) (di_codec d) (di_client d) fid (ds_world s) = (y, w1)"
    by (cases "get_episode_file (di_env d) (di_codec d) (di_client d) fid (ds_world s)")
  have t: "talks I s (s\<lparr>ds_world := w1\<rparr>)" by (rule talks_world [OF get_kept(2) [OF assms(1) g]])
  show ?thesis
  proof (cases y)
    case (Inl e)
    with assms(3) f g have "s' = s\<lparr>ds_world := w1\<rparr>" by (auto simp: poll_record_def split: exn.splits if_splits)
    with t talks_batch [OF t] show ?thesis by (simp add: talks_def)
  next
    case (Inr ef)
    let ?res = "resolve_episode_ids d (hr_series_id r) fid (hr_episode_ids r)"
    obtain z s2 where c: "capture_file d inst (record_capture r ef) ?res (s\<lparr>ds_world := w1\<rparr>) = (z, s2)"
      by (cases "capture_file d inst (record_capture r ef) ?res (s\<lparr>ds_world := w1\<rparr>)")
    have q: "from_record rs (captured_file inst (record_capture r ef) lp digest ids)" for lp digest ids
      using assms(2) by (auto simp: from_record_def captured_file_def record_capture_def list_ex_iff)
    note cb = capture_batch [OF assms(1) only_talks_resolve [OF assms(1)] c, where Q = "from_record rs", OF q]
    show ?thesis
    proof (cases z)
      case (Inl e)
      with assms(3) f g Inr c have "x = Inl e" "s' = s2" by (simp_all add: poll_record_def)
      with cb t show ?thesis by (auto simp: talks_def intro: kept_trans)
    next
      case z: (Inr ce)
      with assms(3) f g Inr c have x: "x = Inr ()" "s' = count_capture ce s2" by (simp_all add: poll_record_def)
      have "batch_step I d inst (from_record rs) (s\<lparr>ds_world := w1\<rparr>) s'" using cb z x(2) by simp
      from batch_step_talks [OF this t] show ?thesis by (simp add: batch_step_kept)
    qed
  qed
qed

lemma poll_records_batch:
  assumes "others_keep I (di_env d)"
  shows "set qs \<subseteq> set rs \<Longrightarrow> poll_records d inst qs s = (x, s') \<Longrightarrow>
    kept I (ds_world s) (ds_world s') \<and> (x = Inr () \<longrightarrow> batch_step I d inst (from_record rs) s s')"
proof (induction qs arbitrary: s)
  case Nil
  then show ?case by simp
next
  case (Cons q qs)
  obtain y s1 where p: "poll_record d inst q s = (y, s1)" by (cases "poll_record d inst q s")
  have one: "kept I (ds_world s) (ds_world s1) \<and> (y = Inr () \<longrightarrow> batch_step I d inst (from_record rs) s s1)"
    by (rule poll_record_batch [OF assms _ p]) (use Cons.prems(1) in simp)
  show ?case
  proof (cases y)
    case (Inl e)
    with Cons.prems(2) p one show ?thesis by auto
  next
    case (Inr u)
    with Cons.prems(2) p have "poll_records d inst qs s1 = (x, s')" by simp
    from Cons.IH [OF _ this] Cons.prems(1) one Inr show ?thesis
      by (auto intro: kept_trans batch_step_trans)
  qed
qed

lemma processed_batch: "batch_step I d inst Q s (s\<lparr>ds_processed := n\<rparr>)"
  by (simp add: batch_step_def kept_def staged_ok_def)

lemma cursor_batch: "batch_step I d inst Q s (s\<lparr>ds_cursor := n\<rparr>)"
  by (simp add: batch_step_def kept_def staged_ok_def)

lemma backfill_files_batch:
  assumes "others_keep I (di_env d)"
  shows "backfill_files d inst batch sid ids efs s = (x, s') \<Longrightarrow>
    kept I (ds_world s) (ds_world s') \<and> (\<not> is_err x \<longrightarrow> batch_step I d inst from_library s s')"
proof (induction efs arbitrary: s)
  case Nil
  then show ?case by simp
next
  case (Cons ef efs)
  show ?case
  proof (cases "ds_processed s \<ge> batch")
    case True
    with Cons.prems show ?thesis by simp
  next
    case False
    let ?s = "s\<lparr>ds_processed := ds_processed s + 1\<rparr>"
    let ?res = "\<lambda>t. (Inr (case map_of ids (ef_id ef) of None \<Rightarrow> [] | Some x \<Rightarrow> x), t)"
    obtain z s2 where c: "capture_file d inst (backfill_capture sid ef) ?res ?s = (z, s2)"
      by (cases "capture_file d inst (backfill_capture sid ef) ?res ?s")
    have q: "from_library (captured_file inst (backfill_capture sid ef) lp digest is)" for lp digest "is"
      by (simp add: from_library_def captured_file_def backfill_capture_def)
    note cb = capture_batch [OF assms only_talks_const c, where Q = from_library, OF q]
    show ?thesis
    proof (cases z)
      case (Inl e)
      with Cons.prems False c have "x = Inl e" "s' = s2" by simp_all
      with cb show ?thesis by auto
    next
      case (Inr ce)
      let ?s3 = "(count_capture ce s2)\<lparr>ds_cursor := Some (sid, ef_id ef)\<rparr>"
      from Inr Cons.prems False c have "backfill_files d inst batch sid ids efs ?s3 = (x, s')" by simp
      note ih = Cons.IH [OF this]
      have "batch_step I d inst from_library ?s (count_capture ce s2)" using cb Inr by simp
      from batch_step_trans [OF processed_batch batch_step_trans [OF this cursor_batch]]
      have "batch_step I d inst from_library s ?s3" .
      with ih show ?thesis by (blast intro: batch_step_trans kept_trans batch_step_kept)
    qed
  qed
qed

lemma episode_ids_kept: "others_keep I (di_env d) \<Longrightarrow> episode_ids_by_file d sid w = (x, w') \<Longrightarrow> kept I w w'"
  by (auto simp: episode_ids_by_file_def intro: get_kept(1) split: prod.splits)

lemma backfill_series_batch:
  assumes "others_keep I (di_env d)"
  shows "backfill_series d inst batch ss sa ses s = (x, s') \<Longrightarrow>
    kept I (ds_world s) (ds_world s') \<and> (\<not> is_err x \<longrightarrow> batch_step I d inst from_library s s')"
proof (induction ses arbitrary: s)
  case Nil
  then show ?case by simp
next
  case (Cons se ses)
  show ?case
  proof (cases "ds_processed s \<ge> batch")
    case True
    with Cons.prems show ?thesis by simp
  next
    case False
    obtain y w1 where e: "episode_ids_by_file d (se_id se) (ds_world s) = (y, w1)"
      by (cases "episode_ids_by_file d (se_id se) (ds_world s)")
    note k1 = episode_ids_kept [OF assms e]
    show ?thesis
    proof (cases y)
      case (Inl ex)
      with Cons.prems False e k1 show ?thesis by auto
    next
      case ids: (Inr ids)
      obtain z w2 where g: "get_episode_files (di_env d) (di_codec d) (di_client d) (se_id se) w1 = (z, w2)"
        by (cases "get_episode_files (di_env d) (di_codec d) (di_client d) (se_id se) w1")
      have k2: "kept I (ds_world s) w2" by (rule kept_trans [OF k1 get_kept(3) [OF assms g]])
      show ?thesis
      proof (cases z)
        case (Inl ex)
        with Cons.prems False e ids g k2 show ?thesis by auto
      next
        case z: (Inr files)
        let ?fs = "after_cursor ss sa (se_id se) (sort_key ef_id files)"
        obtain u s3 where b: "backfill_files d inst batch (se_id se) ids ?fs (s\<lparr>ds_world := w2\<rparr>) = (u, s3)"
          by (cases "backfill_files d inst batch (se_id se) ids ?fs (s\<lparr>ds_world := w2\<rparr>)")
        note t = talks_world [OF k2]
        note fb = backfill_files_batch [OF assms b]
        have k3: "kept I (ds_world s) (ds_world s3)" using fb k2 by (auto intro: kept_trans)
        have b3: "\<not> is_err u \<longrightarrow> batch_step I d inst from_library s s3"
          using fb batch_step_talks [OF _ t] by blast
        show ?thesis
        proof (cases "u = Inr True")
          case True
          with Cons.prems False e ids g z b have "backfill_series d inst batch ss sa ses s3 = (x, s')" by simp
          from Cons.IH [OF this] True b3 k3 show ?thesis by (auto intro: kept_trans batch_step_trans)
        next
          case u: False
          with Cons.prems False e ids g z b have "x = u" "s' = s3" by (auto split: sum.splits bool.splits)
          with b3 k3 show ?thesis by simp
        qed
      qed
    qed
  qed
qed

section \<open>What a commit adds\<close>

definition strip_id :: "file_row \<Rightarrow> file_row" where
  "strip_id f = f\<lparr>f_id := 0\<rparr>"

lemma strip_id_simps [simp]:
  "f_instance_id (strip_id f) = f_instance_id f" "f_episode_file_id (strip_id f) = f_episode_file_id f"
  "f_history_id (strip_id f) = f_history_id f"
  "sound_row d inst (strip_id f) = sound_row d inst f" "from_record rs (strip_id f) = from_record rs f"
  "from_library (strip_id f) = from_library f" "strip_id (f\<lparr>f_id := i\<rparr>) = strip_id f"
  by (simp_all add: strip_id_def sound_row_def from_record_def from_library_def)

definition queued_for :: "datetime \<Rightarrow> job_row \<Rightarrow> file_row \<Rightarrow> bool" where
  "queued_for now j f \<longleftrightarrow> j = new_job (j_id j) (f_id f) Pending now"

definition ids_ok :: "db \<Rightarrow> bool" where
  "ids_ok d \<longleftrightarrow> distinct (map f_id (db_files d)) \<and> distinct (map j_id (db_jobs d)) \<and>
     (\<forall>j \<in> set (db_jobs d). j_file_id j \<in> f_id ` set (db_files d))"

lemma insert_captured_ids: "ids_ok d \<Longrightarrow> ids_ok (insert_captured now f d)"
  using fresh_id_notin [of "map f_id (db_files d)"] fresh_id_notin [of "map j_id (db_jobs d)"]
  by (auto simp: ids_ok_def insert_captured_def Let_def new_job_def)

text \<open>The jobs are made by \<open>create_job\<close>, one after the other.\<close>

definition makes_jobs :: "datetime \<Rightarrow> int list \<Rightarrow> db \<Rightarrow> db" where
  "makes_jobs now ids d = fold (\<lambda>i d. snd (create_job d i False now)) ids d"

lemma makes_jobs_cong: "db_jobs d = db_jobs d' \<Longrightarrow> db_jobs (makes_jobs now ids d) = db_jobs (makes_jobs now ids d')"
proof (induction ids arbitrary: d d')
  case (Cons i ids)
  then have "db_jobs (snd (create_job d i False now)) = db_jobs (snd (create_job d' i False now))"
    by (simp add: create_job_def Let_def)
  from Cons.IH [OF this] show ?case by (simp add: makes_jobs_def)
qed (simp add: makes_jobs_def)

lemma fold_insert_makes:
  "\<exists>ids. db_jobs (fold (insert_captured now) fs d) = db_jobs (makes_jobs now ids d)"
proof (induction fs arbitrary: d)
  case Nil
  show ?case by (intro exI [of _ "[]"]) (simp add: makes_jobs_def)
next
  case (Cons f fs)
  let ?i = "fresh_id (map f_id (db_files d))"
  obtain ids where ids: "db_jobs (fold (insert_captured now) fs (insert_captured now f d)) =
      db_jobs (makes_jobs now ids (insert_captured now f d))" using Cons.IH by blast
  have "db_jobs (insert_captured now f d) = db_jobs (snd (create_job d ?i False now))"
    by (simp add: insert_captured_def create_job_def Let_def)
  from makes_jobs_cong [OF this] ids show ?case
    by (intro exI [of _ "?i # ids"]) (simp add: makes_jobs_def)
qed

lemma fold_insert:
  "\<exists>rows js. fold (insert_captured now) fs d =
       d\<lparr>db_files := db_files d @ rows, db_jobs := db_jobs d @ js\<rparr> \<and>
     map strip_id rows = map strip_id fs \<and> list_all2 (queued_for now) js rows \<and>
     (ids_ok d \<longrightarrow> ids_ok (fold (insert_captured now) fs d))"
proof (induction fs arbitrary: d)
  case Nil
  then show ?case by (intro exI [of _ "[]"]) simp
next
  case (Cons f fs)
  let ?f = "f\<lparr>f_id := fresh_id (map f_id (db_files d))\<rparr>"
  let ?j = "new_job (fresh_id (map j_id (db_jobs d))) (f_id ?f) Pending now"
  have d1: "insert_captured now f d = d\<lparr>db_files := db_files d @ [?f], db_jobs := db_jobs d @ [?j]\<rparr>"
    by (simp add: insert_captured_def Let_def)
  have q: "queued_for now ?j ?f" by (simp add: queued_for_def new_job_def)
  obtain rows js where r: "fold (insert_captured now) fs (insert_captured now f d) =
      (insert_captured now f d)\<lparr>db_files := db_files (insert_captured now f d) @ rows,
        db_jobs := db_jobs (insert_captured now f d) @ js\<rparr>"
    "map strip_id rows = map strip_id fs" "list_all2 (queued_for now) js rows"
    "ids_ok (insert_captured now f d) \<longrightarrow> ids_ok (fold (insert_captured now) fs (insert_captured now f d))"
    using Cons.IH [of "insert_captured now f d"] by blast
  have "fold (insert_captured now) (f # fs) d = d\<lparr>db_files := db_files d @ ?f # rows, db_jobs := db_jobs d @ ?j # js\<rparr>"
    using r(1) unfolding d1 by (simp add: d1)
  with r q insert_captured_ids [of d now f] show ?case
    by (intro exI [of _ "?f # rows"] exI [of _ "?j # js"]) auto
qed

text \<open>The database after a committed batch.\<close>

definition landed ::
  "int \<Rightarrow> (instance_row \<Rightarrow> instance_row) \<Rightarrow> datetime \<Rightarrow> file_row list \<Rightarrow> job_row list \<Rightarrow> db \<Rightarrow> db \<Rightarrow> bool" where
  "landed inst upd now rows js d d' \<longleftrightarrow>
     d' = d\<lparr>db_files := db_files d @ rows, db_jobs := db_jobs d @ js,
            db_instances := update_where (\<lambda>i. in_id i = inst) upd (db_instances d)\<rparr> \<and>
     list_all2 (queued_for now) js rows \<and>
     (\<forall>f \<in> set rows. \<not> has_key (f_instance_id f) (f_episode_file_id f) (db_files d)) \<and>
     (ids_ok d \<longrightarrow> ids_ok d') \<and> (\<exists>ids. db_jobs d' = db_jobs (makes_jobs now ids d))"

lemma commit_result:
  assumes "commit_batch d inst upd s = (x, w')" "staged_ok d inst Q s"
    and "\<And>f. Q (strip_id f) = Q f"
  shows "(x = Inl IntegrityError \<and> w' = ds_world s) \<or>
    (\<exists>res rows js now. x = Inr res \<and> w_fs w' = w_fs (ds_world s) \<and> w_trace w' = w_trace (ds_world s) \<and>
      landed inst (upd now) now rows js (w_db (ds_world s)) (w_db w') \<and>
      dr_created res = int (length rows) \<and> dr_skipped res = ds_skipped s \<and> map strip_id rows = map strip_id (ds_files s) \<and>
      list_all (\<lambda>f. sound_row d inst f \<and> Q f) rows \<and> distinct (map f_episode_file_id rows))"
proof (cases "x = Inl IntegrityError")
  case True
  with assms(1) show ?thesis by (auto simp: commit_batch_def Let_def split: if_splits)
next
  case False
  let ?w = "ds_world s" let ?now = "now_of (di_env d) ?w"
  from False assms(1) have ok: "\<not> list_ex (\<lambda>f. has_key (f_instance_id f) (f_episode_file_id f) (db_files (w_db ?w))) (ds_files s)"
    and x: "x = Inr \<lparr>dr_created = ds_created s, dr_skipped = ds_skipped s\<rparr>"
    and w': "w' = ?w\<lparr>w_db := (fold (insert_captured ?now) (ds_files s) (w_db ?w))
                \<lparr>db_instances := update_where (\<lambda>i. in_id i = inst) (upd ?now) (db_instances (w_db ?w))\<rparr>\<rparr>"
    by (auto simp: commit_batch_def Let_def split: if_splits)
  obtain rows js where r: "fold (insert_captured ?now) (ds_files s) (w_db ?w) =
       (w_db ?w)\<lparr>db_files := db_files (w_db ?w) @ rows, db_jobs := db_jobs (w_db ?w) @ js\<rparr>"
     "map strip_id rows = map strip_id (ds_files s)" "list_all2 (queued_for ?now) js rows"
     "ids_ok (w_db ?w) \<longrightarrow> ids_ok (fold (insert_captured ?now) (ds_files s) (w_db ?w))"
    using fold_insert by blast
  have mem: "\<exists>g \<in> set (ds_files s). strip_id g = strip_id f" if "f \<in> set rows" for f
    using that r(2) by (metis (no_types, lifting) image_iff list.set_map)
  have key: "\<not> has_key (f_instance_id f) (f_episode_file_id f) (db_files (w_db ?w))" if "f \<in> set rows" for f
    using mem [OF that] ok by (metis (no_types, lifting) list_ex_iff strip_id_simps(1,2))
  have q: "sound_row d inst f \<and> Q f" if "f \<in> set rows" for f
    using mem [OF that] assms(2,3) unfolding staged_ok_def list_all_iff by (metis strip_id_simps(4))
  have ks: "map f_episode_file_id rows = map f_episode_file_id (ds_files s)"
    using arg_cong [OF r(2), of "map f_episode_file_id"] by (simp add: comp_def)
  have len: "length rows = length (ds_files s)" using r(2) by (metis length_map)
  have l: "landed inst (upd ?now) ?now rows js (w_db ?w) (w_db w')"
    using r key w' fold_insert_makes [of ?now "ds_files s" "w_db ?w"] by (simp add: landed_def ids_ok_def)
  have d: "distinct (map f_episode_file_id rows)" "dr_created \<lparr>dr_created = ds_created s, dr_skipped = ds_skipped s\<rparr> = int (length rows)"
    using assms(2) ks len by (simp_all add: staged_ok_def)
  have w: "w_fs w' = w_fs ?w" "w_trace w' = w_trace ?w" using w' by simp_all
  have qs: "list_all (\<lambda>f. sound_row d inst f \<and> Q f) rows" using q by (simp add: list_all_iff)
  show ?thesis
    by (rule disjI2, rule exI [of _ "\<lparr>dr_created = ds_created s, dr_skipped = ds_skipped s\<rparr>"],
        rule exI [of _ rows], rule exI [of _ js], rule exI [of _ ?now])
      (use x w l d r(2) qs in simp)
qed

lemma begin_ok [simp]: "staged_ok d inst Q (begin_batch w)" "ds_world (begin_batch w) = w"
  by (simp_all add: staged_ok_def begin_batch_def)

section \<open>The invariant of the discovery tables\<close>

definition discovery_inv :: "db \<Rightarrow> bool" where
  "discovery_inv d \<longleftrightarrow> ids_ok d \<and> distinct (map in_id (db_instances d)) \<and>
     distinct (map file_key (db_files d))"

lemma keys_distinct:
  assumes "list_all (\<lambda>f. f_instance_id f = inst) rows" "distinct (map f_episode_file_id rows)"
  shows "distinct (map file_key rows)"
  using assms by (auto simp: distinct_map list_all_iff inj_on_def file_key_def)

lemma landedD:
  assumes "landed inst upd now rows js d d'"
  shows landed_db: "d' = d\<lparr>db_files := db_files d @ rows, db_jobs := db_jobs d @ js,
            db_instances := update_where (\<lambda>i. in_id i = inst) upd (db_instances d)\<rparr>"
    and landed_jobs: "list_all2 (queued_for now) js rows"
    and landed_keys: "\<forall>f \<in> set rows. \<not> has_key (f_instance_id f) (f_episode_file_id f) (db_files d)"
    and landed_ids: "ids_ok d \<Longrightarrow> ids_ok d'"
    and landed_made: "\<exists>ids. db_jobs d' = db_jobs (makes_jobs now ids d)"
proof -
  note c = assms [unfolded landed_def]
  show "d' = d\<lparr>db_files := db_files d @ rows, db_jobs := db_jobs d @ js,
            db_instances := update_where (\<lambda>i. in_id i = inst) upd (db_instances d)\<rparr>" by (rule conjunct1 [OF c])
  note c2 = conjunct2 [OF c]
  show "list_all2 (queued_for now) js rows" by (rule conjunct1 [OF c2])
  note c3 = conjunct2 [OF c2]
  show "\<forall>f \<in> set rows. \<not> has_key (f_instance_id f) (f_episode_file_id f) (db_files d)" by (rule conjunct1 [OF c3])
  note c4 = conjunct2 [OF c3]
  show "ids_ok d \<Longrightarrow> ids_ok d'" by (rule mp [OF conjunct1 [OF c4]])
  show "\<exists>ids. db_jobs d' = db_jobs (makes_jobs now ids d)" by (rule conjunct2 [OF c4])
qed

lemma landed_new:
  assumes "landed inst upd now rows js d d'"
  shows "file_key ` set (db_files d) \<inter> file_key ` set rows = {}"
proof (rule equals0I)
  fix k assume k: "k \<in> file_key ` set (db_files d) \<inter> file_key ` set rows"
  then obtain f where "f \<in> set rows" "k = file_key f" by auto
  with bspec [OF landed_keys [OF assms], of f] k show False by (simp add: has_key_mem)
qed

lemma landed_inv:
  assumes "landed inst upd now rows js d d'" "discovery_inv d"
    and "list_all (\<lambda>f. sound_row e inst f \<and> Q f) rows" "distinct (map f_episode_file_id rows)"
    and "\<And>i. in_id (upd i) = in_id i"
  shows "discovery_inv d'"
proof -
  have d': "db_files d' = db_files d @ rows"
    "db_instances d' = update_where (\<lambda>i. in_id i = inst) upd (db_instances d)"
    by (simp_all add: landed_db [OF assms(1)])
  have "ids_ok d" using assms(2) by (simp add: discovery_inv_def)
  note ids = landed_ids [OF assms(1) this]
  have "list_all (\<lambda>f. f_instance_id f = inst) rows"
    using assms(3) by (auto simp: sound_row_def list_all_iff)
  from keys_distinct [OF this assms(4)] have r: "distinct (map file_key rows)" .
  have "map in_id (db_instances d') = map in_id (db_instances d)"
    unfolding d' by (rule update_where_keys) (simp add: assms(5))
  then have i: "distinct (map in_id (db_instances d'))" using assms(2) by (simp add: discovery_inv_def)
  note landed_new [OF assms(1)]
  with r assms(2) have "distinct (map file_key (db_files d'))" unfolding d' by (simp add: discovery_inv_def)
  with ids i show ?thesis by (simp add: discovery_inv_def)
qed

lemma instance_inv:
  assumes "get_or_create_instance d w = (i, w1)" "discovery_inv (w_db w)"
  shows "discovery_inv (w_db w1)"
  using assms fresh_id_notin [of "map in_id (db_instances (w_db w))"]
  by (auto simp: get_or_create_instance_def discovery_inv_def ids_ok_def new_instance_def Let_def split: option.splits)


section \<open>Polling\<close>

lemma history_kept:
  assumes "others_keep I env" "history_since env cd c since w = Some (x, w')"
  shows "kept I w w'"
proof -
  obtain y where h: "history_pages env cd c since 1 [] w = Some (y, w')"
    using assms(2) by (auto simp: history_since_def)
  have "kept I w (snd (y, w'))"
    by (rule history_pages_induct [where P = "\<lambda>page acc w y. kept I w (snd y)", OF h])
      (auto dest: ask_kept [OF assms(1)] intro: kept_trans)
  then show ?thesis by simp
qed

end
