(* ===== verification/DiscoverySpec.thy ===== *)
theory DiscoverySpec
  imports DiscoverySteps
begin

text \<open>
  The properties of discovery: a poll or a backfill step lands whole or not at all, keeps the
  tables well formed, translates paths by the longest prefix, and the backfill walks the library in
  order without skipping or repeating a file.
\<close>

section \<open>A poll and a backfill step as a whole\<close>

text \<open>
  How a discovery call ends: it raises and the database is what the other sessions left, or one
  batch has landed on it.
\<close>

definition batch_result ::
  "(db \<Rightarrow> bool) \<Rightarrow> disc \<Rightarrow> int \<Rightarrow> (file_row \<Rightarrow> bool) \<Rightarrow> discovery_result res \<times> world \<Rightarrow> bool" where
  "batch_result I d inst Q xw \<longleftrightarrow>
     (case fst xw of
        Inl e \<Rightarrow> I (w_db (snd xw))
      | Inr res \<Rightarrow> \<exists>db0 upd now rows js. I db0 \<and> (\<forall>i. in_id (upd i) = in_id i) \<and>
          landed inst upd now rows js db0 (w_db (snd xw)) \<and> dr_created res = int (length rows) \<and>
          list_all (\<lambda>f. sound_row d inst f \<and> Q f) rows \<and> distinct (map f_episode_file_id rows))"

lemma batch_result_raised [simp]: "batch_result I d inst Q (Inl e, w) = I (w_db w)"
  by (simp add: batch_result_def)

lemma batch_result_landed:
  assumes "landed inst upd now rows js db0 (w_db w)" "I db0" "\<And>i. in_id (upd i) = in_id i"
    and "dr_created res = int (length rows)" "list_all (\<lambda>f. sound_row d inst f \<and> Q f) rows"
    and "distinct (map f_episode_file_id rows)"
  shows "batch_result I d inst Q (Inr res, w)"
  unfolding batch_result_def fst_conv snd_conv sum.case
  by (rule exI [of _ db0], rule exI [of _ upd], rule exI [of _ now], rule exI [of _ rows], rule exI [of _ js])
    (intro conjI allI assms)

lemma batch_result_landedE:
  assumes "batch_result I d inst Q (Inr res, w)"
  obtains db0 upd now rows js where "landed inst upd now rows js db0 (w_db w)" "I db0"
    "\<And>i. in_id (upd i) = in_id i" "dr_created res = int (length rows)"
    "list_all (\<lambda>f. sound_row d inst f \<and> Q f) rows" "distinct (map f_episode_file_id rows)"
  using assms [unfolded batch_result_def fst_conv snd_conv sum.case] proof (elim exE conjE)
  fix db0 upd now rows js
  assume "I db0" "\<forall>i. in_id (upd i) = in_id i" "landed inst upd now rows js db0 (w_db w)" "dr_created res = int (length rows)"
    "list_all (\<lambda>f. sound_row d inst f \<and> Q f) rows" "distinct (map f_episode_file_id rows)"
  then show thesis by (intro that [of upd now rows js db0]) auto
qed

lemma commit_batch_result:
  assumes "commit_batch d inst upd s = (x, w')" "staged_ok d inst Q s" "I (w_db (ds_world s))"
    and "\<And>f. Q (strip_id f) = Q f" "\<And>now i. in_id (upd now i) = in_id i"
  shows "batch_result I d inst Q (x, w')"
  using commit_result [OF assms(1,2,4)]
proof (elim disjE exE conjE)
  assume "x = Inl IntegrityError" "w' = ds_world s"
  with assms(3) show ?thesis by simp
next
  fix res rows js now
  assume x: "x = Inr res" and l: "landed inst (upd now) now rows js (w_db (ds_world s)) (w_db w')"
    and r: "dr_created res = int (length rows)" "list_all (\<lambda>f. sound_row d inst f \<and> Q f) rows"
    "distinct (map f_episode_file_id rows)"
  show ?thesis unfolding x by (rule batch_result_landed [OF l]) (use assms(3,5) r in auto)
qed

lemma batch_result_inv:
  assumes "batch_result discovery_inv d inst Q (x, w')"
  shows "discovery_inv (w_db w')"
proof (cases x)
  case (Inl e)
  with assms show ?thesis by (simp add: batch_result_def)
next
  case (Inr res)
  from assms [unfolded Inr] show ?thesis by (rule batch_result_landedE) (rule landed_inv)
qed

lemma from_record_strip: "from_record rs (strip_id f) = from_record rs f"
  by simp

lemma poll_batch_result:
  assumes "others_keep I (di_env d)" "I (w_db w)" "poll_batch d inst rs w = (x, w')"
  shows "batch_result I d inst (from_record rs) (x, w')"
proof (cases "get_row in_id inst (db_instances (w_db w))")
  case None
  with assms show ?thesis by (auto simp: poll_batch_def)
next
  case (Some i)
  obtain y s where p: "poll_records d inst rs (begin_batch w) = (y, s)" by (cases "poll_records d inst rs (begin_batch w)")
  note b = poll_records_batch [OF assms(1) subset_refl p]
  have i: "I (w_db (ds_world s))" using b assms(2) by (simp add: kept_def)
  show ?thesis
  proof (cases y)
    case (Inl e)
    with assms(3) Some p i show ?thesis by (auto simp: poll_batch_def)
  next
    case (Inr u)
    with b have st: "staged_ok d inst (from_record rs) s" by (simp add: batch_step_def)
    from assms(3) Some p Inr have "commit_batch d inst
        (\<lambda>now row. set_watermark (in_history_watermark i) (hr_id (last rs)) (row\<lparr>in_last_polled_at := Some now\<rparr>)) s = (x, w')"
      by (simp add: poll_batch_def)
    then show ?thesis
      by (rule commit_batch_result) (simp_all add: st i set_watermark_def)
  qed
qed

lemma backfill_batch_result:
  assumes "others_keep I (di_env d)" "I (w_db w)" "backfill_batch d inst batch ss sa ses w = (x, w')"
  shows "batch_result I d inst from_library (x, w')"
proof (cases "get_row in_id inst (db_instances (w_db w))")
  case None
  with assms show ?thesis by (auto simp: backfill_batch_def)
next
  case (Some i)
  obtain y s where p: "backfill_series d inst batch ss sa ses (begin_batch w) = (y, s)"
    by (cases "backfill_series d inst batch ss sa ses (begin_batch w)")
  note b = backfill_series_batch [OF assms(1) p]
  have i: "I (w_db (ds_world s))" using b assms(2) by (simp add: kept_def)
  show ?thesis
  proof (cases y)
    case (Inl e)
    with assms(3) Some p i show ?thesis by (auto simp: backfill_batch_def)
  next
    case (Inr u)
    with b have st: "staged_ok d inst from_library s" by (simp add: batch_step_def)
    from assms(3) Some p Inr have "commit_batch d inst
        (\<lambda>now row. set_cursor (in_backfill_cursor i) (if u then None else ds_cursor s)
           (row\<lparr>in_last_backfilled_at := Some now\<rparr>)) s = (x, w')"
      by (simp add: backfill_batch_def)
    then show ?thesis
      by (rule commit_batch_result) (simp_all add: st i set_cursor_def)
  qed
qed

text \<open>The instance a call works on, and the database once it exists.\<close>

abbreviation the_instance :: "disc \<Rightarrow> world \<Rightarrow> instance_row" where
  "the_instance d w \<equiv> fst (get_or_create_instance d w)"

abbreviation with_instance :: "disc \<Rightarrow> world \<Rightarrow> world" where
  "with_instance d w \<equiv> snd (get_or_create_instance d w)"

lemma begin_commit_result:
  assumes "I (w_db w)" "commit_batch d inst (\<lambda>now row. row\<lparr>in_last_polled_at := Some now\<rparr>) (begin_batch w) = (x, w')"
  shows "batch_result I d inst (from_record rs) (x, w')"
  using commit_batch_result [OF assms(2), of "from_record rs" I] assms(1) by simp

lemma poll_all:
  assumes "others_keep I (di_env d)" "I (w_db (with_instance d w))" "poll_once d w = Some (x, w')"
  shows "\<exists>rs. (sound_codec (di_codec d) \<longrightarrow>
        (\<forall>r \<in> set rs. (case in_history_watermark (the_instance d w) of None \<Rightarrow> 0 | Some v \<Rightarrow> v) < hr_id r)) \<and>
      batch_result I d (in_id (the_instance d w)) (from_record rs) (x, w')"
proof -
  obtain i w1 where i: "get_or_create_instance d w = (i, w1)" by (cases "get_or_create_instance d w")
  let ?wm = "case in_history_watermark i of None \<Rightarrow> 0 | Some v \<Rightarrow> v"
  from assms(3) i obtain y w2 where h: "history_since (di_env d) (di_codec d) (di_client d) ?wm w1 = Some (y, w2)"
    by (auto simp: poll_once_def split: option.splits)
  have I2: "I (w_db w2)" using history_kept [OF assms(1) h] assms(2) i by (simp add: kept_def)
  show ?thesis
  proof (cases y)
    case (Inl e)
    with assms(3) i h I2 have "batch_result I d (in_id i) (from_record []) (x, w')" by (auto simp: poll_once_def)
    with i show ?thesis by (intro exI [of _ "[]"]) simp
  next
    case (Inr rs)
    note newer = hist.newer [OF _ h [unfolded Inr]]
    show ?thesis
    proof (cases "rs = []")
      case True
      show ?thesis
      proof (cases "get_row in_id (in_id i) (db_instances (w_db w2))")
        case None
        with assms(3) i h Inr True I2 have "batch_result I d (in_id i) (from_record []) (x, w')" by (auto simp: poll_once_def)
        with i show ?thesis by (intro exI [of _ "[]"]) simp
      next
        case (Some r)
        with assms(3) i h Inr True have "commit_batch d (in_id i) (\<lambda>now row. row\<lparr>in_last_polled_at := Some now\<rparr>) (begin_batch w2) = (x, w')"
          by (simp add: poll_once_def)
        from begin_commit_result [where I = I, OF I2 this] i show ?thesis by (intro exI [of _ "[]"]) simp
      qed
    next
      case False
      with assms(3) i h Inr have "poll_batch d (in_id i) rs w2 = (x, w')" by (simp add: poll_once_def)
      from poll_batch_result [OF assms(1) I2 this] i newer show ?thesis by (intro exI [of _ rs]) simp
    qed
  qed
qed

text \<open>C17: A poll is all or nothing. Whatever the other sessions commit meanwhile, a poll that raises
  leaves no row of its own behind except the instance's; one that returns has added exactly
  \<open>created\<close> file rows of distinct episode files, none known before, each with one pending job,
  and each of them has a mapped and watched path, a hash of some content, and comes from one of the
  history records newer than the watermark.\<close>

theorem poll_all_or_nothing:
  assumes "others_keep I (di_env d)" "I (w_db (with_instance d w))" "poll_once d w = Some (x, w')"
  shows "\<exists>rs. (sound_codec (di_codec d) \<longrightarrow>
        (\<forall>r \<in> set rs. (case in_history_watermark (the_instance d w) of None \<Rightarrow> 0 | Some v \<Rightarrow> v) < hr_id r)) \<and>
      batch_result I d (in_id (the_instance d w)) (from_record rs) (x, w')"
  by (rule poll_all [OF assms])

lemma backfill_step_result:
  assumes "others_keep I (di_env d)" "I (w_db (with_instance d w))" "backfill_step d batch reset sid w = (x, w')"
  shows "batch_result I d (in_id (the_instance d w)) from_library (x, w')"
proof -
  obtain i w1 where i: "get_or_create_instance d w = (i, w1)" by (cases "get_or_create_instance d w")
  obtain y w2 where g: "get_all_series (di_env d) (di_codec d) (di_client d) w1 = (y, w2)"
    by (cases "get_all_series (di_env d) (di_codec d) (di_client d) w1")
  have I2: "I (w_db w2)" using get_kept(4) [OF assms(1) g] assms(2) i by (simp add: kept_def)
  show ?thesis
  proof (cases y)
    case (Inl e)
    with assms(3) i g I2 show ?thesis by (auto simp: backfill_step_def Let_def)
  next
    case (Inr ses)
    with assms(3) i g obtain ss sa where "backfill_batch d (in_id i) batch ss sa (series_from ss (sort_key se_id ses)) w2 = (x, w')"
      by (simp add: backfill_step_def Let_def)
    from backfill_batch_result [OF assms(1) I2 this] i show ?thesis by simp
  qed
qed

text \<open>Discovery keeps the tables well formed: whatever the other sessions do within the same
  invariant, after a poll or a backfill step, returned or raised, keys are unique, every job's file
  exists, and no instance has two rows for one episode file.\<close>

theorem discovery_keeps_inv:
  assumes "others_keep discovery_inv (di_env d)" "discovery_inv (w_db w)"
    and "xw = backfill_step d batch reset sid w \<or> poll_once d w = Some xw"
  shows "discovery_inv (w_db (snd xw))"
proof -
  obtain i w1 where "get_or_create_instance d w = (i, w1)" by (cases "get_or_create_instance d w")
  with instance_inv [OF this assms(2)] have i: "discovery_inv (w_db (with_instance d w))" by simp
  obtain x w' where xw: "xw = (x, w')" by (cases xw)
  from assms(3) have "\<exists>Q. batch_result discovery_inv d (in_id (the_instance d w)) Q (x, w')"
  proof
    assume "xw = backfill_step d batch reset sid w"
    with xw backfill_step_result [OF assms(1) i, of batch reset sid x w'] show ?thesis by auto
  next
    assume "poll_once d w = Some xw"
    with xw poll_all [OF assms(1) i, of x w'] show ?thesis by auto
  qed
  with batch_result_inv xw show ?thesis by auto
qed

section \<open>Path mapping\<close>

definition mapping_matches :: "path \<Rightarrow> path_mapping \<Rightarrow> bool" where
  "mapping_matches sp m \<longleftrightarrow> is_relative_to sp (mk_path (pm_sonarr m))"

abbreviation prefix_length :: "path_mapping \<Rightarrow> nat" where
  "prefix_length m \<equiv> path_length (mk_path (pm_sonarr m))"

lemma is_relative_to_refl [simp]: "is_relative_to p p"
  by (simp add: is_relative_to_def)

lemma better_mapping_alt:
  "better_mapping sp m best =
     (if mapping_matches sp m \<and> (case best of None \<Rightarrow> True | Some b \<Rightarrow> prefix_length m > prefix_length b)
      then Some m else best)"
  by (auto simp: better_mapping_def mapping_matches_def Let_def)

definition best_of :: "path \<Rightarrow> path_mapping list \<Rightarrow> path_mapping option \<Rightarrow> bool" where
  "best_of sp ms r \<longleftrightarrow>
     (case r of None \<Rightarrow> \<forall>m \<in> set ms. \<not> mapping_matches sp m
      | Some b \<Rightarrow> b \<in> set ms \<and> mapping_matches sp b \<and>
          (\<forall>m \<in> set ms. mapping_matches sp m \<longrightarrow> prefix_length m \<le> prefix_length b))"

lemma best_of_step: "best_of sp ms r \<Longrightarrow> best_of sp (ms @ [m]) (better_mapping sp m r)"
  unfolding best_of_def better_mapping_alt by (auto split: option.splits if_splits)

lemma best_of_fold: "best_of sp ms r \<Longrightarrow> best_of sp (ms @ ns) (fold (better_mapping sp) ns r)"
proof (induction ns arbitrary: ms r)
  case (Cons n ns)
  from Cons.IH [OF best_of_step [OF Cons.prems]] show ?case by simp
qed simp

lemma best_mapping: "best_of sp ms (fold (better_mapping sp) ms None)"
  using best_of_fold [of sp "[]" None ms] by (simp add: best_of_def)

text \<open>Path translation never fails: a path under no mapping's Sonarr prefix has no local path,
  and any other goes through a matching mapping whose prefix has the most parts, keeping what follows
  the prefix: the prefix joined with that remainder is the Sonarr path, the local root joined with it
  the local one.\<close>

theorem map_local_path_longest:
  "case map_local_path d p of
     Inl e \<Rightarrow> False
   | Inr None \<Rightarrow> list_all (\<lambda>m. \<not> is_relative_to (mk_path p) (mk_path (pm_sonarr m))) (si_path_mappings (di_cfg d))
   | Inr (Some lp) \<Rightarrow> \<exists>m \<in> set (si_path_mappings (di_cfg d)). \<exists>rest.
       path_join (mk_path (pm_sonarr m)) rest = mk_path p \<and> lp = path_join (mk_path (pm_local m)) rest \<and>
       list_all (\<lambda>m'. path_length (mk_path (pm_sonarr m')) \<le> path_length (mk_path (pm_sonarr m)))
         (filter (\<lambda>m'. is_relative_to (mk_path p) (mk_path (pm_sonarr m'))) (si_path_mappings (di_cfg d)))"
proof -
  let ?ms = "si_path_mappings (di_cfg d)" and ?sp = "mk_path p"
  note b = best_mapping [of ?sp ?ms]
  show ?thesis
  proof (cases "fold (better_mapping ?sp) ?ms None")
    case None
    with b show ?thesis by (simp add: map_local_path_def best_of_def mapping_matches_def list_all_iff Let_def)
  next
    case (Some m)
    with b have m: "m \<in> set ?ms" "is_relative_to ?sp (mk_path (pm_sonarr m))"
      "\<forall>m' \<in> set ?ms. mapping_matches ?sp m' \<longrightarrow> prefix_length m' \<le> prefix_length m"
      by (simp_all add: best_of_def mapping_matches_def)
    then obtain rest where r: "relative_to ?sp (mk_path (pm_sonarr m)) = Inr rest" by (simp add: relative_to_def)
    have l: "list_all (\<lambda>m'. prefix_length m' \<le> prefix_length m)
        (filter (\<lambda>m'. is_relative_to ?sp (mk_path (pm_sonarr m'))) ?ms)"
      using m(3) by (simp add: list_all_iff mapping_matches_def)
    show ?thesis using Some r m(1) relative_to_join [OF r] l
      by (auto simp: map_local_path_def Let_def)
  qed
qed

lemma map_local_path_total: "\<exists>r. map_local_path d p = Inr r"
proof (cases "fold (better_mapping (mk_path p)) (si_path_mappings (di_cfg d)) None")
  case None
  then show ?thesis by (simp add: map_local_path_def Let_def)
next
  case (Some m)
  with best_mapping [of "mk_path p" "si_path_mappings (di_cfg d)"] have "is_relative_to (mk_path p) (mk_path (pm_sonarr m))"
    by (simp add: best_of_def mapping_matches_def)
  with Some show ?thesis by (simp add: map_local_path_def relative_to_def Let_def)
qed

section \<open>Episode ids of a file\<close>

definition ids_of_file :: "episode list \<Rightarrow> int \<Rightarrow> int list" where
  "ids_of_file es fid = map ep_id (filter (\<lambda>e. ep_has_file e \<and> ep_episode_file_id e = fid) es)"

lemma group_episodes_fold:
  "map_of (fold (\<lambda>e m. if ep_has_file e then dict_append (ep_episode_file_id e) (ep_id e) m else m) es m) fid =
     (if ids_of_file es fid = [] then map_of m fid
      else Some ((case map_of m fid of None \<Rightarrow> [] | Some x \<Rightarrow> x) @ ids_of_file es fid))"
proof (induction es arbitrary: m)
  case (Cons e es)
  show ?case
  proof (cases "ep_has_file e")
    case True
    then show ?thesis by (simp add: Cons.IH dict_append_lookup) (simp add: ids_of_file_def)
  next
    case False
    then show ?thesis by (simp add: Cons.IH) (simp add: ids_of_file_def)
  qed
qed (simp add: ids_of_file_def)

lemma group_episodes_lookup:
  "(case map_of (group_episodes es) fid of None \<Rightarrow> [] | Some x \<Rightarrow> x) = ids_of_file es fid"
  unfolding group_episodes_def group_episodes_fold by simp

section \<open>What a backfill step does to a library that holds still\<close>

text \<open>A file is captured when it is new, mapped, watched and on disk.\<close>

definition capturable :: "disc \<Rightarrow> int \<Rightarrow> world \<Rightarrow> file_row list \<Rightarrow> episode_file \<Rightarrow> bool" where
  "capturable d inst w staged ef \<longleftrightarrow>
     \<not> has_key inst (ef_id ef) (db_files (w_db w) @ staged) \<and>
     (case map_local_path d (ef_path ef) of
        Inr (Some lp) \<Rightarrow> watch_dirs_allowed d lp \<and> w_fs w (path_str lp) \<noteq> None
      | _ \<Rightarrow> False)"

definition row_of :: "disc \<Rightarrow> int \<Rightarrow> world \<Rightarrow> capture \<Rightarrow> int list \<Rightarrow> file_row" where
  "row_of d inst w c ids =
     (case map_local_path d (ef_path (cp_file c)) of
        Inr (Some lp) \<Rightarrow>
          captured_file inst c (path_str lp)
            (di_xxh64 d (digest_input (case w_fs w (path_str lp) of None \<Rightarrow> [] | Some x \<Rightarrow> di_bytes d x))) ids
      | _ \<Rightarrow> captured_file inst c [] [] ids)"

text \<open>The reference: the rows a list of files adds, in order.\<close>

definition add_row ::
  "disc \<Rightarrow> int \<Rightarrow> world \<Rightarrow> (int \<Rightarrow> episode list) \<Rightarrow> int \<times> episode_file \<Rightarrow> file_row list \<Rightarrow> file_row list" where
  "add_row d inst w eps x staged =
     (if capturable d inst w staged (snd x)
      then staged @ [row_of d inst w (backfill_capture (fst x) (snd x)) (ids_of_file (eps (fst x)) (ef_id (snd x)))]
      else staged)"

text \<open>Two states with the same database and disk are alike.\<close>

definition alike :: "world \<Rightarrow> world \<Rightarrow> bool" where
  "alike w w' \<longleftrightarrow> w_db w' = w_db w \<and> w_fs w' = w_fs w"

lemma alike_refl [simp]: "alike w w"
  by (simp add: alike_def)

lemma alike_trans: "alike w w' \<Longrightarrow> alike w' w'' \<Longrightarrow> alike w w''"
  by (simp add: alike_def)

lemma add_row_alike:
  assumes "alike w w'"
  shows "add_row d inst w' eps = add_row d inst w eps"
proof -
  have e: "w_db w' = w_db w" "w_fs w' = w_fs w" using assms by (simp_all add: alike_def)
  show ?thesis unfolding add_row_def capturable_def row_of_def e ..
qed

lemma calm_fault: "calm env \<Longrightarrow> en_fault env tr op = None"
  by (simp add: calm_def)

lemma calm_exists: "calm env \<Longrightarrow> path_exists env p w = Inr (w_fs w p \<noteq> None)"
  by (simp add: path_exists_def calm_fault)

lemma calm_hash:
  assumes "calm (di_env d)" "w_fs w p = Some x"
  shows "\<exists>w'. hash_file d p w = (Inr (di_xxh64 d (digest_input (di_bytes d x))), w') \<and> alike w w'"
  using assms by (simp add: hash_file_def os_call_def calm_fault alike_def)

lemma ask_calm_alike:
  assumes "calm env" "answers env f"
  shows "\<exists>w'. ask env c rq w = (Inr (f rq), w') \<and> alike w w'"
  using ask_calm [OF assms] by (simp add: alike_def)

text \<open>The effect of handling \<open>xs\<close> on a batch.\<close>

definition handled ::
  "disc \<Rightarrow> int \<Rightarrow> (int \<Rightarrow> episode list) \<Rightarrow> (int \<times> episode_file) list \<Rightarrow> dstate \<Rightarrow> dstate \<Rightarrow> bool" where
  "handled d inst eps xs s s' \<longleftrightarrow> alike (ds_world s) (ds_world s') \<and>
     ds_files s' = fold (add_row d inst (ds_world s) eps) xs (ds_files s) \<and>
     ds_created s' - int (length (ds_files s')) = ds_created s - int (length (ds_files s)) \<and>
     ds_skipped s' = ds_skipped s \<and> ds_processed s' = ds_processed s + int (length xs) \<and>
     ds_cursor s' = (if xs = [] then ds_cursor s else Some (fst (last xs), ef_id (snd (last xs))))"

lemma handled_nil: "alike (ds_world s) w' \<Longrightarrow> handled d inst eps [] s (s\<lparr>ds_world := w'\<rparr>)"
  by (simp add: handled_def)

lemma handled_refl [simp]: "handled d inst eps [] s s"
  by (simp add: handled_def)

lemma handled_trans:
  assumes "handled d inst eps xs s s1" "handled d inst eps ys s1 s2"
  shows "handled d inst eps (xs @ ys) s s2"
proof -
  have "add_row d inst (ds_world s1) eps = add_row d inst (ds_world s) eps"
    using assms(1) by (intro add_row_alike) (simp add: handled_def)
  with assms show ?thesis by (auto simp: handled_def intro: alike_trans)
qed

lemma capture_calm:
  assumes "calm (di_env d)"
  shows "\<exists>b s1. capture_file d inst (backfill_capture sid ef)
        (\<lambda>t. (Inr (ids_of_file (eps sid) (ef_id ef)), t)) (s\<lparr>ds_processed := ds_processed s + 1\<rparr>) = (Inr (b, False), s1) \<and>
      handled d inst eps [(sid, ef)] s ((count_capture (b, False) s1)\<lparr>ds_cursor := Some (sid, ef_id ef)\<rparr>)"
proof -
  let ?c = "backfill_capture sid ef" and ?s = "s\<lparr>ds_processed := ds_processed s + 1\<rparr>"
  let ?ids = "ids_of_file (eps sid) (ef_id ef)"
  have cf: "cp_file ?c = ef" by (simp add: backfill_capture_def)
  show ?thesis
  proof (cases "capturable d inst (ds_world s) (ds_files s) ef")
    case False
    have "capture_file d inst ?c (\<lambda>t. (Inr ?ids, t)) ?s = (Inr (False, False), ?s)"
      using False map_local_path_total [of d "ef_path ef"]
      by (auto simp: capture_file_def cf capturable_def file_exists_def calm_exists [OF assms] split: option.splits)
    moreover have "handled d inst eps [(sid, ef)] s ((count_capture (False, False) ?s)\<lparr>ds_cursor := Some (sid, ef_id ef)\<rparr>)"
      using False by (simp add: handled_def add_row_def count_capture_def)
    ultimately show ?thesis by blast
  next
    case True
    then obtain lp where lp: "map_local_path d (ef_path ef) = Inr (Some lp)" "watch_dirs_allowed d lp"
      "w_fs (ds_world s) (path_str lp) \<noteq> None" and new: "\<not> file_exists inst (ef_id ef) s"
      by (auto simp: capturable_def file_exists_def split: sum.splits option.splits)
    then obtain x where x: "w_fs (ds_world s) (path_str lp) = Some x" by blast
    obtain w' where h: "hash_file d (path_str lp) (ds_world s) = (Inr (di_xxh64 d (digest_input (di_bytes d x))), w')"
      "alike (ds_world s) w'" using calm_hash [OF assms x] by blast
    let ?row = "captured_file inst ?c (path_str lp) (di_xxh64 d (digest_input (di_bytes d x))) ?ids"
    have row: "row_of d inst (ds_world s) ?c ?ids = ?row" by (simp add: row_of_def cf lp x)
    have key: "f_instance_id ?row = inst" "f_episode_file_id ?row = ef_id ef" by (simp_all add: captured_file_def cf)
    have new': "\<not> file_exists inst (ef_id ef) ?s" "\<not> file_exists inst (ef_id ef) (?s\<lparr>ds_world := w'\<rparr>)"
      using new h(2) by (simp_all add: file_exists_def alike_def)
    have st: "stage_file ?row (?s\<lparr>ds_world := w'\<rparr>) = (Inr (True, False), ?s\<lparr>ds_world := w', ds_files := ds_files s @ [?row]\<rparr>)"
      unfolding stage_file_def key using new'(2) by simp
    have "capture_file d inst ?c (\<lambda>t. (Inr ?ids, t)) ?s = (Inr (True, False), ?s\<lparr>ds_world := w', ds_files := ds_files s @ [?row]\<rparr>)"
      using new'(1) lp x h(1) st by (simp add: capture_file_def cf calm_exists [OF assms])
    moreover have "handled d inst eps [(sid, ef)] s
        ((count_capture (True, False) (?s\<lparr>ds_world := w', ds_files := ds_files s @ [?row]\<rparr>))\<lparr>ds_cursor := Some (sid, ef_id ef)\<rparr>)"
      using True h(2) row by (simp add: handled_def add_row_def count_capture_def)
    ultimately show ?thesis by blast
  qed
qed

lemma backfill_files_calm:
  assumes "calm (di_env d)" "\<And>fid. (case map_of ids fid of None \<Rightarrow> [] | Some x \<Rightarrow> x) = ids_of_file (eps sid) fid"
  shows "\<exists>s'. backfill_files d inst batch sid ids efs s = (Inr (length efs \<le> nat (batch - ds_processed s)), s') \<and>
    handled d inst eps (map (Pair sid) (take (nat (batch - ds_processed s)) efs)) s s'"
proof (induction efs arbitrary: s)
  case (Cons ef efs)
  show ?case
  proof (cases "ds_processed s \<ge> batch")
    case False
    obtain b s1 where c: "capture_file d inst (backfill_capture sid ef)
        (\<lambda>t. (Inr (ids_of_file (eps sid) (ef_id ef)), t)) (s\<lparr>ds_processed := ds_processed s + 1\<rparr>) = (Inr (b, False), s1)"
      "handled d inst eps [(sid, ef)] s ((count_capture (b, False) s1)\<lparr>ds_cursor := Some (sid, ef_id ef)\<rparr>)"
      using capture_calm [OF assms(1)] by blast
    let ?s2 = "(count_capture (b, False) s1)\<lparr>ds_cursor := Some (sid, ef_id ef)\<rparr>"
    have p: "ds_processed ?s2 = ds_processed s + 1" using c(2) by (simp add: handled_def)
    have n: "nat (batch - ds_processed s) = Suc (nat (batch - ds_processed ?s2))" using False p by linarith
    obtain s' where s': "backfill_files d inst batch sid ids efs ?s2 = (Inr (length efs \<le> nat (batch - ds_processed ?s2)), s')"
      "handled d inst eps (map (Pair sid) (take (nat (batch - ds_processed ?s2)) efs)) ?s2 s'"
      using Cons.IH by blast
    have "backfill_files d inst batch sid ids (ef # efs) s = (Inr (length efs \<le> nat (batch - ds_processed ?s2)), s')"
      using False c(1) s'(1) by (simp add: assms(2))
    with handled_trans [OF c(2) s'(2)] n show ?thesis by auto
  qed auto
qed auto

text \<open>The library as the peer shows it.\<close>

record library =
  lb_series :: "series list"
  lb_files :: "int \<Rightarrow> episode_file list"
  lb_episodes :: "int \<Rightarrow> episode list"

definition shows_library :: "codec \<Rightarrow> (request \<Rightarrow> json) \<Rightarrow> library \<Rightarrow> bool" where
  "shows_library cd f lb \<longleftrightarrow>
     decode_all (cd_series cd) (f (GET_of ''/series'' [])) = Inr (lb_series lb) \<and>
     (\<forall>i \<in> se_id ` set (lb_series lb).
        decode_all (cd_episode_file cd) (f (GET_of ''/episodefile'' [(''seriesId'', JInt i)])) = Inr (lb_files lb i) \<and>
        decode_all (cd_episode cd) (f (GET_of ''/episode'' [(''seriesId'', JInt i)])) = Inr (lb_episodes lb i))"

text \<open>The files of the library from a cursor on, in the order of the walk.\<close>

definition walk_of :: "library \<Rightarrow> int option \<Rightarrow> int option \<Rightarrow> series list \<Rightarrow> (int \<times> episode_file) list" where
  "walk_of lb ss sa ses =
     concat (map (\<lambda>se. map (Pair (se_id se)) (after_cursor ss sa (se_id se) (sort_key ef_id (lb_files lb (se_id se))))) ses)"

definition todo :: "library \<Rightarrow> int option \<Rightarrow> int option \<Rightarrow> (int \<times> episode_file) list" where
  "todo lb ss sa = walk_of lb ss sa (series_from ss (sort_key se_id (lb_series lb)))"

lemma episode_ids_calm:
  assumes "calm (di_env d)" "answers (di_env d) f" "shows_library (di_codec d) f lb" "i \<in> se_id ` set (lb_series lb)"
  shows "\<exists>w'. episode_ids_by_file d i w = (Inr (group_episodes (lb_episodes lb i)), w') \<and> alike w w'"
    and "\<exists>w'. get_episode_files (di_env d) (di_codec d) (di_client d) i w = (Inr (lb_files lb i), w') \<and> alike w w'"
proof -
  have "decode_all (cd_episode (di_codec d)) (f (GET_of ''/episode'' [(''seriesId'', JInt i)])) = Inr (lb_episodes lb i)"
    "decode_all (cd_episode_file (di_codec d)) (f (GET_of ''/episodefile'' [(''seriesId'', JInt i)])) = Inr (lb_files lb i)"
    using assms(3,4) by (auto simp: shows_library_def)
  then show "\<exists>w'. episode_ids_by_file d i w = (Inr (group_episodes (lb_episodes lb i)), w') \<and> alike w w'"
    "\<exists>w'. get_episode_files (di_env d) (di_codec d) (di_client d) i w = (Inr (lb_files lb i), w') \<and> alike w w'"
    by (simp_all add: episode_ids_by_file_def get_episodes_def get_episode_files_def then_decode_def alike_def
        ask_calm [OF assms(1,2)])
qed

lemma backfill_series_calm:
  assumes "calm (di_env d)" "answers (di_env d) f" "shows_library (di_codec d) f lb"
  shows "set ses \<subseteq> set (lb_series lb) \<Longrightarrow>
    \<exists>fin s'. backfill_series d inst batch ss sa ses s = (Inr fin, s') \<and>
      handled d inst (lb_episodes lb) (take (nat (batch - ds_processed s)) (walk_of lb ss sa ses)) s s' \<and>
      (if fin then length (walk_of lb ss sa ses) \<le> nat (batch - ds_processed s) else ds_processed s' \<ge> batch)"
proof (induction ses arbitrary: s)
  case Nil
  show ?case by (rule exI [of _ True], rule exI [of _ s]) (simp add: walk_of_def)
next
  case (Cons se ses)
  show ?case
  proof (cases "ds_processed s \<ge> batch")
    case True
    then show ?thesis by (intro exI [of _ False] exI [of _ s]) simp
  next
    case False
    have mem: "se_id se \<in> se_id ` set (lb_series lb)" using Cons.prems by auto
    obtain w1 where e: "episode_ids_by_file d (se_id se) (ds_world s) = (Inr (group_episodes (lb_episodes lb (se_id se))), w1)"
      "alike (ds_world s) w1" using episode_ids_calm(1) [OF assms mem] by blast
    obtain w2 where g: "get_episode_files (di_env d) (di_codec d) (di_client d) (se_id se) w1 = (Inr (lb_files lb (se_id se)), w2)"
      "alike w1 w2" using episode_ids_calm(2) [OF assms mem] by blast
    let ?efs = "after_cursor ss sa (se_id se) (sort_key ef_id (lb_files lb (se_id se)))"
    let ?k = "nat (batch - ds_processed s)" and ?s2 = "s\<lparr>ds_world := w2\<rparr>"
    obtain s3 where b: "backfill_files d inst batch (se_id se) (group_episodes (lb_episodes lb (se_id se))) ?efs ?s2 =
        (Inr (length ?efs \<le> ?k), s3)" "handled d inst (lb_episodes lb) (map (Pair (se_id se)) (take ?k ?efs)) ?s2 s3"
      using backfill_files_calm [of d "group_episodes (lb_episodes lb (se_id se))" "lb_episodes lb" "se_id se" inst batch ?efs ?s2,
          OF assms(1) group_episodes_lookup] by auto
    have h3: "handled d inst (lb_episodes lb) (map (Pair (se_id se)) (take ?k ?efs)) s s3"
      using handled_trans [OF handled_nil b(2)] alike_trans [OF e(2) g(2)] by simp
    let ?w1 = "map (Pair (se_id se)) ?efs" and ?w2 = "walk_of lb ss sa ses"
    have w: "walk_of lb ss sa (se # ses) = ?w1 @ ?w2" by (simp add: walk_of_def)
    show ?thesis
    proof (cases "length ?efs \<le> ?k")
      case True
      have p3: "nat (batch - ds_processed s3) = ?k - length ?efs"
        using h3 True False by (simp add: handled_def)
      obtain fin s' where r: "backfill_series d inst batch ss sa ses s3 = (Inr fin, s')"
        "handled d inst (lb_episodes lb) (take (nat (batch - ds_processed s3)) ?w2) s3 s'"
        "if fin then length ?w2 \<le> nat (batch - ds_processed s3) else ds_processed s' \<ge> batch"
        using Cons.IH [of s3] Cons.prems by auto
      have "backfill_series d inst batch ss sa (se # ses) s = (Inr fin, s')"
        using False e(1) g(1) b(1) True r(1) by simp
      moreover have "handled d inst (lb_episodes lb) (take ?k (?w1 @ ?w2)) s s'"
        using handled_trans [OF h3 r(2)] True p3 by simp
      moreover have "if fin then length (?w1 @ ?w2) \<le> ?k else ds_processed s' \<ge> batch"
        using r(3) True p3 by auto
      ultimately show ?thesis unfolding w by blast
    next
      case F: False
      have "backfill_series d inst batch ss sa (se # ses) s = (Inr False, s3)"
        using False e(1) g(1) b(1) F by simp
      moreover have "handled d inst (lb_episodes lb) (take ?k (?w1 @ ?w2)) s s3"
        using h3 F by (simp add: take_map)
      moreover have "ds_processed s3 \<ge> batch" using h3 F False by (simp add: handled_def)
      ultimately have "backfill_series d inst batch ss sa (se # ses) s = (Inr False, s3) \<and>
          handled d inst (lb_episodes lb) (take ?k (?w1 @ ?w2)) s s3 \<and> ds_processed s3 \<ge> batch" by blast
      then show ?thesis unfolding w by (intro exI [of _ False] exI [of _ s3]) simp
    qed
  qed
qed

lemma strip_row [simp]: "strip_id (row_of d inst w c ids) = row_of d inst w c ids"
  by (auto simp: row_of_def strip_id_def captured_file_def split: sum.splits option.splits)

lemma add_rows_strip: "map strip_id staged = staged \<Longrightarrow> map strip_id (fold (add_row d inst w eps) xs staged) = fold (add_row d inst w eps) xs staged"
proof (induction xs arbitrary: staged)
  case (Cons x xs)
  have "map strip_id (add_row d inst w eps x staged) = add_row d inst w eps x staged"
    using Cons.prems by (simp add: add_row_def)
  from Cons.IH [OF this] show ?case by simp
qed simp

lemma add_rows_new:
  "\<forall>f \<in> set staged. \<not> has_key (f_instance_id f) (f_episode_file_id f) (db_files (w_db w)) \<Longrightarrow>
   f \<in> set (fold (add_row d inst w eps) xs staged) \<Longrightarrow> \<not> has_key (f_instance_id f) (f_episode_file_id f) (db_files (w_db w))"
proof (induction xs arbitrary: staged)
  case (Cons x xs)
  have "\<forall>f \<in> set (add_row d inst w eps x staged). \<not> has_key (f_instance_id f) (f_episode_file_id f) (db_files (w_db w))"
    using Cons.prems(1)
    by (auto simp: add_row_def capturable_def row_of_def captured_file_def backfill_capture_def has_key_def split: sum.splits option.splits)
  from Cons.IH [OF this] Cons.prems(2) show ?case by simp
qed simp

definition start_series :: "bool \<Rightarrow> int option \<Rightarrow> (int \<times> int) option \<Rightarrow> int option" where
  "start_series reset sid cur =
     (case sid of Some s \<Rightarrow> Some s | None \<Rightarrow> map_option fst (if reset then None else cur))"

definition start_after :: "bool \<Rightarrow> int option \<Rightarrow> (int \<times> int) option \<Rightarrow> int option" where
  "start_after reset sid cur =
     (case sid of Some _ \<Rightarrow> None | None \<Rightarrow> map_option snd (if reset then None else cur))"

definition cursor_at :: "int \<times> episode_file \<Rightarrow> int \<times> int" where
  "cursor_at x = (fst x, ef_id (snd x))"

text \<open>What a step leaves as the cursor after handling \<open>xs\<close> of the list \<open>all\<close>.\<close>

definition cursor_ok :: "nat \<Rightarrow> (int \<times> episode_file) list \<Rightarrow> (int \<times> int) option \<Rightarrow> bool" where
  "cursor_ok n all cur \<longleftrightarrow>
     (case cur of None \<Rightarrow> length all \<le> n | Some c \<Rightarrow> n \<le> length all \<and> c = cursor_at (last (take n all)))"

lemma backfill_series_end:
  assumes "calm (di_env d)" "answers (di_env d) f" "shows_library (di_codec d) f lb" "0 < batch"
    and "set ses \<subseteq> set (lb_series lb)"
  shows "\<exists>fin s'. backfill_series d inst batch ss sa ses (begin_batch w) = (Inr fin, s') \<and> alike w (ds_world s') \<and>
      ds_files s' = fold (add_row d inst w (lb_episodes lb)) (take (nat batch) (walk_of lb ss sa ses)) [] \<and>
      ds_created s' = int (length (ds_files s')) \<and> ds_skipped s' = 0 \<and>
      cursor_ok (nat batch) (walk_of lb ss sa ses) (if fin then None else ds_cursor s')"
proof -
  have bp: "nat (batch - ds_processed (begin_batch w)) = nat batch" by (simp add: begin_batch_def)
  obtain fin s' where r: "backfill_series d inst batch ss sa ses (begin_batch w) = (Inr fin, s')"
    "handled d inst (lb_episodes lb) (take (nat batch) (walk_of lb ss sa ses)) (begin_batch w) s'"
    "if fin then length (walk_of lb ss sa ses) \<le> nat batch else ds_processed s' \<ge> batch"
    using backfill_series_calm [OF assms(1-3,5), where batch = batch and s = "begin_batch w" and inst = inst and ss = ss and sa = sa]
    unfolding bp by blast
  let ?T = "walk_of lb ss sa ses"
  have c: "cursor_ok (nat batch) ?T (if fin then None else ds_cursor s')"
  proof (cases fin)
    case True
    with r(3) show ?thesis by (simp add: cursor_ok_def)
  next
    case False
    have "int (length (take (nat batch) ?T)) = ds_processed s'" using r(2) by (simp add: handled_def begin_batch_def)
    with r(3) False assms(4) have l: "nat batch \<le> length ?T" by (auto simp: min_def split: if_splits)
    with assms(4) have "take (nat batch) ?T \<noteq> []" by auto
    with r(2) False l show ?thesis by (simp add: handled_def cursor_ok_def cursor_at_def)
  qed
  show ?thesis using r(1,2) c by (auto simp: handled_def begin_batch_def)
qed

lemma instance_row:
  assumes "get_or_create_instance d w = (i, w1)" "distinct (map in_id (db_instances (w_db w)))"
  shows "get_row in_id (in_id i) (db_instances (w_db w1)) = Some i" "alike w w1 \<or> w_db w1 = (w_db w)\<lparr>db_instances := db_instances (w_db w) @ [i]\<rparr>"
proof -
  have "i \<in> set (db_instances (w_db w1)) \<and> distinct (map in_id (db_instances (w_db w1)))"
    using assms fresh_id_notin [of "map in_id (db_instances (w_db w))"]
    by (auto simp: get_or_create_instance_def Let_def new_instance_def split: option.splits dest: find_Some_mem)
  then show "get_row in_id (in_id i) (db_instances (w_db w1)) = Some i" by (intro get_row_unique) auto
  show "alike w w1 \<or> w_db w1 = (w_db w)\<lparr>db_instances := db_instances (w_db w) @ [i]\<rparr>"
    using assms(1) by (auto simp: get_or_create_instance_def Let_def split: option.splits)
qed

lemma set_series_from: "set (series_from ss ses) \<subseteq> set ses"
  by (auto simp: series_from_def dest: set_dropWhileD split: option.splits)

text \<open>The commit of a finished walk.\<close>

lemma walk_commits:
  assumes "get_row in_id inst (db_instances (w_db (ds_world s))) = Some i"
    and "\<not> list_ex (\<lambda>f. has_key (f_instance_id f) (f_episode_file_id f) (db_files (w_db (ds_world s)))) (ds_files s)"
    and "map strip_id (ds_files s) = ds_files s"
  shows "\<exists>w' rows. commit_batch d inst (\<lambda>now row. set_cursor (in_backfill_cursor i) cur (row\<lparr>in_last_backfilled_at := Some now\<rparr>)) s =
      (Inr \<lparr>dr_created = ds_created s, dr_skipped = ds_skipped s\<rparr>, w') \<and>
    db_files (w_db w') = db_files (w_db (ds_world s)) @ rows \<and> map strip_id rows = ds_files s \<and>
    map_option in_backfill_cursor (get_row in_id inst (db_instances (w_db w'))) = Some cur"
proof -
  let ?w = "ds_world s" let ?now = "now_of (di_env d) ?w"
  obtain rows js where fi: "fold (insert_captured ?now) (ds_files s) (w_db ?w) =
       (w_db ?w)\<lparr>db_files := db_files (w_db ?w) @ rows, db_jobs := db_jobs (w_db ?w) @ js\<rparr>"
     "map strip_id rows = map strip_id (ds_files s)"
    using fold_insert by blast
  show ?thesis
    using assms fi get_row_Some [OF assms(1)] by (auto simp: commit_batch_def Let_def get_row_update set_cursor_def)
qed


section \<open>Steps compose\<close>

text \<open>The walk's order, and the files after a start.\<close>

definition walk_less :: "int \<times> episode_file \<Rightarrow> int \<times> episode_file \<Rightarrow> bool" where
  "walk_less x y \<longleftrightarrow> fst x < fst y \<or> (fst x = fst y \<and> ef_id (snd x) < ef_id (snd y))"

definition from_start :: "int option \<Rightarrow> int option \<Rightarrow> int \<times> episode_file \<Rightarrow> bool" where
  "from_start ss sa x \<longleftrightarrow>
     (case ss of None \<Rightarrow> True
      | Some s \<Rightarrow> (case sa of None \<Rightarrow> s \<le> fst x | Some a \<Rightarrow> s < fst x \<or> (s = fst x \<and> a < ef_id (snd x))))"

definition whole_walk :: "library \<Rightarrow> (int \<times> episode_file) list" where
  "whole_walk lb = walk_of lb None None (sort_key se_id (lb_series lb))"

lemma dropWhile_sorted: "sorted (map se_id ses) \<Longrightarrow> dropWhile (\<lambda>se. se_id se < s) ses = filter (\<lambda>se. s \<le> se_id se) ses"
proof (induction ses)
  case (Cons x xs)
  show ?case
  proof (cases "se_id x < s")
    case False
    with Cons.prems have "filter (\<lambda>se. s \<le> se_id se) xs = xs" by (auto simp: filter_id_conv)
    with False show ?thesis by simp
  qed (use Cons in simp)
qed simp

lemma walk_filter:
  assumes "sorted (map se_id ses)"
  shows "walk_of lb ss sa (series_from ss ses) = filter (from_start ss sa) (walk_of lb None None ses)"
proof -
  have one: "filter (from_start ss sa) (map (Pair (se_id se)) (sort_key ef_id (lb_files lb (se_id se)))) =
      (if (case ss of None \<Rightarrow> True | Some s \<Rightarrow> s \<le> se_id se)
       then map (Pair (se_id se)) (after_cursor ss sa (se_id se) (sort_key ef_id (lb_files lb (se_id se)))) else [])" for se
    by (auto simp: from_start_def after_cursor_def filter_map comp_def split: option.splits)
  have all: "walk_of lb ss sa (series_from ss ses) =
      concat (map (\<lambda>se. filter (from_start ss sa) (map (Pair (se_id se)) (sort_key ef_id (lb_files lb (se_id se))))) ses)"
  proof (cases ss)
    case None
    then show ?thesis unfolding one by (simp add: walk_of_def series_from_def)
  next
    case (Some s)
    have "concat (map (\<lambda>se. if s \<le> se_id se then g se else []) xs) = concat (map g (filter (\<lambda>se. s \<le> se_id se) xs))"
      for g :: "series \<Rightarrow> (int \<times> episode_file) list" and xs
      by (induction xs) auto
    then show ?thesis
      unfolding one using Some by (simp add: walk_of_def series_from_def dropWhile_sorted [OF assms])
  qed
  show ?thesis unfolding all
    by (simp add: walk_of_def after_cursor_def filter_concat comp_def map_concat)
qed

lemma todo_filter: "todo lb ss sa = filter (from_start ss sa) (whole_walk lb)"
  unfolding todo_def whole_walk_def by (rule walk_filter) simp

definition walk_distinct :: "library \<Rightarrow> bool" where
  "walk_distinct lb \<longleftrightarrow> distinct (map se_id (lb_series lb)) \<and>
     (\<forall>i. distinct (map ef_id (lb_files lb i)))"

lemma sorted_strict: "sorted (map k xs) \<Longrightarrow> distinct (map k xs) \<Longrightarrow> sorted_wrt (\<lambda>x y. (k x :: int) < k y) xs"
  by (induction xs) (auto simp: less_le)

lemma walk_sorted:
  assumes "\<forall>i. distinct (map ef_id (lb_files lb i))"
  shows "sorted_wrt (\<lambda>x y. se_id x < se_id y) ses \<Longrightarrow> sorted_wrt walk_less (walk_of lb None None ses)"
proof (induction ses)
  case (Cons se ses)
  have "sorted_wrt (\<lambda>x y. ef_id x < ef_id y) (sort_key ef_id (lb_files lb (se_id se)))"
    using assms by (intro sorted_strict) (auto simp: distinct_map)
  then have 1: "sorted_wrt walk_less (map (Pair (se_id se)) (sort_key ef_id (lb_files lb (se_id se))))"
    by (simp add: sorted_wrt_map walk_less_def)
  have 2: "sorted_wrt walk_less (walk_of lb None None ses)" using Cons by simp
  have "walk_less x y" if "x \<in> set (map (Pair (se_id se)) (sort_key ef_id (lb_files lb (se_id se))))"
      "y \<in> set (walk_of lb None None ses)" for x y
    using that Cons.prems by (auto simp: walk_of_def walk_less_def)
  with 1 2 show ?case by (auto simp: walk_of_def after_cursor_def sorted_wrt_append)
qed (simp add: walk_of_def)

lemma filter_after_take:
  assumes "sorted_wrt R xs" "\<And>x y. R x y \<Longrightarrow> \<not> R y x" "take n xs \<noteq> []"
  shows "filter (R (last (take n xs))) xs = drop n xs"
proof -
  let ?c = "last (take n xs)"
  obtain ys where ys: "take n xs = ys @ [?c]" using assms(3) by (metis append_butlast_last_id)
  have xs: "xs = (ys @ [?c]) @ drop n xs" using ys by (metis append_take_drop_id)
  with assms(1) have s: "sorted_wrt R ((ys @ [?c]) @ drop n xs)" by simp
  have "\<not> R ?c y" if "y \<in> set ys" for y using s that assms(2) by (auto simp: sorted_wrt_append)
  moreover have "\<not> R ?c ?c" using assms(2) by blast
  moreover have "R ?c z" if "z \<in> set (drop n xs)" for z using s that by (auto simp: sorted_wrt_append)
  ultimately have "filter (R ?c) ((ys @ [?c]) @ drop n xs) = drop n xs" by (simp add: filter_id_conv filter_False)
  with xs show ?thesis by simp
qed

text \<open>Backfill neither skips nor repeats a file: when Sonarr's ids are unique, what is left to do
  from the cursor one step leaves is exactly what was left before it, without the files it handled.\<close>

theorem backfill_resumes:
  assumes "walk_distinct lb" "cursor_ok n (todo lb ss sa) (Some c)" "0 < n"
  shows "todo lb (Some (fst c)) (Some (snd c)) = drop n (todo lb ss sa)"
proof -
  let ?T = "todo lb ss sa"
  have "sorted_wrt (\<lambda>x y. se_id x < se_id y) (sort_key se_id (lb_series lb))"
    using assms(1) by (intro sorted_strict) (auto simp: walk_distinct_def distinct_map)
  then have sw: "sorted_wrt walk_less (whole_walk lb)"
    unfolding whole_walk_def using assms(1) by (intro walk_sorted) (auto simp: walk_distinct_def)
  have sT: "sorted_wrt walk_less ?T" unfolding todo_filter by (rule sorted_wrt_filter [OF sw])
  have ne: "take n ?T \<noteq> []" using assms(2,3) by (auto simp: cursor_ok_def)
  let ?l = "last (take n ?T)"
  have c: "c = cursor_at ?l" using assms(2) by (simp add: cursor_ok_def)
  have l: "from_start ss sa ?l" using in_set_takeD [OF last_in_set [OF ne]] by (simp add: todo_filter)
  have fs: "from_start (Some (fst c)) (Some (snd c)) x = walk_less ?l x" for x
    by (auto simp: c cursor_at_def from_start_def walk_less_def)
  have "walk_less ?l x \<Longrightarrow> from_start ss sa x" for x
    using l by (auto simp: from_start_def walk_less_def split: option.splits)
  then have "filter (walk_less ?l) (whole_walk lb) = filter (walk_less ?l) ?T"
    unfolding todo_filter filter_filter by (metis (no_types, lifting) filter_cong)
  also have "\<dots> = drop n ?T"
    by (rule filter_after_take [OF sT _ ne]) (auto simp: walk_less_def)
  finally show ?thesis unfolding todo_filter [of lb "Some (fst c)"] fs .
qed

section \<open>A small library\<close>

definition shelf_codec :: codec where
  "shelf_codec =
     \<lparr>cd_history = (\<lambda>j. res_map (\<lambda>i. \<lparr>hr_id = i, hr_episode_id = 11, hr_series_id = 7, hr_source_title = None,
          hr_download_id = None, hr_date = 0, hr_quality = JNull, hr_languages = JNull,
          hr_data = [(''fileId'', JInt 5)]\<rparr>) (raw_id j)),
      cd_episode = (\<lambda>j. Inr \<lparr>ep_id = 11, ep_title = None, ep_season_number = 1, ep_episode_number = 1,
          ep_tvdb_id = None, ep_absolute_episode_number = None, ep_scene_season_number = None,
          ep_scene_episode_number = None, ep_scene_absolute_episode_number = None, ep_episode_file_id = 5,
          ep_has_file = True\<rparr>),
      cd_series = (\<lambda>j. Inr \<lparr>se_id = 7, se_title = [], se_tvdb_id = None, se_imdb_id = None,
          se_tmdb_id = None, se_title_slug = []\<rparr>),
      cd_episode_file = (\<lambda>j. Inr \<lparr>ef_id = 5, ef_series_id = 7, ef_path = ''/tv/a.mkv'', ef_size = 3,
          ef_quality = JNull, ef_languages = JNull\<rparr>),
      cd_import = (\<lambda>j. Inl ValidationError)\<rparr>"

definition shelf_answer :: "request \<Rightarrow> json" where
  "shelf_answer rq =
     (if rq_path rq = ''/history''
      then JObj [(''records'', if (''page'', JInt 1) \<in> set (rq_params rq) then JList [JObj [(''id'', JInt 3)]] else JList [])]
      else JList [JNull])"

definition shelf_env :: environ where
  "shelf_env = quiet_env (\<lambda>tr rq. HttpResponse 200 (shelf_answer rq) [])"

definition shelf :: disc where
  "shelf =
     \<lparr>di_cfg = \<lparr>si_name = ''main'', si_url = [], si_api_key = [],
          si_path_mappings = [\<lparr>pm_sonarr = ''/tv'', pm_local = ''/media''\<rparr>], si_staging_dir = [],
          si_watch_dirs = [], si_poll_interval_s = 60, si_auto_remap = False, si_auto_replace = False\<rparr>,
      di_env = shelf_env, di_codec = shelf_codec, di_client = default_client False,
      di_bytes = (\<lambda>_. ''abc''), di_xxh64 = (\<lambda>s. s)\<rparr>"

definition shelf_world :: world where
  "shelf_world = \<lparr>w_db = empty_db, w_fs = (\<lambda>p. if p = ''/media/a.mkv'' then Some 1 else None), w_trace = []\<rparr>"

lemma shelf_facts:
  "calm (di_env shelf)" "answers (di_env shelf) shelf_answer" "others_keep I (di_env shelf)"
  "sound_codec (di_codec shelf)" "pages_end (di_env shelf) 2" "discovery_inv (w_db shelf_world)"
  by (simp_all add: shelf_def shelf_env_def quiet_env_def calm_def answers_def others_keep_def sound_codec_def
      shelf_codec_def res_map_Inr_iff pages_end_def shelf_answer_def history_request_def GET_of_def
      discovery_inv_def ids_ok_def shelf_world_def empty_db_def)
    (auto simp: res_map_Inr_iff)

lemma shelf_instance:
  "get_or_create_instance shelf shelf_world = (new_instance shelf 1, shelf_world\<lparr>w_db := empty_db\<lparr>db_instances := [new_instance shelf 1]\<rparr>\<rparr>)"
  by (simp add: get_or_create_instance_def shelf_world_def empty_db_def Let_def fresh_id_def)

definition shelf_file :: episode_file where
  "shelf_file = \<lparr>ef_id = 5, ef_series_id = 7, ef_path = ''/tv/a.mkv'', ef_size = 3, ef_quality = JNull, ef_languages = JNull\<rparr>"

definition shelf_library :: library where
  "shelf_library =
     \<lparr>lb_series = [\<lparr>se_id = 7, se_title = [], se_tvdb_id = None, se_imdb_id = None, se_tmdb_id = None, se_title_slug = []\<rparr>],
      lb_files = (\<lambda>_. [shelf_file]),
      lb_episodes = (\<lambda>_. [\<lparr>ep_id = 11, ep_title = None, ep_season_number = 1, ep_episode_number = 1,
          ep_tvdb_id = None, ep_absolute_episode_number = None, ep_scene_season_number = None,
          ep_scene_episode_number = None, ep_scene_absolute_episode_number = None, ep_episode_file_id = 5,
          ep_has_file = True\<rparr>])\<rparr>"

lemma shelf_shows: "shows_library (di_codec shelf) shelf_answer shelf_library"
  by (simp add: shows_library_def shelf_library_def shelf_def shelf_codec_def shelf_answer_def decode_all_def
      GET_of_def shelf_file_def)

lemma shelf_path: "map_local_path shelf ''/tv/a.mkv'' = Inr (Some (mk_path ''/media/a.mkv''))"
  by (simp add: map_local_path_def shelf_def) code_simp

lemma shelf_path_str: "path_str (mk_path ''/media/a.mkv'') = ''/media/a.mkv''"
  by code_simp

lemma shelf_todo: "todo shelf_library None None = [(7, shelf_file)]"
  by (simp add: todo_def walk_of_def series_from_def after_cursor_def shelf_library_def)


lemma poll_all_or_nothing_witness:
  "\<exists>x w' rs. poll_once shelf shelf_world = Some (x, w') \<and>
     batch_result (\<lambda>d. db_files d = []) shelf (in_id (the_instance shelf shelf_world)) (from_record rs) (x, w')"
proof -
  obtain x w' where p: "poll_once shelf shelf_world = Some (x, w')"
    using poll_returns [OF shelf_facts(5)] by (metis option.exhaust surj_pair)
  have e: "db_files (w_db (with_instance shelf shelf_world)) = []"
    unfolding shelf_instance by (simp add: empty_db_def)
  from poll_all_or_nothing [where I = "\<lambda>d. db_files d = []", OF shelf_facts(3) e p] p show ?thesis by blast
qed

lemma discovery_keeps_inv_witness: "discovery_inv (w_db (snd (backfill_step shelf 1 False None shelf_world)))"
  using discovery_keeps_inv [OF shelf_facts(3,6), of "backfill_step shelf 1 False None shelf_world"] by blast

lemma backfill_resumes_witness:
  "todo shelf_library (Some 7) (Some 5) = []"
proof -
  have d: "walk_distinct shelf_library" by (simp add: walk_distinct_def shelf_library_def)
  have c: "cursor_ok 1 (todo shelf_library None None) (Some (7, 5))"
    unfolding shelf_todo by (simp add: cursor_ok_def cursor_at_def shelf_file_def)
  from backfill_resumes [OF d c] show ?thesis by (simp add: shelf_todo)
qed

section \<open>The watermark\<close>

definition quiet_db :: "environ \<Rightarrow> bool" where
  "quiet_db env \<longleftrightarrow> (\<forall>tr d. en_db env tr d = d)"

lemma quiet_keeps: "quiet_db env \<Longrightarrow> others_keep ((=) d) env"
  by (simp add: quiet_db_def others_keep_def)

definition watermark_of :: "instance_row \<Rightarrow> int" where
  "watermark_of i = (case in_history_watermark i of None \<Rightarrow> 0 | Some v \<Rightarrow> v)"

definition polled_to :: "instance_row \<Rightarrow> instance_row \<Rightarrow> file_row list \<Rightarrow> bool" where
  "polled_to i i' rows \<longleftrightarrow>
     (if in_history_watermark i' = in_history_watermark i then rows = []
      else \<exists>v. in_history_watermark i' = Some v \<and> watermark_of i < v \<and>
        list_all (\<lambda>f. case f_history_id f of None \<Rightarrow> False | Some h \<Rightarrow> watermark_of i < h \<and> h \<le> v) rows)"

lemma commit_row:
  assumes "commit_batch d inst upd s = (Inr res, w')" "get_row in_id inst (db_instances (w_db (ds_world s))) = Some i"
    and "\<And>now i. in_id (upd now i) = in_id i"
  shows "\<exists>now. get_row in_id inst (db_instances (w_db w')) = Some (upd now i)"
proof -
  have key: "in_id i = inst" using get_row_Some [OF assms(2)] by simp
  have e: "db_instances (w_db w') = update_where (\<lambda>i. in_id i = inst) (upd (now_of (di_env d) (ds_world s))) (db_instances (w_db (ds_world s)))"
    using assms(1) by (auto simp: commit_batch_def Let_def split: if_splits)
  show ?thesis unfolding e by (subst get_row_update) (use assms(2,3) key in auto)
qed

text \<open>The watermark only goes forward: when no other session writes, a poll that returns leaves the
  instance's watermark where it was and adds no file, or moves it to a higher history id, and every
  file it adds comes from a record above the old watermark and not above the new one.\<close>

theorem poll_watermark_advances:
  assumes "sound_codec (di_codec d)" "quiet_db (di_env d)" "distinct (map in_id (db_instances (w_db w)))"
    and "get_or_create_instance d w = (i, w1)" "poll_once d w = Some (Inr res, w')"
  shows "\<exists>i' rows. get_row in_id (in_id i) (db_instances (w_db w')) = Some i' \<and>
    db_files (w_db w') = db_files (w_db w) @ rows \<and> polled_to i i' rows"
proof -
  have row1: "get_row in_id (in_id i) (db_instances (w_db w1)) = Some i" and fw: "db_files (w_db w1) = db_files (w_db w)"
    using instance_row [OF assms(4,3)] by (auto simp: alike_def)
  obtain y w2 where h: "history_since (di_env d) (di_codec d) (di_client d) (watermark_of i) w1 = Some (y, w2)"
    using assms(4,5) by (auto simp: poll_once_def watermark_of_def split: option.splits)
  have d2: "w_db w2 = w_db w1" using history_kept [OF quiet_keeps [OF assms(2), of "w_db w1"] h] by (simp add: kept_def)
  with row1 have row2: "get_row in_id (in_id i) (db_instances (w_db w2)) = Some i" by simp
  obtain rs where y: "y = Inr rs" using assms(4,5) h by (cases y) (auto simp: poll_once_def watermark_of_def)
  note h = h [unfolded y]
  show ?thesis
  proof (cases "rs = []")
    case True
    with assms(4,5) h row2 have c: "commit_batch d (in_id i) (\<lambda>now row. row\<lparr>in_last_polled_at := Some now\<rparr>) (begin_batch w2) = (Inr res, w')"
      by (simp add: poll_once_def watermark_of_def)
    obtain now where "get_row in_id (in_id i) (db_instances (w_db w')) = Some (i\<lparr>in_last_polled_at := Some now\<rparr>)"
      using commit_row [OF c] row2 by auto
    moreover have "db_files (w_db w') = db_files (w_db w)"
      using c d2 fw by (auto simp: commit_batch_def begin_batch_def Let_def)
    ultimately show ?thesis by (simp add: polled_to_def)
  next
    case False
    with assms(4,5) h have pb: "poll_batch d (in_id i) rs w2 = (Inr res, w')" by (simp add: poll_once_def watermark_of_def)
    obtain z s where p: "poll_records d (in_id i) rs (begin_batch w2) = (z, s)" by (cases "poll_records d (in_id i) rs (begin_batch w2)")
    with pb row2 obtain u where z: "z = Inr u" by (cases z) (auto simp: poll_batch_def)
    note b = poll_records_batch [OF quiet_keeps [OF assms(2), of "w_db w2"] subset_refl p]
    have ds: "w_db (ds_world s) = w_db w2" using b by (simp add: kept_def)
    have st: "staged_ok d (in_id i) (from_record rs) s" using b z by (simp add: batch_step_def)
    let ?upd = "\<lambda>now row. set_watermark (in_history_watermark i) (hr_id (last rs)) (row\<lparr>in_last_polled_at := Some now\<rparr>)"
    have c: "commit_batch d (in_id i) ?upd s = (Inr res, w')" using pb row2 p z by (simp add: poll_batch_def)
    have lt: "watermark_of i < hr_id (last rs)" by (rule hist.watermark_advances [OF assms(1) h False])
    then have ne: "in_history_watermark i \<noteq> Some (hr_id (last rs))" by (auto simp: watermark_of_def)
    have rs: "get_row in_id (in_id i) (db_instances (w_db (ds_world s))) = Some i" using row2 ds by simp
    have "\<exists>now. get_row in_id (in_id i) (db_instances (w_db w')) = Some (?upd now i)"
      by (rule commit_row [OF c rs]) (simp add: set_watermark_def)
    then obtain now where r: "get_row in_id (in_id i) (db_instances (w_db w')) = Some (?upd now i)" by blast
    obtain rows js now' where l: "landed (in_id i) (?upd now') now' rows js (w_db (ds_world s)) (w_db w')"
      "list_all (\<lambda>f. sound_row d (in_id i) f \<and> from_record rs f) rows"
      using commit_result [OF c st] by auto
    have files: "db_files (w_db w') = db_files (w_db w) @ rows" using landed_db [OF l(1)] ds d2 fw by simp
    have "list_all (\<lambda>f. case f_history_id f of None \<Rightarrow> False | Some h \<Rightarrow> watermark_of i < h \<and> h \<le> hr_id (last rs)) rows"
      using l(2) hist.newer [OF assms(1) h] hist.last_is_highest [OF h] by (auto simp: list_all_iff from_record_def list_ex_iff)
    then have "polled_to i (?upd now i) rows" using ne lt by (auto simp: polled_to_def set_watermark_def)
    with r files show ?thesis by blast
  qed
qed

text \<open>Polling ends whenever the history does: if Sonarr has no records, or an error, from some
  page on, a poll returns, with a result or an exception.\<close>

theorem poll_returns_if_pages_end:
  assumes "pages_end (di_env d) n"
  shows "\<exists>x w'. poll_once d w = Some (x, w')"
  using poll_returns [OF assms] by (metis option.exhaust surj_pair)

lemma poll_returns_if_pages_end_witness: "\<exists>x w'. poll_once shelf shelf_world = Some (x, w')"
  by (rule poll_returns_if_pages_end [OF shelf_facts(5)])


text \<open>A poll of this library captures the file of its one history record.\<close>

definition shelf_record :: history_record where
  "shelf_record = \<lparr>hr_id = 3, hr_episode_id = 11, hr_series_id = 7, hr_source_title = None,
     hr_download_id = None, hr_date = 0, hr_quality = JNull, hr_languages = JNull, hr_data = [(''fileId'', JInt 5)]\<rparr>"

lemma shelf_ask: "ask (di_env shelf) c rq w = (Inr (shelf_answer rq), w\<lparr>w_trace := w_trace w @ [EHttp rq]\<rparr>)"
  by (rule ask_calm [OF shelf_facts(1,2)])

lemma shelf_history:
  "history_since (di_env shelf) (di_codec shelf) (di_client shelf) 0 w =
     Some (Inr [shelf_record], w\<lparr>w_trace := w_trace w @ [EHttp (history_request 1), EHttp (history_request 2)]\<rparr>)"
proof -
  have 1: "shelf_answer (history_request 1) = JObj [(''records'', JList [JObj [(''id'', JInt 3)]])]"
    "shelf_answer (history_request 2) = JObj [(''records'', JList [])]"
    by (simp_all add: shelf_answer_def history_request_def GET_of_def)
  have n: "new_on_page 0 [JObj [(''id'', JInt 3)]] = Inr [JObj [(''id'', JInt 3)]]" by (simp add: new_on_page_def)
  have c: "cd_history (di_codec shelf) (JObj [(''id'', JInt 3)]) = Inr shelf_record"
    by (simp add: shelf_def shelf_codec_def shelf_record_def)
  have "history_pages (di_env shelf) (di_codec shelf) (di_client shelf) 0 1 [] w =
     Some (Inr [shelf_record], w\<lparr>w_trace := w_trace w @ [EHttp (history_request 1), EHttp (history_request 2)]\<rparr>)"
    by (subst history_pages.simps) (simp add: shelf_ask 1 n c, subst history_pages.simps, simp add: shelf_ask 1)
  then show ?thesis by (simp add: history_since_def)
qed

lemma shelf_record_poll:
  assumes "db_files (w_db w) = []" "w_fs w = w_fs shelf_world"
  shows "\<exists>s. poll_records shelf i [shelf_record] (begin_batch w) = (Inr (), s) \<and> ds_created s = 1 \<and>
    db_files (w_db (ds_world s)) = [] \<and> db_instances (w_db (ds_world s)) = db_instances (w_db w)"
proof -
  have h: "hr_episode_file_id shelf_record = Inr (Some 5)" by (simp add: hr_episode_file_id_def shelf_record_def)
  have "\<exists>v'. get_episode_file (di_env shelf) (di_codec shelf) (di_client shelf) 5 w = (Inr shelf_file, v') \<and> alike w v'"
    by (simp add: get_episode_file_def shelf_ask then_decode_def alike_def) (simp add: shelf_def shelf_codec_def shelf_file_def)
  then obtain w1 where f: "get_episode_file (di_env shelf) (di_codec shelf) (di_client shelf) 5 w = (Inr shelf_file, w1)"
    "alike w w1" by blast
  have e: "\<exists>m v'. episode_ids_by_file shelf x v = (Inr m, v') \<and> alike v v'" for x v
    by (simp add: episode_ids_by_file_def get_episodes_def shelf_ask then_decode_def alike_def)
      (simp add: shelf_answer_def GET_of_def decode_all_def shelf_def shelf_codec_def)
  let ?s1 = "(begin_batch w)\<lparr>ds_world := w1\<rparr>"
  let ?res = "resolve_episode_ids shelf (hr_series_id shelf_record) 5 (hr_episode_ids shelf_record)"
  obtain m v where mv: "episode_ids_by_file shelf (hr_series_id shelf_record) w1 = (Inr m, v)" "alike w1 v" using e by blast
  have res: "\<exists>ids. ?res ?s1 = (Inr ids, ?s1\<lparr>ds_world := v, ds_cache := [(hr_series_id shelf_record, m)]\<rparr>)"
    using mv(1) by (simp add: resolve_episode_ids_def begin_batch_def)
  then obtain ids where ids: "?res ?s1 = (Inr ids, ?s1\<lparr>ds_world := v, ds_cache := [(hr_series_id shelf_record, m)]\<rparr>)" by blast
  have fs: "w_fs v ''/media/a.mkv'' = Some 1" "w_fs w1 ''/media/a.mkv'' = Some 1"
    using mv(2) f(2) assms(2) by (simp_all add: alike_def shelf_world_def)
  obtain v2 dg where hs: "hash_file shelf ''/media/a.mkv'' v = (Inr dg, v2)" "alike v v2"
    using calm_hash [OF shelf_facts(1) fs(1)] by blast
  let ?row = "captured_file i (record_capture shelf_record shelf_file) ''/media/a.mkv'' dg ids"
  let ?s2 = "?s1\<lparr>ds_world := v2, ds_cache := [(hr_series_id shelf_record, m)], ds_files := [?row]\<rparr>"
  have nk: "\<not> file_exists j k (begin_batch w)" "\<not> file_exists j k ?s1"
    "\<not> file_exists j k (?s1\<lparr>ds_world := v2, ds_cache := x\<rparr>)" for j k x
    using assms(1) f(2) mv(2) hs(2) by (simp_all add: file_exists_def begin_batch_def has_key_def alike_def)
  have cf: "cp_file (record_capture shelf_record shelf_file) = shelf_file" by (simp add: record_capture_def)
  have pth: "map_local_path shelf (ef_path shelf_file) = Inr (Some (mk_path ''/media/a.mkv''))"
    by (simp add: shelf_file_def shelf_path)
  have ex: "path_exists (di_env shelf) ''/media/a.mkv'' w1 = Inr True"
    using calm_exists [OF shelf_facts(1)] fs(2) by simp
  have wd: "watch_dirs_allowed shelf lp" for lp by (simp add: watch_dirs_allowed_def shelf_def)
  have st: "stage_file ?row ((begin_batch w)\<lparr>ds_cache := [(hr_series_id shelf_record, m)], ds_world := v2\<rparr>) = (Inr (True, False), ?s2)"
    using nk(3) by (simp add: stage_file_def begin_batch_def)
  have cap: "capture_file shelf i (record_capture shelf_record shelf_file) ?res ?s1 = (Inr (True, False), ?s2)"
    unfolding capture_file_def cf pth by (simp add: nk wd ex ids hs(1) st shelf_path_str)
  have "poll_record shelf i shelf_record (begin_batch w) = (Inr (), count_capture (True, False) ?s2)"
    unfolding poll_record_def h using f(1) by (simp add: nk cap)
  then have "poll_records shelf i [shelf_record] (begin_batch w) = (Inr (), count_capture (True, False) ?s2)" by simp
  then show ?thesis using assms(1) f(2) mv(2) hs(2) by (simp add: count_capture_def begin_batch_def alike_def)
qed

lemma shelf_poll: "\<exists>res w'. poll_once shelf shelf_world = Some (Inr res, w') \<and> dr_created res = 1"
proof -
  let ?w1 = "shelf_world\<lparr>w_db := empty_db\<lparr>db_instances := [new_instance shelf 1]\<rparr>\<rparr>"
  let ?w2 = "?w1\<lparr>w_trace := w_trace ?w1 @ [EHttp (history_request 1), EHttp (history_request 2)]\<rparr>"
  have wm: "(case in_history_watermark (new_instance shelf 1) of None \<Rightarrow> 0 | Some v \<Rightarrow> v) = 0" by (simp add: new_instance_def)
  have id: "in_id (new_instance shelf 1) = 1" by (simp add: new_instance_def)
  obtain s where s: "poll_records shelf 1 [shelf_record] (begin_batch ?w2) = (Inr (), s)" "ds_created s = 1"
    "db_files (w_db (ds_world s)) = []" using shelf_record_poll [of ?w2 1] by (auto simp: empty_db_def)
  have row: "get_row in_id 1 (db_instances (w_db ?w2)) = Some (new_instance shelf 1)" by (simp add: get_row_def id)
  have nk: "\<not> list_ex (\<lambda>f. has_key (f_instance_id f) (f_episode_file_id f) []) xs" for xs
    by (auto simp: list_ex_iff has_key_def)
  show ?thesis
    unfolding poll_once_def shelf_instance Let_def prod.case wm shelf_history
    using s row nk by (simp add: poll_batch_def id commit_batch_def Let_def)
qed

lemma poll_watermark_advances_witness:
  "\<exists>res w' i' f. poll_once shelf shelf_world = Some (Inr res, w') \<and>
     get_row in_id 1 (db_instances (w_db w')) = Some i' \<and> polled_to (new_instance shelf 1) i' (db_files (w_db w'))"
proof -
  obtain res w' where p: "poll_once shelf shelf_world = Some (Inr res, w')" using shelf_poll by blast
  have q: "quiet_db (di_env shelf)" using shelf_facts(1) by (simp add: quiet_db_def calm_def)
  have d: "distinct (map in_id (db_instances (w_db shelf_world)))" by (simp add: shelf_world_def empty_db_def)
  have e: "db_files (w_db shelf_world) = []" by (simp add: shelf_world_def empty_db_def)
  have id: "in_id (new_instance shelf 1) = 1" by (simp add: new_instance_def)
  from poll_watermark_advances [OF shelf_facts(4) q d shelf_instance p] p show ?thesis
    unfolding e id by auto
qed

end
