(* ===== verification/JsonText.thy ===== *)
theory JsonText
  imports Contract "HOL-Library.Char_ord" "HOL-Library.List_Lexorder"
begin

text \<open>
  The part of Python's \<open>json\<close>, \<open>str\<close> and \<open>float\<close> the components share: dictionary access
  with its exceptions, \<open>json.dumps(..., sort_keys=True)\<close>, fixed-point formatting, and the JSON
  dumps of the contract's models. The shortest decimal text of a float (\<open>repr\<close>) and the value of
  a decimal text (\<open>float(s)\<close>) are parameters.
\<close>

section \<open>Access\<close>

text \<open>\<open>d.get(k)\<close>, \<open>d[k]\<close> and \<open>x or {}\<close>.\<close>

fun json_get :: "json \<Rightarrow> string \<Rightarrow> json option res" where
  "json_get (JObj kvs) k = Inr (map_of kvs k)"
| "json_get j k = Inl AttributeError"

fun json_item :: "json \<Rightarrow> string \<Rightarrow> json res" where
  "json_item (JObj kvs) k = (case map_of kvs k of None \<Rightarrow> Inl KeyError | Some v \<Rightarrow> Inr v)"
| "json_item j k = Inl TypeError"

fun json_falsy :: "json \<Rightarrow> bool" where
  "json_falsy JNull = True"
| "json_falsy (JBool b) = (\<not> b)"
| "json_falsy (JInt i) = (i = 0)"
| "json_falsy (JFloat x) = (x = 0)"
| "json_falsy (JStr s) = (s = [])"
| "json_falsy (JList xs) = (xs = [])"
| "json_falsy (JObj kvs) = (kvs = [])"

text \<open>\<open>j[0]\<close>, and \<open>d.get(k, dflt)\<close>.\<close>

fun json_first :: "json \<Rightarrow> json res" where
  "json_first (JList (x # xs)) = Inr x"
| "json_first (JList []) = Inl IndexError"
| "json_first (JStr (c # cs)) = Inr (JStr [c])"
| "json_first (JStr []) = Inl IndexError"
| "json_first (JObj kvs) = Inl KeyError"
| "json_first _ = Inl TypeError"

definition get_or :: "json \<Rightarrow> string \<Rightarrow> json \<Rightarrow> json res" where
  "get_or j k dflt = res_map (\<lambda>v. case v of None \<Rightarrow> dflt | Some x \<Rightarrow> x) (json_get j k)"

definition or_empty :: "json option \<Rightarrow> json" where
  "or_empty j = (case j of None \<Rightarrow> JObj [] | Some v \<Rightarrow> if json_falsy v then JObj [] else v)"

fun json_float :: "(string \<Rightarrow> real res) \<Rightarrow> json \<Rightarrow> real res" where
  "json_float float_of (JInt i) = Inr (of_int i)"
| "json_float float_of (JFloat x) = Inr x"
| "json_float float_of (JBool b) = Inr (if b then 1 else 0)"
| "json_float float_of (JStr s) = float_of s"
| "json_float float_of _ = Inl TypeError"

section \<open>Text\<close>

text \<open>\<open>f"{x:.6f}"\<close>: rounded half to even at six decimals.\<close>

definition round_half_even :: "real \<Rightarrow> int" where
  "round_half_even x =
     (let n = \<lfloor>x\<rfloor>; r = x - of_int n
      in if r < 1/2 then n else if r > 1/2 then n + 1 else if even n then n else n + 1)"

definition fixed6 :: "real \<Rightarrow> string" where
  "fixed6 x =
     (let k = round_half_even (\<bar>x\<bar> * 1000000); frac = show_int (k mod 1000000)
      in (if x < 0 then ''-'' else []) @ show_int (k div 1000000) @ ''.'' @
         replicate (6 - length frac) (CHR ''0'') @ frac)"

definition is_space :: "char \<Rightarrow> bool" where
  "is_space c \<longleftrightarrow>
     (let n = (of_char c :: nat) in n \<in> {32, 133, 160} \<or> (9 \<le> n \<and> n \<le> 13) \<or> (28 \<le> n \<and> n \<le> 31))"

definition str_strip :: "string \<Rightarrow> string" where
  "str_strip s = rev (dropWhile is_space (rev (dropWhile is_space s)))"

text \<open>\<open>str.lower\<close> of 8-bit text.\<close>

definition lower_char :: "char \<Rightarrow> char" where
  "lower_char c =
     (let n = (of_char c :: nat)
      in if (65 \<le> n \<and> n \<le> 90) \<or> (192 \<le> n \<and> n \<le> 222 \<and> n \<noteq> 215) then char_of (n + 32) else c)"

definition str_lower :: "string \<Rightarrow> string" where "str_lower = map lower_char"

lemma dropWhile_shorter:
  assumes "dropWhile P xs = y # ys"
  shows "length (dropWhile Q ys) < length xs"
proof -
  have "length (dropWhile Q ys) \<le> length ys" by (rule length_dropWhile_le)
  also have "length ys < length (dropWhile P xs)" unfolding assms by simp
  also have "\<dots> \<le> length xs" by (rule length_dropWhile_le)
  finally show ?thesis .
qed

function str_split :: "string \<Rightarrow> string list" where
  "str_split s =
     (case dropWhile is_space s of
        [] \<Rightarrow> []
      | c # cs \<Rightarrow> (c # takeWhile (\<lambda>x. \<not> is_space x) cs) # str_split (dropWhile (\<lambda>x. \<not> is_space x) cs))"
  by pat_completeness auto

termination
  by (relation "measure length") (auto dest: dropWhile_shorter)

declare str_split.simps [simp del]

text \<open>\<open>json.dumps\<close> of a string, ASCII only (\<open>ensure_ascii\<close>).\<close>

definition hex_digit :: "nat \<Rightarrow> char" where
  "hex_digit n = ''0123456789abcdef'' ! n"

definition json_char :: "char \<Rightarrow> string" where
  "json_char c =
     (let n = (of_char c :: nat)
      in if n = 34 then [CHR 92, CHR 34]
         else if n = 92 then [CHR 92, CHR 92]
         else if n = 10 then [CHR 92, CHR ''n'']
         else if n = 13 then [CHR 92, CHR ''r'']
         else if n = 9 then [CHR 92, CHR ''t'']
         else if n = 8 then [CHR 92, CHR ''b'']
         else if n = 12 then [CHR 92, CHR ''f'']
         else if n < 32 \<or> 126 < n
         then [CHR 92, CHR ''u'', CHR ''0'', CHR ''0'', hex_digit (n div 16), hex_digit (n mod 16)]
         else [c])"

definition json_string :: "string \<Rightarrow> string" where
  "json_string s = [CHR 34] @ concat (map json_char s) @ [CHR 34]"

fun json_dumps :: "(real \<Rightarrow> string) \<Rightarrow> json \<Rightarrow> string" where
  "json_dumps fl JNull = ''null''"
| "json_dumps fl (JBool b) = (if b then ''true'' else ''false'')"
| "json_dumps fl (JInt i) = show_int i"
| "json_dumps fl (JFloat x) = fl x"
| "json_dumps fl (JStr s) = json_string s"
| "json_dumps fl (JList xs) = ''['' @ join '', '' (map (json_dumps fl) xs) @ '']''"
| "json_dumps fl (JObj kvs) =
     ''{'' @ join '', '' (map (\<lambda>kv. json_string (fst kv) @ '': '' @ snd kv)
        (sort_key fst (map (\<lambda>kv. (fst kv, json_dumps fl (snd kv))) kvs))) @ ''}''"

text \<open>\<open>repr\<close> of a text, and \<open>str\<close> of a JSON value.\<close>

definition repr_char :: "char \<Rightarrow> char \<Rightarrow> string" where
  "repr_char q c =
     (let n = (of_char c :: nat)
      in if c = q \<or> n = 92 then [CHR 92, c]
         else if n = 10 then [CHR 92, CHR ''n'']
         else if n = 13 then [CHR 92, CHR ''r'']
         else if n = 9 then [CHR 92, CHR ''t'']
         else if n < 32 \<or> (126 < n \<and> n < 161) \<or> n = 173
         then [CHR 92, CHR ''x'', hex_digit (n div 16), hex_digit (n mod 16)]
         else [c])"

definition str_repr :: "string \<Rightarrow> string" where
  "str_repr s =
     (let q = (if CHR 39 \<in> set s \<and> CHR 34 \<notin> set s then CHR 34 else CHR 39)
      in [q] @ concat (map (repr_char q) s) @ [q])"

fun py_repr :: "(real \<Rightarrow> string) \<Rightarrow> json \<Rightarrow> string" where
  "py_repr fl JNull = ''None''"
| "py_repr fl (JBool b) = (if b then ''True'' else ''False'')"
| "py_repr fl (JInt i) = show_int i"
| "py_repr fl (JFloat x) = fl x"
| "py_repr fl (JStr s) = str_repr s"
| "py_repr fl (JList xs) = ''['' @ join '', '' (map (py_repr fl) xs) @ '']''"
| "py_repr fl (JObj kvs) =
     ''{'' @ join '', '' (map (\<lambda>kv. str_repr (fst kv) @ '': '' @ snd kv) (map (\<lambda>kv. (fst kv, py_repr fl (snd kv))) kvs)) @ ''}''"

fun py_str :: "(real \<Rightarrow> string) \<Rightarrow> json \<Rightarrow> string" where
  "py_str fl (JStr s) = s"
| "py_str fl j = py_repr fl j"

section \<open>Model dumps\<close>

definition json_opt :: "('a \<Rightarrow> json) \<Rightarrow> 'a option \<Rightarrow> json" where
  "json_opt f x = (case x of None \<Rightarrow> JNull | Some v \<Rightarrow> f v)"

definition json_ints :: "int list \<Rightarrow> json" where
  "json_ints xs = JList (map JInt xs)"

definition claimed_dump :: "claimed_ident \<Rightarrow> json" where
  "claimed_dump c =
     JObj [(''season'', JInt (cl_season c)), (''episodes'', json_ints (cl_episodes c)),
           (''episode_ids'', json_ints (cl_episode_ids c))]"

definition series_dump :: "series \<Rightarrow> json" where
  "series_dump s =
     JObj [(''id'', JInt (se_id s)), (''title'', JStr (se_title s)), (''tvdb_id'', json_opt JInt (se_tvdb_id s)),
           (''imdb_id'', json_opt JStr (se_imdb_id s)), (''tmdb_id'', json_opt JInt (se_tmdb_id s)),
           (''title_slug'', JStr (se_title_slug s))]"

definition episode_dump :: "episode \<Rightarrow> json" where
  "episode_dump e =
     JObj [(''id'', JInt (ep_id e)), (''title'', json_opt JStr (ep_title e)),
           (''season_number'', JInt (ep_season_number e)), (''episode_number'', JInt (ep_episode_number e)),
           (''tvdb_id'', json_opt JInt (ep_tvdb_id e)),
           (''absolute_episode_number'', json_opt JInt (ep_absolute_episode_number e)),
           (''scene_season_number'', json_opt JInt (ep_scene_season_number e)),
           (''scene_episode_number'', json_opt JInt (ep_scene_episode_number e)),
           (''scene_absolute_episode_number'', json_opt JInt (ep_scene_absolute_episode_number e)),
           (''episode_file_id'', JInt (ep_episode_file_id e)), (''has_file'', JBool (ep_has_file e))]"

definition context_dump :: "series_context \<Rightarrow> json" where
  "context_dump c =
     JObj [(''series'', series_dump (sc_series c)), (''episodes'', JList (map episode_dump (sc_episodes c)))]"

definition segment_dump :: "transcript_segment \<Rightarrow> json" where
  "segment_dump s =
     JObj [(''start'', JFloat (ts_start s)), (''end'', JFloat (ts_end s)), (''text'', JStr (ts_text s))]"

definition transcript_dump :: "transcript \<Rightarrow> json" where
  "transcript_dump t =
     JObj [(''segments'', JList (map segment_dump (tr_segments t))), (''language'', JStr (tr_language t))]"

end
