(* ===== verification/Assets.thy ===== *)
theory Assets
  imports World JsonText
begin

text \<open>
  \<open>impostarr/assets/extract.py\<close>: probing, the audio slice, embedded subtitles, frame sampling
  and frame-hash similarity. A subprocess is an effect whose outcome the environment decides, and
  what it writes is what the disk holds when it is done. Its outcome, the stat text of a file,
  xxh64, \<open>json.loads\<close>, float text and the image-hash library are parameters.
\<close>

datatype run_result = RunExit int string string | RunTimeout | RunRefused exn

record toolbox =
  tb_env :: environ
  tb_run :: "effect list \<Rightarrow> string list \<Rightarrow> run_result"
  tb_stat :: "int \<Rightarrow> string"
  tb_xxh64 :: "string \<Rightarrow> string"
  tb_loads :: "string \<Rightarrow> json res"
  tb_float :: "real \<Rightarrow> string"
  tb_float_of :: "string \<Rightarrow> real res"
  tb_phash :: "int \<Rightarrow> string"
  tb_distance :: "string \<Rightarrow> string \<Rightarrow> int"

definition FFMPEG :: string where "FFMPEG = ''ffmpeg''"
definition FFPROBE :: string where "FFPROBE = ''ffprobe''"

definition TEXT_SUB_CODECS :: "string list" where
  "TEXT_SUB_CODECS = [''subrip'', ''ass'', ''mov_text'']"

definition IMAGE_SUB_CODECS :: "(string \<times> string) list" where
  "IMAGE_SUB_CODECS = [(''hdmv_pgs_subtitle'', ''sup''), (''dvd_subtitle'', ''sub'')]"

definition PHASH_ALGO :: string where "PHASH_ALGO = ''phash''"
definition PHASH_VERSION :: int where "PHASH_VERSION = 1"
definition PHASH_BITS :: int where "PHASH_BITS = 64"
definition THUMBNAIL_MAX_WIDTH :: int where "THUMBNAIL_MAX_WIDTH = 480"

record extracted =
  ex_type :: asset_type
  ex_path :: "string option"
  ex_payload :: "json option"
  ex_fingerprint :: string
  ex_tool_meta :: json

section \<open>Subprocesses\<close>

definition run_tool :: "toolbox \<Rightarrow> string list \<Rightarrow> world \<Rightarrow> string res \<times> world" where
  "run_tool tb cmd w =
     (let w1 = await_effect (tb_env tb) (ERun cmd) w
      in (case tb_run tb (w_trace w1) cmd of
            RunRefused e \<Rightarrow> Inl e
          | RunTimeout \<Rightarrow> Inl (ExtractError (hd cmd @ '' timed out after 600.0s: '' @ join '' '' cmd))
          | RunExit rc out err \<Rightarrow>
              if rc \<noteq> 0
              then Inl (ExtractError (hd cmd @ '' failed (exit '' @ show_int rc @ ''): '' @ str_strip err))
              else Inr out, w1))"

text \<open>The third word of the first line, or the line when it has fewer.\<close>

definition version_of :: "string \<Rightarrow> string res" where
  "version_of out =
     (if out = [] then Inl IndexError
      else let line = takeWhile (\<lambda>c. c \<notin> {CHR 10, CHR 11, CHR 12, CHR 13, CHR 28, CHR 29, CHR 30, CHR 133}) out; parts = str_split line
           in Inr (if length parts > 2 then parts ! 2 else line))"

definition tool_version :: "toolbox \<Rightarrow> string \<Rightarrow> world \<Rightarrow> string res \<times> world" where
  "tool_version tb tool w =
     (case run_tool tb [tool, ''-version''] w of (r, w1) \<Rightarrow> (res_bind r version_of, w1))"

section \<open>Fingerprints and names\<close>

text \<open>\<open>{path}:{size}:{mtime}:{operation}:{params}\<close>; \<open>tb_stat\<close> is \<open>{size}:{mtime}\<close>.\<close>

definition fingerprint_key :: "toolbox \<Rightarrow> path \<Rightarrow> int \<Rightarrow> string \<Rightarrow> string \<Rightarrow> string" where
  "fingerprint_key tb p c operation params =
     path_str p @ '':'' @ tb_stat tb c @ '':'' @ operation @ '':'' @ params"

definition fingerprint :: "toolbox \<Rightarrow> path \<Rightarrow> string \<Rightarrow> string \<Rightarrow> world \<Rightarrow> string res \<times> world" where
  "fingerprint tb p operation params w =
     (case os_call (tb_env tb) (OsStat (path_str p)) w of
        (Inl e, w1) \<Rightarrow> (Inl e, w1)
      | (Inr _, w1) \<Rightarrow>
          (Inr (tb_xxh64 tb (fingerprint_key tb p (case w_fs w (path_str p) of None \<Rightarrow> 0 | Some c \<Rightarrow> c)
             operation params)), w1))"

definition path_stem :: "path \<Rightarrow> string" where
  "path_stem p = take (length (path_name p) - length (path_suffix p)) (path_name p)"

definition asset_name :: "path \<Rightarrow> string \<Rightarrow> string \<Rightarrow> string \<Rightarrow> string" where
  "asset_name p kind fp ext = path_stem p @ ''-'' @ kind @ ''-'' @ take 16 fp @ ''.'' @ ext"

definition duration_of :: "toolbox \<Rightarrow> json \<Rightarrow> real res" where
  "duration_of tb payload =
     res_bind (json_item payload ''format'')
       (\<lambda>f. res_bind (json_item f ''duration'') (json_float (tb_float_of tb)))"

text \<open>Sequencing of two calls that may raise.\<close>

definition and_then :: "'a res \<times> world \<Rightarrow> ('a \<Rightarrow> world \<Rightarrow> 'b res \<times> world) \<Rightarrow> 'b res \<times> world" where
  "and_then rw f = (case rw of (Inl e, w) \<Rightarrow> (Inl e, w) | (Inr x, w) \<Rightarrow> f x w)"

definition pure_res :: "'a res \<Rightarrow> world \<Rightarrow> 'a res \<times> world" where
  "pure_res r w = (r, w)"

section \<open>The extractors\<close>

definition probe :: "toolbox \<Rightarrow> path \<Rightarrow> world \<Rightarrow> extracted res \<times> world" where
  "probe tb p w =
     and_then (run_tool tb [FFPROBE, ''-v'', ''quiet'', ''-print_format'', ''json'', ''-show_format'',
                 ''-show_streams'', path_str p] w) (\<lambda>out w.
     and_then (pure_res (tb_loads tb out) w) (\<lambda>payload w.
     and_then (tool_version tb FFPROBE w) (\<lambda>version w.
     and_then (fingerprint tb p ''probe'' [] w) (\<lambda>fp w.
       (case payload of
          JObj kvs \<Rightarrow> Inr \<lparr>ex_type = AProbe, ex_path = None, ex_payload = Some (JObj kvs), ex_fingerprint = fp,
             ex_tool_meta = JObj [(''ffprobe_version'', JStr version)]\<rparr>
        | _ \<Rightarrow> Inl ValidationError, w)))))"

definition given_or_probe :: "toolbox \<Rightarrow> path \<Rightarrow> extracted option \<Rightarrow> world \<Rightarrow> extracted res \<times> world" where
  "given_or_probe tb p given w = (case given of Some x \<Rightarrow> (Inr x, w) | None \<Rightarrow> probe tb p w)"

definition audio_params :: "toolbox \<Rightarrow> real \<Rightarrow> real \<Rightarrow> string" where
  "audio_params tb offset dur = ''offset='' @ tb_float tb offset @ '':duration='' @ tb_float tb dur"

text \<open>The slice taken from a file of the given length: its start, and how much of it.\<close>

definition audio_slice :: "real \<Rightarrow> real \<Rightarrow> real \<Rightarrow> real \<times> real" where
  "audio_slice total_s offset dur =
     (let start = (if total_s \<le> offset then 0 else offset) in (start, min dur (total_s - start)))"

definition extract_audio ::
  "toolbox \<Rightarrow> path \<Rightarrow> path \<Rightarrow> real \<Rightarrow> real \<Rightarrow> extracted option \<Rightarrow> world \<Rightarrow> extracted res \<times> world" where
  "extract_audio tb p out_dir offset dur given w =
     and_then (given_or_probe tb p given w) (\<lambda>pr w.
     and_then (pure_res (duration_of tb (or_empty (ex_payload pr))) w) (\<lambda>total_s w.
     let (start, len) = audio_slice total_s offset dur in
     and_then (fingerprint tb p ''extract_audio'' (audio_params tb offset dur) w) (\<lambda>fp w.
     and_then (os_call (tb_env tb) (OsMkdir (path_str out_dir)) w) (\<lambda>_ w.
     let out_path = path_str (path_div out_dir (asset_name p ''audio'' fp ''wav'')) in
     and_then (run_tool tb [FFMPEG, ''-y'', ''-ss'', tb_float tb start, ''-t'', tb_float tb len, ''-i'',
                 path_str p, ''-vn'', ''-ac'', ''1'', ''-ar'', ''16000'', out_path] w) (\<lambda>_ w.
     and_then (tool_version tb FFMPEG w) (\<lambda>version w.
       (Inr \<lparr>ex_type = AAudio, ex_path = Some out_path, ex_payload = None, ex_fingerprint = fp,
             ex_tool_meta = JObj [(''ffmpeg_version'', JStr version), (''start_s'', JFloat start),
               (''offset_s'', JFloat start), (''duration_s'', JFloat len)]\<rparr>, w)))))))"

text \<open>\<open>payload.get("streams", [])\<close> and the subtitle streams among them.\<close>

definition streams_of :: "json \<Rightarrow> json list res" where
  "streams_of payload =
     res_bind (json_get payload ''streams'') (\<lambda>v.
       case v of None \<Rightarrow> Inr [] | Some (JList xs) \<Rightarrow> Inr xs | Some _ \<Rightarrow> Inl TypeError)"

fun sub_streams :: "json list \<Rightarrow> json list res" where
  "sub_streams [] = Inr []"
| "sub_streams (s # ss) =
     res_bind (json_get s ''codec_type'') (\<lambda>t.
       res_map (\<lambda>r. if t = Some (JStr ''subtitle'') then s # r else r) (sub_streams ss))"

text \<open>
  \<open>{codec}\<close> of a stream without a codec name prints \<open>None\<close>. A codec name that is neither text
  nor absent, which ffprobe never writes, is refused.
\<close>

definition codec_of :: "json \<Rightarrow> string option res" where
  "codec_of s =
     res_bind (json_get s ''codec_name'') (\<lambda>v.
       case v of Some (JStr c) \<Rightarrow> Inr (Some c) | None \<Rightarrow> Inr None | Some JNull \<Rightarrow> Inr None | Some _ \<Rightarrow> Inl TypeError)"

definition codec_text :: "string option \<Rightarrow> string" where
  "codec_text c = (case c of None \<Rightarrow> ''None'' | Some x \<Rightarrow> x)"

definition sub_params :: "int \<Rightarrow> string option \<Rightarrow> string" where
  "sub_params i codec = ''stream='' @ show_int i @ '':codec='' @ codec_text codec"

definition is_text_sub :: "string option \<Rightarrow> bool" where
  "is_text_sub c = (case c of None \<Rightarrow> False | Some x \<Rightarrow> x \<in> set TEXT_SUB_CODECS)"

definition image_sub_ext :: "string option \<Rightarrow> string option" where
  "image_sub_ext c = (case c of None \<Rightarrow> None | Some x \<Rightarrow> map_of IMAGE_SUB_CODECS x)"

text \<open>\<open>(stream.get("tags") or {}).get("language")\<close>, kept when it is not empty.\<close>

definition language_of :: "json \<Rightarrow> (string \<times> json) list res" where
  "language_of s =
     res_bind (json_get s ''tags'') (\<lambda>t.
       res_map (\<lambda>l. case l of Some (JStr (c # cs)) \<Rightarrow> [(''language'', JStr (c # cs))] | _ \<Rightarrow> [])
         (json_get (or_empty t) ''language''))"

definition sub_meta :: "string \<Rightarrow> int \<Rightarrow> string option \<Rightarrow> (string \<times> json) list \<Rightarrow> json" where
  "sub_meta version i codec lang =
     JObj ([(''ffmpeg_version'', JStr version), (''stream_index'', JInt i),
            (''codec_name'', json_opt JStr codec)] @ lang)"

definition extract_sub ::
  "toolbox \<Rightarrow> path \<Rightarrow> path \<Rightarrow> string \<Rightarrow> int \<Rightarrow> json \<Rightarrow> world \<Rightarrow> extracted list res \<times> world" where
  "extract_sub tb p out_dir version i s w =
     and_then (pure_res (codec_of s) w) (\<lambda>codec w.
     and_then (pure_res (language_of s) w) (\<lambda>lang w.
     and_then (fingerprint tb p ''extract_embedded_subs'' (sub_params i codec) w) (\<lambda>fp w.
     let meta = sub_meta version i codec lang;
         go = (\<lambda>ext mode.
           let out_path = path_str (path_div out_dir (asset_name p ''subs'' fp ext)) in
           and_then (run_tool tb [FFMPEG, ''-y'', ''-i'', path_str p, ''-map'', ''0:s:'' @ show_int i, ''-c:s'',
                       mode, out_path] w) (\<lambda>_ w.
             (Inr [\<lparr>ex_type = ASubs, ex_path = Some out_path, ex_payload = None, ex_fingerprint = fp,
                    ex_tool_meta = meta\<rparr>], w)))
     in if is_text_sub codec then go ''srt'' ''srt''
        else case image_sub_ext codec of Some ext \<Rightarrow> go ext ''copy'' | None \<Rightarrow> (Inr [], w))))"

fun extract_subs_loop ::
  "toolbox \<Rightarrow> path \<Rightarrow> path \<Rightarrow> string \<Rightarrow> int \<Rightarrow> json list \<Rightarrow> extracted list \<Rightarrow> world \<Rightarrow> extracted list res \<times> world"
  where
  "extract_subs_loop tb p out_dir version i [] acc w = (Inr acc, w)"
| "extract_subs_loop tb p out_dir version i (s # ss) acc w =
     (case extract_sub tb p out_dir version i s w of
        (Inl e, w1) \<Rightarrow> (Inl e, w1)
      | (Inr xs, w1) \<Rightarrow> extract_subs_loop tb p out_dir version (i + 1) ss (acc @ xs) w1)"

definition extract_embedded_subs ::
  "toolbox \<Rightarrow> path \<Rightarrow> path \<Rightarrow> extracted option \<Rightarrow> world \<Rightarrow> extracted list res \<times> world" where
  "extract_embedded_subs tb p out_dir given w =
     and_then (given_or_probe tb p given w) (\<lambda>pr w.
     and_then (pure_res (res_bind (streams_of (or_empty (ex_payload pr))) sub_streams) w) (\<lambda>ss w.
     and_then (os_call (tb_env tb) (OsMkdir (path_str out_dir)) w) (\<lambda>_ w.
     and_then (tool_version tb FFMPEG w) (\<lambda>version w.
       extract_subs_loop tb p out_dir version 0 ss [] w))))"

section \<open>Frames\<close>

definition frame_ts :: "int \<Rightarrow> real \<Rightarrow> nat \<Rightarrow> real" where
  "frame_ts n total_s i = (of_nat i + 1/2) / of_int n * total_s"

definition frame_params :: "int \<Rightarrow> nat \<Rightarrow> real \<Rightarrow> string" where
  "frame_params n i ts =
     ''n='' @ show_int n @ '':index='' @ show_int (int i) @ '':ts='' @ fixed6 ts"

text \<open>One frame: the fingerprint, the ffmpeg call, the asset.\<close>

definition sample_frame ::
  "toolbox \<Rightarrow> path \<Rightarrow> path \<Rightarrow> string \<Rightarrow> int \<Rightarrow> nat \<Rightarrow> real \<Rightarrow> world \<Rightarrow> extracted res \<times> world" where
  "sample_frame tb p out_dir version n i ts w =
     and_then (fingerprint tb p ''sample_frames'' (frame_params n i ts) w) (\<lambda>fp w.
     let out_path = path_str (path_div out_dir (asset_name p ''frame'' fp ''jpg'')) in
     and_then (run_tool tb [FFMPEG, ''-y'', ''-ss'', fixed6 ts, ''-i'', path_str p, ''-frames:v'', ''1'', ''-vf'',
                 ''scale=w='' @ show_int THUMBNAIL_MAX_WIDTH @ '':h=-2:force_original_aspect_ratio=decrease'',
                 ''-q:v'', ''3'', out_path] w) (\<lambda>_ w.
       (Inr \<lparr>ex_type = AFrames, ex_path = Some out_path, ex_payload = None, ex_fingerprint = fp,
             ex_tool_meta = JObj [(''ffmpeg_version'', JStr version), (''index'', JInt (int i)),
               (''timestamp_s'', JFloat ts)]\<rparr>, w)))"

fun sample_loop ::
  "toolbox \<Rightarrow> path \<Rightarrow> path \<Rightarrow> string \<Rightarrow> int \<Rightarrow> (nat \<times> real) list \<Rightarrow> extracted list \<Rightarrow> world \<Rightarrow> extracted list res \<times> world"
  where
  "sample_loop tb p out_dir version n [] acc w = (Inr acc, w)"
| "sample_loop tb p out_dir version n (x # xs) acc w =
     (case sample_frame tb p out_dir version n (fst x) (snd x) w of
        (Inl e, w1) \<Rightarrow> (Inl e, w1)
      | (Inr a, w1) \<Rightarrow> sample_loop tb p out_dir version n xs (acc @ [a]) w1)"

text \<open>\<open>Image.open\<close> of a frame ffmpeg did not write raises an \<open>OSError\<close>.\<close>

fun hash_frames :: "toolbox \<Rightarrow> string list \<Rightarrow> world \<Rightarrow> string list res \<times> world" where
  "hash_frames tb [] w = (Inr [], w)"
| "hash_frames tb (f # fs) w =
     (case os_call (tb_env tb) (OsRead f) w of
        (Inl e, w1) \<Rightarrow> (Inl e, w1)
      | (Inr _, w1) \<Rightarrow>
          (case hash_frames tb fs w1 of
             (Inl e, w2) \<Rightarrow> (Inl e, w2)
           | (Inr hs, w2) \<Rightarrow> (Inr (tb_phash tb (case w_fs w1 f of None \<Rightarrow> 0 | Some c \<Rightarrow> c) # hs), w2)))"

definition frame_times :: "int \<Rightarrow> real \<Rightarrow> (nat \<times> real) list" where
  "frame_times n total_s = map (\<lambda>i. (i, frame_ts n total_s i)) [0..<nat n]"

definition path_of :: "extracted \<Rightarrow> string" where
  "path_of a = (case ex_path a of None \<Rightarrow> [] | Some p \<Rightarrow> p)"

definition sample_frames ::
  "toolbox \<Rightarrow> path \<Rightarrow> path \<Rightarrow> int \<Rightarrow> extracted option \<Rightarrow> world \<Rightarrow> (frame_hash_seq \<times> extracted list) res \<times> world"
  where
  "sample_frames tb p out_dir n given w =
     and_then (given_or_probe tb p given w) (\<lambda>pr w.
     and_then (pure_res (duration_of tb (or_empty (ex_payload pr))) w) (\<lambda>total_s w.
     and_then (os_call (tb_env tb) (OsMkdir (path_str out_dir)) w) (\<lambda>_ w.
     and_then (tool_version tb FFMPEG w) (\<lambda>version w.
     and_then (sample_loop tb p out_dir version n (frame_times n total_s) [] w) (\<lambda>assets w.
     and_then (hash_frames tb (map path_of assets) w) (\<lambda>hashes w.
       (Inr (\<lparr>fh_algo = PHASH_ALGO, fh_version = PHASH_VERSION, fh_timestamps = map snd (frame_times n total_s),
              fh_hashes = hashes\<rparr>, assets), w)))))))"

text \<open>The mean similarity of the frames both sequences have.\<close>

definition frame_similarity :: "toolbox \<Rightarrow> string \<times> string \<Rightarrow> real" where
  "frame_similarity tb ab = 1 - of_int (tb_distance tb (fst ab) (snd ab)) / of_int PHASH_BITS"

definition hamming_similarity :: "toolbox \<Rightarrow> string list \<Rightarrow> string list \<Rightarrow> real" where
  "hamming_similarity tb a b =
     (let n = min (length a) (length b)
      in if n = 0 then 0 else foldl (\<lambda>t ab. t + frame_similarity tb ab) 0 (zip a b) / of_nat n)"

end
