(* ===== verification/Pipeline.thy ===== *)
theory Pipeline
  imports Assets Scoring Remediate
begin

text \<open>
  \<open>impostarr/pipeline.py\<close>: one job from its assets through the plugins, the scores and the
  verdict to its remediation. The database is the world's; every \<open>session.commit()\<close> is one update
  of it. The plugins and the transcriber are third parties: what a call answers is a parameter.
\<close>

definition AUDIO_OFFSET_S :: real where "AUDIO_OFFSET_S = 60"
definition AUDIO_DURATION_S :: real where "AUDIO_DURATION_S = 900"
definition FRAME_SAMPLE_N :: int where "FRAME_SAMPLE_N = 16"
definition DUPLICATE_SIMILARITY_THRESHOLD :: real where "DUPLICATE_SIMILARITY_THRESHOLD = 9/10"

record loaded_plugin =
  lp_name :: string
  lp_version :: string
  lp_weight :: real
  lp_config :: "json option"
  lp_daily_budget :: "int option"

record deps =
  dp_tools :: toolbox
  dp_codec :: codec
  dp_client :: client
  dp_settings :: settings
  dp_instance :: sonarr_instance
  dp_plugins :: "loaded_plugin list"
  dp_transcribe :: "effect list \<Rightarrow> string \<Rightarrow> transcript res"
  dp_identify :: "effect list \<Rightarrow> string \<Rightarrow> claimed_ident \<Rightarrow> asset_bundle \<Rightarrow> series_context \<Rightarrow> plugin_result res"
  dp_repr :: "exn \<Rightarrow> string"
  dp_worker :: string
  dp_event_bus :: bool

abbreviation dp_env :: "deps \<Rightarrow> environ" where
  "dp_env d \<equiv> tb_env (dp_tools d)"

type_synonym series_cache = "((string \<times> int) \<times> series_context) list"

text \<open>The state of one run: the world, the session's job object, the shared series cache.\<close>

record pstate =
  ps_world :: world
  ps_job :: job_row
  ps_cache :: series_cache

type_synonym 'a pstep = "pstate \<Rightarrow> 'a flow \<times> pstate"

definition on_world :: "(world \<Rightarrow> 'a res \<times> world) \<Rightarrow> 'a pstep" where
  "on_world m s =
     (case m (ps_world s) of
        (Inl e, w) \<Rightarrow> (Fail e, s\<lparr>ps_world := w\<rparr>)
      | (Inr x, w) \<Rightarrow> (Go x, s\<lparr>ps_world := w\<rparr>))"

definition publish :: "deps \<Rightarrow> int \<Rightarrow> string \<Rightarrow> world \<Rightarrow> world" where
  "publish d job_id status w =
     (if dp_event_bus d then w\<lparr>w_trace := w_trace w @ [EPublish job_id status]\<rparr> else w)"

section \<open>Series context and claimed identity\<close>

definition get_series_context ::
  "deps \<Rightarrow> int \<Rightarrow> series_cache \<Rightarrow> world \<Rightarrow> (series_context res \<times> world) \<times> series_cache" where
  "get_series_context d series_id cache w =
     (let key = (si_name (dp_instance d), series_id)
      in case map_of cache key of
           Some ctx \<Rightarrow> ((Inr ctx, w), cache)
         | None \<Rightarrow>
             (case get_series (dp_env d) (dp_codec d) (dp_client d) series_id w of
                (Inl e, w1) \<Rightarrow> ((Inl e, w1), cache)
              | (Inr series, w1) \<Rightarrow>
                  (case get_episodes (dp_env d) (dp_codec d) (dp_client d) series_id w1 of
                     (Inl e, w2) \<Rightarrow> ((Inl e, w2), cache)
                   | (Inr episodes, w2) \<Rightarrow>
                       let ctx = \<lparr>sc_series = series, sc_episodes = episodes\<rparr>
                       in ((Inr ctx, w2), AList.update key ctx cache))))"

definition season_and_numbers :: "int set \<Rightarrow> episode list \<Rightarrow> (int \<times> int list) option" where
  "season_and_numbers ids episodes =
     (case filter (\<lambda>e. ep_id e \<in> ids) episodes of
        [] \<Rightarrow> None
      | e # es \<Rightarrow> Some (ep_season_number e, sort (map ep_episode_number (e # es))))"

definition build_claimed_ident :: "file_row \<Rightarrow> episode list \<Rightarrow> claimed_ident option res" where
  "build_claimed_ident f episodes =
     (case season_and_numbers (set (f_episode_ids f)) episodes of
        None \<Rightarrow> Inr None
      | Some (season, numbers) \<Rightarrow> res_map Some (mk_claimed_ident season numbers (f_episode_ids f)))"

section \<open>Asset rows\<close>

definition asset_row_by_fp :: "db \<Rightarrow> int \<Rightarrow> asset_type \<Rightarrow> string \<Rightarrow> asset_row option res" where
  "asset_row_by_fp d file_id t fp =
     (case filter (\<lambda>a. a_file_id a = file_id \<and> a_type a = t \<and> a_input_fingerprint a = fp) (db_assets d) of
        [] \<Rightarrow> Inr None
      | [a] \<Rightarrow> Inr (Some a)
      | _ \<Rightarrow> Inl MultipleResultsFound)"

definition latest_asset :: "db \<Rightarrow> int \<Rightarrow> asset_type \<Rightarrow> asset_row option" where
  "latest_asset d file_id t = latest_by a_id (filter (\<lambda>a. a_file_id a = file_id \<and> a_type a = t) (db_assets d))"

definition latest_frame_hash :: "db \<Rightarrow> int \<Rightarrow> frame_hash_row option" where
  "latest_frame_hash d file_id = latest_by h_id (filter (\<lambda>h. h_file_id h = file_id) (db_frame_hashes d))"

definition persist_asset_row :: "deps \<Rightarrow> int \<Rightarrow> extracted \<Rightarrow> world \<Rightarrow> world" where
  "persist_asset_row d file_id x w =
     (let r = \<lparr>a_id = fresh_id (map a_id (db_assets (w_db w))), a_file_id = file_id, a_type = ex_type x,
               a_path = ex_path x, a_payload = ex_payload x, a_input_fingerprint = ex_fingerprint x,
               a_tool_meta = ex_tool_meta x, a_created_at = now_of (dp_env d) w\<rparr>
      in w\<lparr>w_db := (w_db w)\<lparr>db_assets := db_assets (w_db w) @ [r]\<rparr>\<rparr>)"

definition extracted_from_row :: "asset_row \<Rightarrow> extracted" where
  "extracted_from_row r =
     \<lparr>ex_type = a_type r, ex_path = a_path r, ex_payload = a_payload r,
      ex_fingerprint = a_input_fingerprint r, ex_tool_meta = a_tool_meta r\<rparr>"

text \<open>\<open>except ExtractError: return None\<close> and \<open>except OSError: return None\<close>.\<close>

fun is_extract_error :: "exn \<Rightarrow> bool" where
  "is_extract_error (ExtractError m) = True"
| "is_extract_error _ = False"

fun is_os_error :: "exn \<Rightarrow> bool" where
  "is_os_error (OSErr n m) = True"
| "is_os_error _ = False"

definition none_on :: "(exn \<Rightarrow> bool) \<Rightarrow> 'a option res \<times> world \<Rightarrow> 'a option res \<times> world" where
  "none_on P rw = (case rw of (Inl e, w) \<Rightarrow> (if P e then Inr None else Inl e, w) | _ \<Rightarrow> rw)"

section \<open>The asset stages\<close>

text \<open>
  A stage of one asset: the row of the expected fingerprint if there is one, else the extraction,
  whose result is persisted.
\<close>

definition cached_or_extract ::
  "deps \<Rightarrow> int \<Rightarrow> asset_type \<Rightarrow> string \<Rightarrow> (world \<Rightarrow> extracted res \<times> world) \<Rightarrow> world \<Rightarrow> extracted option res \<times> world"
  where
  "cached_or_extract d file_id t fp extract w =
     (case asset_row_by_fp (w_db w) file_id t fp of
        Inl e \<Rightarrow> (Inl e, w)
      | Inr (Some row) \<Rightarrow> (Inr (Some (extracted_from_row row)), w)
      | Inr None \<Rightarrow>
          (case extract w of
             (Inl e, w1) \<Rightarrow> (if is_extract_error e then Inr None else Inl e, w1)
           | (Inr x, w1) \<Rightarrow> (Inr (Some x), persist_asset_row d file_id x w1)))"

definition stage_one ::
  "deps \<Rightarrow> int \<Rightarrow> asset_type \<Rightarrow> (world \<Rightarrow> string res \<times> world) \<Rightarrow> (world \<Rightarrow> extracted res \<times> world) \<Rightarrow> world
     \<Rightarrow> extracted option res \<times> world" where
  "stage_one d file_id t fp extract w =
     (case fp w of
        (Inl e, w1) \<Rightarrow> (if is_os_error e then Inr None else Inl e, w1)
      | (Inr f, w1) \<Rightarrow> cached_or_extract d file_id t f extract w1)"

definition stage_probe :: "deps \<Rightarrow> file_row \<Rightarrow> path \<Rightarrow> world \<Rightarrow> extracted option res \<times> world" where
  "stage_probe d f p = stage_one d (f_id f) AProbe (fingerprint (dp_tools d) p ''probe'' []) (probe (dp_tools d) p)"

definition stage_audio ::
  "deps \<Rightarrow> file_row \<Rightarrow> path \<Rightarrow> path \<Rightarrow> extracted option \<Rightarrow> world \<Rightarrow> extracted option res \<times> world" where
  "stage_audio d f p out_dir pr =
     stage_one d (f_id f) AAudio
       (fingerprint (dp_tools d) p ''extract_audio'' (audio_params (dp_tools d) AUDIO_OFFSET_S AUDIO_DURATION_S))
       (extract_audio (dp_tools d) p out_dir AUDIO_OFFSET_S AUDIO_DURATION_S pr)"

text \<open>The fingerprints the subtitle extraction would give, in stream order.\<close>

fun expected_subs :: "toolbox \<Rightarrow> path \<Rightarrow> int \<Rightarrow> json list \<Rightarrow> world \<Rightarrow> string list res \<times> world" where
  "expected_subs tb p i [] w = (Inr [], w)"
| "expected_subs tb p i (s # ss) w =
     and_then (pure_res (codec_of s) w) (\<lambda>codec w.
       if \<not> is_text_sub codec \<and> image_sub_ext codec = None then expected_subs tb p (i + 1) ss w
       else
         and_then (fingerprint tb p ''extract_embedded_subs'' (sub_params i codec) w) (\<lambda>fp w.
         and_then (expected_subs tb p (i + 1) ss w) (\<lambda>fps w. (Inr (fp # fps), w))))"

definition expected_sub_fingerprints :: "toolbox \<Rightarrow> path \<Rightarrow> json \<Rightarrow> world \<Rightarrow> string list res \<times> world" where
  "expected_sub_fingerprints tb p payload w =
     and_then (pure_res (res_bind (streams_of payload) sub_streams) w) (\<lambda>ss w. expected_subs tb p 0 ss w)"

text \<open>Every expected row, when all are there.\<close>

definition all_cached :: "db \<Rightarrow> int \<Rightarrow> asset_type \<Rightarrow> string list \<Rightarrow> asset_row list option res" where
  "all_cached d file_id t fps =
     res_map (\<lambda>rows. if None \<in> set rows then None else Some (map the rows))
       (traverse (asset_row_by_fp d file_id t) fps)"

definition persist_all :: "deps \<Rightarrow> int \<Rightarrow> extracted list \<Rightarrow> world \<Rightarrow> world" where
  "persist_all d file_id xs w = fold (persist_asset_row d file_id) xs w"

definition extract_subs_stage ::
  "deps \<Rightarrow> file_row \<Rightarrow> path \<Rightarrow> path \<Rightarrow> extracted option \<Rightarrow> world \<Rightarrow> extracted list option res \<times> world" where
  "extract_subs_stage d f p out_dir pr w =
     (case extract_embedded_subs (dp_tools d) p out_dir pr w of
        (Inl e, w1) \<Rightarrow> (if is_extract_error e then Inr None else Inl e, w1)
      | (Inr xs, w1) \<Rightarrow> (Inr (Some xs), persist_all d (f_id f) xs w1))"

definition stage_subs ::
  "deps \<Rightarrow> file_row \<Rightarrow> path \<Rightarrow> path \<Rightarrow> extracted option \<Rightarrow> world \<Rightarrow> extracted list option res \<times> world" where
  "stage_subs d f p out_dir pr w =
     (case pr of
        None \<Rightarrow> extract_subs_stage d f p out_dir pr w
      | Some x \<Rightarrow>
          (case expected_sub_fingerprints (dp_tools d) p (or_empty (ex_payload x)) w of
             (Inl e, w1) \<Rightarrow>
               if is_os_error e then extract_subs_stage d f p out_dir pr w1 else (Inl e, w1)
           | (Inr fps, w1) \<Rightarrow>
               if fps = [] then (Inr (Some []), w1)
               else (case all_cached (w_db w1) (f_id f) ASubs fps of
                       Inl e \<Rightarrow> (Inl e, w1)
                     | Inr (Some rows) \<Rightarrow> (Inr (Some (map extracted_from_row rows)), w1)
                     | Inr None \<Rightarrow> extract_subs_stage d f p out_dir pr w1)))"

fun expected_frames ::
  "toolbox \<Rightarrow> path \<Rightarrow> int \<Rightarrow> (nat \<times> real) list \<Rightarrow> world \<Rightarrow> string list res \<times> world" where
  "expected_frames tb p n [] w = (Inr [], w)"
| "expected_frames tb p n (x # xs) w =
     and_then (fingerprint tb p ''sample_frames'' (frame_params n (fst x) (snd x)) w) (\<lambda>fp w.
     and_then (expected_frames tb p n xs w) (\<lambda>fps w. (Inr (fp # fps), w)))"

definition expected_frame_fingerprints :: "toolbox \<Rightarrow> path \<Rightarrow> json \<Rightarrow> int \<Rightarrow> world \<Rightarrow> string list res \<times> world"
  where
  "expected_frame_fingerprints tb p payload n w =
     and_then (pure_res (duration_of tb payload) w) (\<lambda>total_s w. expected_frames tb p n (frame_times n total_s) w)"

definition seq_of_row :: "frame_hash_row \<Rightarrow> frame_hash_seq" where
  "seq_of_row h =
     \<lparr>fh_algo = h_algo h, fh_version = h_version h, fh_timestamps = h_timestamps h, fh_hashes = h_hashes h\<rparr>"

definition insert_frame_hash :: "deps \<Rightarrow> int \<Rightarrow> frame_hash_seq \<Rightarrow> world \<Rightarrow> frame_hash_row \<times> world" where
  "insert_frame_hash d file_id sq w =
     (let h = \<lparr>h_id = fresh_id (map h_id (db_frame_hashes (w_db w))), h_file_id = file_id, h_algo = fh_algo sq,
               h_version = fh_version sq, h_timestamps = fh_timestamps sq, h_hashes = fh_hashes sq,
               h_created_at = now_of (dp_env d) w\<rparr>
      in (h, w\<lparr>w_db := (w_db w)\<lparr>db_frame_hashes := db_frame_hashes (w_db w) @ [h]\<rparr>\<rparr>))"

type_synonym frames = "(frame_hash_seq \<times> frame_hash_row) option"

text \<open>The row found on entry is kept even when the frames are sampled again.\<close>

definition sample_frames_stage ::
  "deps \<Rightarrow> file_row \<Rightarrow> path \<Rightarrow> path \<Rightarrow> extracted option \<Rightarrow> int \<Rightarrow> frame_hash_row option \<Rightarrow> world \<Rightarrow> frames res \<times> world"
  where
  "sample_frames_stage d f p out_dir pr n existing w =
     (case sample_frames (dp_tools d) p out_dir n pr w of
        (Inl e, w1) \<Rightarrow> (if is_extract_error e then Inr None else Inl e, w1)
      | (Inr (sq, xs), w1) \<Rightarrow>
          let w2 = persist_all d (f_id f) xs w1
          in (case existing of
                Some h \<Rightarrow> (Inr (Some (sq, h)), w2)
              | None \<Rightarrow>
                  (case insert_frame_hash d (f_id f) sq w2 of (h, w3) \<Rightarrow> (Inr (Some (sq, h)), w3))))"

text \<open>\<open>except (KeyError, TypeError, ValueError, OSError)\<close>.\<close>

definition frame_fps_tolerated :: "exn \<Rightarrow> bool" where
  "frame_fps_tolerated e \<longleftrightarrow> e \<in> {KeyError, TypeError, ValueError} \<or> is_os_error e"

definition stage_frames ::
  "deps \<Rightarrow> file_row \<Rightarrow> path \<Rightarrow> path \<Rightarrow> extracted option \<Rightarrow> int \<Rightarrow> world \<Rightarrow> frames res \<times> world" where
  "stage_frames d f p out_dir pr n w =
     (let existing = latest_frame_hash (w_db w) (f_id f)
      in case (pr, existing) of
           (Some x, Some h) \<Rightarrow>
             (case expected_frame_fingerprints (dp_tools d) p (or_empty (ex_payload x)) n w of
                (Inl e, w1) \<Rightarrow>
                  if frame_fps_tolerated e then sample_frames_stage d f p out_dir pr n existing w1 else (Inl e, w1)
              | (Inr fps, w1) \<Rightarrow>
                  (case all_cached (w_db w1) (f_id f) AFrames fps of
                     Inl e \<Rightarrow> (Inl e, w1)
                   | Inr (Some (r # rs)) \<Rightarrow> (Inr (Some (seq_of_row h, h)), w1)
                   | Inr _ \<Rightarrow> sample_frames_stage d f p out_dir pr n existing w1))
         | _ \<Rightarrow> sample_frames_stage d f p out_dir pr n existing w)"

text \<open>
  The transcript: any stored one is taken as it is; a new one is shifted by the slice's start into
  file time.
\<close>

definition slice_offset :: "toolbox \<Rightarrow> json \<Rightarrow> real res" where
  "slice_offset tb meta =
     res_bind (json_get meta ''start_s'') (\<lambda>st.
     res_bind (json_get meta ''offset_s'') (\<lambda>off.
       json_float (tb_float_of tb) (case off of Some v \<Rightarrow> v | None \<Rightarrow> (case st of Some v \<Rightarrow> v | None \<Rightarrow> JFloat 0))))"

definition shift_segments :: "real \<Rightarrow> transcript \<Rightarrow> transcript" where
  "shift_segments off t =
     t\<lparr>tr_segments := map (\<lambda>s. s\<lparr>ts_start := ts_start s + off, ts_end := ts_end s + off\<rparr>) (tr_segments t)\<rparr>"

definition transcribe_and_persist ::
  "deps \<Rightarrow> file_row \<Rightarrow> extracted \<Rightarrow> string \<Rightarrow> world \<Rightarrow> json option res \<times> world" where
  "transcribe_and_persist d f audio wav w =
     (let w1 = await_effect (dp_env d) (ETranscribe wav) w
      in case dp_transcribe d (w_trace w1) wav of
           Inl (TranscribeError m) \<Rightarrow> (Inr None, w1)
         | Inl e \<Rightarrow> (Inl e, w1)
         | Inr t \<Rightarrow>
             (case slice_offset (dp_tools d) (ex_tool_meta audio) of
                Inl e \<Rightarrow> (Inl e, w1)
              | Inr off \<Rightarrow>
                  let payload = transcript_dump (if off = 0 then t else shift_segments off t);
                      x = \<lparr>ex_type = ATranscript, ex_path = None, ex_payload = Some payload,
                           ex_fingerprint = ex_fingerprint audio,
                           ex_tool_meta = JObj [(''offset_s'', JFloat off)]\<rparr>
                  in (Inr (Some payload), persist_asset_row d (f_id f) x w1)))"

definition stage_transcript :: "deps \<Rightarrow> file_row \<Rightarrow> extracted option \<Rightarrow> world \<Rightarrow> json option res \<times> world" where
  "stage_transcript d f audio w =
     (case audio of
        None \<Rightarrow> (Inr None, w)
      | Some x \<Rightarrow>
          (case ex_path x of
             None \<Rightarrow> (Inr None, w)
           | Some wav \<Rightarrow>
               (case latest_asset (w_db w) (f_id f) ATranscript of
                  Some row \<Rightarrow> (Inr (a_payload row), w)
                | None \<Rightarrow> transcribe_and_persist d f x (path_str (mk_path wav)) w)))"

section \<open>Duplicates\<close>

text \<open>The most similar other file at or above the threshold, the first on a tie.\<close>

definition better_duplicate ::
  "toolbox \<Rightarrow> string list \<Rightarrow> frame_hash_row \<Rightarrow> (int \<times> real) option \<Rightarrow> (int \<times> real) option" where
  "better_duplicate tb hashes other best =
     (let sim = hamming_similarity tb hashes (h_hashes other)
      in if sim \<ge> DUPLICATE_SIMILARITY_THRESHOLD \<and> (case best of None \<Rightarrow> True | Some b \<Rightarrow> sim > snd b)
         then Some (h_file_id other, sim) else best)"

definition check_duplicates :: "toolbox \<Rightarrow> db \<Rightarrow> file_row \<Rightarrow> frame_hash_seq \<Rightarrow> dupe_info option" where
  "check_duplicates tb d f sq =
     map_option
       (\<lambda>(i, sim). \<lparr>du_file_id = i, du_similarity = sim,
          du_sonarr_path = map_option f_sonarr_path (get_row f_id i (db_files d))\<rparr>)
       (fold (better_duplicate tb (fh_hashes sq)) (filter (\<lambda>h. h_file_id h \<noteq> f_id f) (db_frame_hashes d)) None)"

end
