(* ===== verification/ProcessJob.thy ===== *)
theory ProcessJob
  imports Pipeline
begin

text \<open>
  The second half of \<open>impostarr/pipeline.py\<close>: the plugin stage with its cache and daily budgets,
  the verdict, the phash corpus, and \<open>process_job\<close> with its catch-all.
\<close>

section \<open>Plugins\<close>

definition plugin_payload ::
  "deps \<Rightarrow> loaded_plugin \<Rightarrow> json \<Rightarrow> claimed_ident \<Rightarrow> series_context \<Rightarrow> json" where
  "plugin_payload d lp asset_fps claimed ctx =
     JObj [(''plugin_name'', JStr (lp_name lp)), (''plugin_version'', JStr (lp_version lp)),
           (''plugin_config'', json_opt (\<lambda>c. c) (lp_config lp)), (''asset_fingerprints'', asset_fps),
           (''claimed'', claimed_dump claimed),
           (''series_digest'', JStr (tb_xxh64 (dp_tools d) (json_dumps (tb_float (dp_tools d)) (context_dump ctx))))]"

definition plugin_fingerprint ::
  "deps \<Rightarrow> loaded_plugin \<Rightarrow> json \<Rightarrow> claimed_ident \<Rightarrow> series_context \<Rightarrow> string" where
  "plugin_fingerprint d lp asset_fps claimed ctx =
     tb_xxh64 (dp_tools d) (json_dumps (tb_float (dp_tools d)) (plugin_payload d lp asset_fps claimed ctx))"

definition plugin_executions_today :: "db \<Rightarrow> string \<Rightarrow> datetime \<Rightarrow> int" where
  "plugin_executions_today d name now =
     int (rowcount (\<lambda>r. pl_plugin_name r = name \<and> utc_midnight now \<le> pl_created_at r) (db_plugin_results d))"

text \<open>The most recent \<open>ok\<close> row of the same job, plugin and fingerprint.\<close>

definition cached_result :: "db \<Rightarrow> int \<Rightarrow> string \<Rightarrow> string \<Rightarrow> plugin_result_row option" where
  "cached_result d job_id name fp =
     latest_by pl_created_at
       (filter (\<lambda>r. pl_job_id r = job_id \<and> pl_plugin_name r = name \<and> pl_input_fingerprint r = fp \<and>
                    pl_status r = POk) (db_plugin_results d))"

definition validate_candidate :: "candidate \<Rightarrow> candidate res" where
  "validate_candidate c = (if valid_candidate c then Inr c else Inl ValidationError)"

definition result_of_row :: "plugin_result_row \<Rightarrow> plugin_result res" where
  "result_of_row r =
     res_bind (traverse validate_candidate (pl_candidates r)) (mk_plugin_result (pl_status r) (pl_reason r))"

definition over_budget :: "deps \<Rightarrow> loaded_plugin \<Rightarrow> world \<Rightarrow> bool" where
  "over_budget d lp w =
     (case lp_daily_budget lp of
        None \<Rightarrow> False
      | Some b \<Rightarrow> plugin_executions_today (w_db w) (lp_name lp) (now_of (dp_env d) w) \<ge> b)"

definition insert_plugin_result ::
  "deps \<Rightarrow> int \<Rightarrow> loaded_plugin \<Rightarrow> plugin_result \<Rightarrow> norm_result list \<Rightarrow> string \<Rightarrow> world \<Rightarrow> world" where
  "insert_plugin_result d job_id lp r norms fp w =
     (let row = \<lparr>pl_id = fresh_id (map pl_id (db_plugin_results (w_db w))), pl_job_id = job_id,
                 pl_plugin_name = lp_name lp, pl_plugin_version = lp_version lp, pl_status = pr_status r,
                 pl_reason = pr_reason r, pl_candidates = pr_candidates r, pl_normalized = norms,
                 pl_input_fingerprint = fp, pl_created_at = now_of (dp_env d) w\<rparr>
      in w\<lparr>w_db := (w_db w)\<lparr>db_plugin_results := db_plugin_results (w_db w) @ [row]\<rparr>\<rparr>)"

text \<open>A call of \<open>identify\<close>: whatever it raises becomes an error result.\<close>

definition identify ::
  "deps \<Rightarrow> loaded_plugin \<Rightarrow> claimed_ident \<Rightarrow> asset_bundle \<Rightarrow> series_context \<Rightarrow> world \<Rightarrow> plugin_result \<times> world" where
  "identify d lp claimed bundle ctx w =
     (let w1 = await_effect (dp_env d) (EIdentify (lp_name lp)) w
      in (case dp_identify d (w_trace w1) (lp_name lp) claimed bundle ctx of
            Inr r \<Rightarrow> r
          | Inl e \<Rightarrow> \<lparr>pr_status = PError, pr_reason = Some (''plugin raised: '' @ dp_repr d e), pr_candidates = []\<rparr>,
          w1))"

definition execute_plugin ::
  "deps \<Rightarrow> int \<Rightarrow> loaded_plugin \<Rightarrow> claimed_ident \<Rightarrow> asset_bundle \<Rightarrow> series_context \<Rightarrow> string \<Rightarrow> world
     \<Rightarrow> plugin_result res \<times> world" where
  "execute_plugin d job_id lp claimed bundle ctx fp w =
     (case identify d lp claimed bundle ctx w of
        (r, w1) \<Rightarrow>
          (case traverse (\<lambda>c. normalize_cand c ctx) (pr_candidates r) of
             Inl e \<Rightarrow> (Inl e, w1)
           | Inr norms \<Rightarrow> (Inr r, insert_plugin_result d job_id lp r norms fp w1)))"

definition plugin_result_for ::
  "deps \<Rightarrow> int \<Rightarrow> loaded_plugin \<Rightarrow> claimed_ident \<Rightarrow> asset_bundle \<Rightarrow> series_context \<Rightarrow> json \<Rightarrow> world
     \<Rightarrow> plugin_result res \<times> world" where
  "plugin_result_for d job_id lp claimed bundle ctx asset_fps w =
     (let fp = plugin_fingerprint d lp asset_fps claimed ctx
      in case cached_result (w_db w) job_id (lp_name lp) fp of
           Some row \<Rightarrow> (result_of_row row, w)
         | None \<Rightarrow>
             if over_budget d lp w
             then (Inr \<lparr>pr_status = PAbstain, pr_reason = Some ''daily budget reached'', pr_candidates = []\<rparr>, w)
             else execute_plugin d job_id lp claimed bundle ctx fp w)"

definition outcome_of ::
  "series_context \<Rightarrow> loaded_plugin \<Rightarrow> plugin_result \<Rightarrow> plugin_outcome res" where
  "outcome_of ctx lp r =
     res_map (\<lambda>norms. \<lparr>po_plugin_name = lp_name lp, po_weight = lp_weight lp, po_result = r, po_normalized = norms\<rparr>)
       (traverse (\<lambda>c. normalize_cand c ctx) (pr_candidates r))"

fun run_plugins ::
  "deps \<Rightarrow> int \<Rightarrow> claimed_ident \<Rightarrow> asset_bundle \<Rightarrow> series_context \<Rightarrow> json \<Rightarrow> loaded_plugin list
     \<Rightarrow> plugin_outcome list \<Rightarrow> world \<Rightarrow> plugin_outcome list res \<times> world" where
  "run_plugins d job_id claimed bundle ctx asset_fps [] acc w = (Inr acc, w)"
| "run_plugins d job_id claimed bundle ctx asset_fps (lp # lps) acc w =
     (case plugin_result_for d job_id lp claimed bundle ctx asset_fps w of
        (Inl e, w1) \<Rightarrow> (Inl e, w1)
      | (Inr r, w1) \<Rightarrow>
          (case outcome_of ctx lp r of
             Inl e \<Rightarrow> (Inl e, w1)
           | Inr po \<Rightarrow> run_plugins d job_id claimed bundle ctx asset_fps lps (acc @ [po]) w1))"

definition run_plugin_stage ::
  "deps \<Rightarrow> int \<Rightarrow> claimed_ident \<Rightarrow> asset_bundle \<Rightarrow> series_context \<Rightarrow> json \<Rightarrow> world
     \<Rightarrow> plugin_outcome list res \<times> world" where
  "run_plugin_stage d job_id claimed bundle ctx asset_fps w =
     run_plugins d job_id claimed bundle ctx asset_fps (dp_plugins d) [] w"

section \<open>The phash corpus\<close>

definition external_ids_from_series :: "series \<Rightarrow> (string \<times> ext_id) list" where
  "external_ids_from_series s =
     (case se_tvdb_id s of None \<Rightarrow> [] | Some i \<Rightarrow> [(''tvdb'', IdInt i)]) @
     (case se_tmdb_id s of None \<Rightarrow> [] | Some i \<Rightarrow> [(''tmdb'', IdInt i)]) @
     (case se_imdb_id s of None \<Rightarrow> [] | Some i \<Rightarrow> [(''imdb'', IdStr i)])"

definition write_phash_corpus ::
  "deps \<Rightarrow> frame_hash_row \<Rightarrow> series_context \<Rightarrow> int set \<Rightarrow> real \<Rightarrow> world \<Rightarrow> world" where
  "write_phash_corpus d h ctx ids confidence w =
     (case season_and_numbers ids (sc_episodes ctx) of
        None \<Rightarrow> w
      | Some (season, numbers) \<Rightarrow>
          let r = \<lparr>c_id = fresh_id (map c_id (db_corpus (w_db w))), c_frame_hash_id = h_id h,
                   c_external_ids = external_ids_from_series (sc_series ctx), c_season = season,
                   c_episodes = numbers, c_confidence = confidence, c_source = SrcAuto,
                   c_created_at = now_of (dp_env d) w\<rparr>
          in w\<lparr>w_db := (w_db w)\<lparr>db_corpus := db_corpus (w_db w) @ [r]\<rparr>\<rparr>)"

section \<open>The stages of a job\<close>

text \<open>What the asset stages hand to the rest.\<close>

record gathered =
  ga_probe :: "extracted option"
  ga_audio :: "extracted option"
  ga_subs :: "extracted list option"
  ga_frames :: frames
  ga_transcript :: "json option"
  ga_dupe :: "dupe_info option"

definition all_failed :: "extracted option \<Rightarrow> extracted option \<Rightarrow> extracted list option \<Rightarrow> frames \<Rightarrow> bool" where
  "all_failed pr au su fr \<longleftrightarrow> pr = None \<and> au = None \<and> su = None \<and> fr = None"

definition json_texts :: "string list \<Rightarrow> json" where
  "json_texts xs = JList (map JStr xs)"

definition asset_bundle_of :: "gathered \<Rightarrow> asset_bundle" where
  "asset_bundle_of g =
     \<lparr>ab_probe = (case ga_probe g of None \<Rightarrow> None | Some x \<Rightarrow> ex_payload x),
      ab_audio_path = (case ga_audio g of None \<Rightarrow> None | Some x \<Rightarrow> ex_path x),
      ab_transcript = ga_transcript g,
      ab_sub_paths = (case ga_subs g of None \<Rightarrow> [] | Some xs \<Rightarrow> map path_of xs),
      ab_frame_hashes = map_option fst (ga_frames g)\<rparr>"

definition asset_fingerprints_of :: "deps \<Rightarrow> gathered \<Rightarrow> json" where
  "asset_fingerprints_of d g =
     JObj [(''probe'', json_opt (\<lambda>x. JStr (ex_fingerprint x)) (ga_probe g)),
           (''audio'', json_opt (\<lambda>x. JStr (ex_fingerprint x)) (ga_audio g)),
           (''subs'', json_texts (case ga_subs g of None \<Rightarrow> [] | Some xs \<Rightarrow> map ex_fingerprint xs)),
           (''transcript'',
             case ga_transcript g of None \<Rightarrow> JNull
             | Some _ \<Rightarrow> json_opt (\<lambda>x. JStr (ex_fingerprint x)) (ga_audio g)),
           (''frames'',
             json_opt (\<lambda>f. JStr (tb_xxh64 (dp_tools d) (join '':'' (fh_hashes (fst f))))) (ga_frames g))]"

text \<open>\<open>jobs.release(session, job, status, deps.worker_id)\<close> on the session's job object.\<close>

definition release_step :: "deps \<Rightarrow> job_status \<Rightarrow> unit pstep" where
  "release_step d status s =
     (let w = ps_world s
      in case release (w_db w) (ps_job s) status (dp_worker d) (now_of (dp_env d) w) of
           Inl e \<Rightarrow> (Fail e, s)
         | Inr (j, db) \<Rightarrow> (Go (), s\<lparr>ps_job := j, ps_world := w\<lparr>w_db := db\<rparr>\<rparr>))"

definition publish_step :: "deps \<Rightarrow> job_status \<Rightarrow> unit pstep" where
  "publish_step d status s =
     (Go (), s\<lparr>ps_world := publish d (j_id (ps_job s)) (job_status_str status) (ps_world s)\<rparr>)"

text \<open>\<open>release(..., "error")\<close>, publish, \<open>return\<close>.\<close>

definition give_up :: "deps \<Rightarrow> 'a pstep" where
  "give_up d =
     flow_bind (release_step d Errored) (\<lambda>_. flow_bind (publish_step d Errored) (\<lambda>_ s. (Halt, s)))"

definition context_step :: "deps \<Rightarrow> int \<Rightarrow> series_context pstep" where
  "context_step d series_id s =
     (case get_series_context d series_id (ps_cache s) (ps_world s) of
        ((Inl e, w), c) \<Rightarrow> (Fail e, s\<lparr>ps_world := w, ps_cache := c\<rparr>)
      | ((Inr ctx, w), c) \<Rightarrow> (Go ctx, s\<lparr>ps_world := w, ps_cache := c\<rparr>))"

definition lift_res :: "'a res \<Rightarrow> 'a pstep" where
  "lift_res r s = (case r of Inl e \<Rightarrow> (Fail e, s) | Inr x \<Rightarrow> (Go x, s))"

definition claimed_step :: "deps \<Rightarrow> file_row \<Rightarrow> series_context \<Rightarrow> claimed_ident pstep" where
  "claimed_step d f ctx =
     flow_bind (lift_res (build_claimed_ident f (sc_episodes ctx)))
       (\<lambda>c. case c of None \<Rightarrow> give_up d | Some claimed \<Rightarrow> (\<lambda>s. (Go claimed, s)))"

definition out_dir_of :: "deps \<Rightarrow> file_row \<Rightarrow> path" where
  "out_dir_of d f = path_div (mk_path (st_assets_dir (dp_settings d))) (show_int (f_id f))"

definition gather_step :: "deps \<Rightarrow> file_row \<Rightarrow> gathered pstep" where
  "gather_step d f =
     (let p = mk_path (f_local_path f); out_dir = out_dir_of d f in
      flow_bind (on_world (stage_probe d f p)) (\<lambda>pr.
      flow_bind (on_world (stage_audio d f p out_dir pr)) (\<lambda>au.
      flow_bind (on_world (stage_subs d f p out_dir pr)) (\<lambda>su.
      flow_bind (on_world (stage_frames d f p out_dir pr FRAME_SAMPLE_N)) (\<lambda>fr.
      if all_failed pr au su fr then give_up d
      else
        flow_bind (on_world (stage_transcript d f au)) (\<lambda>tr s.
          (Go \<lparr>ga_probe = pr, ga_audio = au, ga_subs = su, ga_frames = fr, ga_transcript = tr,
               ga_dupe = (case fr of None \<Rightarrow> None
                          | Some x \<Rightarrow> check_duplicates (dp_tools d) (w_db (ps_world s)) f (fst x))\<rparr>, s)))))))"

definition flags_of :: "deps \<Rightarrow> instance_flags" where
  "flags_of d =
     \<lparr>fl_auto_remap = si_auto_remap (dp_instance d), fl_auto_replace = si_auto_replace (dp_instance d),
      fl_approval_required = st_approval_required (dp_settings d)\<rparr>"

definition judge :: "deps \<Rightarrow> claimed_ident \<Rightarrow> plugin_outcome list \<Rightarrow> (score_sheet \<times> routing_decision) res" where
  "judge d claimed outcomes =
     res_bind (aggregate outcomes (set (cl_episode_ids claimed)) (Some (st_scoring (dp_settings d))))
       (\<lambda>sheet. res_map (Pair sheet) (route sheet (st_thresholds (dp_settings d)) (flags_of d)))"

definition action_json_of :: "action \<Rightarrow> action_json" where
  "action_json_of a = (case a of Remap ids \<Rightarrow> RemapJson (sorted_list_of_set ids) | Replace \<Rightarrow> ReplaceJson)"

definition proposed_of :: "routing_decision \<Rightarrow> action_json option" where
  "proposed_of rd = (if rd_auto rd then None else map_option action_json_of (rd_action rd))"

definition insert_verdict ::
  "deps \<Rightarrow> score_sheet \<Rightarrow> routing_decision \<Rightarrow> dupe_info option \<Rightarrow> unit pstep" where
  "insert_verdict d sheet rd dupe s =
     (let w = ps_world s;
          v = \<lparr>v_id = fresh_id (map v_id (db_verdicts (w_db w))), v_job_id = j_id (ps_job s),
               v_s_claimed = ss_s_claimed sheet, v_s_alt = ss_s_alt sheet, v_outcome = rd_outcome rd,
               v_proposed_action = proposed_of rd, v_remediation_log = [], v_source = SrcAuto,
               v_human_ident = None, v_dupe_info = dupe, v_apply_at = None, v_created_at = now_of (dp_env d) w\<rparr>
      in (Go (), s\<lparr>ps_world := w\<lparr>w_db := (w_db w)\<lparr>db_verdicts := db_verdicts (w_db w) @ [v]\<rparr>\<rparr>\<rparr>))"

definition remediator_of :: "deps \<Rightarrow> remediator" where
  "remediator_of d =
     \<lparr>re_env = dp_env d, re_codec = dp_codec d, re_client = dp_client d, re_instance = dp_instance d,
      re_dry_run = st_dry_run (dp_settings d), re_trash = Some (st_trash (dp_settings d)), re_worker = dp_worker d\<rparr>"

text \<open>The remediation runs in sessions of its own: the job object here is not touched.\<close>

definition remediate_step :: "deps \<Rightarrow> routing_decision \<Rightarrow> job_status pstep" where
  "remediate_step d rd =
     flow_bind
       (\<lambda>s. on_world (case rd_action rd of
                        Some (Remap ids) \<Rightarrow> remap (remediator_of d) (j_id (ps_job s)) ids
                      | _ \<Rightarrow> replace (remediator_of d) (j_id (ps_job s))) s)
       (\<lambda>_ s. case get_row j_id (j_id (ps_job s)) (db_jobs (w_db (ps_world s))) of
                None \<Rightarrow> (Fail AttributeError, s)
              | Some j \<Rightarrow> (Go (j_status j), s))"

definition settle_outcome :: "deps \<Rightarrow> routing_decision \<Rightarrow> job_status pstep" where
  "settle_outcome d rd =
     (case rd_outcome rd of
        OMatched \<Rightarrow> flow_bind (release_step d Matched) (\<lambda>_ s. (Go Matched, s))
      | OQuarantine \<Rightarrow> flow_bind (release_step d Quarantine) (\<lambda>_ s. (Go Quarantine, s))
      | OInconclusive \<Rightarrow> flow_bind (release_step d Inconclusive) (\<lambda>_ s. (Go Inconclusive, s))
      | ORemediate \<Rightarrow> remediate_step d rd)"

text \<open>Which identity the frame hashes are stored under, and at what score.\<close>

definition corpus_entry ::
  "deps \<Rightarrow> claimed_ident \<Rightarrow> score_sheet \<Rightarrow> routing_decision \<Rightarrow> job_status \<Rightarrow> (int set \<times> real) option" where
  "corpus_entry d claimed sheet rd final =
     (let threshold = th_phash_store (st_thresholds (dp_settings d))
      in if final = Matched \<and> (case ss_s_claimed sheet of None \<Rightarrow> False | Some x \<Rightarrow> threshold \<le> x)
         then Some (set (cl_episode_ids claimed), the (ss_s_claimed sheet))
         else if final = Remediated \<and> (case ss_s_alt sheet of None \<Rightarrow> False | Some x \<Rightarrow> threshold \<le> x)
         then (case rd_action rd of Some (Remap ids) \<Rightarrow> Some (ids, the (ss_s_alt sheet)) | _ \<Rightarrow> None)
         else None)"

definition corpus_step ::
  "deps \<Rightarrow> claimed_ident \<Rightarrow> series_context \<Rightarrow> gathered \<Rightarrow> score_sheet \<Rightarrow> routing_decision \<Rightarrow> job_status \<Rightarrow> unit pstep" where
  "corpus_step d claimed ctx g sheet rd final s =
     (Go (), case (ga_frames g, corpus_entry d claimed sheet rd final) of
        (Some f, Some (ids, score)) \<Rightarrow> s\<lparr>ps_world := write_phash_corpus d (snd f) ctx ids score (ps_world s)\<rparr>
      | _ \<Rightarrow> s)"

definition decide_and_act ::
  "deps \<Rightarrow> claimed_ident \<Rightarrow> series_context \<Rightarrow> gathered \<Rightarrow> plugin_outcome list \<Rightarrow> unit pstep" where
  "decide_and_act d claimed ctx g outcomes =
     flow_bind (lift_res (judge d claimed outcomes)) (\<lambda>(sheet, rd).
     flow_bind (insert_verdict d sheet rd (ga_dupe g)) (\<lambda>_.
     flow_bind (settle_outcome d rd) (\<lambda>final.
     flow_bind (publish_step d final) (\<lambda>_.
       corpus_step d claimed ctx g sheet rd final))))"

definition process_body :: "deps \<Rightarrow> file_row option \<Rightarrow> unit pstep" where
  "process_body d file =
     flow_bind (lift_res (case file of None \<Rightarrow> Inl AttributeError | Some f \<Rightarrow> Inr f)) (\<lambda>f.
     flow_bind (context_step d (f_series_id f)) (\<lambda>ctx.
     flow_bind (claimed_step d f ctx) (\<lambda>claimed.
     flow_bind (gather_step d f) (\<lambda>g.
     flow_bind (\<lambda>s. on_world (run_plugin_stage d (j_id (ps_job s)) claimed (asset_bundle_of g) ctx
                                (asset_fingerprints_of d g)) s) (\<lambda>outcomes.
       decide_and_act d claimed ctx g outcomes)))))"

text \<open>The catch-all: a lost lease is passed on, any other exception ends the job in \<open>error\<close>.\<close>

definition handle_failure :: "deps \<Rightarrow> exn \<Rightarrow> pstate \<Rightarrow> unit res \<times> pstate" where
  "handle_failure d e s =
     (if e = LeaseLost then (Inl LeaseLost, s)
      else if j_status (ps_job s) = Active
      then (case flow_bind (release_step d Errored) (\<lambda>_. publish_step d Errored) s of
              (Fail e', s') \<Rightarrow> (Inl e', s')
            | (_, s') \<Rightarrow> (Inr (), s'))
      else (Inr (), s))"

definition process_job :: "deps \<Rightarrow> int \<Rightarrow> series_cache \<Rightarrow> world \<Rightarrow> unit res \<times> series_cache \<times> world" where
  "process_job d job_id cache w =
     (case get_row j_id job_id (db_jobs (w_db w)) of
        None \<Rightarrow> (Inl AttributeError, cache, w)
      | Some job \<Rightarrow>
          (let s0 = \<lparr>ps_world = w, ps_job = job, ps_cache = cache\<rparr>;
               (r, s) = (case process_body d (get_row f_id (j_file_id job) (db_files (w_db w))) s0 of
                           (Fail e, s) \<Rightarrow> handle_failure d e s
                         | (_, s) \<Rightarrow> (Inr (), s))
           in (r, ps_cache s, ps_world s)))"

end
