(* ===== verification/WorldRel.thy ===== *)
theory WorldRel
  imports ProcessJob ClientSpec
begin

text \<open>
  What a component does to the world, as a relation between the world before and after. A locale
  names the primitive moves of the component (a request, an awaited effect, a file operation, a
  commit); if a relation holds across each of them and is transitive, it holds across every
  operation composed of them. The relations of interest are interpretations.
\<close>

section \<open>Requests\<close>

locale world_rel =
  fixes env :: environ and R :: "world \<Rightarrow> world \<Rightarrow> bool"
  assumes refl: "R w w"
    and trans: "R w w' \<Longrightarrow> R w' w'' \<Longrightarrow> R w w''"
    and get: "rq_method rq = GET \<Longrightarrow> R w (snd (http_send env rq w))"
    and slept: "R w (os_sleep x w)"
begin

lemma request:
  assumes send: "\<And>w. R w (snd (http_send env rq w))"
  shows "sonarr_request env c rq a w = (r, w') \<Longrightarrow> R w w'"
proof (induction "nat (cn_max_retries c - a)" arbitrary: a w rule: less_induct)
  case less
  from less.prems show ?case
  proof (cases rule: sonarr_request_cases)
    case (last res)
    with send [of w] show ?thesis by simp
  next
    case (again res x w1)
    have "R (os_sleep x w1) w'" by (rule less.hyps [OF _ again(4)]) (use again(2) in simp)
    moreover have "R w w1" using send [of w] again(1) by simp
    ultimately show ?thesis using slept [of w1 x] trans by blast
  qed
qed

lemma asked: "(\<And>w. R w (snd (http_send env rq w))) \<Longrightarrow> R w (snd (ask env c rq w))"
  by (metis request prod.collapse)

lemma got: "R w (snd (ask env c (GET_of p ps) w))"
  by (intro asked get) (simp add: GET_of_def)

lemma gets:
  "R w (snd (get_series env cd c i w))" "R w (snd (get_episodes env cd c i w))"
  "R w (snd (manual_import_candidates env cd c folder w))"
  by (simp_all add: get_series_def get_episodes_def manual_import_candidates_def then_decode_def got)

end

section \<open>Remediation\<close>

definition walks :: "(world \<Rightarrow> world \<Rightarrow> bool) \<Rightarrow> 'a step \<Rightarrow> bool" where
  "walks R m \<longleftrightarrow> (\<forall>s x s'. m s = (x, s') \<longrightarrow> R (rs_world s) (rs_world s'))"

lemma walksD: "walks R m \<Longrightarrow> m s = (x, s') \<Longrightarrow> R (rs_world s) (rs_world s')"
  by (auto simp: walks_def)

lemma walks_self: "(\<And>t. walks R (f t)) \<Longrightarrow> walks R (\<lambda>s. f s s)"
  by (auto simp: walks_def)

locale remedy_rel = world_rel "re_env r" R for r :: remediator and R +
  assumes sent: "R w (snd (http_send (re_env r) rq w))"
    and file_op: "R w (snd (os_call (re_env r) op w))"
    and other_rows: "db_jobs d = db_jobs (w_db w) \<Longrightarrow> R w (w\<lparr>w_db := d\<rparr>)"
    and settled: "st \<in> {Quarantine, Remediated} \<Longrightarrow> release (w_db w) job st u now = Inr (job', d)
      \<Longrightarrow> R w (w\<lparr>w_db := d\<rparr>)"
begin

lemma walks_bind:
  assumes "walks R m" "\<And>x. walks R (f x)"
  shows "walks R (flow_bind m f)"
  unfolding walks_def
proof (intro allI impI)
  fix s x s' assume e: "flow_bind m f s = (x, s')"
  obtain y s1 where m: "m s = (y, s1)" by (cases "m s")
  have "R (rs_world s1) (rs_world s')"
    using e m walksD [OF assms(2)] by (cases y) (auto simp: flow_bind_def refl)
  with walksD [OF assms(1) m] show "R (rs_world s) (rs_world s')" by (blast intro: trans)
qed

lemma logged: "R (rs_world s) (rs_world (log_step r st ok dt s))"
  using other_rows [of "set_verdict_log (rs_verdict s) (rs_log (log_step r st ok dt s)) (w_db (rs_world s))" "rs_world s"]
  by (simp add: log_step_def set_verdict_log_def Let_def)

lemma walks_log: "walks R (\<lambda>s. (Go x, log_step r st ok (dt s) s))"
  by (auto simp: walks_def logged)

lemma walks_settle: "st \<in> {Quarantine, Remediated} \<Longrightarrow> walks R (settle_job r st)"
  by (auto simp: walks_def settle_job_def Let_def refl settled split: sum.splits)

lemma walks_refuse: "walks R (refuse r st dt)"
  unfolding walks_def
proof (intro allI impI)
  fix s x s' assume e: "refuse r st dt s = (x :: 'a flow, s')"
  obtain y s1 where st: "settle_job r Quarantine (log_step r st False dt s) = (y, s1)"
    by (cases "settle_job r Quarantine (log_step r st False dt s)")
  have "s' = s1" using e st by (cases y) (auto simp: refuse_def)
  with walksD [OF walks_settle st] logged [of s st False dt] show "R (rs_world s) (rs_world s')"
    by (auto intro: trans)
qed

lemma refused: "R w (rs_world s) \<Longrightarrow> refuse r st dt s = (x, s') \<Longrightarrow> R w (rs_world s')"
  using walksD [OF walks_refuse] trans by blast

lemma moved_log: "R w (rs_world s) \<Longrightarrow> R w (rs_world (log_step r st ok dt s))"
  using logged trans by blast

lemma mutations:
  "R w (snd (mark_history_failed (re_env r) c h w))" "R w (snd (delete_episode_file (re_env r) c i w))"
  "R w (snd (command (re_env r) c n b w))" "R w (snd (execute_manual_import (re_env r) c fs md w))"
  by (simp_all add: mark_history_failed_def delete_episode_file_def command_def execute_manual_import_def
      unless_dry_run_def refl asked sent)

lemma walks_sonarr:
  assumes "\<And>w. R w (snd (call w))"
  shows "walks R (sonarr_step r st sfx call)"
  unfolding walks_def
proof (intro allI impI)
  fix s x s' assume e: "sonarr_step r st sfx call s = (x, s')"
  obtain y w where c: "call (rs_world s) = (y, w)" by (cases "call (rs_world s)")
  then have w: "R (rs_world s) (rs_world (s\<lparr>rs_world := w\<rparr>))" using assms [of "rs_world s"] by simp
  show "R (rs_world s) (rs_world s')"
  proof (cases y)
    case (Inl ex)
    with e c w show ?thesis by (cases ex) (auto simp: sonarr_step_def elim: refused [rotated])
  qed (use e c w in \<open>auto simp: sonarr_step_def\<close>)
qed

lemma walks_guard: "walks R (interruption_guard r)"
  by (auto simp: walks_def interruption_guard_def refl split: if_splits elim: refused [rotated])

lemma walks_blocklist: "walks R (blocklist_step r)"
proof -
  have "walks R (\<lambda>s. flow_bind (sonarr_step r ''mark_history_failed'' [] (mark_history_failed (re_env r) (re_client r) h))
            (\<lambda>_ s. (Go (), log_step r ''mark_history_failed'' True (''history_id='' @ show_int h) s)) s)" for h
    by (intro walks_bind walks_sonarr mutations walks_log)
  then show ?thesis
    by (auto simp: walks_def blocklist_step_def logged split: option.splits)
qed

lemma linked: "link_or_copy (re_env r) a b w = (x, w') \<Longrightarrow> R w w'"
proof -
  assume l: "link_or_copy (re_env r) a b w = (x, w')"
  obtain y w1 where o1: "os_call (re_env r) (OsLink a b) w = (y, w1)" by (cases "os_call (re_env r) (OsLink a b) w")
  obtain z w2 where o2: "os_call (re_env r) (OsCopy2 a b) w1 = (z, w2)" by (cases "os_call (re_env r) (OsCopy2 a b) w1")
  have "R w w1" "R w1 w2" using file_op [of w "OsLink a b"] file_op [of w1 "OsCopy2 a b"] o1 o2 by simp_all
  moreover have "w' = w1 \<or> w' = w2"
    using l o1 o2 by (auto simp: link_or_copy_def split: sum.splits exn.splits if_splits)
  ultimately show ?thesis using trans by blast
qed

lemma inserted_trash: "R w (rs_world s) \<Longrightarrow> R w (rs_world (insert_trash r tc ex s))"
  using other_rows trans by (fastforce simp: insert_trash_def Let_def)

lemma walks_trash: "walks R (trash_step r)"
  unfolding walks_def
proof (intro allI impI)
  fix s x s' assume e: "trash_step r s = (x, s')"
  show "R (rs_world s) (rs_world s')"
  proof (cases "\<exists>tc. re_trash r = Some tc \<and> tc_enabled tc \<and> \<not> re_dry_run r")
    case False
    with e show ?thesis
      by (auto simp: trash_step_def Let_def refl logged split: option.splits if_splits)
  next
    case True
    then obtain tc where tc: "re_trash r = Some tc" "tc_enabled tc" "\<not> re_dry_run r" by blast
    let ?local = "path_str (mk_path (f_local_path (rs_file s)))" and ?tp = "trash_path_of r tc s"
    obtain y w where mk: "os_call (re_env r) (OsMkdir (path_str (trash_dir r tc))) (rs_world s) = (y, w)"
      by (cases "os_call (re_env r) (OsMkdir (path_str (trash_dir r tc))) (rs_world s)")
    have w: "R (rs_world s) w" using file_op [of "rs_world s" "OsMkdir (path_str (trash_dir r tc))"] mk by simp
    obtain z w' where lk: "link_or_copy (re_env r) ?local ?tp w = (z, w')"
      by (cases "link_or_copy (re_env r) ?local ?tp w")
    have w': "R (rs_world s) w'" using w linked [OF lk] by (rule trans)
    show ?thesis
    proof (cases y)
      case (Inl ex)
      with e tc mk w show ?thesis
        by (auto simp: trash_step_def Let_def elim!: refused [rotated])
    next
      case (Inr u)
      with e tc mk lk w' show ?thesis
        by (cases z) (auto simp: trash_step_def Let_def intro!: moved_log inserted_trash elim!: refused [rotated])
    qed
  qed
qed

lemma walks_delete: "walks R (delete_step r sfx dt)"
  unfolding delete_step_def by (rule walks_self) (intro walks_bind walks_sonarr mutations walks_log)

lemma walks_search: "walks R (search_step r)"
  unfolding search_step_def by (rule walks_self) (intro walks_bind walks_sonarr mutations walks_log)

lemma walks_delete_and_search: "walks R (delete_and_search r sfx)"
  unfolding delete_and_search_def
  by (rule walks_self) (intro walks_bind walks_delete walks_search walks_settle; simp)

lemma walks_replace: "walks R (replace_body r)"
  unfolding replace_body_def
  by (intro walks_bind walks_guard walks_blocklist walks_trash walks_delete_and_search)

lemma walks_fetch: "walks R (fetch_targets r ts)"
  unfolding walks_def
proof (intro allI impI)
  fix s x s' assume e: "fetch_targets r ts s = (x, s')"
  obtain y w where c: "get_episodes (re_env r) (re_codec r) (re_client r) (f_series_id (rs_file s)) (rs_world s) = (y, w)"
    by (cases "get_episodes (re_env r) (re_codec r) (re_client r) (f_series_id (rs_file s)) (rs_world s)")
  with gets(2) [of "rs_world s" "re_codec r" "re_client r" "f_series_id (rs_file s)"] have "R (rs_world s) w" by simp
  with e c show "R (rs_world s) (rs_world s')" by (cases y) (auto simp: fetch_targets_def)
qed

lemma walks_resolution: "walks R (resolution_check r ts eps)"
  by (auto simp: walks_def resolution_check_def Let_def refl elim!: refused [rotated] split: if_splits)

lemma walks_occupied: "walks R (occupied_check r ts eps)"
  unfolding walks_def
proof (intro allI impI)
  fix s x s' assume e: "occupied_check r ts eps s = (x, s')"
  show "R (rs_world s) (rs_world s')"
  proof (cases "filter ep_has_file eps = []")
    case True
    with e show ?thesis by (simp add: occupied_check_def refl)
  next
    case False
    let ?d = "''refusing remap: target episode(s) already have a file: '' @
                   join '', '' (map episode_label (filter ep_has_file eps)) @ '' (ids='' @
                   show_ints (map ep_id (filter ep_has_file eps)) @ '')''"
    let ?s1 = "log_step r ''occupied_check'' False ?d s"
    let ?s2 = "?s1\<lparr>rs_world := (rs_world ?s1)\<lparr>w_db := set_proposed (rs_verdict ?s1)
        (Some (RemapJson (sorted_list_of_set ts))) (w_db (rs_world ?s1))\<rparr>\<rparr>"
    obtain y s3 where st: "settle_job r Quarantine ?s2 = (y, s3)" by (cases "settle_job r Quarantine ?s2")
    have 1: "R (rs_world s) (rs_world ?s1)" by (rule logged)
    have "R (rs_world ?s1) (rs_world ?s2)"
      using other_rows [of "set_proposed (rs_verdict ?s1) (Some (RemapJson (sorted_list_of_set ts)))
        (w_db (rs_world ?s1))" "rs_world ?s1"] by (simp add: set_proposed_def)
    with 1 have "R (rs_world s) (rs_world ?s2)" by (rule trans)
    moreover have "R (rs_world ?s2) (rs_world s3)" by (rule walksD [OF walks_settle st]) simp
    ultimately have 2: "R (rs_world s) (rs_world s3)" by (rule trans)
    have "s' = ?s1 \<or> s' = s3"
      using e False st by (cases y) (simp_all add: occupied_check_def Let_def)
    with 1 2 show ?thesis by auto
  qed
qed

lemma walks_hardlink: "walks R (hardlink_step r sp)"
  unfolding walks_def
proof (intro allI impI)
  fix s x s' assume e: "hardlink_step r sp s = (x, s')"
  let ?local = "path_str (mk_path (f_local_path (rs_file s)))"
  obtain y w where l: "staging_link r ?local sp (rs_world s) = (y, w)" by (cases "staging_link r ?local sp (rs_world s)")
  obtain z w' where c: "os_call (re_env r) (OsCopy2 ?local sp) w = (z, w')"
    by (cases "os_call (re_env r) (OsCopy2 ?local sp) w")
  have w: "R (rs_world s) w"
  proof -
    obtain u v where m: "os_call (re_env r) (OsMkdir (staging_dir_of r)) (rs_world s) = (u, v)"
      by (cases "os_call (re_env r) (OsMkdir (staging_dir_of r)) (rs_world s)")
    have "R (rs_world s) v" "R v (snd (os_call (re_env r) (OsLink ?local sp) v))"
      using file_op [of "rs_world s" "OsMkdir (staging_dir_of r)"] file_op m by simp_all
    then show ?thesis using l m trans by (cases u) (auto simp: staging_link_def)
  qed
  moreover have "R (rs_world s) w'" using w file_op [of w "OsCopy2 ?local sp"] c trans by auto
  ultimately show "R (rs_world s) (rs_world s')" using e l c
    by (auto simp: hardlink_step_def Let_def refl intro!: moved_log elim!: refused [rotated]
        split: if_splits sum.splits exn.splits)
qed

lemma walks_candidates: "walks R (candidates_step r sp)"
proof -
  have "walks R (\<lambda>s. case match_candidate sp cs of
             None \<Rightarrow> refuse r ''manual_import_candidates''
                 (''no candidate matched staged file '' @ path_name (mk_path sp) @ ''; staging_path='' @ sp) s
           | Some m \<Rightarrow> (Go m, log_step r ''manual_import_candidates'' True
                        (''matched candidate path='' @ mi_path m) s))" for cs
    by (cases "match_candidate sp cs") (simp_all add: walks_refuse walks_log)
  then show ?thesis unfolding candidates_step_def by (intro walks_bind walks_sonarr gets)
qed

lemma walks_import: "walks R (import_step r eps sp m)"
  unfolding import_step_def by (rule walks_self) (intro walks_bind walks_sonarr mutations walks_log)

lemma walks_tail: "walks R (import_tail r eps sp)"
proof (cases "re_dry_run r")
  case True
  then show ?thesis
    by (auto simp: walks_def import_tail_def dest!: walksD [OF walks_settle, rotated] intro: trans [OF logged])
next
  case False
  have "walks R (flow_bind (candidates_step r sp) (\<lambda>m.
        flow_bind (import_step r eps sp m) (\<lambda>_. settle_job r Remediated)))"
    by (intro walks_bind walks_candidates walks_import walks_settle; simp)
  with False show ?thesis by (simp add: walks_def import_tail_def)
qed

lemma walks_remap: "walks R (remap_body r ts)"
  unfolding remap_body_def
proof (intro walks_bind walks_guard walks_fetch walks_resolution walks_occupied)
  fix eps
  have "walks R (\<lambda>s. let sp = staged_path r eps (rs_file s)
        in flow_bind (hardlink_step r sp) (\<lambda>_.
           flow_bind (delete_step r (''; staging_path='' @ sp)
                (''released the mislabelled file record from Sonarr (episode_file_id='' @
                 show_int (f_episode_file_id (rs_file s)) @ ''; file data preserved in staging)'')) (\<lambda>_.
           import_tail r eps sp)) s)"
    unfolding Let_def by (rule walks_self) (intro walks_bind walks_hardlink walks_delete walks_tail)
  then show "walks R (stage_and_import r eps)"
    by (cases "eps = []") (simp_all add: walks_def stage_and_import_def refl)
qed

lemma ran: "run_result (m s) = (x, w) \<Longrightarrow> walks R m \<Longrightarrow> R (rs_world s) w"
  by (cases "m s") (auto simp: run_result_def dest: walksD split: flow.splits)

lemma load_world: "load_run r i w = Inr s \<Longrightarrow> rs_world s = w"
  by (auto simp: load_run_def split: option.splits sum.splits)

lemma replaced:
  assumes "replace r i w = (x, w')"
  shows "R w w'"
proof (cases "load_run r i w")
  case (Inr s)
  with assms have "run_result (replace_body r s) = (x, w')" by (simp add: replace_def)
  from ran [OF this walks_replace] load_world [OF Inr] show ?thesis by simp
qed (use assms in \<open>simp add: replace_def refl\<close>)

lemma remapped:
  assumes "remap r i ts w = (x, w')"
  shows "R w w'"
proof (cases "load_run r i w")
  case (Inr s)
  with assms have "run_result (remap_body r ts s) = (x, w')" by (simp add: remap_def)
  from ran [OF this walks_remap] load_world [OF Inr] show ?thesis by simp
qed (use assms in \<open>simp add: remap_def refl\<close>)

end

end
