(* ===== verification/PipelineRel.thy ===== *)
theory PipelineRel
  imports WorldRel
begin

text \<open>
  What the stages of a job do to the world, in the same way: the moves of a stage are requests
  that only read, awaited subprocesses and plugins, file operations that only look or make a
  directory, and rows of the pipeline's own tables.
\<close>

fun harmless :: "effect \<Rightarrow> bool" where
  "harmless (ERun cmd) = True"
| "harmless (ETranscribe p) = True"
| "harmless (EIdentify n) = True"
| "harmless _ = False"

fun looks :: "os_op \<Rightarrow> bool" where
  "looks (OsMkdir p) = True"
| "looks (OsStat p) = True"
| "looks (OsRead p) = True"
| "looks _ = False"

text \<open>Two databases that differ at most in the tables the stages write.\<close>

definition same_elsewhere :: "db \<Rightarrow> db \<Rightarrow> bool" where
  "same_elsewhere d d' \<longleftrightarrow>
     db_instances d' = db_instances d \<and> db_files d' = db_files d \<and> db_jobs d' = db_jobs d \<and>
     db_verdicts d' = db_verdicts d \<and> db_trash d' = db_trash d"

definition moves :: "(world \<Rightarrow> world \<Rightarrow> bool) \<Rightarrow> (world \<Rightarrow> 'a \<times> world) \<Rightarrow> bool" where
  "moves R m \<longleftrightarrow> (\<forall>w. R w (snd (m w)))"

lemma movesD: "moves R m \<Longrightarrow> m w = (x, w') \<Longrightarrow> R w w'"
  by (auto simp: moves_def dest: spec [of _ w])

definition steps_by :: "(world \<Rightarrow> world \<Rightarrow> bool) \<Rightarrow> 'a pstep \<Rightarrow> bool" where
  "steps_by R m \<longleftrightarrow> (\<forall>s x s'. m s = (x, s') \<longrightarrow> R (ps_world s) (ps_world s'))"

lemma steps_byD: "steps_by R m \<Longrightarrow> m s = (x, s') \<Longrightarrow> R (ps_world s) (ps_world s')"
  by (auto simp: steps_by_def)

section \<open>Extraction\<close>

locale extract_rel = world_rel "dp_env d" R for d :: deps and R +
  assumes awaited: "harmless e \<Longrightarrow> R w (await_effect (dp_env d) e w)"
    and looked: "looks op \<Longrightarrow> R w (snd (os_call (dp_env d) op w))"
begin

lemma moves_pure: "moves R (pure_res r)"
  by (simp add: moves_def pure_res_def refl)

lemma moves_const: "moves R (\<lambda>w. (r, w))"
  by (simp add: moves_def refl)

lemma moves_then:
  assumes "moves R m" "\<And>x. moves R (f x)"
  shows "moves R (\<lambda>w. and_then (m w) f)"
  unfolding moves_def
proof
  fix w :: world
  obtain y w1 where m: "m w = (y, w1)" by (cases "m w")
  have "R w1 (snd (and_then (y, w1) f))"
    using assms(2) by (cases y) (simp_all add: and_then_def refl moves_def)
  with movesD [OF assms(1) m] m show "R w (snd (and_then (m w) f))" by (simp add: trans)
qed

lemma moves_run: "moves R (run_tool (dp_tools d) cmd)"
  by (simp add: moves_def run_tool_def Let_def awaited)

lemma moves_look: "looks op \<Longrightarrow> moves R (os_call (dp_env d) op)"
  by (simp add: moves_def looked)

lemma moves_version: "moves R (tool_version (dp_tools d) t)"
  using moves_run by (auto simp: moves_def tool_version_def split: prod.splits) (metis snd_conv)

lemma moves_fingerprint: "moves R (fingerprint (dp_tools d) p a b)"
proof -
  have "R w (snd (fingerprint (dp_tools d) p a b w))" for w
    using looked [of "OsStat (path_str p)" w]
    by (cases "os_call (dp_env d) (OsStat (path_str p)) w") (auto simp: fingerprint_def split: sum.splits)
  then show ?thesis by (simp add: moves_def)
qed

lemmas moves_basic = moves_then moves_pure moves_const moves_run moves_look moves_version moves_fingerprint

lemma moves_probe: "moves R (probe (dp_tools d) p)"
  unfolding probe_def by (intro moves_basic)

lemma moves_given: "moves R (given_or_probe (dp_tools d) p g)"
  using moves_probe by (cases g) (simp_all add: moves_def given_or_probe_def refl)

lemma moves_audio: "moves R (extract_audio (dp_tools d) p od a b g)"
  unfolding extract_audio_def Let_def split_beta by (intro moves_basic moves_given) simp

lemma moves_if: "moves R m \<Longrightarrow> moves R n \<Longrightarrow> moves R (\<lambda>w. if b then m w else n w)"
  by (simp add: moves_def)

lemma moves_sub: "moves R (extract_sub (dp_tools d) p od v i s)"
proof -
  have "moves R (\<lambda>w. case image_sub_ext c of
           Some ext \<Rightarrow> and_then (run_tool (dp_tools d) (cmd ext) w) (\<lambda>_ w. (r ext, w)) | None \<Rightarrow> (r', w))" for c cmd r r'
    by (cases "image_sub_ext c") (simp_all add: moves_const moves_then moves_run)
  then show ?thesis unfolding extract_sub_def Let_def by (intro moves_basic moves_if)
qed

lemma moves_subs_loop: "moves R (extract_subs_loop (dp_tools d) p od v i ss acc)"
proof (induction ss arbitrary: i acc)
  case (Cons s ss)
  show ?case unfolding moves_def
  proof
    fix w :: world
    obtain y w1 where e: "extract_sub (dp_tools d) p od v i s w = (y, w1)" by (cases "extract_sub (dp_tools d) p od v i s w")
    have "R w w1" by (rule movesD [OF moves_sub e])
    then show "R w (snd (extract_subs_loop (dp_tools d) p od v i (s # ss) acc w))"
      using Cons.IH e by (cases y) (auto simp: moves_def intro: trans)
  qed
qed (simp add: moves_def refl)

lemma moves_subs: "moves R (extract_embedded_subs (dp_tools d) p od g)"
  unfolding extract_embedded_subs_def by (intro moves_basic moves_given moves_subs_loop) simp

lemma moves_frame: "moves R (sample_frame (dp_tools d) p od v n i ts)"
  unfolding sample_frame_def Let_def by (intro moves_basic)

lemma moves_sample_loop: "moves R (sample_loop (dp_tools d) p od v n xs acc)"
proof (induction xs arbitrary: acc)
  case (Cons x xs)
  show ?case unfolding moves_def
  proof
    fix w :: world
    obtain y w1 where e: "sample_frame (dp_tools d) p od v n (fst x) (snd x) w = (y, w1)"
      by (cases "sample_frame (dp_tools d) p od v n (fst x) (snd x) w")
    have "R w w1" by (rule movesD [OF moves_frame e])
    then show "R w (snd (sample_loop (dp_tools d) p od v n (x # xs) acc w))"
      using Cons.IH e by (cases y) (auto simp: moves_def intro: trans)
  qed
qed (simp add: moves_def refl)

lemma moves_hash_frames: "moves R (hash_frames (dp_tools d) fs)"
proof (induction fs)
  case (Cons f fs)
  show ?case unfolding moves_def
  proof
    fix w :: world
    obtain y w1 where e: "os_call (dp_env d) (OsRead f) w = (y, w1)" by (cases "os_call (dp_env d) (OsRead f) w")
    obtain z w2 where h: "hash_frames (dp_tools d) fs w1 = (z, w2)" by (cases "hash_frames (dp_tools d) fs w1")
    have "R w w1" "R w1 w2" using looked [of "OsRead f" w] e movesD [OF Cons.IH h] by simp_all
    then show "R w (snd (hash_frames (dp_tools d) (f # fs) w))"
      using e h by (cases y; cases z) (auto intro: trans)
  qed
qed (simp add: moves_def refl)

lemma moves_sample_frames: "moves R (sample_frames (dp_tools d) p od n g)"
  unfolding sample_frames_def by (intro moves_basic moves_given moves_sample_loop moves_hash_frames) simp

end

section \<open>The asset stages\<close>

locale pipeline_rel = extract_rel d R for d :: deps and R +
  assumes own_rows: "same_elsewhere (w_db w) db \<Longrightarrow> R w (w\<lparr>w_db := db\<rparr>)"
begin

lemma persisted: "R w (persist_asset_row d i x w)"
  by (simp add: persist_asset_row_def Let_def own_rows same_elsewhere_def)

lemma persisted_all: "R w (persist_all d i xs w)"
proof (induction xs arbitrary: w)
  case (Cons x xs)
  have "R w (persist_asset_row d i x w)" by (rule persisted)
  with Cons.IH [of "persist_asset_row d i x w"] show ?case by (simp add: persist_all_def) (blast intro: trans)
qed (simp add: persist_all_def refl)

lemma moves_cached:
  assumes "moves R m"
  shows "moves R (cached_or_extract d i t fp m)"
  unfolding moves_def
proof
  fix w :: world
  obtain y w1 where e: "m w = (y, w1)" by (cases "m w")
  have "R w w1" by (rule movesD [OF assms e])
  moreover have "R w (persist_asset_row d i x w1)" for x using calculation persisted by (rule trans)
  ultimately show "R w (snd (cached_or_extract d i t fp m w))"
    using e by (simp add: cached_or_extract_def refl split: sum.splits option.splits)
qed

lemma moves_one:
  assumes "moves R f" "moves R m"
  shows "moves R (stage_one d i t f m)"
  unfolding moves_def
proof
  fix w :: world
  obtain y w1 where e: "f w = (y, w1)" by (cases "f w")
  have 1: "R w w1" by (rule movesD [OF assms(1) e])
  moreover have "R w1 (snd (cached_or_extract d i t x m w1))" for x
    using moves_cached [OF assms(2)] by (simp add: moves_def)
  ultimately show "R w (snd (stage_one d i t f m w))"
    using e by (cases y) (auto simp: stage_one_def intro: trans)
qed

lemma moves_stage_probe: "moves R (stage_probe d f p)"
  unfolding stage_probe_def by (intro moves_one moves_fingerprint moves_probe)

lemma moves_stage_audio: "moves R (stage_audio d f p od pr)"
  unfolding stage_audio_def by (intro moves_one moves_fingerprint moves_audio)

lemma moves_expected_subs: "moves R (expected_subs (dp_tools d) p i ss)"
proof (induction ss arbitrary: i)
  case (Cons s ss)
  show ?case unfolding expected_subs.simps by (intro moves_basic moves_if Cons.IH)
qed (simp add: moves_def refl)

lemma moves_expected_sub_fps: "moves R (expected_sub_fingerprints (dp_tools d) p pl)"
  unfolding expected_sub_fingerprints_def by (intro moves_basic moves_expected_subs)

lemma moves_extract_subs: "moves R (extract_subs_stage d f p od pr)"
  unfolding moves_def
proof
  fix w :: world
  obtain y w1 where e: "extract_embedded_subs (dp_tools d) p od pr w = (y, w1)"
    by (cases "extract_embedded_subs (dp_tools d) p od pr w")
  have "R w w1" by (rule movesD [OF moves_subs e])
  moreover have "R w (persist_all d (f_id f) xs w1)" for xs using calculation persisted_all by (rule trans)
  ultimately show "R w (snd (extract_subs_stage d f p od pr w))"
    using e by (cases y) (simp_all add: extract_subs_stage_def)
qed

lemma moves_stage_subs: "moves R (stage_subs d f p od pr)"
  unfolding moves_def
proof
  fix w :: world
  have x: "R w' (snd (extract_subs_stage d f p od pr w'))" for w'
    using moves_extract_subs by (simp add: moves_def)
  show "R w (snd (stage_subs d f p od pr w))"
  proof (cases pr)
    case (Some a)
    obtain y w1 where e: "expected_sub_fingerprints (dp_tools d) p (or_empty (ex_payload a)) w = (y, w1)"
      by (cases "expected_sub_fingerprints (dp_tools d) p (or_empty (ex_payload a)) w")
    have 1: "R w w1" by (rule movesD [OF moves_expected_sub_fps e])
    then have "R w (snd (extract_subs_stage d f p od pr w1))" using x by (rule trans)
    with 1 Some e show ?thesis
      by (cases y) (simp_all add: stage_subs_def split: sum.splits option.splits)
  qed (use x in \<open>simp add: stage_subs_def\<close>)
qed

lemma moves_expected_frames: "moves R (expected_frames (dp_tools d) p n xs)"
proof (induction xs)
  case (Cons x xs)
  show ?case unfolding expected_frames.simps by (intro moves_basic Cons.IH)
qed (simp add: moves_def refl)

lemma moves_expected_frame_fps: "moves R (expected_frame_fingerprints (dp_tools d) p pl n)"
  unfolding expected_frame_fingerprints_def by (intro moves_basic moves_expected_frames)

lemma inserted_hash: "insert_frame_hash d i sq w = (h, w') \<Longrightarrow> R w w'"
  using own_rows by (auto simp: insert_frame_hash_def Let_def same_elsewhere_def)

lemma moves_sample_stage: "moves R (sample_frames_stage d f p od pr n ex)"
  unfolding moves_def
proof
  fix w :: world
  obtain y w1 where e: "sample_frames (dp_tools d) p od n pr w = (y, w1)"
    by (cases "sample_frames (dp_tools d) p od n pr w")
  have 1: "R w w1" by (rule movesD [OF moves_sample_frames e])
  have 2: "R w (persist_all d (f_id f) xs w1)" for xs using 1 persisted_all by (rule trans)
  have 3: "R w w3" if "insert_frame_hash d (f_id f) sq (persist_all d (f_id f) xs w1) = (h, w3)" for sq xs h w3
    using 2 inserted_hash [OF that] by (rule trans)
  show "R w (snd (sample_frames_stage d f p od pr n ex w))"
    using e 1 2 3 by (auto simp: sample_frames_stage_def Let_def split: sum.splits option.splits prod.splits)
qed

lemma moves_stage_frames: "moves R (stage_frames d f p od pr n)"
  unfolding moves_def
proof
  fix w :: world
  let ?ex = "latest_frame_hash (w_db w) (f_id f)"
  have x: "R w' (snd (sample_frames_stage d f p od pr n ?ex w'))" for w'
    using moves_sample_stage by (simp add: moves_def)
  show "R w (snd (stage_frames d f p od pr n w))"
  proof (cases "\<exists>a h. pr = Some a \<and> ?ex = Some h")
    case True
    then obtain a h where a: "pr = Some a" "?ex = Some h" by blast
    obtain y w1 where e: "expected_frame_fingerprints (dp_tools d) p (or_empty (ex_payload a)) n w = (y, w1)"
      by (cases "expected_frame_fingerprints (dp_tools d) p (or_empty (ex_payload a)) n w")
    have 1: "R w w1" by (rule movesD [OF moves_expected_frame_fps e])
    then have "R w (snd (sample_frames_stage d f p od pr n ?ex w1))" using x by (rule trans)
    with 1 a e show ?thesis
      by (cases y) (simp_all add: stage_frames_def Let_def split: sum.splits option.splits list.splits)
  next
    case False
    with x show ?thesis by (auto simp: stage_frames_def Let_def split: option.splits)
  qed
qed

lemma moves_transcribe: "moves R (transcribe_and_persist d f a wav)"
  unfolding moves_def
proof
  fix w :: world
  let ?w1 = "await_effect (dp_env d) (ETranscribe wav) w"
  have 1: "R w ?w1" by (rule awaited) simp
  moreover have "R w (persist_asset_row d i x ?w1)" for i x using 1 persisted by (rule trans)
  ultimately show "R w (snd (transcribe_and_persist d f a wav w))"
    by (simp add: transcribe_and_persist_def Let_def split: sum.splits exn.splits)
qed

lemma moves_stage_transcript: "moves R (stage_transcript d f a)"
  using moves_transcribe by (auto simp: moves_def stage_transcript_def refl split: option.splits)

section \<open>Plugins\<close>

lemma moves_plugin_result: "moves R (plugin_result_for d i lp cl b ctx fps)"
  unfolding moves_def
proof
  fix w :: world
  let ?w1 = "await_effect (dp_env d) (EIdentify (lp_name lp)) w"
  have 1: "R w ?w1" by (rule awaited) simp
  have "R ?w1 (insert_plugin_result d i lp r ns fp ?w1)" for r ns fp
    by (simp add: insert_plugin_result_def Let_def own_rows same_elsewhere_def)
  with 1 have "R w (insert_plugin_result d i lp r ns fp ?w1)" for r ns fp by (rule trans)
  with 1 show "R w (snd (plugin_result_for d i lp cl b ctx fps w))"
    by (simp add: plugin_result_for_def execute_plugin_def identify_def Let_def refl split: option.splits sum.splits)
qed

lemma moves_run_plugins: "moves R (run_plugins d i cl b ctx fps lps acc)"
proof (induction lps arbitrary: acc)
  case (Cons lp lps)
  show ?case unfolding moves_def
  proof
    fix w :: world
    obtain y w1 where e: "plugin_result_for d i lp cl b ctx fps w = (y, w1)"
      by (cases "plugin_result_for d i lp cl b ctx fps w")
    have 1: "R w w1" by (rule movesD [OF moves_plugin_result e])
    have "R w (snd (run_plugins d i cl b ctx fps lps acc' w1))" for acc'
      using 1 Cons.IH by (auto simp: moves_def intro: trans)
    with 1 e show "R w (snd (run_plugins d i cl b ctx fps (lp # lps) acc w))"
      by (cases y) (simp_all split: sum.splits)
  qed
qed (simp add: moves_def refl)

section \<open>Steps of a job\<close>

lemma steps_bind:
  assumes "steps_by R m" "\<And>x. steps_by R (f x)"
  shows "steps_by R (flow_bind m f)"
  unfolding steps_by_def
proof (intro allI impI)
  fix s x s' assume e: "flow_bind m f s = (x, s')"
  obtain y s1 where m: "m s = (y, s1)" by (cases "m s")
  have "R (ps_world s1) (ps_world s')"
    using e m steps_byD [OF assms(2)] by (cases y) (auto simp: flow_bind_def refl)
  with steps_byD [OF assms(1) m] show "R (ps_world s) (ps_world s')" by (rule trans)
qed

lemma steps_at: "(\<And>t. steps_by R (f t)) \<Longrightarrow> steps_by R (\<lambda>s. f s s)"
  by (simp add: steps_by_def)

lemma steps_on_world: "moves R m \<Longrightarrow> steps_by R (on_world m)"
  by (auto simp: steps_by_def on_world_def split: prod.splits sum.splits dest: movesD)

lemma steps_lift: "steps_by R (lift_res r)"
  by (auto simp: steps_by_def lift_res_def refl split: sum.splits)

lemma steps_const: "steps_by R (\<lambda>s. (x, s))"
  by (simp add: steps_by_def refl)

lemma steps_pure: "steps_by R (\<lambda>s. (Go (g s), s))"
  by (simp add: steps_by_def refl)

lemma steps_if: "steps_by R a \<Longrightarrow> steps_by R b \<Longrightarrow> steps_by R (if c then a else b)"
  by simp

lemma steps_context: "steps_by R (context_step d i)"
  unfolding steps_by_def
proof (intro allI impI)
  fix s x s' assume e: "context_step d i s = (x, s')"
  obtain r w c where g: "get_series_context d i (ps_cache s) (ps_world s) = ((r, w), c)"
    by (metis prod.exhaust)
  obtain y w1 where a: "get_series (dp_env d) (dp_codec d) (dp_client d) i (ps_world s) = (y, w1)"
    by (cases "get_series (dp_env d) (dp_codec d) (dp_client d) i (ps_world s)")
  obtain z w2 where b: "get_episodes (dp_env d) (dp_codec d) (dp_client d) i w1 = (z, w2)"
    by (cases "get_episodes (dp_env d) (dp_codec d) (dp_client d) i w1")
  have 1: "R (ps_world s) w1" "R w1 w2"
    using gets(1) [of "ps_world s" "dp_codec d" "dp_client d" i] gets(2) [of w1 "dp_codec d" "dp_client d" i] a b
    by simp_all
  then have "R (ps_world s) w2" by (rule trans)
  moreover have "w \<in> {ps_world s, w1, w2}"
    using g a b by (auto simp: get_series_context_def Let_def split: option.splits sum.splits)
  ultimately have "R (ps_world s) w" using 1 refl by auto
  with e g show "R (ps_world s) (ps_world s')" by (cases r) (auto simp: context_step_def)
qed

lemma steps_publish_if:
  assumes "\<And>w st. R w (publish d j st w)"
  shows "steps_by R (\<lambda>s. (Go (), s\<lparr>ps_world := publish d j st (ps_world s)\<rparr>))"
  using assms by (simp add: steps_by_def)

lemma corpus_written: "R w (write_phash_corpus d h ctx ids c w)"
  by (auto simp: write_phash_corpus_def Let_def refl same_elsewhere_def split: option.splits intro!: own_rows)

lemma steps_corpus: "steps_by R (corpus_step d cl ctx g sh rd st)"
  by (auto simp: steps_by_def corpus_step_def refl corpus_written split: option.splits prod.splits)

end

text \<open>What may be remediated is what the decision allows.\<close>

definition acts_within :: "(world \<Rightarrow> world \<Rightarrow> bool) \<Rightarrow> deps \<Rightarrow> bool" where
  "acts_within R d \<longleftrightarrow> (\<forall>claimed outcomes sheet rd. judge d claimed outcomes = Inr (sheet, rd) \<longrightarrow>
     rd_outcome rd = ORemediate \<longrightarrow> steps_by R (remediate_step d rd))"

text \<open>The rest of a job also publishes, writes its verdict and releases the job.\<close>

locale process_rel = pipeline_rel d R for d and R +
  assumes published: "R w (publish d j txt w)"
    and verdict_row: "R w (w\<lparr>w_db := (w_db w)\<lparr>db_verdicts := db_verdicts (w_db w) @ [v]\<rparr>\<rparr>)"
    and job_released: "st \<in> TERMINAL_STATUSES \<Longrightarrow> release (w_db w) job st u now = Inr (job', db)
      \<Longrightarrow> R w (w\<lparr>w_db := db\<rparr>)"
begin

lemma steps_publish: "steps_by R (publish_step d st)"
  by (simp add: steps_by_def publish_step_def published)

lemma steps_release: "st \<in> TERMINAL_STATUSES \<Longrightarrow> steps_by R (release_step d st)"
  by (auto simp: steps_by_def release_step_def Let_def refl job_released split: sum.splits)

lemma steps_verdict: "steps_by R (insert_verdict d sh rd du)"
  by (simp add: steps_by_def insert_verdict_def Let_def verdict_row)

lemma steps_give_up: "steps_by R (give_up d)"
  unfolding give_up_def
  by (intro steps_bind steps_release steps_publish steps_const) (simp add: TERMINAL_STATUSES_def)

lemma steps_claimed: "steps_by R (claimed_step d f ctx)"
proof -
  have "steps_by R (case c of None \<Rightarrow> give_up d | Some claimed \<Rightarrow> (\<lambda>s. (Go claimed, s)))" for c
    by (cases c) (simp_all add: steps_give_up steps_const)
  then show ?thesis unfolding claimed_step_def by (intro steps_bind steps_lift)
qed

lemma steps_gather: "steps_by R (gather_step d f)"
  unfolding gather_step_def Let_def
  by (intro steps_bind steps_if steps_give_up steps_pure steps_on_world moves_stage_probe moves_stage_audio
      moves_stage_subs moves_stage_frames moves_stage_transcript)

lemma steps_plugins: "steps_by R (\<lambda>s. on_world (run_plugin_stage d (j_id (ps_job s)) cl b ctx fps) s)"
proof -
  have "moves R (run_plugin_stage d i cl b ctx fps)" for i
    using moves_run_plugins by (simp add: moves_def run_plugin_stage_def)
  from steps_byD [OF steps_on_world [OF this]] show ?thesis by (auto simp: steps_by_def)
qed

lemma steps_settle:
  assumes "rd_outcome rd = ORemediate \<Longrightarrow> steps_by R (remediate_step d rd)"
  shows "steps_by R (settle_outcome d rd)"
  using assms by (cases "rd_outcome rd") (simp_all add: settle_outcome_def steps_bind steps_release steps_const TERMINAL_STATUSES_def)

lemma steps_decide:
  assumes "acts_within R d"
  shows "steps_by R (decide_and_act d claimed ctx g outcomes)"
proof (cases "judge d claimed outcomes")
  case (Inl e)
  then show ?thesis by (simp add: decide_and_act_def lift_res_def flow_bind_def steps_by_def refl)
next
  case (Inr x)
  obtain sheet rd where x: "x = (sheet, rd)" by (cases x)
  have "steps_by R (settle_outcome d rd)"
    using assms Inr x by (intro steps_settle) (auto simp: acts_within_def)
  then have "steps_by R (flow_bind (insert_verdict d sheet rd (ga_dupe g)) (\<lambda>_.
     flow_bind (settle_outcome d rd) (\<lambda>final. flow_bind (publish_step d final) (\<lambda>_.
       corpus_step d claimed ctx g sheet rd final))))"
    by (intro steps_bind steps_verdict steps_publish steps_corpus)
  moreover have "decide_and_act d claimed ctx g outcomes = flow_bind (insert_verdict d sheet rd (ga_dupe g)) (\<lambda>_.
     flow_bind (settle_outcome d rd) (\<lambda>final. flow_bind (publish_step d final) (\<lambda>_.
       corpus_step d claimed ctx g sheet rd final)))"
    using Inr x by (simp add: decide_and_act_def lift_res_def flow_bind_def fun_eq_iff)
  ultimately show ?thesis by simp
qed

lemma steps_body: "acts_within R d \<Longrightarrow> steps_by R (process_body d file)"
  unfolding process_body_def
  by (intro steps_bind steps_lift steps_context steps_claimed steps_gather steps_plugins steps_decide)

lemma handled: "handle_failure d e s = (x, s') \<Longrightarrow> R (ps_world s) (ps_world s')"
proof -
  assume h: "handle_failure d e s = (x, s')"
  obtain y t where b: "flow_bind (release_step d Errored) (\<lambda>_. publish_step d Errored) s = (y, t)"
    by (cases "flow_bind (release_step d Errored) (\<lambda>_. publish_step d Errored) s")
  have "R (ps_world s) (ps_world t)"
    by (rule steps_byD [OF steps_bind [OF steps_release steps_publish] b]) (simp add: TERMINAL_STATUSES_def)
  with h b show ?thesis by (auto simp: handle_failure_def refl split: if_splits flow.splits)
qed

lemma processed: "acts_within R d \<Longrightarrow> R w (snd (snd (process_job d i cache w)))"
proof (cases "get_row j_id i (db_jobs (w_db w))")
  case (Some j)
  assume a: "acts_within R d"
  let ?s0 = "\<lparr>ps_world = w, ps_job = j, ps_cache = cache\<rparr>"
  obtain y s where b: "process_body d (get_row f_id (j_file_id j) (db_files (w_db w))) ?s0 = (y, s)"
    by (cases "process_body d (get_row f_id (j_file_id j) (db_files (w_db w))) ?s0")
  have 1: "R w (ps_world s)" using steps_byD [OF steps_body [OF a] b] by simp
  show ?thesis
  proof (cases y)
    case (Fail e)
    obtain x t where h: "handle_failure d e s = (x, t)" by (cases "handle_failure d e s")
    have "R w (ps_world t)" using 1 handled [OF h] by (rule trans)
    with Some b Fail h show ?thesis by (simp add: process_job_def Let_def)
  qed (use Some b 1 in \<open>simp_all add: process_job_def Let_def\<close>)
qed (simp add: process_job_def refl)

end

end
