(* ===== verification/Throttle.thy ===== *)
theory Throttle
  imports Config JsonText
begin

text \<open>
  \<open>impostarr/throttle.py\<close>: the active-hours window and the rolling-window limiter. Times of the
  limiter are seconds of the monotonic clock.
\<close>

section \<open>Active hours\<close>

text \<open>\<open>int(s)\<close> of a text: surrounding space, a sign, digits with single underscores between them.\<close>

fun digits_ok :: "string \<Rightarrow> bool" where
  "digits_ok [] = False"
| "digits_ok [c] = is_digit c"
| "digits_ok (c # CHR ''_'' # cs) = (is_digit c \<and> digits_ok cs)"
| "digits_ok (c # cs) = (is_digit c \<and> digits_ok cs)"

definition parse_digits :: "string \<Rightarrow> int res" where
  "parse_digits s =
     (if digits_ok s then Inr (int (read_nat (filter (\<lambda>c. c \<noteq> CHR ''_'') s))) else Inl ValueError)"

definition str_int :: "string \<Rightarrow> int res" where
  "str_int s =
     (case str_strip s of
        [] \<Rightarrow> Inl ValueError
      | c # cs \<Rightarrow>
          if c = CHR ''-'' then res_map uminus (parse_digits cs)
          else if c = CHR ''+'' then parse_digits cs
          else parse_digits (c # cs))"

text \<open>\<open>int(x)\<close> of a JSON value.\<close>

fun py_int :: "json \<Rightarrow> int res" where
  "py_int (JStr s) = str_int s"
| "py_int (JInt i) = Inr i"
| "py_int (JBool b) = Inr (if b then 1 else 0)"
| "py_int (JFloat x) = Inr (if 0 \<le> x then \<lfloor>x\<rfloor> else \<lceil>x\<rceil>)"
| "py_int _ = Inl TypeError"

text \<open>\<open>s.split("-", 1)\<close> unpacked into two names.\<close>

definition split_pair :: "string \<Rightarrow> (string \<times> string) res" where
  "split_pair s =
     (let a = takeWhile (\<lambda>c. c \<noteq> CHR ''-'') s
      in case drop (length a) s of [] \<Rightarrow> Inl ValueError | _ # b \<Rightarrow> Inr (a, b))"

definition in_active_hours :: "string option \<Rightarrow> int \<Rightarrow> bool res" where
  "in_active_hours active_hours now_hour =
     (if active_hours \<in> {None, Some []} then Inr True
      else
        res_bind (split_pair (the active_hours)) (\<lambda>(a, b).
        res_bind (str_int a) (\<lambda>start.
        res_bind (str_int b) (\<lambda>stop.
          Inr (if start \<le> stop then start \<le> now_hour \<and> now_hour \<le> stop
               else now_hour \<ge> start \<or> now_hour \<le> stop)))))"

section \<open>The limiter\<close>

record token_bucket =
  bk_jobs_per_hour :: "int option"
  bk_timestamps :: "real list"

definition WINDOW_S :: real where
  "WINDOW_S = 3600"

definition new_bucket :: "int option \<Rightarrow> token_bucket" where
  "new_bucket n = \<lparr>bk_jobs_per_hour = n, bk_timestamps = []\<rparr>"

definition prune :: "real \<Rightarrow> token_bucket \<Rightarrow> token_bucket" where
  "prune now b = b\<lparr>bk_timestamps := filter (\<lambda>t. t > now - WINDOW_S) (bk_timestamps b)\<rparr>"

definition has_capacity :: "real \<Rightarrow> token_bucket \<Rightarrow> bool \<times> token_bucket" where
  "has_capacity now b =
     (if bk_jobs_per_hour b \<in> {None, Some 0} then (True, b)
      else let b' = prune now b in (int (length (bk_timestamps b')) < the (bk_jobs_per_hour b), b'))"

definition consume :: "real \<Rightarrow> token_bucket \<Rightarrow> token_bucket" where
  "consume now b =
     (let b' = prune now b in b'\<lparr>bk_timestamps := bk_timestamps b' @ [now]\<rparr>)"

end
