(* ===== verification/Worker.thy ===== *)
theory Worker
  imports ProcessJob Throttle Discovery
begin

text \<open>
  \<open>impostarr/worker.py\<close>: the pool's tasks. One turn of the worker loop, of the heartbeat, the
  reaper, the trash sweeper and the discovery loop is one definition each; the loops repeat them
  with sleeps in between until the pool stops.
\<close>

definition POLL_EMPTY_SLEEP_S :: real where "POLL_EMPTY_SLEEP_S = 5"
definition REAP_INTERVAL_S :: real where "REAP_INTERVAL_S = 60"
definition TRASH_SWEEP_INTERVAL_S :: real where "TRASH_SWEEP_INTERVAL_S = 3600"

definition mint_worker_id :: "string \<Rightarrow> int \<Rightarrow> string" where
  "mint_worker_id base n = base @ ''-'' @ show_int n"

section \<open>The pool\<close>

text \<open>
  What the pool is constructed with. The clocks and what other sessions commit while a claim is
  being made are the environment's.
\<close>

record pool =
  wp_deps :: "(string \<times> deps) list"
  wp_discoverers :: "(string \<times> disc) list"
  wp_size :: nat
  wp_lease_timeout_s :: int
  wp_monotonic :: "effect list \<Rightarrow> real"
  wp_race :: "effect list \<Rightarrow> nat \<Rightarrow> db \<Rightarrow> db"

text \<open>\<open>next(iter(deps_per_instance.values()))\<close>: a pool without instances cannot be built.\<close>

definition pool_bucket :: "pool \<Rightarrow> token_bucket res" where
  "pool_bucket p =
     (case wp_deps p of
        [] \<Rightarrow> Inl (OtherError ''StopIteration'')
      | (_, d) # _ \<Rightarrow> Inr (new_bucket (tl_jobs_per_hour (st_throttle (dp_settings d)))))"

definition task_deps :: "pool \<Rightarrow> nat \<Rightarrow> (string \<times> deps) list" where
  "task_deps p n = map (\<lambda>(name, d). (name, d\<lparr>dp_worker := mint_worker_id (dp_worker d) (int n)\<rparr>)) (wp_deps p)"

datatype task =
    WorkerTask "(string \<times> deps) list"
  | ReaperTask
  | TrashSweepTask
  | DiscoveryTask string disc int

definition start_tasks :: "pool \<Rightarrow> task list res" where
  "start_tasks p =
     res_map (\<lambda>ds. map (\<lambda>n. WorkerTask (task_deps p n)) [0..<wp_size p] @ [ReaperTask, TrashSweepTask] @ ds)
       (traverse (\<lambda>(name, di).
          case map_of (wp_deps p) name of
            None \<Rightarrow> Inl KeyError
          | Some d \<Rightarrow> Inr (DiscoveryTask name di (si_poll_interval_s (dp_instance d)))) (wp_discoverers p))"

section \<open>The worker loop\<close>

text \<open>The state a worker task shares (world, limiter, caches by instance) and its own position.\<close>

record wstate =
  ws_world :: world
  ws_bucket :: token_bucket
  ws_caches :: "(string \<times> series_cache) list"
  ws_idx :: nat

definition cache_of :: "string \<Rightarrow> wstate \<Rightarrow> series_cache" where
  "cache_of name s = (case map_of (ws_caches s) name of None \<Rightarrow> [] | Some c \<Rightarrow> c)"

text \<open>What a turn did: slept, or ran one job; a refusal of the settings ends the task.\<close>

datatype turn = Slept | RanJob string job_row "unit res"

definition sleep_turn :: "wstate \<Rightarrow> turn res \<times> wstate" where
  "sleep_turn s = (Inr Slept, s\<lparr>ws_world := os_sleep POLL_EMPTY_SLEEP_S (ws_world s)\<rparr>)"

text \<open>\<open>_run_job\<close> as its caller sees it: whatever \<open>process_job\<close> raises is logged.\<close>

definition run_job :: "deps \<Rightarrow> string \<Rightarrow> job_row \<Rightarrow> wstate \<Rightarrow> turn res \<times> wstate" where
  "run_job d name job s =
     (case process_job d (j_id job) (cache_of name s) (ws_world s) of
        (r, c, w) \<Rightarrow>
          (Inr (RanJob name job r),
           s\<lparr>ws_world := w, ws_caches := AList.update name c (ws_caches s)\<rparr>))"

text \<open>One attempt of the inner loop: the instance at the index, and the index after it.\<close>

definition claim_turn :: "pool \<Rightarrow> deps \<Rightarrow> wstate \<Rightarrow> (job_row option res \<times> wstate) option" where
  "claim_turn p d s =
     (let w = ws_world s
      in case claim_next (wp_race p (w_trace w)) (\<lambda>_. now_of (dp_env d) w) 0 (w_db w) (dp_worker d) of
           None \<Rightarrow> None
         | Some (Inl e) \<Rightarrow> Some (Inl e, s)
         | Some (Inr (job, db)) \<Rightarrow> Some (Inr job, s\<lparr>ws_world := w\<lparr>w_db := db\<rparr>\<rparr>))"

fun claim_round :: "pool \<Rightarrow> (string \<times> deps) list \<Rightarrow> nat \<Rightarrow> wstate \<Rightarrow> (turn res \<times> wstate) option" where
  "claim_round p ds 0 s = Some (sleep_turn s)"
| "claim_round p ds (Suc n) s =
     (let (name, d) = ds ! ws_idx s;
          s1 = s\<lparr>ws_idx := (ws_idx s + 1) mod length ds\<rparr>
      in case claim_turn p d s1 of
           None \<Rightarrow> None
         | Some (Inl e, s2) \<Rightarrow> Some (Inl e, s2)
         | Some (Inr None, s2) \<Rightarrow> claim_round p ds n s2
         | Some (Inr (Some job), s2) \<Rightarrow>
             Some (run_job d name job
               (s2\<lparr>ws_bucket := consume (wp_monotonic p (w_trace (ws_world s2))) (ws_bucket s2)\<rparr>)))"

definition worker_turn :: "pool \<Rightarrow> (string \<times> deps) list \<Rightarrow> wstate \<Rightarrow> (turn res \<times> wstate) option" where
  "worker_turn p ds s =
     (case ds of
        [] \<Rightarrow> Some (sleep_turn s)
      | (_, d) # _ \<Rightarrow>
          let cfg = st_throttle (dp_settings d)
          in if tl_paused cfg then Some (sleep_turn s)
             else (case in_active_hours (tl_active_hours cfg) (utc_hour (now_of (dp_env d) (ws_world s))) of
                     Inl e \<Rightarrow> Some (Inl e, s)
                   | Inr False \<Rightarrow> Some (sleep_turn s)
                   | Inr True \<Rightarrow>
                       (case has_capacity (wp_monotonic p (w_trace (ws_world s))) (ws_bucket s) of
                          (False, b) \<Rightarrow> Some (sleep_turn (s\<lparr>ws_bucket := b\<rparr>))
                        | (True, b) \<Rightarrow> claim_round p ds (length ds) (s\<lparr>ws_bucket := b\<rparr>))))"

section \<open>Heartbeat and cancellation\<close>

definition do_heartbeat :: "deps \<Rightarrow> int \<Rightarrow> datetime \<Rightarrow> db \<Rightarrow> db res" where
  "do_heartbeat d job_id now db =
     (case get_row j_id job_id (db_jobs db) of
        None \<Rightarrow> Inl AttributeError
      | Some j \<Rightarrow> res_map snd (heartbeat db j (dp_worker d) now))"

text \<open>
  What a turn of the heartbeat loop leads to: it goes on, it cancels the processing because the
  lease is lost, or its task dies on any other exception, which nothing observes.
\<close>

datatype beat = BeatOk db | BeatCancels | BeatDies exn

definition heartbeat_turn :: "deps \<Rightarrow> int \<Rightarrow> datetime \<Rightarrow> db \<Rightarrow> beat" where
  "heartbeat_turn d job_id now db =
     (case do_heartbeat d job_id now db of
        Inr db' \<Rightarrow> BeatOk db'
      | Inl e \<Rightarrow> if e = LeaseLost then BeatCancels else BeatDies e)"

definition heartbeat_interval :: "pool \<Rightarrow> real" where
  "heartbeat_interval p = of_int (wp_lease_timeout_s p) / 3"

text \<open>How the awaited processing task ended, and what \<open>_run_job\<close> makes of it.\<close>

datatype processing = Finished | Raised exn | Cancelled

datatype run_end = CarriesOn | Propagates

definition run_job_end :: "processing \<Rightarrow> bool \<Rightarrow> run_end" where
  "run_job_end r lease_lost =
     (case r of Cancelled \<Rightarrow> if lease_lost then CarriesOn else Propagates
      | Finished \<Rightarrow> CarriesOn | Raised e \<Rightarrow> CarriesOn)"

section \<open>Reaper, sweeper, discovery\<close>

definition reaper_turn :: "pool \<Rightarrow> environ \<Rightarrow> world \<Rightarrow> world" where
  "reaper_turn p env w =
     (let w1 = os_sleep REAP_INTERVAL_S w
      in w1\<lparr>w_db := snd (reap_stale (w_db w1) (wp_lease_timeout_s p * second_us) (now_of env w1))\<rparr>)"

definition trash_sweep_turn :: "environ \<Rightarrow> world \<Rightarrow> world" where
  "trash_sweep_turn env w = os_sleep TRASH_SWEEP_INTERVAL_S (snd (sweep_expired env w))"

definition discovery_turn :: "disc \<Rightarrow> real \<Rightarrow> world \<Rightarrow> world option" where
  "discovery_turn di interval w =
     map_option (\<lambda>(r, w1). os_sleep interval w1) (poll_once di w)"

end
