(* ===== verification/PluginSpec.thy ===== *)
theory PluginSpec
  imports Worker RemediateSpec ScoringSpec
begin

text \<open>
  The plugin stage: what is called and stored, that a second run on the same input is served from
  the stored results, that a daily budget is kept, and where a proposed remap can point.
\<close>

section \<open>Plugins and the other sessions\<close>

text \<open>Plugins return results that pydantic has validated.\<close>

definition sound_plugins :: "deps \<Rightarrow> bool" where
  "sound_plugins d \<longleftrightarrow>
     (\<forall>tr n cl b ctx r. dp_identify d tr n cl b ctx = Inr r \<longrightarrow> valid_plugin_result r)"

definition plugin_rows_quiet :: "environ \<Rightarrow> bool" where
  "plugin_rows_quiet env \<longleftrightarrow> (\<forall>tr db. db_plugin_results (en_db env tr db) = db_plugin_results db)"

abbreviation plugin_rows :: "world \<Rightarrow> plugin_result_row list" where
  "plugin_rows w \<equiv> db_plugin_results (w_db w)"

lemma quiet_identify:
  "plugin_rows_quiet (dp_env d) \<Longrightarrow> identify d lp cl b ctx w = (r, w1) \<Longrightarrow> plugin_rows w1 = plugin_rows w"
  by (auto simp: identify_def Let_def await_effect_def plugin_rows_quiet_def)

lemma identify_valid: "sound_plugins d \<Longrightarrow> identify d lp cl b ctx w = (r, w1) \<Longrightarrow> valid_plugin_result r"
  unfolding identify_def Let_def sound_plugins_def
  by (cases "dp_identify d (w_trace (await_effect (dp_env d) (EIdentify (lp_name lp)) w)) (lp_name lp) cl b ctx")
    (auto simp: valid_plugin_result_def [of "\<lparr>pr_status = PError, pr_reason = _, pr_candidates = []\<rparr>"]
      plugin_result_validate_def [of "\<lparr>pr_status = PError, pr_reason = _, pr_candidates = []\<rparr>"])

text \<open>The three ways a result comes about.\<close>

lemma plugin_result_cases:
  assumes "plugin_result_for d i lp cl b ctx fps w = (x, w')" "plugin_rows_quiet (dp_env d)"
  obtains (cached) row where
      "cached_result (w_db w) i (lp_name lp) (plugin_fingerprint d lp fps cl ctx) = Some row"
      "x = result_of_row row" "w' = w"
  | (skipped) "cached_result (w_db w) i (lp_name lp) (plugin_fingerprint d lp fps cl ctx) = None"
      "over_budget d lp w" "w' = w"
      "x = Inr \<lparr>pr_status = PAbstain, pr_reason = Some ''daily budget reached'', pr_candidates = []\<rparr>"
  | (called) r w1 where "cached_result (w_db w) i (lp_name lp) (plugin_fingerprint d lp fps cl ctx) = None"
      "\<not> over_budget d lp w" "identify d lp cl b ctx w = (r, w1)" "plugin_rows w1 = plugin_rows w"
      "(\<exists>e. x = Inl e \<and> w' = w1) \<or>
       (\<exists>ns. x = Inr r \<and> w' = insert_plugin_result d i lp r ns (plugin_fingerprint d lp fps cl ctx) w1)"
proof (cases "cached_result (w_db w) i (lp_name lp) (plugin_fingerprint d lp fps cl ctx)")
  case None
  show thesis
  proof (cases "over_budget d lp w")
    case True
    with None assms show thesis by (intro skipped) (auto simp: plugin_result_for_def Let_def)
  next
    case False
    obtain r w1 where c: "identify d lp cl b ctx w = (r, w1)" by (cases "identify d lp cl b ctx w")
    show thesis
    proof (rule called [OF None False c quiet_identify [OF assms(2) c]])
      show "(\<exists>e. x = Inl e \<and> w' = w1) \<or>
       (\<exists>ns. x = Inr r \<and> w' = insert_plugin_result d i lp r ns (plugin_fingerprint d lp fps cl ctx) w1)"
        using assms(1) None False c by (auto simp: plugin_result_for_def execute_plugin_def Let_def split: sum.splits)
    qed
  qed
next
  case (Some row)
  with assms show thesis by (intro cached) (auto simp: plugin_result_for_def Let_def)
qed

text \<open>Only rows of the plugin's own name are added.\<close>

lemma plugin_result_rows:
  assumes "plugin_result_for d i lp cl b ctx fps w = (x, w')" "plugin_rows_quiet (dp_env d)"
  obtains rows where "plugin_rows w' = plugin_rows w @ rows" "list_all (\<lambda>r. pl_plugin_name r = lp_name lp) rows"
  using assms by (cases rule: plugin_result_cases) (auto simp: insert_plugin_result_def Let_def)

lemma run_plugins_rows:
  "run_plugins d i cl b ctx fps lps acc w = (x, w') \<Longrightarrow> plugin_rows_quiet (dp_env d) \<Longrightarrow>
     \<exists>rows. plugin_rows w' = plugin_rows w @ rows \<and> list_all (\<lambda>r. pl_plugin_name r \<in> lp_name ` set lps) rows"
proof (induction lps arbitrary: acc w)
  case (Cons lp lps)
  obtain y w1 where r: "plugin_result_for d i lp cl b ctx fps w = (y, w1)"
    by (cases "plugin_result_for d i lp cl b ctx fps w")
  obtain rows where rows: "plugin_rows w1 = plugin_rows w @ rows" "list_all (\<lambda>r. pl_plugin_name r = lp_name lp) rows"
    by (rule plugin_result_rows [OF r Cons.prems(2)])
  have own: "list_all (\<lambda>r. pl_plugin_name r \<in> lp_name ` set (lp # lps)) rows"
    using rows(2) by (auto simp: list_all_iff)
  from Cons.prems(1) r have "w' = w1 \<or> (\<exists>acc'. run_plugins d i cl b ctx fps lps acc' w1 = (x, w'))"
    by (auto split: sum.splits)
  then show ?case
  proof
    assume "w' = w1"
    with rows(1) own show ?thesis by auto
  next
    assume "\<exists>acc'. run_plugins d i cl b ctx fps lps acc' w1 = (x, w')"
    then obtain more where "plugin_rows w' = plugin_rows w1 @ more" "list_all (\<lambda>r. pl_plugin_name r \<in> lp_name ` set lps) more"
      using Cons.IH Cons.prems(2) by blast
    with rows own show ?thesis by (intro exI [of _ "rows @ more"]) (auto simp: list_all_iff)
  qed
qed auto

section \<open>Results are reused\<close>

text \<open>A result that a later run will find again.\<close>

definition stored :: "int \<Rightarrow> string \<Rightarrow> string \<Rightarrow> plugin_result \<Rightarrow> db \<Rightarrow> bool" where
  "stored i n fp r db \<longleftrightarrow> (\<exists>row. cached_result db i n fp = Some row \<and> result_of_row row = Inr r)"

lemma cached_same_name:
  assumes "db_plugin_results db' = db_plugin_results db @ rows" "list_all (\<lambda>r. pl_plugin_name r \<noteq> n) rows"
  shows "cached_result db' i n fp = cached_result db i n fp"
proof -
  have "filter (\<lambda>r. pl_job_id r = i \<and> pl_plugin_name r = n \<and> pl_input_fingerprint r = fp \<and> pl_status r = POk) rows = []"
    using assms(2) by (auto simp: filter_empty_conv list_all_iff)
  then show ?thesis using assms(1) by (simp add: cached_result_def)
qed

lemma traverse_validate: "list_all valid_candidate cs \<Longrightarrow> traverse validate_candidate cs = Inr cs"
  by (induction cs) (simp_all add: validate_candidate_def)

lemma ok_result_stored:
  assumes "plugin_result_for d i lp cl b ctx fps w = (Inr r, w')" "plugin_rows_quiet (dp_env d)" "sound_plugins d"
    and "pr_status r = POk"
  shows "stored i (lp_name lp) (plugin_fingerprint d lp fps cl ctx) r (w_db w')"
  using assms(1,2)
proof (cases rule: plugin_result_cases)
  case (cached row)
  then show ?thesis by (simp add: stored_def)
next
  case skipped
  with assms(4) show ?thesis by auto
next
  case (called r' w1)
  then obtain ns where e: "r' = r" "w' = insert_plugin_result d i lp r ns (plugin_fingerprint d lp fps cl ctx) w1" by auto
  let ?P = "\<lambda>x. pl_job_id x = i \<and> pl_plugin_name x = lp_name lp \<and>
    pl_input_fingerprint x = plugin_fingerprint d lp fps cl ctx \<and> pl_status x = POk"
  obtain row where row: "plugin_rows w' = plugin_rows w @ [row]" "?P row" "pl_status row = pr_status r"
    "pl_reason row = pr_reason r" "pl_candidates row = pr_candidates r"
    using e(2) called(4) assms(4) by (auto simp: insert_plugin_result_def Let_def)
  have "filter ?P (plugin_rows w) = []" using called(1) by (simp add: cached_result_def latest_by_None)
  then have c: "cached_result (w_db w') i (lp_name lp) (plugin_fingerprint d lp fps cl ctx) = Some row"
    using row(1,2) by (simp add: cached_result_def)
  have v: "valid_plugin_result r" using identify_valid [OF assms(3) called(3)] e(1) by simp
  have "result_of_row row = Inr r"
    using v row(3-) by (cases r) (simp add: result_of_row_def valid_plugin_result_def traverse_validate mk_plugin_result_def)
  with c show ?thesis by (simp add: stored_def)
qed

lemma stored_result: "stored i (lp_name lp) (plugin_fingerprint d lp fps cl ctx) r (w_db w) \<Longrightarrow>
    plugin_result_for d i lp cl b ctx fps w = (Inr r, w)"
  by (auto simp: stored_def plugin_result_for_def Let_def)

lemma run_plugins_extends:
  "run_plugins d i cl b ctx fps lps acc w = (Inr outs, w') \<Longrightarrow> \<exists>more. outs = acc @ more"
proof (induction lps arbitrary: acc w)
  case (Cons lp lps)
  then obtain po w1 where "run_plugins d i cl b ctx fps lps (acc @ [po]) w1 = (Inr outs, w')"
    by (auto split: prod.splits sum.splits)
  from Cons.IH [OF this] show ?case by auto
qed simp

lemma rerun_stored:
  assumes "plugin_rows_quiet (dp_env d)" "sound_plugins d"
  shows "run_plugins d i cl b ctx fps lps acc w = (Inr outs, w1) \<Longrightarrow> distinct (map lp_name lps) \<Longrightarrow>
    list_all (\<lambda>po. pr_status (po_result po) = POk) outs \<Longrightarrow> plugin_rows w2 = plugin_rows w1 \<Longrightarrow>
    run_plugins d i cl b' ctx fps lps acc w2 = (Inr outs, w2)"
proof (induction lps arbitrary: acc w)
  case (Cons lp lps)
  obtain r w' po where r: "plugin_result_for d i lp cl b ctx fps w = (Inr r, w')" "outcome_of ctx lp r = Inr po"
    and rest: "run_plugins d i cl b ctx fps lps (acc @ [po]) w' = (Inr outs, w1)"
    using Cons.prems(1) by (auto split: prod.splits sum.splits)
  have "po \<in> set outs" using run_plugins_extends [OF rest] by auto
  moreover have "po_result po = r" using r(2) by (auto simp: outcome_of_def res_map_Inr_iff)
  ultimately have ok: "pr_status r = POk" using Cons.prems(3) by (auto simp: list_all_iff)
  obtain rows where rows: "plugin_rows w1 = plugin_rows w' @ rows" "list_all (\<lambda>r. pl_plugin_name r \<in> lp_name ` set lps) rows"
    using run_plugins_rows [OF rest assms(1)] by blast
  have "list_all (\<lambda>r. pl_plugin_name r \<noteq> lp_name lp) rows"
    using rows(2) Cons.prems(2) unfolding list_all_iff by (metis distinct.simps(2) list.simps(9) list.set_map)
  then have "stored i (lp_name lp) (plugin_fingerprint d lp fps cl ctx) r (w_db w2)"
    using ok_result_stored [OF r(1) assms ok] cached_same_name [of "w_db w2" "w_db w'" rows "lp_name lp"] rows(1) Cons.prems(4)
    by (simp add: stored_def)
  from stored_result [OF this] Cons.IH [OF rest _ Cons.prems(3,4)] Cons.prems(2) r(2) show ?case by simp
qed simp


section \<open>Daily budgets\<close>

definition same_day :: "environ \<Rightarrow> bool" where
  "same_day env \<longleftrightarrow> (\<forall>tr tr'. utc_midnight (en_now env tr) = utc_midnight (en_now env tr'))"

abbreviation spent_today :: "environ \<Rightarrow> string \<Rightarrow> world \<Rightarrow> int" where
  "spent_today env n w \<equiv> plugin_executions_today (w_db w) n (now_of env w)"

lemma spent_rows:
  assumes "same_day env" "plugin_rows w' = plugin_rows w @ rows"
  shows "spent_today env n w' = spent_today env n w + int (length (filter (\<lambda>r. pl_plugin_name r = n \<and>
    utc_midnight (now_of env w) \<le> pl_created_at r) rows))"
proof -
  have "utc_midnight (now_of env w') = utc_midnight (now_of env w)"
    using assms(1) unfolding same_day_def now_of_def by blast
  with assms(2) show ?thesis by (simp add: plugin_executions_today_def rowcount_def)
qed

lemma budget_step:
  assumes "plugin_rows_quiet (dp_env d)" "same_day (dp_env d)" "plugin_result_for d i lp cl b ctx fps w = (x, w')"
    and "lp_name lp = n \<longrightarrow> lp_daily_budget lp = Some k"
  shows "spent_today (dp_env d) n w' \<le> max k (spent_today (dp_env d) n w)"
  using assms(3,1)
proof (cases rule: plugin_result_cases)
  case (called r w1)
  have "\<exists>rows. plugin_rows w' = plugin_rows w @ rows \<and> length rows \<le> 1 \<and> list_all (\<lambda>r. pl_plugin_name r = lp_name lp) rows"
    using called(5)
  proof (elim disjE exE conjE)
    fix e assume "w' = w1"
    then show ?thesis using called(4) by (intro exI [of _ "[]"]) simp
  next
    fix ns assume "w' = insert_plugin_result d i lp r ns (plugin_fingerprint d lp fps cl ctx) w1"
    then show ?thesis using called(4) by (simp add: insert_plugin_result_def Let_def)
  qed
  then obtain rows where rows: "plugin_rows w' = plugin_rows w @ rows" "length rows \<le> 1"
    "list_all (\<lambda>r. pl_plugin_name r = lp_name lp) rows" by blast
  show ?thesis
  proof (cases "lp_name lp = n")
    case True
    then have "spent_today (dp_env d) n w < k"
      using called(2) assms(4) by (auto simp: over_budget_def)
    moreover have "int (length (filter (\<lambda>r. pl_plugin_name r = n \<and> utc_midnight (now_of (dp_env d) w) \<le> pl_created_at r) rows)) \<le> 1"
      using rows(2) length_filter_le [of "\<lambda>r. pl_plugin_name r = n \<and> utc_midnight (now_of (dp_env d) w) \<le> pl_created_at r" rows]
      by linarith
    ultimately show ?thesis using spent_rows [OF assms(2) rows(1), of n] by simp
  next
    case False
    then have "filter (\<lambda>r. pl_plugin_name r = n \<and> utc_midnight (now_of (dp_env d) w) \<le> pl_created_at r) rows = []"
      using rows(3) by (auto simp: filter_empty_conv list_all_iff)
    then show ?thesis using spent_rows [OF assms(2) rows(1), of n] by simp
  qed
qed simp_all

lemma budget_run:
  assumes "plugin_rows_quiet (dp_env d)" "same_day (dp_env d)"
  shows "run_plugins d i cl b ctx fps lps acc w = (x, w') \<Longrightarrow>
    list_all (\<lambda>lp. lp_name lp = n \<longrightarrow> lp_daily_budget lp = Some k) lps \<Longrightarrow>
    spent_today (dp_env d) n w' \<le> max k (spent_today (dp_env d) n w)"
proof (induction lps arbitrary: acc w)
  case (Cons lp lps)
  obtain y w1 where r: "plugin_result_for d i lp cl b ctx fps w = (y, w1)"
    by (cases "plugin_result_for d i lp cl b ctx fps w")
  have 1: "spent_today (dp_env d) n w1 \<le> max k (spent_today (dp_env d) n w)"
    using budget_step [OF assms r] Cons.prems(2) by simp
  have "w' = w1 \<or> (\<exists>acc'. run_plugins d i cl b ctx fps lps acc' w1 = (x, w'))"
    using Cons.prems(1) r by (auto split: sum.splits)
  with 1 Cons.IH Cons.prems(2) show ?case by fastforce
qed simp

text \<open>A daily budget is kept: when nobody else stores results and the run stays within one UTC
  day, a run of the plugin stage leaves a plugin with budget \<open>k\<close> at no more than \<open>k\<close> executions
  that day, or at what it had already spent if that was more.\<close>

theorem daily_budget_kept:
  assumes "plugin_rows_quiet (dp_env d)" "same_day (dp_env d)"
    and "list_all (\<lambda>lp. lp_name lp = n \<longrightarrow> lp_daily_budget lp = Some k) (dp_plugins d)"
    and "run_plugin_stage d i cl b ctx fps w = (x, w')"
  shows "plugin_executions_today (w_db w') n (now_of (dp_env d) w')
    \<le> max k (plugin_executions_today (w_db w) n (now_of (dp_env d) w))"
  using budget_run [OF assms(1,2) _ assms(3)] assms(4) by (simp add: run_plugin_stage_def)

section \<open>Where a remap can point\<close>

text \<open>An outcome as the stage builds it: each candidate with its normalisation in the series.\<close>

definition normalized_in :: "series_context \<Rightarrow> plugin_outcome \<Rightarrow> bool" where
  "normalized_in ctx po \<longleftrightarrow>
     traverse (\<lambda>c. normalize_cand c ctx) (pr_candidates (po_result po)) = Inr (po_normalized po)"

lemma result_of_row_valid: "result_of_row row = Inr r \<Longrightarrow> valid_plugin_result r"
  unfolding result_of_row_def res_bind_Inr_iff
proof (elim exE conjE)
  fix cs assume t: "traverse validate_candidate (pl_candidates row) = Inr cs"
    and m: "mk_plugin_result (pl_status row) (pl_reason row) cs = Inr r"
  have "list_all valid_candidate cs"
    using t unfolding traverse_Inr_all
    by (auto simp: list_all2_conv_all_nth list_all_length validate_candidate_def split: if_splits)
  with m show ?thesis by (intro mk_plugin_result_valid)
qed

lemma plugin_result_valid:
  assumes "plugin_result_for d i lp cl b ctx fps w = (Inr r, w')" "sound_plugins d"
  shows "list_all valid_candidate (pr_candidates r)"
proof (cases "cached_result (w_db w) i (lp_name lp) (plugin_fingerprint d lp fps cl ctx)")
  case (Some row)
  with assms(1) have "result_of_row row = Inr r" by (simp add: plugin_result_for_def Let_def)
  from result_of_row_valid [OF this] show ?thesis by (simp add: valid_plugin_result_def)
next
  case None
  obtain r' w1 where c: "identify d lp cl b ctx w = (r', w1)" by (cases "identify d lp cl b ctx w")
  from identify_valid [OF assms(2) c] have "list_all valid_candidate (pr_candidates r')"
    by (simp add: valid_plugin_result_def)
  with assms(1) None c show ?thesis
    by (auto simp: plugin_result_for_def execute_plugin_def Let_def split: if_splits sum.splits)
qed

lemma run_plugins_outcomes:
  "run_plugins d i cl b ctx fps lps acc w = (Inr outs, w') \<Longrightarrow> sound_plugins d \<Longrightarrow>
   list_all (\<lambda>po. normalized_in ctx po \<and> list_all valid_candidate (pr_candidates (po_result po))) acc \<Longrightarrow>
   list_all (\<lambda>po. normalized_in ctx po \<and> list_all valid_candidate (pr_candidates (po_result po))) outs"
proof (induction lps arbitrary: acc w)
  case (Cons lp lps)
  obtain r w1 po where r: "plugin_result_for d i lp cl b ctx fps w = (Inr r, w1)" "outcome_of ctx lp r = Inr po"
    and rest: "run_plugins d i cl b ctx fps lps (acc @ [po]) w1 = (Inr outs, w')"
    using Cons.prems(1) by (auto split: prod.splits sum.splits)
  have "normalized_in ctx po" "po_result po = r"
    using r(2) by (auto simp: outcome_of_def normalized_in_def res_map_Inr_iff)
  with Cons.IH [OF rest Cons.prems(2)] Cons.prems(3) plugin_result_valid [OF r(1) Cons.prems(2)] show ?case by simp
qed simp

lemma in_series_ids:
  assumes "normalize_cand c ctx = Inr (InSeriesCandidate ids)" "valid_candidate c"
  shows "ids \<noteq> {} \<and> ids \<subseteq> ep_id ` set (sc_episodes ctx)"
proof -
  obtain ident n where c: "ca_ident c = Some ident" "ci_episodes ident \<noteq> []"
    "normalize_episodes (matcher n (sc_episodes ctx)) (ci_season ident) n (ci_episodes ident) {} = InSeriesCandidate ids"
    using assms by (auto simp: normalize_cand_def valid_candidate_def valid_ident_def
        split: option.splits series_ref.splits)
  then have m: "\<forall>e \<in> set (ci_episodes ident). matcher n (sc_episodes ctx) (ci_season ident) e \<noteq> None"
    "ids = {i. \<exists>e \<in> set (ci_episodes ident). matcher n (sc_episodes ctx) (ci_season ident) e = Some i}"
    by (simp_all add: normalize_episodes_in_series)
  obtain e where "e \<in> set (ci_episodes ident)" using c(2) by (cases "ci_episodes ident") auto
  with m have "ids \<noteq> {}" by fastforce
  moreover have "ids \<subseteq> ep_id ` set (sc_episodes ctx)" using m(2) matcher_sound by fastforce
  ultimately show ?thesis by blast
qed

lemma reported_in_series:
  assumes "reported ck pos (KInSeries ids)" "KInSeries ids \<noteq> ck"
    and "list_all (\<lambda>po. normalized_in ctx po \<and> list_all valid_candidate (pr_candidates (po_result po))) pos"
  shows "ids \<noteq> {} \<and> ids \<subseteq> ep_id ` set (sc_episodes ctx)"
proof -
  obtain r where "r \<in> set (reports_on ck pos (KInSeries ids))"
    using assms(1) by (cases "reports_on ck pos (KInSeries ids)") (auto simp: reported_def)
  then obtain po where po: "po \<in> set pos" "plugin_report ck po (KInSeries ids) \<noteq> None"
    using reports_on_mem by fastforce
  then have "confs_on po (KInSeries ids) \<noteq> []" using assms(2) by (auto simp: plugin_report_def split: list.splits if_splits)
  then obtain c n where cn: "(c, n) \<in> set (zip (pr_candidates (po_result po)) (po_normalized po))"
    "key_for n = Inr (KInSeries ids)"
    by (auto simp: confs_on_def filter_empty_conv)
  then have n: "n = InSeriesCandidate ids" by (cases n) auto
  have "normalized_in ctx po" "list_all valid_candidate (pr_candidates (po_result po))"
    using assms(3) po(1) by (auto simp: list_all_iff)
  moreover from this(1) have "normalize_cand c ctx = Inr n"
    using cn(1) traverse_Inr_all unfolding normalized_in_def by (fastforce simp: list_all2_iff)
  moreover have "c \<in> set (pr_candidates (po_result po))" using cn(1) by (rule set_zip_leftD)
  ultimately show ?thesis using in_series_ids [of c ctx ids] n by (auto simp: list_all_iff)
qed

text \<open>C6: The pipeline never proposes to move a file out of its series: the stage's outcomes can always
  be scored and routed, and a remap that comes out targets a non-empty set of the series' own episodes,
  other than the claimed ones.\<close>

theorem remap_stays_in_series:
  assumes "sound_plugins d" "good_eps (st_scoring (dp_settings d))"
    and "run_plugin_stage d i cl b ctx fps w = (Inr outs, w')"
  shows "\<exists>sheet rd. judge d cl outs = Inr (sheet, rd) \<and>
    (\<forall>ids. rd_action rd = Some (Remap ids) \<longrightarrow>
       ids \<noteq> {} \<and> ids \<noteq> set (cl_episode_ids cl) \<and> ids \<subseteq> ep_id ` set (sc_episodes ctx))"
proof -
  let ?ck = "KInSeries (set (cl_episode_ids cl))"
  have o: "list_all (\<lambda>po. normalized_in ctx po \<and> list_all valid_candidate (pr_candidates (po_result po))) outs"
    using run_plugins_outcomes [of d i cl b ctx fps "dp_plugins d" "[]" w outs w'] assms by (simp add: run_plugin_stage_def)
  then have wz: "list_all well_zipped outs"
    by (fastforce simp: list_all_iff well_zipped_def normalized_in_def dest: traverse_length)
  obtain sheet where sh: "aggregate outs (set (cl_episode_ids cl)) (Some (st_scoring (dp_settings d))) = Inr sheet"
    "ss_alt_kind sheet = map_option kind_of_key (ss_alt_key sheet)"
    by (rule aggregate_total [OF assms(2) wz])
  obtain rd where rd: "route sheet (st_thresholds (dp_settings d)) (flags_of d) = Inr rd"
    using route_total [OF sh(2)] by blast
  have "judge d cl outs = Inr (sheet, rd)" using sh(1) rd by (simp add: judge_def)
  moreover have "ids \<noteq> {} \<and> ids \<noteq> set (cl_episode_ids cl) \<and> ids \<subseteq> ep_id ` set (sc_episodes ctx)"
    if r: "rd_action rd = Some (Remap ids)" for ids
  proof -
    have alt: "ss_alt_key sheet = Some (KInSeries ids)"
      using rd r by (cases rule: route_Inr_cases) auto
    have ne: "applicable outs \<noteq> []" using sh(1) alt by (auto simp: aggregate_empty)
    obtain s where "aggregate outs (set (cl_episode_ids cl)) (Some (st_scoring (dp_settings d))) = Inr s"
      "case ss_alt_key s of None \<Rightarrow> (\<forall>k. reported ?ck (applicable outs) k \<longrightarrow> k = ?ck)
        | Some k \<Rightarrow> best_alternate (st_scoring (dp_settings d)) ?ck (applicable outs) k"
      by (rule aggregate_sheet [OF assms(2) wz ne])
    with sh(1) alt have b: "KInSeries ids \<noteq> ?ck" "reported ?ck (applicable outs) (KInSeries ids)"
      by (simp_all add: best_alternate_def)
    have "list_all (\<lambda>po. normalized_in ctx po \<and> list_all valid_candidate (pr_candidates (po_result po))) (applicable outs)"
      using o by (auto simp: applicable_def list_all_iff)
    from reported_in_series [OF b(2,1) this] b(1) show ?thesis by auto
  qed
  ultimately show ?thesis by blast
qed

section \<open>A stage to run\<close>

text \<open>One plugin, with a budget of three a day, which recognises episode 12 in a file claimed as 11.\<close>

definition sample_toolbox :: toolbox where
  "sample_toolbox =
     \<lparr>tb_env = (quiet_env sample_peer)\<lparr>en_now := (\<lambda>_. 1000)\<rparr>, tb_run = (\<lambda>tr cmd. RunExit 0 ''v 1 2'' []), tb_stat = (\<lambda>_. ''1:2''),
      tb_xxh64 = (\<lambda>_. ''digest''), tb_loads = (\<lambda>_. Inr (JObj [])), tb_float = (\<lambda>_. ''0.0''),
      tb_float_of = (\<lambda>_. Inl ValueError), tb_phash = (\<lambda>_. ''0''), tb_distance = (\<lambda>a b. 0)\<rparr>"

definition sample_candidate :: candidate where
  "sample_candidate =
     \<lparr>ca_confidence = 1, ca_ident = Some \<lparr>ci_series = ClaimedSeries, ci_season = 1, ci_episodes = [12]\<rparr>,
      ca_numbering = Some NTvdb, ca_evidence = JNull\<rparr>"

definition sample_result :: plugin_result where
  "sample_result = \<lparr>pr_status = POk, pr_reason = None, pr_candidates = [sample_candidate]\<rparr>"

definition sample_plugin :: loaded_plugin where
  "sample_plugin = \<lparr>lp_name = ''subs'', lp_version = ''1'', lp_weight = 1, lp_config = None, lp_daily_budget = Some 3\<rparr>"

definition sample_deps :: deps where
  "sample_deps =
     \<lparr>dp_tools = sample_toolbox, dp_codec = sample_codec, dp_client = default_client False,
      dp_settings = default_settings, dp_instance = sample_instance, dp_plugins = [sample_plugin],
      dp_transcribe = (\<lambda>tr p. Inl (TranscribeError [])), dp_identify = (\<lambda>tr n cl b ctx. Inr sample_result),
      dp_repr = (\<lambda>e. []), dp_worker = ''pool-a-1'', dp_event_bus = True\<rparr>"

definition sample_claimed :: claimed_ident where
  "sample_claimed = \<lparr>cl_season = 1, cl_episodes = [11], cl_episode_ids = [11]\<rparr>"

definition sample_bundle :: asset_bundle where
  "sample_bundle =
     \<lparr>ab_probe = None, ab_audio_path = None, ab_transcript = None, ab_sub_paths = [], ab_frame_hashes = None\<rparr>"

definition sample_context :: series_context where
  "sample_context =
     \<lparr>sc_series = \<lparr>se_id = 5, se_title = ''x'', se_tvdb_id = None, se_imdb_id = None, se_tmdb_id = None,
        se_title_slug = ''x''\<rparr>,
      sc_episodes = [sample_ep 11, sample_ep 12]\<rparr>"

definition sample_outcome :: plugin_outcome where
  "sample_outcome =
     \<lparr>po_plugin_name = ''subs'', po_weight = 1, po_result = sample_result, po_normalized = [InSeriesCandidate {12}]\<rparr>"

lemma sample_deps_facts:
  "sound_plugins sample_deps" "plugin_rows_quiet (dp_env sample_deps)" "same_day (dp_env sample_deps)"
  "distinct (map lp_name (dp_plugins sample_deps))" "good_eps (st_scoring (dp_settings sample_deps))"
  "wf_env (dp_env sample_deps)"
  "list_all (\<lambda>lp. lp_name lp = ''subs'' \<longrightarrow> lp_daily_budget lp = Some 3) (dp_plugins sample_deps)"
  by (simp_all add: sound_plugins_def sample_deps_def sample_result_def sample_candidate_def valid_plugin_result_def
      valid_candidate_def valid_ident_def numbering_ident_coupling_def plugin_result_validate_def
      references_claimed_def plugin_rows_quiet_def same_day_def sample_toolbox_def quiet_env_def sample_plugin_def
      good_eps_def default_settings_def default_scoring_def wf_env_def)

lemma sample_normalize: "normalize_cand sample_candidate sample_context = Inr (InSeriesCandidate {12})"
  by (simp add: normalize_cand_def sample_candidate_def sample_context_def sample_ep_def)

definition sample_after :: world where
  "sample_after = insert_plugin_result sample_deps 1 sample_plugin sample_result [InSeriesCandidate {12}] ''digest''
     (await_effect (dp_env sample_deps) (EIdentify ''subs'') (sample_world []))"

lemma sample_stage:
  "run_plugin_stage sample_deps 1 sample_claimed b sample_context JNull (sample_world []) = (Inr [sample_outcome], sample_after)"
proof -
  have fp: "plugin_fingerprint sample_deps lp fps cl ctx = ''digest''" for lp fps cl ctx
    by (simp add: plugin_fingerprint_def sample_deps_def sample_toolbox_def)
  have c: "cached_result (w_db (sample_world [])) i n f = None" for i n f
    by (simp add: cached_result_def sample_world_def sample_db_def empty_db_def)
  have b: "\<not> over_budget sample_deps sample_plugin (sample_world [])"
    by (simp add: over_budget_def sample_plugin_def plugin_executions_today_def rowcount_def sample_world_def
        sample_db_def empty_db_def)
  have i: "identify sample_deps sample_plugin sample_claimed b sample_context (sample_world []) =
      (sample_result, await_effect (dp_env sample_deps) (EIdentify ''subs'') (sample_world []))"
    by (simp add: identify_def sample_deps_def sample_plugin_def)
  have n: "traverse (\<lambda>c. normalize_cand c sample_context) (pr_candidates sample_result) = Inr [InSeriesCandidate {12}]"
    by (simp add: sample_result_def sample_normalize)
  have "plugin_result_for sample_deps 1 sample_plugin sample_claimed b sample_context JNull (sample_world []) =
      (Inr sample_result, sample_after)"
    by (simp add: plugin_result_for_def execute_plugin_def fp c b i n sample_after_def)
  moreover have "outcome_of sample_context sample_plugin sample_result = Inr sample_outcome"
    by (simp add: outcome_of_def n sample_outcome_def sample_plugin_def)
  moreover have "dp_plugins sample_deps = [sample_plugin]" by (simp add: sample_deps_def)
  ultimately show ?thesis by (simp add: run_plugin_stage_def)
qed


lemma daily_budget_kept_witness:
  "plugin_executions_today (w_db sample_after) ''subs'' (now_of (dp_env sample_deps) sample_after) \<le> max 3 0"
proof -
  have "plugin_executions_today (w_db (sample_world [])) ''subs'' t = 0" for t
    by (simp add: plugin_executions_today_def rowcount_def sample_world_def sample_db_def empty_db_def)
  with daily_budget_kept [OF sample_deps_facts(2,3,7) sample_stage] show ?thesis by simp
qed

lemma remap_stays_in_series_witness:
  "\<exists>sheet rd. judge sample_deps sample_claimed [sample_outcome] = Inr (sheet, rd) \<and> rd_action rd = Some (Remap {12}) \<and>
     {12} \<subseteq> ep_id ` set (sc_episodes sample_context)"
proof -
  let ?ck = "KInSeries {11 :: int}" and ?cfg = "default_scoring"
  obtain sheet rd where j: "judge sample_deps sample_claimed [sample_outcome] = Inr (sheet, rd)"
    and a: "\<And>ids. rd_action rd = Some (Remap ids) \<Longrightarrow> ids \<subseteq> ep_id ` set (sc_episodes sample_context)"
    using remap_stays_in_series [OF sample_deps_facts(1,5) sample_stage] by blast
  define cfg where "cfg = st_scoring (dp_settings sample_deps)"
  have cfg: "cfg = default_scoring" by (simp add: cfg_def sample_deps_def default_settings_def)
  let ?pos = "[sample_outcome]"
  have app: "applicable ?pos = ?pos" by (simp add: applicable_def sample_outcome_def sample_result_def)
  have rep: "reports_on ?ck ?pos k = (if k = KInSeries {12} then [(''subs'', 1, 1)] else if k = ?ck then [(''subs'', 1, 0)] else [])" for k
    by (simp add: reports_on_simps plugin_report_def confs_on_def sample_outcome_def sample_result_def sample_candidate_def)
  have score: "key_score cfg ?ck ?pos k = (if k = KInSeries {12} then 98/100 else if k = ?ck then 2/100 else 0)" for k
    by (simp add: key_score_def rep pool_of_def reject_outliers_def cfg default_scoring_def fused_def fuse_def clamp_eps_def)
  have wz: "list_all well_zipped ?pos"
    by (simp add: well_zipped_def sample_outcome_def sample_result_def)
  have ne: "applicable ?pos \<noteq> []" by (simp add: app)
  obtain s where s: "aggregate ?pos {11} (Some cfg) = Inr s" "ss_s_claimed s = Some (2/100)"
      "ss_alt_kind s = map_option kind_of_key (ss_alt_key s)"
      "ss_s_alt s = map_option (key_score cfg ?ck ?pos) (ss_alt_key s)"
      "case ss_alt_key s of None \<Rightarrow> (\<forall>k. reported ?ck ?pos k \<longrightarrow> k = ?ck) | Some k \<Rightarrow> best_alternate cfg ?ck ?pos k"
    using aggregate_sheet [OF sample_deps_facts(5) wz ne, of "{11}", folded cfg_def, unfolded app] score by auto
  have alt: "ss_alt_key s = Some (KInSeries {12})"
  proof (cases "ss_alt_key s")
    case None
    with s(5) have "\<forall>k. reported ?ck ?pos k \<longrightarrow> k = ?ck" by simp
    from spec [OF this, of "KInSeries {12}"] show ?thesis by (simp add: reported_def rep)
  next
    case (Some k)
    with s(5) show ?thesis by (auto simp: reported_def rep best_alternate_def split: if_splits)
  qed
  have "sheet = s" "route s (st_thresholds (dp_settings sample_deps)) (flags_of sample_deps) = Inr rd"
    using j s(1) by (auto simp: judge_def sample_claimed_def cfg_def res_bind_Inr_iff res_map_Inr_iff)
  then have "rd_action rd = Some (Remap {12})"
    using s(2-4) alt
    by (auto simp: route_def credible_def score sample_deps_def default_settings_def default_thresholds_def Let_def)
  with j a show ?thesis by blast
qed

end
