(* ===== verification/ProcessSpec.thy ===== *)
theory ProcessSpec
  imports PipelineRel PluginSpec
begin

text \<open>
  The properties of a job's run: how it ends, what it sends, what its plugins cost.
\<close>

section \<open>The queue stays well formed\<close>

definition keeps_wf :: "environ \<Rightarrow> world \<Rightarrow> world \<Rightarrow> bool" where
  "keeps_wf env w w' \<longleftrightarrow> wf_env env \<and> jobs_wf (w_db w) \<longrightarrow> jobs_wf (w_db w')"

lemma jobs_wf_cong: "db_jobs d' = db_jobs d \<Longrightarrow> jobs_wf d' \<longleftrightarrow> jobs_wf d"
  by (simp add: jobs_wf_def)

lemma keeps_wf_same: "db_jobs (w_db w') = db_jobs (w_db w) \<Longrightarrow> keeps_wf env w w'"
  by (simp add: keeps_wf_def jobs_wf_def)

lemma keeps_wf_refl: "keeps_wf env w w"
  by (simp add: keeps_wf_def)

lemma keeps_wf_trans: "keeps_wf env w w' \<Longrightarrow> keeps_wf env w' w'' \<Longrightarrow> keeps_wf env w w''"
  by (simp add: keeps_wf_def)

lemma keeps_wf_await:
  "keeps_wf env w (snd (http_send env rq w))" "keeps_wf env w (await_effect env e w)"
  by (simp_all add: keeps_wf_def wf_env_def http_send_def await_effect_def Let_def)

lemma os_call_db [simp]: "w_db (snd (os_call env op w)) = w_db w"
  by (simp add: os_call_def split: option.splits)

lemmas wf_moves = keeps_wf_refl keeps_wf_trans keeps_wf_await

lemma keeps_wf_release: "release (w_db w) job st u now = Inr (job', d) \<Longrightarrow> keeps_wf env w (w\<lparr>w_db := d\<rparr>)"
  by (auto simp: keeps_wf_def release_Inr dest!: update_job_wf [OF keeps_id_simps(2)])

interpretation wf_remedy: remedy_rel r "keeps_wf (re_env r)" for r
  by unfold_locales (auto intro: wf_moves keeps_wf_same keeps_wf_release simp: os_sleep_def)

interpretation wf_stage: pipeline_rel d "keeps_wf (dp_env d)" for d
  by unfold_locales (auto intro: wf_moves keeps_wf_same simp: os_sleep_def same_elsewhere_def)

section \<open>How a run ends\<close>

text \<open>While the run works its job object is active; it ends with the row settled and nobody's.\<close>

definition at_work :: "deps \<Rightarrow> int \<Rightarrow> pstate \<Rightarrow> bool" where
  "at_work d i s \<longleftrightarrow> wf_env (dp_env d) \<and> jobs_wf (w_db (ps_world s)) \<and> j_id (ps_job s) = i \<and> j_status (ps_job s) = Active"

definition finished :: "int \<Rightarrow> db \<Rightarrow> bool" where
  "finished i db \<longleftrightarrow>
     (\<exists>st \<in> TERMINAL_STATUSES. status_of db i = Some st) \<and> (\<forall>u. \<not> holds_lease db i u)"

abbreviation ends :: "deps \<Rightarrow> int \<Rightarrow> 'a pstep \<Rightarrow> ('a \<Rightarrow> pstate \<Rightarrow> bool) \<Rightarrow> bool" where
  "ends d i m Q \<equiv> ensures (at_work d i) m Q (\<lambda>s. finished i (w_db (ps_world s))) (\<lambda>_. at_work d i)"

abbreviation works :: "deps \<Rightarrow> int \<Rightarrow> 'a pstep \<Rightarrow> bool" where
  "works d i m \<equiv> ends d i m (\<lambda>_. at_work d i)"

lemma at_work_moved: "at_work d i s \<Longrightarrow> keeps_wf (dp_env d) (ps_world s) w \<Longrightarrow> at_work d i (s\<lparr>ps_world := w, ps_cache := c\<rparr>)"
  by (simp add: at_work_def keeps_wf_def)

lemma works_bind: "works d i m \<Longrightarrow> (\<And>x. ends d i (f x) Q) \<Longrightarrow> ends d i (flow_bind m f) Q"
  by (rule ensures_bind)

lemma works_on_world: "moves (keeps_wf (dp_env d)) m \<Longrightarrow> works d i (on_world m)"
  by (rule ensuresI) (auto simp: on_world_def at_work_def keeps_wf_def split: prod.splits sum.splits dest!: movesD)

lemma works_lift: "works d i (lift_res r)"
  by (rule ensuresI) (auto simp: lift_res_def split: sum.splits)

lemma works_const: "works d i (\<lambda>s. (Go x, s))"
  by (rule ensuresI) auto

lemma works_context: "works d i (context_step d sid)"
proof (rule ensuresI)
  fix s x s' assume p: "at_work d i s" and c: "context_step d sid s = (Go x, s')"
  have "keeps_wf (dp_env d) (ps_world s) (ps_world s')" "ps_job s' = ps_job s"
    using steps_byD [OF wf_stage.steps_context c] c by (auto simp: context_step_def split: prod.splits sum.splits)
  with p show "at_work d i s'" by (simp add: at_work_def keeps_wf_def)
next
  fix s e s' assume p: "at_work d i s" and c: "context_step d sid s = (Fail e, s')"
  have "keeps_wf (dp_env d) (ps_world s) (ps_world s')" "ps_job s' = ps_job s"
    using steps_byD [OF wf_stage.steps_context c] c by (auto simp: context_step_def split: prod.splits sum.splits)
  with p show "at_work d i s'" by (simp add: at_work_def keeps_wf_def)
qed (auto simp: context_step_def split: prod.splits sum.splits)

lemma release_finishes:
  assumes "at_work d i s" "st \<in> TERMINAL_STATUSES" "release (w_db (ps_world s)) (ps_job s) st u now = Inr (j, db)"
  shows "finished i db"
  using release_world(1,2) [OF _ assms(3)] assms(1,2) by (auto simp: finished_def at_work_def)

lemma ends_release:
  assumes "st \<in> TERMINAL_STATUSES"
  shows "ends d i (release_step d st) (\<lambda>_ s. finished i (w_db (ps_world s)))"
  by (rule ensuresI)
    (auto simp: release_step_def Let_def split: sum.splits dest: release_finishes [OF _ assms])

lemma publish_db [simp]: "w_db (publish d j txt w) = w_db w"
  by (simp add: publish_def)

lemma finished_publish: "ensures (\<lambda>s. finished i (w_db (ps_world s))) (publish_step d st)
    (\<lambda>_ s. finished i (w_db (ps_world s))) (\<lambda>s. finished i (w_db (ps_world s))) (\<lambda>_. at_work d i)"
  by (rule ensuresI) (auto simp: publish_step_def)

lemma finished_cong: "db_jobs db' = db_jobs db \<Longrightarrow> finished i db' = finished i db"
  by (simp add: finished_def status_of_def holds_lease_def get_job_def)

lemma corpus_jobs: "db_jobs (w_db (write_phash_corpus d h ctx ids c w)) = db_jobs (w_db w)"
  by (simp add: write_phash_corpus_def Let_def split: option.splits prod.splits)

lemma finished_corpus: "ensures (\<lambda>s. finished i (w_db (ps_world s))) (corpus_step d cl ctx g sh rd st)
    (\<lambda>_ s. finished i (w_db (ps_world s))) (\<lambda>s. finished i (w_db (ps_world s))) (\<lambda>_. at_work d i)"
proof (rule ensuresI)
  fix s x s' assume f: "finished i (w_db (ps_world s))" and c: "corpus_step d cl ctx g sh rd st s = (Go x, s')"
  have "db_jobs (w_db (ps_world s')) = db_jobs (w_db (ps_world s))"
    using c by (auto simp: corpus_step_def corpus_jobs split: option.splits prod.splits)
  with f show "finished i (w_db (ps_world s'))" using finished_cong by blast
qed (simp_all add: corpus_step_def)

lemma works_give_up: "works d i (give_up d :: 'a pstep)"
proof -
  have "ends d i (give_up d :: 'a pstep) (\<lambda>_ _. False)"
    unfolding give_up_def
  proof (intro ensures_bind [OF ends_release] ensures_bind [OF finished_publish])
    show "ensures (\<lambda>s. finished i (w_db (ps_world s))) (\<lambda>s. (Halt, s)) (\<lambda>_ _. False)
        (\<lambda>s. finished i (w_db (ps_world s))) (\<lambda>_. at_work d i)"
      by (rule ensuresI) auto
  qed (simp add: TERMINAL_STATUSES_def)
  then show ?thesis by (rule ensures_weaken) auto
qed

lemma works_claimed: "works d i (claimed_step d f ctx)"
proof -
  have "works d i (case c of None \<Rightarrow> give_up d | Some claimed \<Rightarrow> (\<lambda>s. (Go claimed, s)))" for c :: "claimed_ident option"
    by (cases c) (simp_all add: works_give_up works_const)
  then show ?thesis unfolding claimed_step_def by (intro ensures_bind [OF works_lift])
qed

lemma works_gather: "works d i (gather_step d f)"
proof -
  have pure: "works d i (\<lambda>s. (Go (g s), s))" for g :: "pstate \<Rightarrow> gathered" by (rule ensuresI) auto
  have cond: "works d i (if b then give_up d else m)" if "works d i m" for b and m :: "gathered pstep"
    using that by (cases b) (simp_all add: works_give_up)
  show ?thesis unfolding gather_step_def Let_def
    by (intro works_bind works_on_world cond pure wf_stage.moves_stage_probe wf_stage.moves_stage_audio
        wf_stage.moves_stage_subs wf_stage.moves_stage_frames wf_stage.moves_stage_transcript)
qed

text \<open>The remediation: when it returns the job is settled, when it raises the job object is active still.\<close>

lemma remediation_finishes:
  assumes "wf_env (re_env r)" "jobs_wf (w_db w)"
    and "m = replace r i w \<or> m = remap r i ts w" "m = (Inr u, w')"
  shows "finished i (w_db w')"
proof -
  have "\<exists>v l. settled i v l w'"
  proof (cases "load_run r i w")
    case (Inl e)
    with assms(3,4) show ?thesis by (auto simp: replace_def remap_def)
  next
    case (Inr s)
    note g = going_start [OF Inr assms(2)]
    from assms(3) show ?thesis
    proof
      assume "m = replace r i w"
      with Inr assms(4) obtain x s' where b: "replace_body r s = (x, s')" "rs_world s' = w'" "x = Halt"
        using replace_not_Go [of r s] by (cases "replace_body r s") (auto simp: replace_run [OF Inr] run_result_def split: flow.splits)
      with ok_atI [OF steps_replace [OF assms(1)] g] show ?thesis by (auto simp: ok_at_simps)
    next
      assume "m = remap r i ts w"
      with Inr assms(4) obtain x s' where b: "remap_body r ts s = (x, s')" "rs_world s' = w'" "x = Halt"
        using remap_not_Go [of r ts s] by (cases "remap_body r ts s") (auto simp: remap_run [OF Inr] run_result_def split: flow.splits)
      with ok_atI [OF steps_remap [OF assms(1)] g, of ts] show ?thesis by (auto simp: ok_at_simps)
    qed
  qed
  then show ?thesis by (auto simp: settled_def finished_def TERMINAL_STATUSES_def)
qed

lemma remediation_fails:
  assumes "m = replace r i w \<or> m = remap r i ts w" "m = (Inl e, w')"
  shows "keeps_wf (re_env r) w w'"
  using assms wf_remedy.replaced wf_remedy.remapped by metis

lemma ends_remediate: "ends d i (remediate_step d rd) (\<lambda>_ s. finished i (w_db (ps_world s)))"
proof -
  define act where "act s = (case rd_action rd of Some (Remap ids) \<Rightarrow> remap (remediator_of d) (j_id (ps_job s)) ids
        | _ \<Rightarrow> replace (remediator_of d) (j_id (ps_job s)))" for s :: pstate
  have two: "\<exists>ts. act s w = replace (remediator_of d) (j_id (ps_job s)) w \<or>
      act s w = remap (remediator_of d) (j_id (ps_job s)) ts w" for s w
    by (auto simp: act_def split: option.splits action.splits)
  have env: "re_env (remediator_of d) = dp_env d" by (simp add: remediator_of_def)
  have run: "ends d i (\<lambda>s. on_world (act s) s) (\<lambda>_ s. finished i (w_db (ps_world s)))"
  proof (rule ensuresI)
    fix s x s' assume p: "at_work d i s" and c: "on_world (act s) s = (Go x, s')"
    obtain w where w: "act s (ps_world s) = (Inr x, w)" "s' = s\<lparr>ps_world := w\<rparr>"
      using c by (auto simp: on_world_def split: prod.splits sum.splits)
    obtain ts where "act s (ps_world s) = replace (remediator_of d) i (ps_world s) \<or>
        act s (ps_world s) = remap (remediator_of d) i ts (ps_world s)"
      using two [of s "ps_world s"] p by (auto simp: at_work_def)
    from remediation_finishes [OF _ _ this w(1)] p env w(2) show "finished i (w_db (ps_world s'))"
      by (simp add: at_work_def)
  next
    fix s e s' assume p: "at_work d i s" and c: "on_world (act s) s = (Fail e, s')"
    obtain w where w: "act s (ps_world s) = (Inl e, w)" "s' = s\<lparr>ps_world := w\<rparr>"
      using c by (auto simp: on_world_def split: prod.splits sum.splits)
    obtain ts where "act s (ps_world s) = replace (remediator_of d) i (ps_world s) \<or>
        act s (ps_world s) = remap (remediator_of d) i ts (ps_world s)"
      using two [of s "ps_world s"] p by (auto simp: at_work_def)
    from remediation_fails [OF this w(1)] p env w(2) show "at_work d i s'"
      by (simp add: at_work_def keeps_wf_def)
  qed (auto simp: on_world_def split: prod.splits sum.splits)
  have look: "ensures (\<lambda>s. finished i (w_db (ps_world s)) \<and> j_id (ps_job s) = i)
      (\<lambda>s. case get_row j_id (j_id (ps_job s)) (db_jobs (w_db (ps_world s))) of
                None \<Rightarrow> (Fail AttributeError, s) | Some j \<Rightarrow> (Go (j_status j), s))
      (\<lambda>_ s. finished i (w_db (ps_world s))) (\<lambda>s. finished i (w_db (ps_world s))) (\<lambda>_. at_work d i)"
    by (rule ensuresI) (auto simp: finished_def status_of_def get_job_def split: option.splits)
  have id: "ends d i (\<lambda>s. on_world (act s) s) (\<lambda>_ s. j_id (ps_job s) = i)"
    using run by (auto simp: ensures_def at_work_def on_world_def split: prod.splits sum.splits flow.splits)
  have "ends d i (\<lambda>s. on_world (act s) s) (\<lambda>_ s. finished i (w_db (ps_world s)) \<and> j_id (ps_job s) = i)"
    by (rule ensures_weaken [OF ensures_conj [OF run id]]) auto
  from ensures_bind [OF this look] show ?thesis unfolding remediate_step_def act_def .
qed

lemma ends_settle: "ends d i (settle_outcome d rd) (\<lambda>_ s. finished i (w_db (ps_world s)))"
proof -
  have r: "ends d i (flow_bind (release_step d st) (\<lambda>_ s. (Go st, s))) (\<lambda>_ s. finished i (w_db (ps_world s)))"
    if "st \<in> TERMINAL_STATUSES" for st
    by (rule ensures_bind [OF ends_release [OF that]]) (rule ensuresI, auto)
  show ?thesis
    by (cases "rd_outcome rd") (simp_all add: settle_outcome_def r ends_remediate TERMINAL_STATUSES_def)
qed

lemma works_verdict: "works d i (insert_verdict d sh rd du)"
  by (rule ensuresI) (auto simp: insert_verdict_def Let_def at_work_def jobs_wf_def)

lemma ends_decide: "ends d i (decide_and_act d cl ctx g outs) (\<lambda>_ s. finished i (w_db (ps_world s)))"
proof -
  have "ends d i (flow_bind (insert_verdict d sh rd (ga_dupe g)) (\<lambda>_.
     flow_bind (settle_outcome d rd) (\<lambda>final. flow_bind (publish_step d final) (\<lambda>_.
       corpus_step d cl ctx g sh rd final)))) (\<lambda>_ s. finished i (w_db (ps_world s)))" for sh rd
    by (intro ensures_bind [OF works_verdict] ensures_bind [OF ends_settle] ensures_bind [OF finished_publish] finished_corpus)
  then show ?thesis unfolding decide_and_act_def
    by (intro ensures_bind [OF works_lift]) (simp split: prod.splits)
qed

lemma works_plugins: "works d i (\<lambda>s. on_world (run_plugin_stage d (j_id (ps_job s)) cl b ctx fps) s)"
proof -
  have "moves (keeps_wf (dp_env d)) (run_plugin_stage d j cl b ctx fps)" for j
    using wf_stage.moves_run_plugins by (simp add: moves_def run_plugin_stage_def)
  from works_on_world [OF this] show ?thesis by (auto simp: ensures_def)
qed

lemma ends_body: "ends d i (process_body d file) (\<lambda>_ s. finished i (w_db (ps_world s)))"
  unfolding process_body_def
  by (intro ensures_bind [OF works_lift] ensures_bind [OF works_context] ensures_bind [OF works_claimed]
      ensures_bind [OF works_gather] ensures_bind [OF works_plugins] ends_decide)

lemma handle_ends:
  assumes "at_work d i s" "handle_failure d e s = (x, s')"
  shows "x = Inl LeaseLost \<or> (x = Inr () \<and> finished i (w_db (ps_world s')))"
proof (cases "e = LeaseLost")
  case True
  with assms(2) show ?thesis by (simp add: handle_failure_def)
next
  case False
  have act: "j_status (ps_job s) = Active" using assms(1) by (simp add: at_work_def)
  have "finished i (w_db (ps_world s'))" if "release_step d Errored s = (Go (), s1)"
    "publish_step d Errored s1 = (y, s')" for s1 y
  proof -
    have "finished i (w_db (ps_world s1))"
      using ensuresD(1) [OF ends_release assms(1) that(1)] by (simp add: TERMINAL_STATUSES_def)
    then show ?thesis using that(2) by (auto simp: publish_step_def)
  qed
  moreover have "e' = LeaseLost" if "release_step d Errored s = (Fail e', s1)" for e' s1
    using that act by (auto simp: release_step_def Let_def release_def check_transition_def TERMINAL_STATUSES_def
        split: sum.splits if_splits prod.splits)
  moreover have "release_step d Errored s \<noteq> (Halt, s1)" for s1
    by (auto simp: release_step_def Let_def split: sum.splits)
  ultimately show ?thesis using assms(2) False act
    by (auto simp: handle_failure_def flow_bind_def publish_step_def split: prod.splits flow.splits)
qed


section \<open>What a run sends\<close>

fun meddles :: "effect \<Rightarrow> bool" where
  "meddles (EHttp rq) = (rq_method rq \<noteq> GET)"
| "meddles (EOs op err) = (\<not> looks op)"
| "meddles _ = False"

lemma os_call_looks: "looks op \<Longrightarrow> new_events (\<lambda>e. \<not> meddles e) w (snd (os_call env op w))"
  using os_call_events [of env op w "fst (os_call env op w)" "snd (os_call env op w)"]
  by (auto elim!: new_events_mono)

interpretation sends: process_rel d "new_events (\<lambda>e. \<not> meddles e)" for d
  by unfold_locales
    (auto intro: new_events_trans os_call_looks new_events_same
      simp: http_send_def await_effect_def os_sleep_def publish_def Let_def new_events_def
        os_call_looks [unfolded new_events_def] elim: harmless.elims)
text \<open>A deployment that must not act on its own: approval mode, both actions off, or a dry run.\<close>

definition hands_off :: "deps \<Rightarrow> bool" where
  "hands_off d \<longleftrightarrow>
     st_approval_required (dp_settings d) \<or>
     (\<not> si_auto_remap (dp_instance d) \<and> \<not> si_auto_replace (dp_instance d)) \<or>
     (st_dry_run (dp_settings d) \<and> cn_dry_run (dp_client d))"

lemma route_no_remediation:
  assumes "route sheet th fl = Inr rd"
    and "fl_approval_required fl \<or> (\<not> fl_auto_remap fl \<and> \<not> fl_auto_replace fl)"
  shows "rd_outcome rd \<noteq> ORemediate"
  using assms by (cases rule: route_Inr_cases) (auto split: action.splits)

lemma dry_remediation: "st_dry_run (dp_settings d) \<Longrightarrow> cn_dry_run (dp_client d) \<Longrightarrow>
    steps_by (new_events (\<lambda>e. \<not> meddles e)) (remediate_step d rd)"
proof -
  assume "st_dry_run (dp_settings d)" "cn_dry_run (dp_client d)"
  then have dry: "dry (remediator_of d)" by (simp add: dry_def remediator_of_def)
  have m: "meddles e \<Longrightarrow> mutating e" for e by (cases e) auto
  have ev: "new_events (\<lambda>e. \<not> meddles e) w (snd (replace (remediator_of d) i w))"
    "new_events (\<lambda>e. \<not> meddles e) w (snd (remap (remediator_of d) i ts w))" for i w ts
    by (auto intro: new_events_mono [OF dry_run_events(1) [OF dry]] new_events_mono [OF dry_run_events(2) [OF dry]] dest: m)
  have "moves (new_events (\<lambda>e. \<not> meddles e)) (case rd_action rd of
      Some (Remap ids) \<Rightarrow> remap (remediator_of d) i ids | _ \<Rightarrow> replace (remediator_of d) i)" for i
    using ev by (simp add: moves_def split: option.splits action.splits)
  from steps_byD [OF sends.steps_on_world [OF this]]
  have "steps_by (new_events (\<lambda>e. \<not> meddles e)) (\<lambda>s. on_world (case rd_action rd of
      Some (Remap ids) \<Rightarrow> remap (remediator_of d) (j_id (ps_job s)) ids
    | _ \<Rightarrow> replace (remediator_of d) (j_id (ps_job s))) s)"
    by (auto simp: steps_by_def)
  moreover have "steps_by (new_events (\<lambda>e. \<not> meddles e))
      (\<lambda>s. case get_row j_id (j_id (ps_job s)) (db_jobs (w_db (ps_world s))) of
                None \<Rightarrow> (Fail AttributeError, s) | Some j \<Rightarrow> (Go (j_status j), s))"
    by (auto simp: steps_by_def split: option.splits)
  ultimately show ?thesis unfolding remediate_step_def by (intro sends.steps_bind)
qed

lemma hands_off_within: "hands_off d \<Longrightarrow> acts_within (new_events (\<lambda>e. \<not> meddles e)) d"
  unfolding acts_within_def
proof (intro allI impI)
  fix claimed outcomes sheet rd
  assume h: "hands_off d" and j: "judge d claimed outcomes = Inr (sheet, rd)" and o: "rd_outcome rd = ORemediate"
  have r: "route sheet (st_thresholds (dp_settings d)) (flags_of d) = Inr rd"
    using j by (auto simp: judge_def res_bind_Inr_iff res_map_Inr_iff)
  from route_no_remediation [OF r] o have "st_dry_run (dp_settings d) \<and> cn_dry_run (dp_client d)"
    using h by (auto simp: hands_off_def flags_of_def)
  then show "steps_by (new_events (\<lambda>e. \<not> meddles e)) (remediate_step d rd)" by (intro dry_remediation) simp_all
qed

text \<open>C12: A deployment in approval mode, with both automatic actions off, or in a dry run only looks:
  whatever happens, a run of \<open>process_job\<close> sends Sonarr nothing but GETs and asks the file system for
  nothing but stats, reads and directories.\<close>

theorem hands_off_only_looks:
  assumes "hands_off d"
  shows "new_events (\<lambda>e. \<not> meddles e) w (snd (snd (process_job d i cache w)))"
  by (rule sends.processed [OF hands_off_within [OF assms]])

lemma hands_off_only_looks_witness:
  "new_events (\<lambda>e. \<not> meddles e) (sample_world [])
     (snd (snd (process_job (sample_deps\<lparr>dp_settings := default_settings\<lparr>st_approval_required := True\<rparr>\<rparr>) 1 [] (sample_world []))))"
  by (rule hands_off_only_looks) (simp add: hands_off_def)

lemma sample_job:
  "get_job (w_db (sample_world entries)) 1 = Some (leased Active ''pool-a-1'' 200 (new_job 1 7 Pending 100))"
  by (simp add: sample_world_def sample_db_def get_job_def get_row_def new_job_def leased_def)


section \<open>The interruption guard\<close>

lemma latest_appended:
  assumes "\<forall>x \<in> set rows. v_id x < v_id v"
  shows "latest_by v_id (filter P rows @ [v]) = Some v"
proof (cases "latest_by v_id (filter P rows @ [v])")
  case None
  then show ?thesis by (simp add: latest_by_None)
next
  case (Some r)
  then have "r \<in> set (filter P rows @ [v])" "v_id v \<le> v_id r" by (auto dest: latest_by_Some)
  with assms Some show ?thesis by auto
qed

text \<open>C33: The interruption guard does not see earlier runs: \<open>process_job\<close> stores a fresh verdict before
  it remediates, so the log the remediation loads is empty and the guard lets it go, whatever mutating
  steps the job's earlier verdicts record.\<close>

theorem fresh_verdict_blinds_guard:
  assumes "load_run r (j_id (ps_job s)) (ps_world (snd (insert_verdict d sheet rd du s))) = Inr t"
  shows "rs_log t = [] \<and> interruption_guard r t = (Go (), t)"
proof -
  let ?db = "w_db (ps_world (snd (insert_verdict d sheet rd du s)))"
  obtain v where v: "db_verdicts ?db = db_verdicts (w_db (ps_world s)) @ [v]" "v_job_id v = j_id (ps_job s)"
    "v_id v = fresh_id (map v_id (db_verdicts (w_db (ps_world s))))" "v_remediation_log v = []"
    by (simp add: insert_verdict_def Let_def)
  have "\<forall>x \<in> set (db_verdicts (w_db (ps_world s))). v_id x < v_id v"
    unfolding v(3) by (auto intro: fresh_id_greater)
  from latest_appended [OF this] have "latest_verdict ?db (j_id (ps_job s)) = Inr v"
    using v(1,2) by (simp add: latest_verdict_def)
  from load_run_facts(4) [OF assms this] have "rs_log t = []" using v(4) by simp
  then show ?thesis by (simp add: interruption_guard_def was_interrupted_def)
qed

definition sample_sheet :: score_sheet where
  "sample_sheet =
     \<lparr>ss_s_claimed = Some 0, ss_s_alt = None, ss_alt_key = None, ss_alt_kind = None, ss_applicable_count = 2,
      ss_per_candidate = [], ss_outliers_excluded = []\<rparr>"

definition sample_decision :: routing_decision where
  "sample_decision = \<lparr>rd_outcome = ORemediate, rd_action = Some Replace, rd_auto = True, rd_reason = NoEvidence\<rparr>"

definition sample_pstate :: "log_entry list \<Rightarrow> pstate" where
  "sample_pstate entries =
     \<lparr>ps_world = sample_world entries, ps_job = leased Active ''pool-a-1'' 200 (new_job 1 7 Pending 100), ps_cache = []\<rparr>"

lemma fresh_verdict_blinds_guard_witness:
  "was_interrupted sample_interrupted \<and>
   (\<exists>t. load_run (sample_remediator sample_peer False) 1
      (ps_world (snd (insert_verdict sample_deps sample_sheet sample_decision None (sample_pstate sample_interrupted)))) = Inr t \<and>
     interruption_guard (sample_remediator sample_peer False) t = (Go (), t))"
proof
  show "was_interrupted sample_interrupted"
    by (simp add: was_interrupted_def sample_interrupted_def is_mutating_entry_def MUTATING_STEPS_def starts_with_def contains_def)
  let ?s = "sample_pstate sample_interrupted"
  have i: "j_id (ps_job ?s) = 1" by (simp add: sample_pstate_def leased_def new_job_def)
  have "\<exists>t. load_run (sample_remediator sample_peer False) 1
      (ps_world (snd (insert_verdict sample_deps sample_sheet sample_decision None ?s))) = Inr t"
    by (simp add: insert_verdict_def Let_def sample_pstate_def sample_world_def sample_db_def load_run_def get_job_def
        get_row_def leased_def new_job_def sample_file_def latest_verdict_def sample_verdict_def)
  then obtain t where t: "load_run (sample_remediator sample_peer False) 1
      (ps_world (snd (insert_verdict sample_deps sample_sheet sample_decision None ?s))) = Inr t" by blast
  with fresh_verdict_blinds_guard [of "sample_remediator sample_peer False" ?s, unfolded i, OF t]
  show "\<exists>t. load_run (sample_remediator sample_peer False) 1
      (ps_world (snd (insert_verdict sample_deps sample_sheet sample_decision None ?s))) = Inr t \<and>
     interruption_guard (sample_remediator sample_peer False) t = (Go (), t)" by blast
qed

end
