(* ===== verification/ThrottleSpec.thy ===== *)
theory ThrottleSpec
  imports Worker
begin

text \<open>
  The throttle: which hours a window admits, and that the limiter is exact over every trailing hour
  as long as each claim is checked and recorded without another one in between.
\<close>

section \<open>Active hours\<close>

lemma digit_not_special: "is_digit c \<Longrightarrow> c \<noteq> CHR ''_'' \<and> c \<noteq> CHR ''-'' \<and> c \<noteq> CHR ''+'' \<and> \<not> is_space c"
  by (auto simp: is_digit_def is_space_def Let_def)

lemma digits_ok_digits: "s \<noteq> [] \<Longrightarrow> list_all is_digit s \<Longrightarrow> digits_ok s"
proof (induction s rule: digits_ok.induct)
  case (3 c cs)
  then show ?case by (simp add: is_digit_def)
qed (auto simp: digit_not_special)

lemma parse_digits_digits:
  assumes "s \<noteq> []" "list_all is_digit s"
  shows "parse_digits s = Inr (int (read_nat s))"
proof -
  have "filter (\<lambda>c. c \<noteq> CHR ''_'') s = s"
    using assms(2) by (intro filter_True) (auto simp: list_all_iff digit_not_special)
  with digits_ok_digits [OF assms] show ?thesis by (simp add: parse_digits_def)
qed

lemma strip_digits: "list_all is_digit s \<Longrightarrow> str_strip s = s"
proof -
  assume s: "list_all is_digit s"
  have *: "dropWhile is_space t = t" if "list_all is_digit t" for t
    using that by (cases t) (auto simp: digit_not_special)
  have "list_all is_digit (rev s)" using s by (simp add: list_all_iff)
  with * [OF s] * [OF this] show ?thesis by (simp add: str_strip_def)
qed

lemma str_int_digits:
  assumes "s \<noteq> []" "list_all is_digit s"
  shows "str_int s = Inr (int (read_nat s))"
  using assms parse_digits_digits [OF assms] digit_not_special
  by (cases s) (auto simp: str_int_def strip_digits)

lemma read_zeros: "read_nat (replicate k (CHR ''0'') @ s) = read_nat s"
proof -
  have "foldl (\<lambda>a c. 10 * a + digit_val c) 0 (replicate k (CHR ''0'')) = 0"
    by (induction k) (simp_all add: digit_val_def)
  then show ?thesis by (simp add: read_nat_def)
qed

definition hour_text :: "int \<Rightarrow> string" where
  "hour_text h = pad 2 (show_int h)"

lemma hour_digits:
  assumes "0 \<le> h"
  shows "list_all is_digit (hour_text h)" "hour_text h \<noteq> []" "str_int (hour_text h) = Inr h"
proof -
  have z: "is_digit (CHR ''0'')" by (simp add: is_digit_def)
  have s: "show_int h = show_nat (nat h)" using assms by (simp add: show_int_def)
  show d: "list_all is_digit (hour_text h)"
    using show_nat_digits z by (auto simp: hour_text_def pad_def s list_all_iff)
  show n: "hour_text h \<noteq> []" by (simp add: hour_text_def pad_def s show_nat_nonempty)
  show "str_int (hour_text h) = Inr h"
    using assms str_int_digits [OF n d] by (simp add: hour_text_def pad_def s read_zeros read_show_nat)
qed

lemma split_hours: "list_all is_digit a \<Longrightarrow> split_pair (a @ CHR ''-'' # b) = Inr (a, b)"
proof -
  assume "list_all is_digit a"
  then have "\<forall>x \<in> set a. x \<noteq> CHR ''-''" by (auto simp: list_all_iff digit_not_special)
  then show ?thesis by (simp add: split_pair_def Let_def)
qed

lemma clock_difference:
  fixes x y :: int
  assumes "0 \<le> x" "x < 24" "0 \<le> y" "y < 24"
  shows "(x - y) mod 24 = (if y \<le> x then x - y else x - y + 24)"
proof (cases "y \<le> x")
  case False
  have "(x - y) mod 24 = (x - y + 24) mod 24" by simp
  also have "\<dots> = x - y + 24" using False assms by (intro mod_pos_pos_trivial) simp_all
  finally show ?thesis using False by simp
qed (use assms in \<open>simp add: mod_pos_pos_trivial\<close>)

text \<open>A window \<open>HH-HH\<close> admits exactly the hours met when the clock is followed from the first
  hour round to the last, both included, whether or not it passes midnight.\<close>

theorem active_hours_cyclic:
  assumes "a \<in> {0..<24}" "b \<in> {0..<24}" "h \<in> {0..<24}"
  shows "in_active_hours (Some (pad 2 (show_int a) @ ''-'' @ pad 2 (show_int b))) h
    = Inr ((h - a) mod 24 \<le> (b - a) mod 24)"
proof -
  have "in_active_hours (Some (hour_text a @ CHR ''-'' # hour_text b)) h =
      Inr (if a \<le> b then a \<le> h \<and> h \<le> b else h \<ge> a \<or> h \<le> b)"
    using assms hour_digits [of a] hour_digits [of b] by (simp add: in_active_hours_def split_hours)
  moreover have "(h - a) mod 24 = (if a \<le> h then h - a else h - a + 24)"
    "(b - a) mod 24 = (if a \<le> b then b - a else b - a + 24)"
    using assms clock_difference [of h a] clock_difference [of b a] by simp_all
  ultimately show ?thesis using assms by (auto simp: hour_text_def)
qed

lemma active_hours_cyclic_witness:
  "in_active_hours (Some (pad 2 (show_int 22) @ ''-'' @ pad 2 (show_int 6))) 3 = Inr True"
  using active_hours_cyclic [of 22 6 3] by simp

section \<open>The rolling window\<close>

text \<open>
  Attempts at the given times: an attempt claims when the limiter has capacity. The reference keeps
  every claim ever made and looks at the last hour of them.
\<close>

fun guarded_claims :: "token_bucket \<Rightarrow> real list \<Rightarrow> real list" where
  "guarded_claims b [] = []"
| "guarded_claims b (t # ts) =
     (case has_capacity t b of
        (True, b') \<Rightarrow> t # guarded_claims (consume t b') ts
      | (False, b') \<Rightarrow> guarded_claims b' ts)"

definition last_hour :: "real \<Rightarrow> real list \<Rightarrow> real list" where
  "last_hour t ts = filter (\<lambda>x. t - 3600 < x \<and> x \<le> t) ts"

fun ideal_claims :: "nat \<Rightarrow> real list \<Rightarrow> real list \<Rightarrow> real list" where
  "ideal_claims n past [] = []"
| "ideal_claims n past (t # ts) =
     (if length (last_hour t past) < n then t # ideal_claims n (past @ [t]) ts else ideal_claims n past ts)"

text \<open>The bucket holds what a pruning since the last attempt has left of the past.\<close>

definition remembers :: "real \<Rightarrow> token_bucket \<Rightarrow> real list \<Rightarrow> bool" where
  "remembers now b past \<longleftrightarrow>
     (\<forall>x \<in> set past. x \<le> now) \<and> (\<exists>c. c \<le> now - WINDOW_S \<and> bk_timestamps b = filter (\<lambda>x. c < x) past)"

lemma prune_remembers:
  assumes "remembers now b past" "now \<le> t"
  shows "bk_timestamps (prune t b) = last_hour t past" "remembers t (prune t b) past"
proof -
  obtain c where c: "c \<le> now - WINDOW_S" "bk_timestamps b = filter (\<lambda>x. c < x) past" and p: "\<forall>x \<in> set past. x \<le> now"
    using assms(1) by (auto simp: remembers_def)
  have "bk_timestamps (prune t b) = filter (\<lambda>x. t - WINDOW_S < x) past"
    using c assms(2) by (auto simp: prune_def intro!: filter_cong)
  then show "bk_timestamps (prune t b) = last_hour t past" "remembers t (prune t b) past"
    using p assms(2) by (auto simp: last_hour_def WINDOW_S_def remembers_def intro!: filter_cong)
qed

lemma consume_remembers:
  assumes "remembers t b past" "bk_timestamps b = last_hour t past"
  shows "remembers t (consume t b) (past @ [t])" "bk_jobs_per_hour (consume t b) = bk_jobs_per_hour b"
proof -
  have "bk_timestamps (consume t b) = last_hour t past @ [t]"
    using prune_remembers(1) [OF assms(1) order_refl] by (simp add: consume_def Let_def)
  moreover have "last_hour t past = filter (\<lambda>x. t - WINDOW_S < x) past"
    using assms(1) by (auto simp: last_hour_def WINDOW_S_def remembers_def intro!: filter_cong)
  ultimately show "remembers t (consume t b) (past @ [t])"
    using assms(1) by (auto simp: remembers_def WINDOW_S_def intro!: exI [of _ "t - 3600"])
  show "bk_jobs_per_hour (consume t b) = bk_jobs_per_hour b" by (simp add: consume_def Let_def prune_def)
qed

lemma limiter_refines:
  assumes "0 < n" "bk_jobs_per_hour b = Some (int n)" "remembers now b past" "sorted (now # ts)"
  shows "guarded_claims b ts = ideal_claims n past ts"
  using assms(2-)
proof (induction ts arbitrary: now b past)
  case (Cons t ts)
  have t: "now \<le> t" "sorted (t # ts)" using Cons.prems(3) by auto
  note p = prune_remembers [OF Cons.prems(2) t(1)]
  have j: "bk_jobs_per_hour (prune t b) = Some (int n)" using Cons.prems(1) by (simp add: prune_def)
  have cap: "has_capacity t b = (length (last_hour t past) < n, prune t b)"
    using Cons.prems(1) assms(1) p(1) by (simp add: has_capacity_def Let_def)
  show ?case
  proof (cases "length (last_hour t past) < n")
    case True
    note q = consume_remembers [OF p(2,1)]
    have "bk_jobs_per_hour (consume t (prune t b)) = Some (int n)" using q(2) j by simp
    from Cons.IH [OF this q(1) t(2)] True cap show ?thesis by simp
  next
    case False
    with Cons.IH [OF j p(2) t(2)] cap show ?thesis by simp
  qed
qed simp

lemma last_hour_le: "length (last_hour t (a @ b)) = length (last_hour t a) + length (last_hour t b)"
  by (simp add: last_hour_def)

lemma ideal_bounded:
  assumes "sorted (past @ ts)" "\<forall>t. length (last_hour t past) \<le> n"
  shows "length (last_hour u (past @ ideal_claims n past ts)) \<le> n"
  using assms
proof (induction ts arbitrary: past)
  case (Cons t ts)
  show ?case
  proof (cases "length (last_hour t past) < n")
    case True
    have "length (last_hour v (past @ [t])) \<le> n" for v
    proof (cases "v - 3600 < t \<and> t \<le> v")
      case False
      then have "last_hour v [t] = []" by (auto simp: last_hour_def)
      with Cons.prems(2) show ?thesis by (simp add: last_hour_le)
    next
      case v: True
      have "\<forall>x \<in> set past. x \<le> t" using Cons.prems(1) by (simp add: sorted_append)
      then have "set (last_hour v past) \<subseteq> set (last_hour t past)" using v by (auto simp: last_hour_def)
      have "length (last_hour v past) \<le> length (last_hour t past)"
      proof -
        have "last_hour v past = filter (\<lambda>x. v - 3600 < x) (last_hour t past)"
          using \<open>\<forall>x \<in> set past. x \<le> t\<close> v by (auto simp: last_hour_def intro!: filter_cong)
        then show ?thesis by simp
      qed
      with True v show ?thesis by (simp add: last_hour_le) (simp add: last_hour_def)
    qed
    moreover have "sorted ((past @ [t]) @ ts)" using Cons.prems(1) by simp
    ultimately show ?thesis using Cons.IH [of "past @ [t]"] True by simp
  next
    case False
    have "sorted (past @ ts)" using Cons.prems(1) by (auto simp: sorted_append)
    with Cons.IH [OF this Cons.prems(2)] False show ?thesis by simp
  qed
qed simp

text \<open>C20: The limiter forgets nothing that matters: over attempts in time order it lets through exactly
  those a limiter keeping the whole history would, and so never more than \<open>n\<close> in any trailing hour.\<close>

theorem limiter_exact:
  assumes "0 < n" "sorted ts"
  shows "guarded_claims (new_bucket (Some (int n))) ts = ideal_claims n [] ts \<and>
    length (filter (\<lambda>x. u - 3600 < x \<and> x \<le> u) (guarded_claims (new_bucket (Some (int n))) ts)) \<le> n"
proof
  show e: "guarded_claims (new_bucket (Some (int n))) ts = ideal_claims n [] ts"
  proof (cases ts)
    case (Cons t ts')
    have "remembers (hd ts) (new_bucket (Some (int n))) []"
      unfolding remembers_def new_bucket_def by (intro conjI exI [of _ "hd ts - WINDOW_S"]) simp_all
    with Cons assms show ?thesis
      by (intro limiter_refines [where now = "hd ts"]) (auto simp: new_bucket_def)
  qed simp
  show "length (filter (\<lambda>x. u - 3600 < x \<and> x \<le> u) (guarded_claims (new_bucket (Some (int n))) ts)) \<le> n"
    using ideal_bounded [of "[]" ts n u] assms(2) unfolding e by (simp add: last_hour_def)
qed

lemma limiter_exact_witness:
  "length (filter (\<lambda>x. 7200 - 3600 < x \<and> x \<le> 7200) (guarded_claims (new_bucket (Some (int 2))) [10, 20, 30, 4000, 4001])) \<le> 2"
proof -
  have "(0 :: nat) < 2" "sorted [10 :: real, 20, 30, 4000, 4001]" by simp_all
  from conjunct2 [OF limiter_exact [OF this]] show ?thesis .
qed

text \<open>Two tasks that both check before either records overshoot.\<close>

lemma limiter_overshoot:
  "fst (has_capacity 0 (new_bucket (Some 1))) \<and>
   fst (has_capacity 0 (snd (has_capacity 0 (new_bucket (Some 1))))) \<and>
   length (bk_timestamps (consume 0 (consume 0 (snd (has_capacity 0 (new_bucket (Some 1))))))) = 2"
  by (simp add: has_capacity_def new_bucket_def consume_def prune_def WINDOW_S_def)

end
