(* ===== verification/WorkerSpec.thy ===== *)
theory WorkerSpec
  imports Worker JobSpec PluginSpec
begin

text \<open>
  The worker pool: what a turn of a worker task does (it sleeps exactly when it may not claim or
  there is nothing to claim, and otherwise runs the oldest pending job), and that no two tasks of
  a deployment with distinct base names share a worker id.
\<close>

section \<open>Worker ids\<close>

lemma suffix_split:
  assumes "a @ c # x = b @ c # y" "c \<notin> set x" "c \<notin> set y"
  shows "a = b \<and> x = y"
proof -
  have "takeWhile (\<lambda>z. z \<noteq> c) (rev (a @ c # x)) = rev x" "takeWhile (\<lambda>z. z \<noteq> c) (rev (b @ c # y)) = rev y"
    using assms(2,3) by (auto simp: takeWhile_append)
  with assms(1) show ?thesis by simp
qed

text \<open>Two tasks have the same worker id only if they are the same task of the same base name, so
  a lease names one task; two replicas given one base name do share their ids.\<close>

theorem worker_ids_distinct:
  "mint_worker_id a (int m) = mint_worker_id b (int n) \<longleftrightarrow> a = b \<and> m = n"
proof -
  have "CHR ''-'' \<notin> set (show_nat k)" for k using show_nat_no_char by (simp add: is_digit_def)
  then show ?thesis
    using suffix_split [of a "CHR ''-''" "show_nat m" b "show_nat n"]
    by (auto simp: mint_worker_id_def show_int_def show_nat_inj)
qed

section \<open>One turn of a worker\<close>

text \<open>What the settings and the limiter say before any claim is tried.\<close>

definition may_claim :: "pool \<Rightarrow> deps \<Rightarrow> wstate \<Rightarrow> bool res" where
  "may_claim p d s =
     (if tl_paused (st_throttle (dp_settings d)) then Inr False
      else res_map (\<lambda>open. open \<and> fst (has_capacity (wp_monotonic p (w_trace (ws_world s))) (ws_bucket s)))
        (in_active_hours (tl_active_hours (st_throttle (dp_settings d))) (utc_hour (now_of (dp_env d) (ws_world s)))))"

definition calm_queue :: "pool \<Rightarrow> bool" where
  "calm_queue p \<longleftrightarrow> wp_race p = (\<lambda>tr n db. db)"

lemma claim_next_calm:
  assumes "jobs_wf db"
  shows "claim_next (\<lambda>n d. d) clock 0 db w =
    (case oldest_pending db of
       None \<Rightarrow> Some (Inr (None, db))
     | Some c \<Rightarrow> Some (Inr (Some (leased Active w (clock 0) c),
         snd (update_job (j_id c) (\<lambda>j. j_status j = Pending) (leased Active w (clock 0)) (clock 0) db))))"
proof (cases "oldest_pending db")
  case None
  then show ?thesis by (simp add: claim_next.simps [of "\<lambda>n d. d" clock 0 db w] claim_attempt_None)
next
  case (Some c)
  then have "status_of db (j_id c) = Some Pending"
    using oldest_pending_Some [OF Some] mem_get_job [OF assms] by (simp add: status_of_def)
  from claim_attempt_won [of db c "\<lambda>d. d" w "clock 0", OF Some assms this] obtain n d2
    where u: "update_job (j_id c) (\<lambda>j. j_status j = Pending) (leased Active w (clock 0)) (clock 0) db = (n, d2)"
      and a: "claim_attempt (\<lambda>d. d) db w (clock 0) = Inr (Claimed (leased Active w (clock 0) c), d2)" .
  have "claim_next (\<lambda>n d. d) clock 0 db w = Some (Inr (Some (leased Active w (clock 0) c), d2))"
    using a by (simp add: claim_next.simps [of "\<lambda>n d. d" clock 0 db w])
  with Some u show ?thesis by simp
qed

lemma claim_turn_calm:
  assumes "calm_queue p" "jobs_wf (w_db (ws_world s))"
  shows "claim_turn p d s =
    (case oldest_pending (w_db (ws_world s)) of
       None \<Rightarrow> Some (Inr None, s)
     | Some c \<Rightarrow>
         (let w = ws_world s; t = now_of (dp_env d) w
          in Some (Inr (Some (leased Active (dp_worker d) t c)),
               s\<lparr>ws_world := w\<lparr>w_db := snd (update_job (j_id c) (\<lambda>j. j_status j = Pending)
                   (leased Active (dp_worker d) t) t (w_db w))\<rparr>\<rparr>)))"
  using assms by (simp add: claim_turn_def calm_queue_def claim_next_calm Let_def split: option.split)

lemma claim_round_empty:
  assumes "calm_queue p"
  shows "jobs_wf (w_db (ws_world s)) \<Longrightarrow> oldest_pending (w_db (ws_world s)) = None \<Longrightarrow>
    \<exists>i. claim_round p ds n s = Some (sleep_turn (s\<lparr>ws_idx := i\<rparr>))"
proof (induction n arbitrary: s)
  case 0
  have "s = s\<lparr>ws_idx := ws_idx s\<rparr>" by simp
  then show ?case by (metis claim_round.simps(1))
next
  case (Suc n)
  obtain name d where d: "ds ! ws_idx s = (name, d)" by fastforce
  let ?s = "s\<lparr>ws_idx := (ws_idx s + 1) mod length ds\<rparr>"
  have "claim_turn p d ?s = Some (Inr None, ?s)"
    using Suc.prems by (simp add: claim_turn_calm [OF assms])
  moreover obtain i where "claim_round p ds n ?s = Some (sleep_turn (?s\<lparr>ws_idx := i\<rparr>))"
    using Suc.IH [of ?s] Suc.prems by auto
  ultimately show ?case using d by (auto simp: Let_def)
qed

text \<open>What one turn may do, in terms of the database it starts from.\<close>

definition turn_right :: "pool \<Rightarrow> (string \<times> deps) list \<Rightarrow> wstate \<Rightarrow> turn res \<times> wstate \<Rightarrow> bool" where
  "turn_right p ds s out =
     (let gate = may_claim p (snd (hd ds)) s; next_job = oldest_pending (w_db (ws_world s))
      in case out of
           (Inl e, s') \<Rightarrow> gate = Inl e \<and> s' = s
         | (Inr Slept, s') \<Rightarrow>
             (gate = Inr False \<or> gate = Inr True \<and> next_job = None) \<and>
             ws_world s' = os_sleep POLL_EMPTY_SLEEP_S (ws_world s)
         | (Inr (RanJob name job r), s') \<Rightarrow>
             gate = Inr True \<and> (\<exists>c. next_job = Some c \<and> job = leased Active (dp_worker (snd (ds ! ws_idx s)))
               (now_of (dp_env (snd (ds ! ws_idx s))) (ws_world s)) c) \<and>
             name = fst (ds ! ws_idx s) \<and> ws_idx s' = (ws_idx s + 1) mod length ds \<and>
             wp_monotonic p (w_trace (ws_world s)) \<in> set (bk_timestamps (ws_bucket s')))"

lemma claim_round_pending:
  assumes "calm_queue p" "jobs_wf (w_db (ws_world s))" "oldest_pending (w_db (ws_world s)) = Some c"
    and "ds ! ws_idx s = (name, d)"
  shows "\<exists>r s'. claim_round p ds (Suc n) s = Some (Inr (RanJob name
      (leased Active (dp_worker d) (now_of (dp_env d) (ws_world s)) c) r), s') \<and>
    ws_idx s' = (ws_idx s + 1) mod length ds \<and>
    wp_monotonic p (w_trace (ws_world s)) \<in> set (bk_timestamps (ws_bucket s'))"
proof -
  let ?s = "s\<lparr>ws_idx := (ws_idx s + 1) mod length ds\<rparr>"
  have c: "claim_turn p d ?s = Some (Inr (Some (leased Active (dp_worker d) (now_of (dp_env d) (ws_world s)) c)),
      ?s\<lparr>ws_world := (ws_world s)\<lparr>w_db := snd (update_job (j_id c) (\<lambda>j. j_status j = Pending)
         (leased Active (dp_worker d) (now_of (dp_env d) (ws_world s))) (now_of (dp_env d) (ws_world s))
         (w_db (ws_world s)))\<rparr>\<rparr>)"
    using assms(2,3) by (simp add: claim_turn_calm [OF assms(1)] Let_def)
  show ?thesis using c assms(4)
    by (simp add: Let_def run_job_def consume_def split: prod.split)
qed


definition sample_pool :: pool where
  "sample_pool =
     \<lparr>wp_deps = [(''a'', sample_deps)], wp_discoverers = [], wp_size = 2, wp_lease_timeout_s = 300,
      wp_monotonic = (\<lambda>tr. 10), wp_race = (\<lambda>tr n db. db)\<rparr>"

definition sample_wstate :: wstate where
  "sample_wstate =
     \<lparr>ws_world = \<lparr>w_db = db_two_jobs, w_fs = (\<lambda>p. None), w_trace = []\<rparr>, ws_bucket = new_bucket (Some 5),
      ws_caches = [], ws_idx = 0\<rparr>"


end
