(* ===== verification/AssetSpec.thy ===== *)
theory AssetSpec
  imports PipelineRel PluginSpec
begin

text \<open>
  The assets of a file: that an extraction is not repeated while the file stays as it is, that the
  similarity of two hash sequences lies in the unit interval, and which file a duplicate check
  names.
\<close>

section \<open>Extractions are kept\<close>

text \<open>The others leave the asset rows and the file at the path alone.\<close>

definition source_still :: "deps \<Rightarrow> path \<Rightarrow> bool" where
  "source_still d p \<longleftrightarrow>
     (\<forall>tr db. db_assets (en_db (dp_env d) tr db) = db_assets db) \<and>
     (\<forall>tr fs. en_fs (dp_env d) tr fs (path_str p) = fs (path_str p))"

definition unmoved :: "deps \<Rightarrow> path \<Rightarrow> world \<Rightarrow> world \<Rightarrow> bool" where
  "unmoved d p w w' \<longleftrightarrow> (source_still d p \<longrightarrow>
     db_assets (w_db w') = db_assets (w_db w) \<and> w_fs w' (path_str p) = w_fs w (path_str p))"

lemma looks_apply: "looks op \<Longrightarrow> os_apply op fs = fs"
  by (cases op) simp_all

interpretation source: extract_rel d "unmoved d p" for d p
proof unfold_locales
  show "unmoved d p w (snd (os_call (dp_env d) op w))" if "looks op" for op w
    using that by (simp add: unmoved_def os_call_def looks_apply split: option.split)
qed (auto simp: unmoved_def http_send_def os_sleep_def await_effect_def source_still_def Let_def)

definition file_key :: "deps \<Rightarrow> path \<Rightarrow> string \<Rightarrow> string \<Rightarrow> world \<Rightarrow> string" where
  "file_key d p operation params w =
     tb_xxh64 (dp_tools d) (fingerprint_key (dp_tools d) p
       (case w_fs w (path_str p) of None \<Rightarrow> 0 | Some c \<Rightarrow> c) operation params)"

lemma fingerprint_value:
  "fingerprint (dp_tools d) p operation params w = (Inr fp, w') \<Longrightarrow> fp = file_key d p operation params w"
  by (auto simp: fingerprint_def file_key_def split: prod.splits sum.splits)

lemma fingerprint_looks:
  assumes "fingerprint (dp_tools d) p operation params w = (r, w')"
  shows "w_db w' = w_db w" "\<exists>x. w_trace w' = w_trace w @ [EOs (OsStat (path_str p)) x]"
    "r = Inr fp \<or> (\<exists>n m. r = Inl (OSErr n m)) \<Longrightarrow> w_fs w' = w_fs w"
  using assms by (auto simp: fingerprint_def os_call_def split: prod.splits sum.splits option.splits)

lemma fingerprint_raises:
  "fingerprint (dp_tools d) p operation params w = (Inl e, w') \<Longrightarrow> is_os_error e"
  by (auto simp: fingerprint_def os_call_def os_exn_def split: prod.splits sum.splits option.splits)

text \<open>An extraction whose result carries the file's key, whatever it did on the way.\<close>

definition keyed :: "deps \<Rightarrow> path \<Rightarrow> asset_type \<Rightarrow> string \<Rightarrow> string \<Rightarrow> (world \<Rightarrow> extracted res \<times> world) \<Rightarrow> bool" where
  "keyed d p t operation params extract \<longleftrightarrow>
     (\<forall>w x w'. source_still d p \<longrightarrow> extract w = (Inr x, w') \<longrightarrow>
        unmoved d p w w' \<and> ex_type x = t \<and> ex_fingerprint x = file_key d p operation params w)"

lemma unmoved_key:
  "source_still d p \<Longrightarrow> unmoved d p w w' \<Longrightarrow> file_key d p operation params w' = file_key d p operation params w"
  by (simp add: unmoved_def file_key_def)

lemma and_then_Inr: "and_then rw f = (Inr y, w') \<longleftrightarrow> (\<exists>x w1. rw = (Inr x, w1) \<and> f x w1 = (Inr y, w'))"
  by (cases rw; cases "fst rw") (auto simp: and_then_def)

lemma probe_keyed: "keyed d p AProbe ''probe'' [] (probe (dp_tools d) p)"
  unfolding keyed_def
proof (intro allI impI)
  fix w :: world and x w' assume still: "source_still d p" and e: "probe (dp_tools d) p w = (Inr x, w')"
  from e obtain out payload version w1 w2 fp w3 where
    s: "run_tool (dp_tools d) [FFPROBE, ''-v'', ''quiet'', ''-print_format'', ''json'', ''-show_format'',
          ''-show_streams'', path_str p] w = (Inr out, w1)"
       "tool_version (dp_tools d) FFPROBE w1 = (Inr version, w2)"
       "fingerprint (dp_tools d) p ''probe'' [] w2 = (Inr fp, w3)"
    and c: "(case payload of
          JObj kvs \<Rightarrow> Inr \<lparr>ex_type = AProbe, ex_path = None, ex_payload = Some (JObj kvs), ex_fingerprint = fp,
             ex_tool_meta = JObj [(''ffprobe_version'', JStr version)]\<rparr>
        | _ \<Rightarrow> Inl ValidationError) = Inr x" "w' = w3"
    unfolding probe_def and_then_Inr pure_res_def by blast
  have x: "ex_type x = AProbe" "ex_fingerprint x = fp" using c(1) by (cases payload; auto)+
  have "unmoved d p w w2"
    by (rule source.trans [OF movesD [OF source.moves_run s(1)] movesD [OF source.moves_version s(2)]])
  moreover from this have "unmoved d p w w3"
    by (rule source.trans [OF _ movesD [OF source.moves_fingerprint s(3)]])
  ultimately show "unmoved d p w w' \<and> ex_type x = AProbe \<and> ex_fingerprint x = file_key d p ''probe'' [] w"
    using x c(2) fingerprint_value [OF s(3)] unmoved_key [OF still] by simp
qed

lemma audio_keyed:
  "keyed d p AAudio ''extract_audio'' (audio_params (dp_tools d) a b) (extract_audio (dp_tools d) p od a b g)"
  unfolding keyed_def
proof (intro allI impI)
  fix w :: world and x w'
  assume still: "source_still d p" and e: "extract_audio (dp_tools d) p od a b g w = (Inr x, w')"
  let ?ps = "audio_params (dp_tools d) a b"
  from e obtain pr w1 fp w2 where
    s: "given_or_probe (dp_tools d) p g w = (Inr pr, w1)"
       "fingerprint (dp_tools d) p ''extract_audio'' ?ps w1 = (Inr fp, w2)"
    and x: "ex_type x = AAudio" "ex_fingerprint x = fp"
    by (auto simp: extract_audio_def and_then_Inr pure_res_def Let_def case_prod_beta)
  have "unmoved d p w w1" by (rule movesD [OF source.moves_given s(1)])
  moreover have "unmoved d p w w'" by (rule movesD [OF source.moves_audio e])
  ultimately show "unmoved d p w w' \<and> ex_type x = AAudio \<and> ex_fingerprint x = file_key d p ''extract_audio'' ?ps w"
    using x fingerprint_value [OF s(2)] unmoved_key [OF still] by simp
qed

text \<open>What a stage that gave a result has stored is what the stage looks up the next time.\<close>

lemma stage_stores:
  assumes "source_still d p" "keyed d p t operation params extract"
    "stage_one d i t (fingerprint (dp_tools d) p operation params) extract w = (Inr (Some x), w1)"
  shows "\<exists>row. asset_row_by_fp (w_db w1) i t (file_key d p operation params w1) = Inr (Some row) \<and>
    extracted_from_row row = x"
proof -
  obtain f w' where f: "fingerprint (dp_tools d) p operation params w = (Inr f, w')"
    and c: "cached_or_extract d i t f extract w' = (Inr (Some x), w1)"
    using assms(3) by (auto simp: stage_one_def split: prod.split_asm sum.split_asm if_split_asm)
  note l = fingerprint_looks [OF f]
  have key: "f = file_key d p operation params w'"
    using fingerprint_value [OF f] l(3) by (simp add: file_key_def)
  consider (cached) row where "asset_row_by_fp (w_db w') i t f = Inr (Some row)" "x = extracted_from_row row" "w1 = w'"
    | (run) w2 where "asset_row_by_fp (w_db w') i t f = Inr None" "extract w' = (Inr x, w2)" "w1 = persist_asset_row d i x w2"
    using c by (auto simp: cached_or_extract_def split: sum.split_asm option.split_asm prod.split_asm if_split_asm)
  then show ?thesis
  proof cases
    case cached
    with key show ?thesis by blast
  next
    case run
    have u: "unmoved d p w' w2" and x: "ex_type x = t" "ex_fingerprint x = f"
      using assms(1,2) run(2) key by (auto simp: keyed_def)
    have none: "filter (\<lambda>a. a_file_id a = i \<and> a_type a = t \<and> a_input_fingerprint a = f) (db_assets (w_db w')) = []"
      using run(1) by (auto simp: asset_row_by_fp_def split: list.split_asm)
    have "db_assets (w_db w2) = db_assets (w_db w')" "w_fs w1 (path_str p) = w_fs w' (path_str p)"
      using u assms(1) run(3) by (simp_all add: unmoved_def persist_asset_row_def Let_def)
    moreover from this(2) have "file_key d p operation params w1 = f" using key by (simp add: file_key_def)
    ultimately show ?thesis
      using none x run(3) by (auto simp: asset_row_by_fp_def persist_asset_row_def Let_def extracted_from_row_def)
  qed
qed

lemma stage_again:
  assumes "source_still d p" "keyed d p t operation params extract"
    "stage_one d i t (fingerprint (dp_tools d) p operation params) extract w = (Inr (Some x), w1)"
    "stage_one d i t (fingerprint (dp_tools d) p operation params) extract w1 = (r, w2)"
  shows "(r = Inr (Some x) \<or> r = Inr None) \<and> w_db w2 = w_db w1 \<and>
    (\<exists>y. w_trace w2 = w_trace w1 @ [EOs (OsStat (path_str p)) y])"
proof -
  obtain row where row: "asset_row_by_fp (w_db w1) i t (file_key d p operation params w1) = Inr (Some row)"
    "extracted_from_row row = x"
    using stage_stores [OF assms(1,2,3)] by blast
  obtain y w' where f: "fingerprint (dp_tools d) p operation params w1 = (y, w')"
    by (cases "fingerprint (dp_tools d) p operation params w1")
  note l = fingerprint_looks [OF f]
  have "w2 = w' \<and> (r = Inr (Some x) \<or> r = Inr None)"
  proof (cases y)
    case (Inl e)
    with f fingerprint_raises have "is_os_error e" by blast
    with assms(4) f Inl show ?thesis by (simp add: stage_one_def)
  next
    case (Inr fp)
    with f fingerprint_value have "fp = file_key d p operation params w1" by blast
    with assms(4) f Inr row l(1) show ?thesis by (simp add: stage_one_def cached_or_extract_def)
  qed
  with l(1,2) show ?thesis by blast
qed


section \<open>Duplicates\<close>

lemma similarity_sum:
  assumes "\<forall>a b. tb_distance tb a b \<in> {0..64}"
  shows "s \<le> foldl (\<lambda>t ab. t + frame_similarity tb ab) s xs \<and>
    foldl (\<lambda>t ab. t + frame_similarity tb ab) s xs \<le> s + of_nat (length xs)"
proof (induction xs arbitrary: s)
  case (Cons x xs)
  have "0 \<le> tb_distance tb (fst x) (snd x)" "tb_distance tb (fst x) (snd x) \<le> 64" using assms by simp_all
  then have "0 \<le> frame_similarity tb x" "frame_similarity tb x \<le> 1"
    by (simp_all add: frame_similarity_def PHASH_BITS_def)
  with Cons.IH [of "s + frame_similarity tb x"] show ?case by (simp add: algebra_simps)
qed simp

lemma similarity_self:
  "\<forall>a. tb_distance tb a a = 0 \<Longrightarrow>
    foldl (\<lambda>t ab. t + frame_similarity tb ab) s (zip xs xs) = s + of_nat (length xs)"
  by (induction xs arbitrary: s) (simp_all add: frame_similarity_def)

text \<open>With a 64-bit hash distance, the similarity of two hash sequences lies between 0 and 1, and
  a sequence that is not empty is wholly similar to itself.\<close>

theorem similarity_unit:
  assumes "\<forall>a b. tb_distance tb a b \<in> {0..64}" "\<forall>a. tb_distance tb a a = 0"
  shows "hamming_similarity tb xs ys \<in> {0..1} \<and> hamming_similarity tb xs xs = (if xs = [] then 0 else 1)"
  using similarity_sum [OF assms(1), of 0 "zip xs ys"] similarity_self [OF assms(2), of 0 xs]
  by (auto simp: hamming_similarity_def Let_def)

definition similar_enough :: "toolbox \<Rightarrow> string list \<Rightarrow> frame_hash_row list \<Rightarrow> (int \<times> real) option \<Rightarrow> bool" where
  "similar_enough tb hashes hs best =
     (case best of
        None \<Rightarrow> list_all (\<lambda>h. hamming_similarity tb hashes (h_hashes h) < DUPLICATE_SIMILARITY_THRESHOLD) hs
      | Some (i, s) \<Rightarrow>
          DUPLICATE_SIMILARITY_THRESHOLD \<le> s \<and>
          list_all (\<lambda>h. hamming_similarity tb hashes (h_hashes h) \<le> s) hs \<and>
          list_ex (\<lambda>h. h_file_id h = i \<and> hamming_similarity tb hashes (h_hashes h) = s) hs)"

lemma better_step:
  "similar_enough tb hashes hs best \<Longrightarrow> similar_enough tb hashes (hs @ [h]) (better_duplicate tb hashes h best)"
  by (cases best) (auto simp: similar_enough_def better_duplicate_def Let_def list_all_iff)

lemma best_duplicate: "similar_enough tb hashes hs (fold (better_duplicate tb hashes) hs None)"
  by (induction hs rule: rev_induct) (simp_all add: better_step, simp add: similar_enough_def)

text \<open>The duplicate check names another file exactly when some other file's hashes are similar
  enough, then the most similar one, with its similarity.\<close>

theorem duplicate_found_exact:
  "similar_enough tb (fh_hashes sq) (filter (\<lambda>h. h_file_id h \<noteq> f_id f) (db_frame_hashes d))
     (map_option (\<lambda>du. (du_file_id du, du_similarity du)) (check_duplicates tb d f sq))"
proof -
  let ?best = "fold (better_duplicate tb (fh_hashes sq)) (filter (\<lambda>h. h_file_id h \<noteq> f_id f) (db_frame_hashes d)) None"
  have "map_option (\<lambda>du. (du_file_id du, du_similarity du)) (check_duplicates tb d f sq) = ?best"
    by (cases ?best) (auto simp: check_duplicates_def)
  with best_duplicate show ?thesis by simp
qed

lemma similarity_unit_witness:
  "hamming_similarity (sample_toolbox\<lparr>tb_distance := (\<lambda>a b. if a = b then 0 else 64)\<rparr>) [''a'', ''b''] [''a'', ''c''] \<in> {0..1}"
  by (rule conjunct1 [OF similarity_unit]) simp_all

definition sample_path :: path where
  "sample_path = \<lparr>pa_root = ''/'', pa_parts = [''media'', ''x.mkv'']\<rparr>"


end
