(* ===== verification/Subtitles.thy ===== *)
theory Subtitles
  imports JsonText
begin

text \<open>
  \<open>impostarr/plugins/subtitles.py\<close>: cues out of SRT text. The two regular expressions are written
  out as the functions they denote on 8-bit text (a byte-order mark cannot occur there).
\<close>

section \<open>Lines and blocks\<close>

text \<open>\<open>str.splitlines\<close>: the line boundaries of 8-bit text; a carriage return and line feed are one.\<close>

definition is_break :: "char \<Rightarrow> bool" where
  "is_break c \<longleftrightarrow> (of_char c :: nat) \<in> {10, 11, 12, 13, 28, 29, 30, 133}"

fun after_break :: "string \<Rightarrow> string" where
  "after_break [] = []"
| "after_break (c # cs) =
     (if c = CHR 0x0D then (case cs of [] \<Rightarrow> [] | d # ds \<Rightarrow> if d = CHR 0x0A then ds else d # ds) else cs)"

lemma after_break_shorter: "s \<noteq> [] \<Longrightarrow> length (after_break s) < length s"
  by (cases s) (auto split: list.split)

function str_splitlines :: "string \<Rightarrow> string list" where
  "str_splitlines s =
     (if s = [] then []
      else takeWhile (\<lambda>c. \<not> is_break c) s # str_splitlines (after_break (dropWhile (\<lambda>c. \<not> is_break c) s)))"
  by pat_completeness auto

termination
proof (relation "measure length")
  fix s :: string
  assume s: "s \<noteq> []"
  let ?d = "dropWhile (\<lambda>c. \<not> is_break c) s"
  have "length (after_break ?d) < length s"
  proof (cases "?d = []")
    case True
    with s show ?thesis unfolding True by simp
  next
    case False
    from after_break_shorter [OF this] length_dropWhile_le [of "\<lambda>c. \<not> is_break c" s] show ?thesis by linarith
  qed
  then show "(after_break ?d, s) \<in> measure length" by simp
qed simp

declare str_splitlines.simps [simp del]

text \<open>
  \<open>re.split(r"\n\s*\n", s)\<close>. After a line feed comes the longest run of white space; if it holds
  another line feed, the separator ends with the last one in it.
\<close>

definition separator_end :: "string \<Rightarrow> string option" where
  "separator_end s =
     (let run = takeWhile is_space s; rest = drop (length run) s
      in if CHR 0x0A \<in> set run
         then Some (rev (takeWhile (\<lambda>c. c \<noteq> CHR 0x0A) (rev run)) @ rest) else None)"

lemma takeWhile_shorter: "x \<in> set xs \<Longrightarrow> \<not> P x \<Longrightarrow> length (takeWhile P xs) < length xs"
  by (induction xs) auto

lemma separator_end_shorter: "separator_end s = Some t \<Longrightarrow> length t < length s"
proof -
  assume a: "separator_end s = Some t"
  define run where "run = takeWhile is_space s"
  have nl: "CHR 0x0A \<in> set run" and t: "t = rev (takeWhile (\<lambda>c. c \<noteq> CHR 0x0A) (rev run)) @ drop (length run) s"
    using a by (auto simp: separator_end_def run_def Let_def split: if_splits)
  have "length (takeWhile (\<lambda>c. c \<noteq> CHR 0x0A) (rev run)) < length (rev run)"
    by (rule takeWhile_shorter [of "CHR 0x0A"]) (use nl in simp_all)
  moreover have "length run \<le> length s" by (simp add: run_def length_takeWhile_le)
  ultimately show ?thesis using t by simp
qed

function split_blocks :: "string \<Rightarrow> string list" where
  "split_blocks [] = [[]]"
| "split_blocks (c # cs) =
     (let rest = (\<lambda>_. case split_blocks cs of [] \<Rightarrow> [[c]] | b # bs \<Rightarrow> (c # b) # bs)
      in if c = CHR 0x0A
         then (case separator_end cs of Some t \<Rightarrow> [] # split_blocks t | None \<Rightarrow> rest ())
         else rest ())"
  by pat_completeness auto

termination
  by (relation "measure length") (auto dest: separator_end_shorter)

declare split_blocks.simps(2) [simp del]

section \<open>Timestamps\<close>

text \<open>\<open>(\d+):(\d{2}):(\d{2})[,.](\d{3})\<close> at the start of the text, and its first match in it.\<close>

definition digits_at :: "nat \<Rightarrow> string \<Rightarrow> (int \<times> string) option" where
  "digits_at n s =
     (if n \<le> length s \<and> list_all is_digit (take n s) then Some (int (read_nat (take n s)), drop n s) else None)"

definition char_at :: "string \<Rightarrow> string \<Rightarrow> string option" where
  "char_at cs s = (case s of [] \<Rightarrow> None | c # rest \<Rightarrow> if c \<in> set cs then Some rest else None)"

definition timestamp_at :: "string \<Rightarrow> (int \<times> int \<times> int \<times> int) option" where
  "timestamp_at s =
     (let n = length (takeWhile is_digit s)
      in if n = 0 then None
         else
           Option.bind (digits_at n s) (\<lambda>(h, s).
           Option.bind (char_at '':'' s) (\<lambda>s.
           Option.bind (digits_at 2 s) (\<lambda>(m, s).
           Option.bind (char_at '':'' s) (\<lambda>s.
           Option.bind (digits_at 2 s) (\<lambda>(sec, s).
           Option.bind (char_at '',.'' s) (\<lambda>s.
           Option.bind (digits_at 3 s) (\<lambda>(ms, s). Some (h, m, sec, ms)))))))))"

fun timestamp_search :: "string \<Rightarrow> (int \<times> int \<times> int \<times> int) option" where
  "timestamp_search [] = None"
| "timestamp_search (c # cs) =
     (case timestamp_at (c # cs) of Some t \<Rightarrow> Some t | None \<Rightarrow> timestamp_search cs)"

definition parse_timestamp_s :: "string \<Rightarrow> real option" where
  "parse_timestamp_s line =
     (case timestamp_search line of
        None \<Rightarrow> None
      | Some (h, m, s, ms) \<Rightarrow> Some (of_int (h * 3600 + m * 60 + s) + of_int ms / 1000))"

section \<open>Cues\<close>

definition arrow_index :: "string list \<Rightarrow> nat option" where
  "arrow_index lines =
     (let n = length (takeWhile (\<lambda>l. \<not> sublist ''-->'' l) lines) in if n < length lines then Some n else None)"

definition cue_of_block :: "string \<Rightarrow> (real option \<times> string) option" where
  "cue_of_block block =
     (let lines = str_splitlines block
      in case arrow_index lines of
           None \<Rightarrow> None
         | Some i \<Rightarrow>
             let cue = join '' '' (filter (\<lambda>l. l \<noteq> []) (map str_strip (drop (i + 1) lines)))
             in if cue = [] then None else Some (parse_timestamp_s (lines ! i), cue))"

definition iter_cues :: "string \<Rightarrow> (real option \<times> string) list" where
  "iter_cues text = List.map_filter cue_of_block (split_blocks (str_strip text))"

definition parse_srt :: "string \<Rightarrow> string list" where
  "parse_srt text = map snd (iter_cues text)"

definition parse_srt_timed :: "string \<Rightarrow> json" where
  "parse_srt_timed text =
     JList (map (\<lambda>(start, cue). JObj [(''start_s'', json_opt JFloat start), (''text'', JStr cue)]) (iter_cues text))"

end
