(* ===== verification/Api.thy ===== *)
theory Api
  imports World Config Subtitles
begin

text \<open>
  What surrounds the HTTP routes: identity attribution (\<open>api/auth.py\<close>), the publish/subscribe bus
  behind the event stream (\<open>api/events.py\<close>) and the ring buffer of log records
  (\<open>api/logbuffer.py\<close>).
\<close>

definition upper_char :: "char \<Rightarrow> char" where
  "upper_char c = (let n = (of_char c :: nat) in if 97 \<le> n \<and> n \<le> 122 then char_of (n - 32) else c)"

definition str_upper :: "string \<Rightarrow> string" where "str_upper = map upper_char"

section \<open>Identity and the group gate\<close>

text \<open>A request as the middleware sees it; header names arrive in lower case.\<close>

record api_request =
  aq_method :: string
  aq_path :: string
  aq_headers :: "(string \<times> string) list"

definition header :: "api_request \<Rightarrow> string \<Rightarrow> string option" where
  "header rq name = map_of (aq_headers rq) (str_lower name)"

definition HEALTHZ_PATH :: string where "HEALTHZ_PATH = ''/api/v1/healthz''"

text \<open>\<open>if x:\<close> of an optional text.\<close>

definition text_given :: "string option \<Rightarrow> bool" where
  "text_given x \<longleftrightarrow> x \<noteq> None \<and> x \<noteq> Some []"

definition key_identity :: "api_request \<Rightarrow> auth_config \<Rightarrow> string" where
  "key_identity rq au =
     (case header rq ''X-Api-Key'' of
        None \<Rightarrow> ''anon''
      | Some k \<Rightarrow>
          if k = [] then ''anon''
          else (case find (\<lambda>e. ak_key e = k) (au_api_keys au) of None \<Rightarrow> ''anon'' | Some e \<Rightarrow> ak_name e))"

definition resolve_identity :: "api_request \<Rightarrow> auth_config \<Rightarrow> string" where
  "resolve_identity rq au =
     (if text_given (au_trusted_header au) \<and> text_given (header rq (the (au_trusted_header au)))
      then the (header rq (the (au_trusted_header au))) else key_identity rq au)"

definition groups_of :: "string option \<Rightarrow> string list" where
  "groups_of raw =
     (let s = (case raw of None \<Rightarrow> [] | Some s \<Rightarrow> s)
      in map str_strip (filter (\<lambda>g. str_strip g \<noteq> []) (split_on (CHR '','') s)))"

definition group_missing :: "api_request \<Rightarrow> auth_config \<Rightarrow> bool" where
  "group_missing rq au \<longleftrightarrow>
     aq_path rq \<noteq> HEALTHZ_PATH \<and> text_given (au_group_header au) \<and> text_given (au_required_group au) \<and>
     the (au_required_group au) \<notin> set (groups_of (header rq (the (au_group_header au))))"

text \<open>The middleware: the audit line it logs, and the answer, its own or the route's.\<close>

definition auth_dispatch ::
  "auth_config \<Rightarrow> api_request \<Rightarrow> (string \<Rightarrow> 'a res) \<Rightarrow> string option \<times> 'a res" where
  "auth_dispatch au rq call_next =
     (let identity = resolve_identity rq au
      in if group_missing rq au then (None, Inl (HTTPException 403))
         else (if aq_method rq = ''POST''
               then Some (''audit: identity='' @ identity @ '' method='' @ aq_method rq @ '' path='' @ aq_path rq)
               else None,
               call_next identity))"

section \<open>The event bus\<close>

type_synonym event = "int \<times> string"

definition MAX_QUEUE_SIZE :: nat where "MAX_QUEUE_SIZE = 100"

text \<open>The subscribers' queues, oldest event first, each under the handle of its subscription.\<close>

type_synonym bus = "(nat \<times> event list) list"

definition subscribe :: "bus \<Rightarrow> nat \<times> bus" where
  "subscribe b = (let h = (if b = [] then 0 else Suc (Max (set (map fst b)))) in (h, b @ [(h, [])]))"

definition unsubscribe :: "nat \<Rightarrow> bus \<Rightarrow> bus" where
  "unsubscribe h b = filter (\<lambda>q. fst q \<noteq> h) b"

text \<open>\<open>put_nowait\<close>, making room by dropping the oldest.\<close>

definition offer :: "event \<Rightarrow> event list \<Rightarrow> event list" where
  "offer e q = (if length q < MAX_QUEUE_SIZE then q @ [e] else tl q @ [e])"

definition bus_publish :: "event \<Rightarrow> bus \<Rightarrow> bus" where
  "bus_publish e b = map (\<lambda>(h, q). (h, offer e q)) b"

text \<open>\<open>await queue.get()\<close> when there is an event to take.\<close>

definition bus_take :: "nat \<Rightarrow> bus \<Rightarrow> (event \<times> bus) option" where
  "bus_take h b =
     (case map_of b h of
        Some (e # q) \<Rightarrow> Some (e, map (\<lambda>p. if fst p = h then (h, q) else p) b)
      | _ \<Rightarrow> None)"

section \<open>The ring buffer of log records\<close>

record log_record =
  lr_created :: datetime
  lr_level :: string
  lr_logger :: string
  lr_message :: string
  lr_exc :: "string list option"

text \<open>A stored record; \<open>lr_exc\<close> above is the lines of the formatted traceback.\<close>

record log_item =
  li_ts :: string
  li_level :: string
  li_logger :: string
  li_message :: string
  li_exc :: "string option"

definition DEFAULT_CAPACITY :: nat where "DEFAULT_CAPACITY = 1000"
definition EXC_TRACEBACK_TAIL_LINES :: nat where "EXC_TRACEBACK_TAIL_LINES = 5"

definition LEVEL_ORDER :: "(string \<times> int) list" where
  "LEVEL_ORDER = [(''DEBUG'', 0), (''INFO'', 1), (''WARNING'', 2), (''ERROR'', 3), (''CRITICAL'', 4)]"

definition level_order :: "string \<Rightarrow> int" where
  "level_order l = (case map_of LEVEL_ORDER l of None \<Rightarrow> 0 | Some n \<Rightarrow> n)"

text \<open>\<open>xs[-n:]\<close> for positive \<open>n\<close>.\<close>

definition last_n :: "nat \<Rightarrow> 'a list \<Rightarrow> 'a list" where
  "last_n n xs = drop (length xs - n) xs"

definition format_exc :: "log_record \<Rightarrow> string option" where
  "format_exc r = map_option (\<lambda>lines. join [CHR 10] (last_n EXC_TRACEBACK_TAIL_LINES lines)) (lr_exc r)"

definition log_item_of :: "log_record \<Rightarrow> log_item" where
  "log_item_of r =
     \<lparr>li_ts = isoformat (lr_created r), li_level = lr_level r, li_logger = lr_logger r,
      li_message = lr_message r, li_exc = format_exc r\<rparr>"

text \<open>A \<open>deque(maxlen=capacity)\<close>.\<close>

record ring_buffer =
  rb_capacity :: nat
  rb_items :: "log_item list"

definition emit :: "log_record \<Rightarrow> ring_buffer \<Rightarrow> ring_buffer" where
  "emit r b = b\<lparr>rb_items := last_n (rb_capacity b) (rb_items b @ [log_item_of r])\<rparr>"

definition get_logs :: "ring_buffer \<Rightarrow> string option \<Rightarrow> int \<Rightarrow> log_item list" where
  "get_logs b level limit =
     (let records = (case level of
                       None \<Rightarrow> rb_items b
                     | Some l \<Rightarrow> filter (\<lambda>r. level_order (li_level r) \<ge> level_order (str_upper l)) (rb_items b))
      in if limit > 0 then last_n (nat limit) records else [])"

end
