(* ===== verification/Routes.thy ===== *)
theory Routes
  imports Api Worker
begin

text \<open>
  The routes of \<open>api/routes.py\<close> that change something: human verdicts, approval, rejection,
  replacement, parking, re-running, backfill, the trash, and pausing. A refusal is an
  \<open>HTTPException\<close> with its status code; any other exception is a server error.
\<close>

text \<open>
  What the application state holds. \<open>ap_race\<close> is what other sessions commit between a handler's
  reading and its writing, \<open>ap_text\<close> the decoded text of a file's content; the load figures and the
  subtitle quota are the machine's and the subtitle service's.
\<close>

record runtime =
  rt_client :: client
  rt_cfg :: sonarr_instance
  rt_disc :: disc

record app =
  ap_env :: environ
  ap_codec :: codec
  ap_settings :: settings
  ap_instances :: "(string \<times> runtime) list"
  ap_bus :: bool
  ap_log :: ring_buffer
  ap_pool_size :: int
  ap_race :: "effect list \<Rightarrow> db \<Rightarrow> db"
  ap_text :: "int \<Rightarrow> string"
  ap_cpu :: real
  ap_mem :: real
  ap_quota :: "json option"

type_synonym 'a handler = "world \<Rightarrow> 'a res \<times> world"

definition VERDICT_ALLOWED_STATUSES :: "job_status set" where
  "VERDICT_ALLOWED_STATUSES = {Quarantine, Inconclusive}"

section \<open>Shared helpers\<close>

definition others :: "app \<Rightarrow> world \<Rightarrow> world" where
  "others ap w = w\<lparr>w_db := ap_race ap (w_trace w) (w_db w)\<rparr>"

definition publish_update :: "app \<Rightarrow> int \<Rightarrow> job_status \<Rightarrow> world \<Rightarrow> world" where
  "publish_update ap job_id status w =
     (if ap_bus ap then w\<lparr>w_trace := w_trace w @ [EPublish job_id (job_status_str status)]\<rparr> else w)"

definition latest_verdict_of :: "db \<Rightarrow> int \<Rightarrow> verdict_row option" where
  "latest_verdict_of d job_id = latest_by v_id (filter (\<lambda>v. v_job_id v = job_id) (db_verdicts d))"

definition runtime_for_file :: "app \<Rightarrow> file_row \<Rightarrow> world \<Rightarrow> runtime res" where
  "runtime_for_file ap f w =
     (case get_row in_id (f_instance_id f) (db_instances (w_db w)) of
        None \<Rightarrow> Inl AttributeError
      | Some i \<Rightarrow>
          (case map_of (ap_instances ap) (in_name i) of
             None \<Rightarrow> Inl (HTTPException 500) | Some rt \<Rightarrow> Inr rt))"

definition need_file :: "file_row option \<Rightarrow> file_row res" where
  "need_file f = (case f of None \<Rightarrow> Inl AttributeError | Some x \<Rightarrow> Inr x)"

text \<open>Season and episode numbers, as entered by a person, to episode ids: all or none.\<close>

fun human_ids :: "episode list \<Rightarrow> int \<Rightarrow> int list \<Rightarrow> int set \<Rightarrow> int set option" where
  "human_ids episodes season [] ids = Some ids"
| "human_ids episodes season (n # ns) ids =
     (case find (\<lambda>e. ep_season_number e = season \<and> ep_episode_number e = n) episodes of
        None \<Rightarrow> None
      | Some e \<Rightarrow> human_ids episodes season ns (insert (ep_id e) ids))"

definition series_episodes_of :: "app \<Rightarrow> file_row \<Rightarrow> episode list handler" where
  "series_episodes_of ap f w =
     (case runtime_for_file ap f w of
        Inl e \<Rightarrow> (Inl e, w)
      | Inr rt \<Rightarrow> get_episodes (ap_env ap) (ap_codec ap) (rt_client rt) (f_series_id f) w)"

definition resolve_human_ident_ids :: "app \<Rightarrow> file_row \<Rightarrow> human_ident \<Rightarrow> int set option handler" where
  "resolve_human_ident_ids ap f ident w =
     and_then (series_episodes_of ap f w)
       (\<lambda>eps w. (Inr (human_ids eps (hi_season ident) (hi_episodes ident) {}), w))"

section \<open>Human verdicts\<close>

datatype verdict_kind = IsClaimed | IsOther | Ignore

record verdict_request =
  vq_verdict :: verdict_kind
  vq_ident :: "human_ident option"

fun verdict_target :: "verdict_kind \<Rightarrow> job_status" where
  "verdict_target IsClaimed = Matched"
| "verdict_target IsOther = Quarantine"
| "verdict_target Ignore = Inconclusive"

fun verdict_outcome :: "verdict_kind \<Rightarrow> route_outcome" where
  "verdict_outcome IsClaimed = OMatched"
| "verdict_outcome IsOther = OQuarantine"
| "verdict_outcome Ignore = OInconclusive"

definition human_verdict :: "app \<Rightarrow> int \<Rightarrow> verdict_request \<Rightarrow> world \<Rightarrow> verdict_row" where
  "human_verdict ap job_id body w =
     \<lparr>v_id = fresh_id (map v_id (db_verdicts (w_db w))), v_job_id = job_id,
      v_s_claimed = (if vq_verdict body = IsClaimed then Some 1 else None), v_s_alt = None,
      v_outcome = verdict_outcome (vq_verdict body), v_proposed_action = None, v_remediation_log = [],
      v_source = SrcHuman, v_human_ident = (if vq_verdict body = IsOther then vq_ident body else None),
      v_dupe_info = None, v_apply_at = None, v_created_at = now_of (ap_env ap) w\<rparr>"

definition add_verdict :: "verdict_row \<Rightarrow> world \<Rightarrow> world" where
  "add_verdict v w = w\<lparr>w_db := (w_db w)\<lparr>db_verdicts := db_verdicts (w_db w) @ [v]\<rparr>\<rparr>"

definition phash_corpus_for_verdict :: "app \<Rightarrow> file_row \<Rightarrow> frame_hash_row \<Rightarrow> episode list \<Rightarrow> world \<Rightarrow> world" where
  "phash_corpus_for_verdict ap f h episodes w =
     (case season_and_numbers (set (f_episode_ids f)) episodes of
        None \<Rightarrow> w
      | Some (season, numbers) \<Rightarrow>
          let r = \<lparr>c_id = fresh_id (map c_id (db_corpus (w_db w))), c_frame_hash_id = h_id h,
                   c_external_ids = [], c_season = season, c_episodes = numbers, c_confidence = 1,
                   c_source = SrcHuman, c_created_at = now_of (ap_env ap) w\<rparr>
          in w\<lparr>w_db := (w_db w)\<lparr>db_corpus := db_corpus (w_db w) @ [r]\<rparr>\<rparr>)"

definition sorted_ids :: "int set \<Rightarrow> int list" where
  "sorted_ids ids = sorted_list_of_set ids"

text \<open>What follows the verdict's row: the hash corpus, or the proposed remap.\<close>

definition after_verdict :: "app \<Rightarrow> file_row option \<Rightarrow> verdict_request \<Rightarrow> int list option handler" where
  "after_verdict ap file body w =
     (case vq_verdict body of
        IsClaimed \<Rightarrow>
          and_then (pure_res (need_file file) w) (\<lambda>f w.
          (case latest_frame_hash (w_db w) (f_id f) of
             None \<Rightarrow> (Inr None, w)
           | Some h \<Rightarrow>
               and_then (series_episodes_of ap f w)
                 (\<lambda>eps w. (Inr None, phash_corpus_for_verdict ap f h eps w))))
      | IsOther \<Rightarrow>
          and_then (pure_res (need_file file) w) (\<lambda>f w.
          and_then (resolve_human_ident_ids ap f (the (vq_ident body)) w)
            (\<lambda>ids w. (Inr (map_option sorted_ids ids), w)))
      | Ignore \<Rightarrow> (Inr None, w))"

record verdict_reply =
  vr_status :: job_status
  vr_verdict_id :: int
  vr_proposed_remap :: "int list option"

definition conflict_on_invalid :: "exn \<Rightarrow> exn" where
  "conflict_on_invalid e = (if e = InvalidTransition then HTTPException 409 else e)"

definition post_verdict :: "app \<Rightarrow> int \<Rightarrow> verdict_request \<Rightarrow> verdict_reply handler" where
  "post_verdict ap job_id body w =
     (case get_job (w_db w) job_id of
        None \<Rightarrow> (Inl (HTTPException 404), w)
      | Some job \<Rightarrow>
          if j_status job \<notin> VERDICT_ALLOWED_STATUSES then (Inl (HTTPException 409), w)
          else if vq_verdict body = IsOther \<and> vq_ident body = None then (Inl (HTTPException 400), w)
          else
            let file = get_row f_id (j_file_id job) (db_files (w_db w)); w1 = others ap w
            in (case set_status_checked (w_db w1) job (verdict_target (vq_verdict body)) (j_status job)
                       (now_of (ap_env ap) w1) of
                  Inl e \<Rightarrow> (Inl (conflict_on_invalid e), w1)
                | Inr (job', d) \<Rightarrow>
                    let w2 = w1\<lparr>w_db := d\<rparr>; v = human_verdict ap job_id body w2
                    in and_then (after_verdict ap file body (add_verdict v w2)) (\<lambda>remap w3.
                         (Inr \<lparr>vr_status = j_status job', vr_verdict_id = v_id v, vr_proposed_remap = remap\<rparr>,
                          publish_update ap job_id (j_status job') w3))))"

section \<open>Approval and replacement\<close>

definition api_worker_id :: "string \<Rightarrow> string" where
  "api_worker_id identity = ''api-'' @ identity"

definition api_remediator :: "app \<Rightarrow> runtime \<Rightarrow> string \<Rightarrow> remediator" where
  "api_remediator ap rt w =
     \<lparr>re_env = ap_env ap, re_codec = ap_codec ap, re_client = rt_client rt, re_instance = rt_cfg rt,
      re_dry_run = st_dry_run (ap_settings ap), re_trash = Some (st_trash (ap_settings ap)), re_worker = w\<rparr>"

definition run_action :: "remediator \<Rightarrow> int \<Rightarrow> action_json \<Rightarrow> unit handler" where
  "run_action r job_id act w =
     (case act of RemapJson ids \<Rightarrow> remap r job_id (set ids) w | ReplaceJson \<Rightarrow> replace r job_id w)"

definition report_status :: "app \<Rightarrow> int \<Rightarrow> job_status handler" where
  "report_status ap job_id w =
     (case get_job (w_db w) job_id of
        None \<Rightarrow> (Inl AttributeError, w)
      | Some j \<Rightarrow> (Inr (j_status j), publish_update ap job_id (j_status j) w))"

text \<open>From the claim on: the shared end of \<open>approve_job\<close> and \<open>replace_job\<close>.\<close>

definition claim_and_run ::
  "app \<Rightarrow> string \<Rightarrow> job_row \<Rightarrow> job_status set \<Rightarrow> file_row option \<Rightarrow> action_json \<Rightarrow> job_status handler" where
  "claim_and_run ap identity job from_statuses file act w =
     (let w1 = others ap w; wid = api_worker_id identity
      in case claim_for_api (w_db w1) job wid from_statuses (now_of (ap_env ap) w1) of
           Inl e \<Rightarrow> (Inl (conflict_on_invalid e), w1)
         | Inr (job', d) \<Rightarrow>
             let w2 = w1\<lparr>w_db := d\<rparr>
             in and_then (pure_res (need_file file) w2) (\<lambda>f w.
                and_then (pure_res (runtime_for_file ap f w) w) (\<lambda>rt w.
                and_then (run_action (api_remediator ap rt wid) (j_id job') act w) (\<lambda>_ w.
                  report_status ap (j_id job') w))))"

text \<open>The action to approve: the verdict's proposal, or the episodes a person named.\<close>

definition approved_action :: "app \<Rightarrow> file_row option \<Rightarrow> verdict_row option \<Rightarrow> action_json handler" where
  "approved_action ap file v w =
     (case v of
        None \<Rightarrow> (Inl (HTTPException 409), w)
      | Some v \<Rightarrow>
          (case v_proposed_action v of
             Some a \<Rightarrow> (Inr a, w)
           | None \<Rightarrow>
               (case (v_source v, v_human_ident v) of
                  (SrcHuman, Some ident) \<Rightarrow>
                    and_then (pure_res (need_file file) w) (\<lambda>f w.
                    and_then (resolve_human_ident_ids ap f ident w) (\<lambda>ids w.
                      (case ids of None \<Rightarrow> (Inl (HTTPException 409), w)
                       | Some s \<Rightarrow> (Inr (RemapJson (sorted_ids s)), w))))
                | _ \<Rightarrow> (Inl (HTTPException 409), w))))"

definition approve_job :: "app \<Rightarrow> string \<Rightarrow> int \<Rightarrow> job_status handler" where
  "approve_job ap identity job_id w =
     (case get_job (w_db w) job_id of
        None \<Rightarrow> (Inl (HTTPException 404), w)
      | Some job \<Rightarrow>
          if j_status job \<noteq> Quarantine then (Inl (HTTPException 409), w)
          else
            let file = get_row f_id (j_file_id job) (db_files (w_db w))
            in and_then (approved_action ap file (latest_verdict_of (w_db w) job_id) w) (\<lambda>act w.
                 claim_and_run ap identity job {Quarantine} file act w))"

definition replace_job :: "app \<Rightarrow> string \<Rightarrow> int \<Rightarrow> job_status handler" where
  "replace_job ap identity job_id w =
     (case get_job (w_db w) job_id of
        None \<Rightarrow> (Inl (HTTPException 404), w)
      | Some job \<Rightarrow>
          if j_status job \<notin> VERDICT_ALLOWED_STATUSES then (Inl (HTTPException 409), w)
          else
            claim_and_run ap identity job VERDICT_ALLOWED_STATUSES
              (get_row f_id (j_file_id job) (db_files (w_db w))) ReplaceJson w)"

definition reject_job :: "app \<Rightarrow> int \<Rightarrow> job_status handler" where
  "reject_job ap job_id w =
     (case get_job (w_db w) job_id of
        None \<Rightarrow> (Inl (HTTPException 404), w)
      | Some job \<Rightarrow>
          if j_status job \<noteq> Quarantine then (Inl (HTTPException 409), w)
          else
            let w1 = (case latest_verdict_of (w_db w) job_id of
                        None \<Rightarrow> w
                      | Some v \<Rightarrow>
                          let w' = others ap w
                          in w'\<lparr>w_db := (w_db w')\<lparr>db_verdicts := update_where (\<lambda>x. v_id x = v_id v)
                               (\<lambda>x. x\<lparr>v_proposed_action := None\<rparr>) (db_verdicts (w_db w'))\<rparr>\<rparr>)
            in (Inr Quarantine, publish_update ap job_id Quarantine w1))"

section \<open>Park, unpark, re-run\<close>

definition transition_endpoint ::
  "app \<Rightarrow> (db \<Rightarrow> job_row \<Rightarrow> datetime \<Rightarrow> (job_row \<times> db) res) \<Rightarrow> int \<Rightarrow> job_status handler" where
  "transition_endpoint ap fn job_id w =
     (case get_job (w_db w) job_id of
        None \<Rightarrow> (Inl (HTTPException 404), w)
      | Some job \<Rightarrow>
          let w1 = others ap w
          in (case fn (w_db w1) job (now_of (ap_env ap) w1) of
                Inl e \<Rightarrow> (Inl (conflict_on_invalid e), w1)
              | Inr (job', d) \<Rightarrow> (Inr (j_status job'), publish_update ap job_id (j_status job') (w1\<lparr>w_db := d\<rparr>))))"

definition park_job :: "app \<Rightarrow> int \<Rightarrow> job_status handler" where
  "park_job ap = transition_endpoint ap park"

definition unpark_job :: "app \<Rightarrow> int \<Rightarrow> job_status handler" where
  "unpark_job ap = transition_endpoint ap unpark"

definition rerun_job :: "app \<Rightarrow> int \<Rightarrow> job_status handler" where
  "rerun_job ap = transition_endpoint ap requeue"

section \<open>Backfill, pause, trash\<close>

record backfill_request =
  bq_batch_size :: int
  bq_reset :: bool
  bq_series_id :: "int option"

definition default_backfill :: backfill_request where
  "default_backfill = \<lparr>bq_batch_size = 100, bq_reset = False, bq_series_id = None\<rparr>"

definition backfill_instance :: "app \<Rightarrow> string \<Rightarrow> backfill_request \<Rightarrow> discovery_result handler" where
  "backfill_instance ap name body w =
     (case map_of (ap_instances ap) name of
        None \<Rightarrow> (Inl (HTTPException 404), w)
      | Some rt \<Rightarrow> backfill_step (rt_disc rt) (bq_batch_size body) (bq_reset body) (bq_series_id body) w)"

definition set_paused :: "bool \<Rightarrow> app \<Rightarrow> app" where
  "set_paused b ap =
     ap\<lparr>ap_settings := (ap_settings ap)\<lparr>st_throttle := (st_throttle (ap_settings ap))\<lparr>tl_paused := b\<rparr>\<rparr>\<rparr>"

definition active_trash_item :: "db \<Rightarrow> int \<Rightarrow> trash_row res" where
  "active_trash_item d i =
     (case get_row t_id i (db_trash d) of
        None \<Rightarrow> Inl (HTTPException 404)
      | Some t \<Rightarrow> if t_deleted_at t \<noteq> None then Inl (HTTPException 409) else Inr t)"

definition delete_trash_item :: "app \<Rightarrow> int \<Rightarrow> unit handler" where
  "delete_trash_item ap i w =
     (case active_trash_item (w_db w) i of
        Inl e \<Rightarrow> (Inl e, w)
      | Inr t \<Rightarrow> (Inr (), delete_now (ap_env ap) t (others ap w)))"

definition restore_trash_item :: "app \<Rightarrow> int \<Rightarrow> string handler" where
  "restore_trash_item ap i w =
     (case active_trash_item (w_db w) i of
        Inl e \<Rightarrow> (Inl e, w)
      | Inr t \<Rightarrow>
          (case restore (ap_env ap) t (others ap w) of
             (Inl e, w1) \<Rightarrow> (Inl (if e = RestoreConflict then HTTPException 409 else e), w1)
           | (Inr _, w1) \<Rightarrow> (Inr (t_original_path t), w1)))"

end
