(* ===== verification/RouteRel.thy ===== *)
theory RouteRel
  imports PipelineRel Routes
begin

text \<open>
  What an HTTP handler does to the world before and after its own writes: its requests only read,
  and the row it may add to the hash corpus is no business of the other tables. The relations of
  interest are interpretations, as in \<open>WorldRel\<close>.
\<close>

locale api_rel = world_rel "ap_env ap" R for ap :: app and R +
  assumes corpus_row: "R w (w\<lparr>w_db := (w_db w)\<lparr>db_corpus := cs\<rparr>\<rparr>)"
begin

lemma then_moves:
  assumes "moves R m" "\<And>x. moves R (f x)"
  shows "moves R (\<lambda>w. and_then (m w) f)"
  unfolding moves_def
proof
  fix w :: world
  obtain y w1 where m: "m w = (y, w1)" by (cases "m w")
  have "R w1 (snd (and_then (y, w1) f))"
    using assms(2) by (cases y) (simp_all add: and_then_def moves_def refl)
  with movesD [OF assms(1) m] m show "R w (snd (and_then (m w) f))" by (auto intro: trans)
qed

lemma const_moves: "moves R (\<lambda>w. (r w, w))" "moves R (pure_res x)"
  by (simp_all add: moves_def pure_res_def refl)

lemma after_moves: "R w w1 \<Longrightarrow> moves R m \<Longrightarrow> R w (snd (m w1))"
  by (auto simp: moves_def intro: trans)

lemma episodes_moves: "moves R (series_episodes_of ap f)"
  by (auto simp: moves_def series_episodes_of_def gets refl split: sum.splits)

lemma idents_moves: "moves R (resolve_human_ident_ids ap f ident)"
  unfolding resolve_human_ident_ids_def by (intro then_moves episodes_moves const_moves)

lemma corpus_moves: "moves R (\<lambda>w. (r, phash_corpus_for_verdict ap f h eps w))"
  by (auto simp: moves_def phash_corpus_for_verdict_def Let_def refl corpus_row split: option.splits)

lemma after_verdict_moves: "moves R (after_verdict ap file body)"
proof -
  have "moves R (\<lambda>w. case latest_frame_hash (w_db w) i of None \<Rightarrow> (Inr None, w)
      | Some h \<Rightarrow> and_then (series_episodes_of ap f w) (\<lambda>eps w. (Inr None, phash_corpus_for_verdict ap f h eps w)))" for f i
  proof -
    have "moves R (\<lambda>w. and_then (series_episodes_of ap f w)
        (\<lambda>eps w. (Inr None, phash_corpus_for_verdict ap f h eps w)))" for h
      by (intro then_moves episodes_moves corpus_moves)
    then show ?thesis by (auto simp: moves_def refl split: option.splits)
  qed
  then show ?thesis
    unfolding after_verdict_def
    by (cases "vq_verdict body") (auto simp: const_moves intro!: then_moves idents_moves)
qed

lemma approved_action_moves: "moves R (approved_action ap file v)"
proof -
  have "moves R (\<lambda>w. and_then (pure_res (need_file file) w) (\<lambda>f w.
       and_then (resolve_human_ident_ids ap f ident w) (\<lambda>ids w.
         case ids of None \<Rightarrow> (Inl (HTTPException 409), w) | Some s \<Rightarrow> (Inr (RemapJson (sorted_ids s)), w))))" for ident
  proof (intro then_moves const_moves idents_moves)
    fix ids :: "int set option"
    show "moves R (\<lambda>w. case ids of None \<Rightarrow> (Inl (HTTPException 409), w) | Some s \<Rightarrow> (Inr (RemapJson (sorted_ids s)), w))"
      by (cases ids) (simp_all add: const_moves)
  qed
  then show ?thesis
    by (auto simp: moves_def approved_action_def refl split: option.splits verdict_source.splits)
qed

end

end
