(* ===== verification/SystemRel.thy ===== *)
theory SystemRel
  imports RouteRel Worker JobSpec DiscoverySteps
begin

text \<open>
  The parts the system is composed of, as relations on worlds, after the pattern of \<open>WorldRel\<close>: the
  turn of a worker, a step of discovery, a request to the API. Each locale asks for the moves its part
  is made of and gives the whole; what the theorems about the system need are interpretations.
\<close>

section \<open>A worker's turn\<close>

locale pool_rel =
  fixes p :: pool and ds :: "(string \<times> deps) list" and R :: "world \<Rightarrow> world \<Rightarrow> bool"
  assumes refl: "R w w"
    and trans: "R w w' \<Longrightarrow> R w' w'' \<Longrightarrow> R w w''"
    and slept: "R w (os_sleep x w)"
    and claimed: "claim_next (wp_race p tr) clock 0 (w_db w) u = Some (Inr (job, db)) \<Longrightarrow> R w (w\<lparr>w_db := db\<rparr>)"
    and ran: "(name, d) \<in> set ds \<Longrightarrow> R w (snd (snd (process_job d i cache w)))"
begin

lemma claim_turn_moves: "claim_turn p d s = Some (r, s') \<Longrightarrow> R (ws_world s) (ws_world s')"
  by (auto simp: claim_turn_def Let_def refl split: option.splits sum.splits dest: claimed)

lemma run_job_moves: "run_job d name job s = (r, s') \<Longrightarrow> (n, d) \<in> set ds \<Longrightarrow> R (ws_world s) (ws_world s')"
  using ran [of n d "ws_world s" "j_id job" "cache_of name s"]
  by (auto simp: run_job_def split: prod.splits)

lemma sleep_turn_moves: "sleep_turn s = (r, s') \<Longrightarrow> R (ws_world s) (ws_world s')"
  by (auto simp: sleep_turn_def slept)

lemma claim_round_moves:
  assumes "claim_round p ds n s = Some (r, s')" "ds \<noteq> []" "ws_idx s < length ds"
  shows "R (ws_world s) (ws_world s')"
  using assms(1,3)
proof (induction n arbitrary: s)
  case 0
  then show ?case by (auto dest: sleep_turn_moves)
next
  case (Suc n)
  obtain name d where nd: "ds ! ws_idx s = (name, d)" by (cases "ds ! ws_idx s")
  have mem: "(name, d) \<in> set ds" using nth_mem [OF Suc.prems(2)] nd by simp
  let ?s1 = "s\<lparr>ws_idx := (ws_idx s + 1) mod length ds\<rparr>"
  obtain q s2 where c: "claim_turn p d ?s1 = Some (q, s2)"
    using Suc.prems(1) nd by (auto simp: Let_def split: option.splits)
  have 1: "R (ws_world s) (ws_world s2)" using claim_turn_moves [OF c] by simp
  have idx: "ws_idx s2 < length ds"
    using c assms(2) by (auto simp: claim_turn_def Let_def split: option.splits sum.splits)
  show ?case
  proof (cases q)
    case (Inl e)
    with Suc.prems(1) nd c 1 show ?thesis by (simp add: Let_def)
  next
    case (Inr job)
    show ?thesis
    proof (cases job)
      case None
      with Suc.prems(1) nd c Inr have "claim_round p ds n s2 = Some (r, s')" by (simp add: Let_def)
      from trans [OF 1 Suc.IH [OF this idx]] show ?thesis .
    next
      case (Some j)
      with Suc.prems(1) nd c Inr obtain s3 where "run_job d name j s3 = (r, s')" "ws_world s3 = ws_world s2"
        by (auto simp: Let_def)
      with run_job_moves [of d name j s3 r s', OF _ mem] 1 show ?thesis by (auto intro: trans)
    qed
  qed
qed

lemma worker_turn_moves:
  assumes "worker_turn p ds s = Some (r, s')" "ds = [] \<or> ws_idx s < length ds"
  shows "R (ws_world s) (ws_world s')"
proof (cases ds)
  case Nil
  with assms(1) show ?thesis by (auto simp: worker_turn_def dest: sleep_turn_moves)
next
  case (Cons x xs)
  then have round: "R (ws_world s) (ws_world s')"
    if "claim_round p ds (length ds) (s\<lparr>ws_bucket := b\<rparr>) = Some (r, s')" for b
    using claim_round_moves [OF that] assms(2) by simp
  have sleep: "R (ws_world s) (ws_world s')" if "sleep_turn (s\<lparr>ws_bucket := b\<rparr>) = (r, s')" for b
    using sleep_turn_moves [OF that] by simp
  from sleep [of "ws_bucket s"] have sl: "R (ws_world s) (ws_world s')" if "sleep_turn s = (r, s')"
    using that by simp
  from assms(1) Cons round sleep sl refl show ?thesis
    by (cases x) (auto simp: worker_turn_def Let_def split: if_splits sum.splits bool.splits prod.splits)
qed

end

section \<open>Discovery\<close>

locale disc_rel = world_rel "di_env d" R for d :: disc and R +
  assumes looked: "looks op \<Longrightarrow> R w (snd (os_call (di_env d) op w))"
    and stored: "R w (w\<lparr>w_db := db\<rparr>)"
begin

lemma hashed: "R w (snd (hash_file d p w))"
proof -
  obtain x w1 where s: "os_call (di_env d) (OsStat p) w = (x, w1)" by fastforce
  obtain y w2 where r: "os_call (di_env d) (OsRead p) w1 = (y, w2)" by fastforce
  have "R w w1" "R w1 w2" using looked [of "OsStat p" w] looked [of "OsRead p" w1] s r by simp_all
  with s r show ?thesis by (auto simp: hash_file_def intro: trans split: sum.splits)
qed

lemma captured:
  assumes "\<And>t. R (ds_world t) (ds_world (snd (resolve t)))"
  shows "R (ds_world s) (ds_world (snd (capture_file d inst c resolve s)))"
proof -
  obtain x s1 where r: "resolve s = (x, s1)" by fastforce
  have 1: "R (ds_world s) (ds_world s1)" using assms [of s] r by simp
  have 2: "R (ds_world s) (snd (hash_file d p (ds_world s1)))" for p by (rule trans [OF 1 hashed])
  then have "R (ds_world s) w2" if "hash_file d p (ds_world s1) = (y, w2)" for p y w2
    using that by (metis snd_conv)
  with r 1 show ?thesis
    by (auto simp: capture_file_def refl stage_file_def split: sum.splits option.splits bool.splits prod.splits)
qed

lemma resolved: "R (ds_world s) (ds_world (snd (resolve_episode_ids d sid fid fb s)))"
proof -
  have "R (ds_world s) (snd (episode_ids_by_file d sid (ds_world s)))"
    using gets(2) by (simp add: episode_ids_by_file_def split: prod.splits) (metis snd_conv)
  then show ?thesis
    by (auto simp: resolve_episode_ids_def refl split: option.splits sum.splits prod.splits)
qed

lemma decoded: "then_decode f (ask (di_env d) c (GET_of p ps) w) = (x, w1) \<Longrightarrow> R w w1"
  using got [of w c p ps] by (auto simp: then_decode_def)

lemma polled_record: "R (ds_world s) (ds_world (snd (poll_record d i r s)))"
proof (cases "hr_episode_file_id r")
  case (Inr fo)
  show ?thesis
  proof (cases fo)
    case (Some fid)
    obtain x w1 where f: "get_episode_file (di_env d) (di_codec d) (di_client d) fid (ds_world s) = (x, w1)" by fastforce
    have 1: "R (ds_world s) w1"
      by (rule decoded [OF f [unfolded get_episode_file_def]])
    show ?thesis
    proof (cases x)
      case (Inl e)
      with f 1 Inr Some show ?thesis by (cases e) (simp_all add: poll_record_def refl)
    next
      case ef: (Inr ef)
      let ?c = "capture_file d i (record_capture r ef) (resolve_episode_ids d (hr_series_id r) fid (hr_episode_ids r))
        (s\<lparr>ds_world := w1\<rparr>)"
      obtain y s2 where c: "?c = (y, s2)" by (cases ?c)
      have "R w1 (ds_world s2)"
        using captured [where resolve = "resolve_episode_ids d (hr_series_id r) fid (hr_episode_ids r)"
          and s = "s\<lparr>ds_world := w1\<rparr>" and inst = i and c = "record_capture r ef", OF resolved] c
        by simp
      with 1 have "R (ds_world s) (ds_world s2)" by (rule trans)
      with f c ef Inr Some show ?thesis
        by (cases y) (simp_all add: poll_record_def refl count_capture_def)
    qed
  qed (use Inr in \<open>simp add: poll_record_def refl\<close>)
qed (simp add: poll_record_def refl)

lemma polled_records: "R (ds_world s) (ds_world (snd (poll_records d i rs s)))"
proof (induction rs arbitrary: s)
  case (Cons r rs)
  obtain x s1 where p: "poll_record d i r s = (x, s1)" by fastforce
  with polled_record [of s i r] have "R (ds_world s) (ds_world s1)" by simp
  with Cons.IH [of s1] p show ?case by (auto intro: trans split: sum.splits)
qed (simp add: refl)

lemma committed: "R w (ds_world s) \<Longrightarrow> R w (snd (commit_batch d i upd s))"
  by (auto simp: commit_batch_def Let_def intro: trans stored)

lemma instanced: "get_or_create_instance d w = (i, w1) \<Longrightarrow> R w w1"
  by (auto simp: get_or_create_instance_def Let_def refl stored split: option.splits)

lemma page_read: "ask (di_env d) c (history_request page) w = (x, w1) \<Longrightarrow> R w w1"
  using got by (metis history_request_def snd_conv)

lemma paged:
  assumes "history_pages (di_env d) cd c since page acc w = Some y"
  shows "R w (snd y)"
  by (induction rule: history_pages_induct [OF assms]) (auto intro: page_read trans)

lemma history_read: "history_since (di_env d) cd c since w = Some (r, w') \<Longrightarrow> R w w'"
  by (auto simp: history_since_def dest: paged)

lemma polled:
  assumes "poll_once d w = Some xw"
  shows "R w (snd xw)"
proof -
  obtain i w1 where i: "get_or_create_instance d w = (i, w1)" by fastforce
  note 1 = instanced [OF i]
  have ready: "ds_world (begin_batch v) = v" for v by (simp add: begin_batch_def)
  have batch: "R v (snd (poll_batch d k rs v))" for k rs v
  proof -
    obtain x s where p: "poll_records d k rs (begin_batch v) = (x, s)" by fastforce
    then have "R v (ds_world s)" using polled_records [of "begin_batch v" k rs] ready by simp
    with p show ?thesis
      by (auto simp: poll_batch_def refl committed split: option.splits sum.splits)
  qed
  obtain h w2 where h: "history_since (di_env d) (di_codec d) (di_client d)
      (case in_history_watermark i of None \<Rightarrow> 0 | Some v \<Rightarrow> v) w1 = Some (h, w2)"
    using assms i by (auto simp: poll_once_def split: option.splits)
  have 2: "R w w2" using 1 history_read [OF h] by (rule trans)
  have "R w2 (snd (commit_batch d k upd (begin_batch w2)))" for k upd
    by (rule committed) (simp add: ready refl)
  with 2 batch have all: "R w (snd (commit_batch d k upd (begin_batch w2)))" "R w (snd (poll_batch d k rs w2))" for k upd rs
    by (blast intro: trans)+
  show ?thesis
    using assms i h 2 all by (auto simp: poll_once_def split: sum.splits option.splits if_splits)
qed

lemma backfilled_files: "R (ds_world s) (ds_world (snd (backfill_files d i batch sid ids efs s)))"
proof (induction efs arbitrary: s)
  case (Cons ef efs)
  let ?s = "s\<lparr>ds_processed := ds_processed s + 1\<rparr>"
  let ?c = "capture_file d i (backfill_capture sid ef)
     (\<lambda>t. (Inr (case map_of ids (ef_id ef) of None \<Rightarrow> [] | Some x \<Rightarrow> x), t)) ?s"
  obtain x s1 where c: "?c = (x, s1)" by (cases ?c)
  have 1: "R (ds_world s) (ds_world s1)"
    using captured [of "\<lambda>t. (Inr (case map_of ids (ef_id ef) of None \<Rightarrow> [] | Some x \<Rightarrow> x), t)" ?s i "backfill_capture sid ef"] c refl
    by simp
  have "R (ds_world s1) (ds_world (snd (backfill_files d i batch sid ids efs
      ((count_capture ce s1)\<lparr>ds_cursor := Some (sid, ef_id ef)\<rparr>))))" for ce
    using Cons.IH [of "(count_capture ce s1)\<lparr>ds_cursor := Some (sid, ef_id ef)\<rparr>"] by (simp add: count_capture_def)
  with 1 c show ?case by (cases x) (auto simp: refl intro: trans)
qed (simp add: refl)

lemma grouped: "episode_ids_by_file d sid w = (x, w1) \<Longrightarrow> R w w1"
  using gets(2) by (metis (no_types, lifting) episode_ids_by_file_def prod.case_eq_if snd_conv)

lemma backfilled_series: "R (ds_world s) (ds_world (snd (backfill_series d i batch ss sa ses s)))"
proof (induction ses arbitrary: s)
  case (Cons se ses)
  obtain x w1 where e: "episode_ids_by_file d (se_id se) (ds_world s) = (x, w1)" by fastforce
  obtain y w2 where f: "get_episode_files (di_env d) (di_codec d) (di_client d) (se_id se) w1 = (y, w2)" by fastforce
  have 1: "R (ds_world s) w1" by (rule grouped [OF e])
  have 2: "R (ds_world s) w2"
    by (rule trans [OF 1 decoded [OF f [unfolded get_episode_files_def]]])
  show ?case
  proof (cases "\<exists>ids fs. x = Inr ids \<and> y = Inr fs \<and> \<not> ds_processed s \<ge> batch")
    case True
    then obtain ids fs where xy: "x = Inr ids" "y = Inr fs" "\<not> ds_processed s \<ge> batch" by blast
    let ?b = "backfill_files d i batch (se_id se) ids (after_cursor ss sa (se_id se) (sort_key ef_id fs))
      (s\<lparr>ds_world := w2\<rparr>)"
    obtain z s3 where z: "?b = (z, s3)" by (cases ?b)
    have 3: "R (ds_world s) (ds_world s3)"
      using trans [OF 2, of "ds_world s3"] z
        backfilled_files [of "s\<lparr>ds_world := w2\<rparr>" i batch "se_id se" ids "after_cursor ss sa (se_id se) (sort_key ef_id fs)"]
      by simp
    from trans [OF 3 Cons.IH [of s3]] 3 e f xy z show ?thesis by (simp split: sum.split bool.split)
  next
    case False
    with e f 1 2 show ?thesis by (cases x; cases y) (auto simp: refl)
  qed
qed (simp add: refl)

lemma backfilled: "R w (snd (backfill_step d batch reset sid w))"
proof -
  obtain i w1 where i: "get_or_create_instance d w = (i, w1)" by fastforce
  obtain x w2 where g: "get_all_series (di_env d) (di_codec d) (di_client d) w1 = (x, w2)" by fastforce
  have 2: "R w w2"
    by (rule trans [OF instanced [OF i] decoded [OF g [unfolded get_all_series_def]]])
  have "R v (snd (backfill_batch d k batch ss sa todo v))" for k ss sa todo v
  proof -
    obtain y s where b: "backfill_series d k batch ss sa todo (begin_batch v) = (y, s)" by fastforce
    then have "R v (ds_world s)"
      using backfilled_series [of "begin_batch v" k batch ss sa todo] by (simp add: begin_batch_def)
    with b show ?thesis by (auto simp: backfill_batch_def refl committed split: option.splits sum.splits)
  qed
  from trans [OF 2 this] 2 i g show ?thesis by (cases x) (simp_all add: backfill_step_def Let_def)
qed

end

section \<open>Requests to the API\<close>

lemma verdict_target_reviewed: "verdict_target k \<in> insert Matched REVIEW_STATUSES"
  by (cases k) (simp_all add: REVIEW_STATUSES_def)

locale handler_rel = api_rel ap R for ap :: app and R +
  assumes raced: "R w (others ap w)"
    and wrote: "queue_step (w_db w) d \<Longrightarrow> R w (w\<lparr>w_db := d\<rparr>)"
    and own_rows: "db_jobs d = db_jobs (w_db w) \<Longrightarrow> R w (w\<lparr>w_db := d\<rparr>)"
    and published: "R w (publish_update ap i st w)"
    and acted: "(n, rt) \<in> set (ap_instances ap) \<Longrightarrow> R w (snd (run_action (api_remediator ap rt u) i act w))"
    and stepped: "(n, rt) \<in> set (ap_instances ap) \<Longrightarrow> R w (snd (backfill_step (rt_disc rt) b reset sid w))"
begin

declare refl [simp] published [simp]

lemma then_published: "R w w1 \<Longrightarrow> R w (publish_update ap i st w1)"
  by (rule trans [OF _ published])

lemma verdict_moves: "moves R (post_verdict ap i body)"
  unfolding moves_def
proof
  fix w :: world
  show "R w (snd (post_verdict ap i body w))"
  proof (cases "\<exists>job. get_job (w_db w) i = Some job \<and> j_status job \<in> VERDICT_ALLOWED_STATUSES \<and>
      \<not> (vq_verdict body = IsOther \<and> vq_ident body = None)")
    case False
    then show ?thesis by (auto simp: post_verdict_def split: option.splits)
  next
    case True
    then obtain job where job: "get_job (w_db w) i = Some job" "j_status job \<in> VERDICT_ALLOWED_STATUSES"
      "\<not> (vq_verdict body = IsOther \<and> vq_ident body = None)" by blast
    let ?w1 = "others ap w"
    let ?set = "set_status_checked (w_db ?w1) job (verdict_target (vq_verdict body)) (j_status job) (now_of (ap_env ap) ?w1)"
    show ?thesis
    proof (cases ?set)
      case (Inl e)
      with job show ?thesis by (simp add: post_verdict_def Let_def raced)
    next
      case (Inr x)
      obtain job' d where x: "x = (job', d)" by (cases x)
      let ?w2 = "?w1\<lparr>w_db := d\<rparr>"
      let ?w3 = "add_verdict (human_verdict ap i body ?w2) ?w2"
      have "queue_step (w_db ?w1) d"
        using Inr x job(2) verdict_target_reviewed [of "vq_verdict body"]
        by (auto intro!: queue_step.verdict simp: VERDICT_ALLOWED_STATUSES_def REVIEW_STATUSES_def)
      then have "R w ?w2" by (rule trans [OF raced wrote])
      moreover have "R ?w2 ?w3" unfolding add_verdict_def by (rule own_rows) simp
      ultimately have 3: "R w ?w3" by (rule trans)
      obtain y w4 where av: "after_verdict ap (get_row f_id (j_file_id job) (db_files (w_db w))) body ?w3 = (y, w4)"
        by (cases "after_verdict ap (get_row f_id (j_file_id job) (db_files (w_db w))) body ?w3")
      have 4: "R w w4" using after_moves [OF 3 after_verdict_moves] av by (metis snd_conv)
      then show ?thesis using job Inr x av
        by (cases y) (auto simp: post_verdict_def Let_def and_then_def intro: then_published)
    qed
  qed
qed

lemma known_runtime: "runtime_for_file ap f w = Inr rt \<Longrightarrow> \<exists>n. (n, rt) \<in> set (ap_instances ap)"
  by (auto simp: runtime_for_file_def split: option.splits dest: map_of_SomeD)

lemma report_moves: "moves R (report_status ap i)"
  by (auto simp: moves_def report_status_def split: option.splits)

lemma claim_and_run_moves:
  assumes "fs \<subseteq> REVIEW_STATUSES"
  shows "moves R (claim_and_run ap ident job fs file act)"
  unfolding moves_def
proof
  fix w :: world
  let ?w1 = "others ap w" let ?u = "api_worker_id ident"
  show "R w (snd (claim_and_run ap ident job fs file act w))"
  proof (cases "claim_for_api (w_db ?w1) job ?u fs (now_of (ap_env ap) ?w1)")
    case (Inl e)
    then show ?thesis by (simp add: claim_and_run_def Let_def raced)
  next
    case (Inr x)
    obtain job' d where x: "x = (job', d)" by (cases x)
    have "queue_step (w_db ?w1) d" using Inr x assms by (auto intro: queue_step.api_claim)
    then have 2: "R w (?w1\<lparr>w_db := d\<rparr>)" by (rule trans [OF raced wrote])
    have "moves R (\<lambda>w. and_then (pure_res (need_file file) w) (\<lambda>f w.
                and_then (pure_res (runtime_for_file ap f w) w) (\<lambda>rt w.
                and_then (run_action (api_remediator ap rt ?u) (j_id job') act w) (\<lambda>_ w.
                  report_status ap (j_id job') w))))"
    proof (rule then_moves [OF const_moves(2)])
      fix f
      have run: "R w (snd (and_then (run_action (api_remediator ap rt ?u) (j_id job') act w) (\<lambda>_ w.
                  report_status ap (j_id job') w)))" if rt: "runtime_for_file ap f v = Inr rt" for rt v w
      proof -
        obtain n where n: "(n, rt) \<in> set (ap_instances ap)" using known_runtime [OF rt] by blast
        have "moves R (run_action (api_remediator ap rt ?u) (j_id job') act)" by (simp add: moves_def acted [OF n])
        from then_moves [OF this, of "\<lambda>_. report_status ap (j_id job')"] report_moves show ?thesis
          by (simp add: moves_def)
      qed
      show "moves R (\<lambda>w. and_then (pure_res (runtime_for_file ap f w) w) (\<lambda>rt w.
                and_then (run_action (api_remediator ap rt ?u) (j_id job') act w) (\<lambda>_ w.
                  report_status ap (j_id job') w)))"
        unfolding moves_def
      proof
        fix w
        show "R w (snd (and_then (pure_res (runtime_for_file ap f w) w) (\<lambda>rt w.
                and_then (run_action (api_remediator ap rt ?u) (j_id job') act w) (\<lambda>_ w.
                  report_status ap (j_id job') w))))"
          using run [of w] by (cases "runtime_for_file ap f w") (simp_all add: pure_res_def and_then_def refl)
      qed
    qed
    from after_moves [OF 2 this] Inr x show ?thesis by (simp add: claim_and_run_def Let_def)
  qed
qed

lemma approve_moves: "moves R (approve_job ap ident i)"
proof -
  have "moves R (\<lambda>w. and_then (approved_action ap fr v w)
      (\<lambda>act w. claim_and_run ap ident job {Quarantine} fr act w))" for fr v job
    by (intro then_moves approved_action_moves claim_and_run_moves) (simp add: REVIEW_STATUSES_def)
  then show ?thesis by (auto simp: moves_def approve_job_def Let_def split: option.splits)
qed

lemma replace_moves: "moves R (replace_job ap ident i)"
  using claim_and_run_moves [of VERDICT_ALLOWED_STATUSES]
  by (auto simp: moves_def replace_job_def VERDICT_ALLOWED_STATUSES_def REVIEW_STATUSES_def split: option.splits)

lemma reject_moves: "moves R (reject_job ap i)"
  unfolding moves_def
proof
  fix w :: world
  have "R w ((others ap w)\<lparr>w_db := (w_db (others ap w))\<lparr>db_verdicts := vs\<rparr>\<rparr>)" for vs
    by (rule trans [OF raced own_rows]) simp
  then show "R w (snd (reject_job ap i w))"
    by (auto simp: reject_job_def Let_def intro: then_published split: option.splits)
qed

lemma transition_moves:
  assumes "\<And>d job now job' d'. fn d job now = Inr (job', d') \<Longrightarrow> queue_step d d'"
  shows "moves R (transition_endpoint ap fn i)"
  unfolding moves_def
proof
  fix w :: world
  have "R w ((others ap w)\<lparr>w_db := d\<rparr>)" if "fn (w_db (others ap w)) job now = Inr (job', d)" for job now job' d
    by (rule trans [OF raced wrote [OF assms [OF that]]])
  then show "R w (snd (transition_endpoint ap fn i w))"
    by (auto simp: transition_endpoint_def Let_def raced intro: then_published split: option.splits sum.splits)
qed

lemma transitions_move:
  "moves R (park_job ap i)" "moves R (unpark_job ap i)" "moves R (rerun_job ap i)"
  unfolding park_job_def unpark_job_def rerun_job_def
  by (rule transition_moves, blast intro: queue_step.park queue_step.unpark queue_step.requeue)+

lemma backfill_moves: "moves R (backfill_instance ap name body)"
  by (auto simp: moves_def backfill_instance_def refl stepped split: option.splits dest: map_of_SomeD)

end

end
