(* ===== verification/QueueSystem.thy ===== *)
theory QueueSystem
  imports ProcessSpec DiscoverySpec WorkerSpec SystemRel
begin

text \<open>
  The queue as the whole system drives it. What a component does to the job table is a path of
  queue steps, provided that what the other sessions do meanwhile is one: a rely and a guarantee of
  the same form, so the components compose. The relation is an interpretation of the locales of
  \<open>WorldRel\<close> and \<open>PipelineRel\<close>.
\<close>

section \<open>Paths of queue steps\<close>

inductive queue_path :: "db \<Rightarrow> db \<Rightarrow> bool" where
  same: "db_jobs d' = db_jobs d \<Longrightarrow> queue_path d d'"
| then_step: "queue_path d d' \<Longrightarrow> queue_step d' d'' \<Longrightarrow> queue_path d d''"
| then_same: "queue_path d d' \<Longrightarrow> db_jobs d'' = db_jobs d' \<Longrightarrow> queue_path d d''"

lemma path_refl [simp]: "queue_path d d"
  by (rule same) simp

lemma path_step: "queue_step d d' \<Longrightarrow> queue_path d d'"
  by (rule then_step [OF path_refl])

lemma path_trans: "queue_path d' d'' \<Longrightarrow> queue_path d d' \<Longrightarrow> queue_path d d''"
  by (induction rule: queue_path.induct) (auto intro: queue_path.intros)

lemma path_reachable: "queue_path d d' \<Longrightarrow> queue_reachable d \<Longrightarrow> queue_reachable d'"
  by (induction rule: queue_path.induct) (auto intro: queue_reachable.intros)

lemma queue_inv_same: "db_jobs d' = db_jobs d \<Longrightarrow> queue_inv d' = queue_inv d"
  by (simp add: queue_inv_def jobs_wf_def)

lemma path_inv: "queue_path d d' \<Longrightarrow> queue_inv d \<Longrightarrow> queue_inv d'"
proof (induction rule: queue_path.induct)
  case (then_step d d' d'')
  then show ?case using queue_step_inv by simp
qed (use queue_inv_same in blast)+

text \<open>What the others do in an environment, and what a component may rely on.\<close>

definition polite :: "environ \<Rightarrow> bool" where
  "polite env \<longleftrightarrow> (\<forall>tr d. queue_path d (en_db env tr d))"

definition queue_moves :: "environ \<Rightarrow> world \<Rightarrow> world \<Rightarrow> bool" where
  "queue_moves env w w' \<longleftrightarrow> (polite env \<longrightarrow> queue_path (w_db w) (w_db w'))"

lemma qm_refl [simp]: "queue_moves env w w"
  by (simp add: queue_moves_def)

lemma qm_trans: "queue_moves env w w' \<Longrightarrow> queue_moves env w' w'' \<Longrightarrow> queue_moves env w w''"
  by (auto simp: queue_moves_def intro: path_trans)

lemma qm_same: "db_jobs (w_db w') = db_jobs (w_db w) \<Longrightarrow> queue_moves env w w'"
  by (simp add: queue_moves_def same)

lemma qm_await:
  "queue_moves env w (snd (http_send env rq w))" "queue_moves env w (await_effect env e w)"
  by (simp_all add: queue_moves_def polite_def http_send_def await_effect_def Let_def)

lemma qm_step: "queue_step (w_db w) d \<Longrightarrow> queue_moves env w (w\<lparr>w_db := d\<rparr>)"
  by (simp add: queue_moves_def path_step)

lemma qm_release: "st \<in> TERMINAL_STATUSES \<Longrightarrow> release (w_db w) job st u now = Inr (job', d) \<Longrightarrow>
    queue_moves env w (w\<lparr>w_db := d\<rparr>)"
  by (rule qm_step) (auto intro: queue_step.release)

lemmas qm_moves = qm_refl qm_trans qm_await

interpretation remedy_queue: remedy_rel r "queue_moves (re_env r)" for r
  by unfold_locales
    (auto intro: qm_moves qm_same qm_release [rotated] simp: os_sleep_def TERMINAL_STATUSES_def)

interpretation job_queue: process_rel d "queue_moves (dp_env d)" for d
  by unfold_locales
    (auto intro: qm_moves qm_same qm_release simp: os_sleep_def same_elsewhere_def)

section \<open>The components\<close>

lemma remediation_moves:
  "queue_moves (re_env r) w (snd (replace r i w))" "queue_moves (re_env r) w (snd (remap r i ts w))"
  by (metis remedy_queue.replaced remedy_queue.remapped prod.collapse)+

lemma acts_in_queue: "acts_within (queue_moves (dp_env d)) d"
proof -
  have env: "re_env (remediator_of d) = dp_env d" by (simp add: remediator_of_def)
  have "moves (queue_moves (dp_env d)) (case rd_action rd of
      Some (Remap ids) \<Rightarrow> remap (remediator_of d) i ids | _ \<Rightarrow> replace (remediator_of d) i)" for i rd
    using remediation_moves [of "remediator_of d"] env by (simp add: moves_def split: option.splits action.splits)
  from steps_byD [OF job_queue.steps_on_world [OF this]]
  have "steps_by (queue_moves (dp_env d)) (\<lambda>s. on_world (case rd_action rd of
      Some (Remap ids) \<Rightarrow> remap (remediator_of d) (j_id (ps_job s)) ids
    | _ \<Rightarrow> replace (remediator_of d) (j_id (ps_job s))) s)" for rd
    by (auto simp: steps_by_def)
  moreover have "steps_by (queue_moves (dp_env d))
      (\<lambda>s. case get_row j_id (j_id (ps_job s)) (db_jobs (w_db (ps_world s))) of
                None \<Rightarrow> (Fail AttributeError, s) | Some j \<Rightarrow> (Go (j_status j), s))"
    by (auto simp: steps_by_def split: option.splits)
  ultimately have "steps_by (queue_moves (dp_env d)) (remediate_step d rd)" for rd
    unfolding remediate_step_def by (intro job_queue.steps_bind)
  then show ?thesis by (simp add: acts_within_def)
qed

lemma process_moves: "queue_moves (dp_env d) w (snd (snd (process_job d i cache w)))"
  by (rule job_queue.processed [OF acts_in_queue])

text \<open>A worker's turn: the claim against the other claimers, then the job it won.\<close>

definition polite_pool :: "pool \<Rightarrow> bool" where
  "polite_pool p \<longleftrightarrow> (\<forall>tr k d. queue_path d (wp_race p tr k d))"

lemma claim_attempt_path:
  assumes "claim_attempt env d u now = Inr (r, d')" "\<And>d. queue_path d (env d)"
  shows "queue_path d d'"
proof -
  have "queue_path d d2" if "update_job i (\<lambda>j. j_status j = Pending) (leased Active u now) now (env d) = (n, d2)" for i n d2
    using path_trans [OF path_step [OF queue_step.claim [OF that]] assms(2)] .
  with assms show ?thesis
    by (auto simp: claim_attempt_def Let_def split: option.splits sum.splits prod.splits if_splits)
qed

lemma claim_next_path:
  assumes "claim_next env clock k d u = Some (Inr (r, d'))" "\<forall>k d. queue_path d (env k d)"
  shows "queue_path d d'"
proof -
  have "(\<forall>k d. queue_path d (env k d)) \<longrightarrow> (case x of Inl e \<Rightarrow> True | Inr rd \<Rightarrow> queue_path d (snd rd))"
    if "claim_next env clock k d u = Some x" for x
  proof (rule claim_next.raw_induct [where P = "\<lambda>env clock k d u x.
      (\<forall>k d. queue_path d (env k d)) \<longrightarrow> (case x of Inl e \<Rightarrow> True | Inr rd \<Rightarrow> queue_path d (snd rd))", OF _ that])
    fix cn env clock k d u y
    assume IH: "\<And>env clock k d u y. cn env clock k d u = Some y \<Longrightarrow>
        (\<forall>k d. queue_path d (env k d)) \<longrightarrow> (case y of Inl e \<Rightarrow> True | Inr rd \<Rightarrow> queue_path d (snd rd))"
      and e: "(case claim_attempt (env k) d u (clock k) of Inl e \<Rightarrow> Some (Inl e)
        | Inr (r, d') \<Rightarrow> (case r of NoPending \<Rightarrow> Some (Inr (None, d')) | Claimed j \<Rightarrow> Some (Inr (Some j, d'))
           | LostRace \<Rightarrow> cn env clock (Suc k) d' u)) = Some y"
    show "(\<forall>k d. queue_path d (env k d)) \<longrightarrow> (case y of Inl e \<Rightarrow> True | Inr rd \<Rightarrow> queue_path d (snd rd))"
    proof
      assume env: "\<forall>k d. queue_path d (env k d)"
      show "case y of Inl e \<Rightarrow> True | Inr rd \<Rightarrow> queue_path d (snd rd)"
      proof (cases "claim_attempt (env k) d u (clock k)")
        case (Inr qd)
        obtain q d1 where qd: "qd = (q, d1)" by (cases qd)
        have 1: "queue_path d d1" using claim_attempt_path Inr qd env by blast
        show ?thesis
        proof (cases q)
          case LostRace
          with e Inr qd have "cn env clock (Suc k) d1 u = Some y" by simp
          from IH [OF this] env show ?thesis by (auto intro: path_trans [OF _ 1] split: sum.splits)
        qed (use e Inr qd 1 in auto)
      qed (use e in auto)
    qed
  qed
  from this [OF assms(1)] assms(2) show ?thesis by simp
qed

definition deps_in :: "environ \<Rightarrow> (string \<times> deps) list \<Rightarrow> bool" where
  "deps_in env ds \<longleftrightarrow> (\<forall>x \<in> set ds. dp_env (snd x) = env)"

definition pool_moves :: "pool \<Rightarrow> environ \<Rightarrow> (string \<times> deps) list \<Rightarrow> world \<Rightarrow> world \<Rightarrow> bool" where
  "pool_moves p env ds w w' \<longleftrightarrow> (polite_pool p \<longrightarrow> deps_in env ds \<longrightarrow> queue_moves env w w')"

interpretation pool_queue: pool_rel p ds "pool_moves p env ds" for p ds env
proof unfold_locales
  fix w :: world and tr clock u job db
  assume "claim_next (wp_race p tr) clock 0 (w_db w) u = Some (Inr (job, db))"
  from claim_next_path [OF this] show "pool_moves p env ds w (w\<lparr>w_db := db\<rparr>)"
    by (simp add: pool_moves_def polite_pool_def queue_moves_def)
next
  fix name d i cache and w :: world
  assume "(name, d) \<in> set ds"
  then show "pool_moves p env ds w (snd (snd (process_job d i cache w)))"
    using process_moves [of d w i cache] by (auto simp: pool_moves_def deps_in_def)
qed (auto simp: pool_moves_def os_sleep_def intro: qm_trans qm_same)

lemma worker_in_queue:
  assumes "worker_turn p ds s = Some (r, s')" "polite_pool p" "deps_in env ds" "ds = [] \<or> ws_idx s < length ds"
  shows "queue_moves env (ws_world s) (ws_world s')"
  using pool_queue.worker_turn_moves [OF assms(1,4)] assms(2,3) by (auto simp: pool_moves_def)

text \<open>The other tasks of the pool.\<close>

lemma heartbeat_moves: "heartbeat_turn d i now (w_db w) = BeatOk db \<Longrightarrow> queue_moves env w (w\<lparr>w_db := db\<rparr>)"
  by (rule qm_step) (auto simp: heartbeat_turn_def do_heartbeat_def res_map_Inr_iff
      split: sum.splits option.splits if_splits intro: queue_step.beat)

lemma unlink_db: "w_db (fold (\<lambda>t. unlink_tolerant env (p t)) ts w) = w_db w"
  by (induction ts arbitrary: w) (simp_all add: unlink_tolerant_def)

lemma makes_path: "queue_path d (makes_jobs now ids d)"
proof (induction ids arbitrary: d)
  case (Cons i ids)
  have "queue_step d (snd (create_job d i False now))" by (rule queue_step.create [OF prod.collapse [symmetric]])
  from path_trans [OF Cons.IH path_step [OF this]] show ?case by (simp add: makes_jobs_def)
qed (simp add: makes_jobs_def)

lemma landed_path: "landed inst upd now rows js d d' \<Longrightarrow> queue_path d d'"
  using landed_made [of inst upd now rows js d d'] makes_path then_same by metis

lemma batch_path:
  assumes "batch_result (queue_path d0) d inst Q (x, w')"
  shows "queue_path d0 (w_db w')"
proof (cases x)
  case (Inr res)
  from assms [unfolded Inr] show ?thesis
    by (rule batch_result_landedE) (blast intro: path_trans landed_path)
qed (use assms in simp)

lemma instance_jobs: "get_or_create_instance d w = (i, w1) \<Longrightarrow> db_jobs (w_db w1) = db_jobs (w_db w)"
  by (auto simp: get_or_create_instance_def Let_def split: option.splits)

lemma polite_keep: "polite env \<Longrightarrow> others_keep (queue_path d0) env"
  by (auto simp: polite_def others_keep_def intro: path_trans)

lemma discovery_moves:
  assumes "xw = backfill_step d batch reset sid w \<or> poll_once d w = Some xw"
  shows "queue_moves (di_env d) w (snd xw)"
proof -
  obtain x w' where xw: "xw = (x, w')" by (cases xw)
  obtain i w1 where "get_or_create_instance d w = (i, w1)" by (cases "get_or_create_instance d w")
  then have 1: "queue_path (w_db w) (w_db (with_instance d w))" using instance_jobs by (simp add: same)
  show ?thesis unfolding queue_moves_def
  proof
    assume "polite (di_env d)"
    note k = polite_keep [OF this, of "w_db w"]
    from assms have "\<exists>Q. batch_result (queue_path (w_db w)) d (in_id (the_instance d w)) Q (x, w')"
    proof
      assume "xw = backfill_step d batch reset sid w"
      with xw backfill_step_result [OF k 1, of batch reset sid x w'] show ?thesis by auto
    next
      assume "poll_once d w = Some xw"
      with xw poll_all [OF k 1, of x w'] show ?thesis by auto
    qed
    with xw show "queue_path (w_db w) (w_db (snd xw))" by (auto dest: batch_path)
  qed
qed

section \<open>The HTTP API\<close>

definition polite_app :: "app \<Rightarrow> bool" where
  "polite_app ap \<longleftrightarrow> polite (ap_env ap) \<and> (\<forall>tr d. queue_path d (ap_race ap tr d)) \<and>
     (\<forall>x \<in> set (ap_instances ap). di_env (rt_disc (snd x)) = ap_env ap)"

definition app_moves :: "app \<Rightarrow> world \<Rightarrow> world \<Rightarrow> bool" where
  "app_moves ap w w' \<longleftrightarrow> (polite_app ap \<longrightarrow> queue_path (w_db w) (w_db w'))"

lemma am_refl [simp]: "app_moves ap w w"
  by (simp add: app_moves_def)

lemma am_trans: "app_moves ap w w' \<Longrightarrow> app_moves ap w' w'' \<Longrightarrow> app_moves ap w w''"
  by (auto simp: app_moves_def intro: path_trans)

lemma am_same: "db_jobs (w_db w') = db_jobs (w_db w) \<Longrightarrow> app_moves ap w w'"
  by (simp add: app_moves_def same)

lemma am_queue: "queue_moves (ap_env ap) w w' \<Longrightarrow> app_moves ap w w'"
  by (simp add: app_moves_def queue_moves_def polite_app_def)

lemma am_others: "app_moves ap w (others ap w)"
  by (simp add: app_moves_def polite_app_def others_def)

lemma am_write: "queue_step (w_db w) d \<Longrightarrow> app_moves ap w (w\<lparr>w_db := d\<rparr>)"
  by (simp add: app_moves_def path_step)

lemma am_publish [simp]: "app_moves ap w (publish_update ap i st w)"
  by (rule am_same) (simp add: publish_update_def)

lemma am_stepped: "(n, rt) \<in> set (ap_instances ap) \<Longrightarrow> app_moves ap w (snd (backfill_step (rt_disc rt) b reset sid w))"
  using discovery_moves [of "backfill_step (rt_disc rt) b reset sid w" "rt_disc rt" b reset sid w]
  by (force simp: app_moves_def queue_moves_def polite_app_def)

lemma am_acted: "app_moves ap w (snd (run_action (api_remediator ap rt u) i act w))"
proof -
  have "re_env (api_remediator ap rt u) = ap_env ap" by (simp add: api_remediator_def)
  with remediation_moves [of "api_remediator ap rt u"] show ?thesis
    by (auto simp: run_action_def intro: am_queue split: action_json.splits)
qed

interpretation api_queue: handler_rel ap "app_moves ap" for ap
  by unfold_locales (auto intro: am_trans am_queue qm_await am_same am_others am_write am_stepped am_acted simp: os_sleep_def)

lemma link_db:
  assumes "link_or_copy env a b w = (r, w')"
  shows "w_db w' = w_db w"
proof -
  obtain y w1 where l: "os_call env (OsLink a b) w = (y, w1)" by (cases "os_call env (OsLink a b) w")
  obtain z w2 where c: "os_call env (OsCopy2 a b) w1 = (z, w2)" by (cases "os_call env (OsCopy2 a b) w1")
  have "w_db w1 = w_db w" "w_db w2 = w_db w1"
    using os_call_db [of env "OsLink a b" w] os_call_db [of env "OsCopy2 a b" w1] l c by simp_all
  moreover have "w' = w1 \<or> w' = w2"
    using assms l c by (auto simp: link_or_copy_def split: sum.splits exn.splits if_splits)
  ultimately show ?thesis by auto
qed

lemma am_delete_trash: "moves (app_moves ap) (delete_trash_item ap i)"
  unfolding moves_def
proof
  fix w :: world
  have "app_moves ap w (delete_now (ap_env ap) t (others ap w))" for t
    by (rule am_trans [OF am_others am_same]) (simp add: delete_now_def mark_trash_row_def unlink_tolerant_def Let_def)
  then show "app_moves ap w (snd (delete_trash_item ap i w))"
    by (simp add: delete_trash_item_def split: sum.splits)
qed

lemma restore_jobs: "db_jobs (w_db (snd (restore env t w))) = db_jobs (w_db w)"
proof -
  let ?m = "os_call env (OsMkdir (path_str (path_parent (mk_path (t_original_path t))))) w"
  obtain x w1 where m: "?m = (x, w1)" by (cases ?m)
  have 1: "w_db w1 = w_db w" using os_call_db [of env "OsMkdir (path_str (path_parent (mk_path (t_original_path t))))" w] m by simp
  show ?thesis using m 1
    by (auto simp: restore_def Let_def mark_trash_row_def split: sum.splits bool.splits prod.splits dest!: link_db)
qed

lemma am_restore_trash: "moves (app_moves ap) (restore_trash_item ap i)"
  unfolding moves_def
proof
  fix w :: world
  have "app_moves ap w (snd (restore (ap_env ap) t (others ap w)))" for t
    by (rule am_trans [OF am_others am_same]) (rule restore_jobs)
  then show "app_moves ap w (snd (restore_trash_item ap i w))"
    by (auto simp: restore_trash_item_def split: sum.splits prod.splits) (metis snd_conv)+
qed

section \<open>The system\<close>

text \<open>
  One move is one turn of a task or one API request, from its start to its end; what the others do
  while it awaits is inside it, as the environment's part. Tasks of several environments (worker
  instances, web processes) may alternate.
\<close>

inductive system_move :: "world \<Rightarrow> world \<Rightarrow> bool" where
  worker: "worker_turn p ds s = Some (r, s') \<Longrightarrow> polite_pool p \<Longrightarrow> polite env \<Longrightarrow> deps_in env ds \<Longrightarrow>
    ds = [] \<or> ws_idx s < length ds \<Longrightarrow> system_move (ws_world s) (ws_world s')"
| beat: "heartbeat_turn d i now (w_db w) = BeatOk db \<Longrightarrow> system_move w (w\<lparr>w_db := db\<rparr>)"
| reaper: "system_move w (reaper_turn p env w)"
| sweeper: "system_move w (trash_sweep_turn env w)"
| poll: "poll_once di w = Some xw \<Longrightarrow> polite (di_env di) \<Longrightarrow> system_move w (snd xw)"
| verdict: "polite_app ap \<Longrightarrow> system_move w (snd (post_verdict ap i body w))"
| approve: "polite_app ap \<Longrightarrow> system_move w (snd (approve_job ap identity i w))"
| replace: "polite_app ap \<Longrightarrow> system_move w (snd (replace_job ap identity i w))"
| reject: "polite_app ap \<Longrightarrow> system_move w (snd (reject_job ap i w))"
| park: "polite_app ap \<Longrightarrow> system_move w (snd (park_job ap i w))"
| unpark: "polite_app ap \<Longrightarrow> system_move w (snd (unpark_job ap i w))"
| rerun: "polite_app ap \<Longrightarrow> system_move w (snd (rerun_job ap i w))"
| backfill: "polite_app ap \<Longrightarrow> system_move w (snd (backfill_instance ap name req w))"
| untrash: "polite_app ap \<Longrightarrow> system_move w (snd (restore_trash_item ap i w))"
| shred: "polite_app ap \<Longrightarrow> system_move w (snd (delete_trash_item ap i w))"

lemma queue_moves_in: "queue_moves env w w' \<Longrightarrow> polite env \<Longrightarrow> queue_path (w_db w) (w_db w')"
  by (simp add: queue_moves_def)

lemma app_moves_in: "moves (app_moves ap) m \<Longrightarrow> polite_app ap \<Longrightarrow> queue_path (w_db w) (w_db (snd (m w)))"
  by (simp add: moves_def app_moves_def)

lemma quiet_polite: "polite (quiet_env f)"
  by (simp add: polite_def quiet_env_def)

lemma system_move_path: "system_move w w' \<Longrightarrow> queue_path (w_db w) (w_db w')"
proof (induction rule: system_move.induct)
  case (worker p ds s r s' env)
  from worker_in_queue [OF worker(1,2,4,5)] worker(3) show ?case by (rule queue_moves_in)
next
  case (beat d i now w db)
  from heartbeat_moves [OF beat] quiet_polite show ?case by (rule queue_moves_in)
next
  case (reaper w p env)
  let ?w = "os_sleep REAP_INTERVAL_S w"
  have "queue_step (w_db ?w) (snd (reap_stale (w_db ?w) (wp_lease_timeout_s p * second_us) (now_of env ?w)))"
    by (rule queue_step.reap [OF prod.collapse [symmetric]])
  from path_step [OF this] show ?case by (simp add: reaper_turn_def Let_def os_sleep_def)
next
  case (sweeper w env)
  show ?case by (rule same) (simp add: trash_sweep_turn_def sweep_expired_def os_sleep_def Let_def unlink_db)
next
  case (poll di w xw)
  from discovery_moves poll show ?case by (blast intro: queue_moves_in)
qed (rule app_moves_in, rule api_queue.verdict_moves api_queue.approve_moves api_queue.replace_moves
    api_queue.reject_moves api_queue.transitions_move api_queue.backfill_moves am_restore_trash am_delete_trash, assumption)+

lemma system_path: "system_move\<^sup>*\<^sup>* w w' \<Longrightarrow> queue_path (w_db w) (w_db w')"
  by (induction rule: rtranclp_induct) (auto intro: path_trans system_move_path)


definition plain_app :: "environ \<Rightarrow> codec \<Rightarrow> (string \<times> runtime) list \<Rightarrow> app" where
  "plain_app env cd rts =
     \<lparr>ap_env = env, ap_codec = cd, ap_settings = default_settings, ap_instances = rts, ap_bus = True,
      ap_log = \<lparr>rb_capacity = DEFAULT_CAPACITY, rb_items = []\<rparr>, ap_pool_size = 2, ap_race = (\<lambda>tr d. d),
      ap_text = (\<lambda>_. []), ap_cpu = 0, ap_mem = 0, ap_quota = None\<rparr>"

definition shelf_app :: app where
  "shelf_app = plain_app shelf_env shelf_codec [(''main'', \<lparr>rt_client = default_client False, rt_cfg = di_cfg shelf, rt_disc = shelf\<rparr>)]"

lemma shelf_app_polite: "polite_app shelf_app"
  by (simp add: polite_app_def shelf_app_def plain_app_def shelf_env_def quiet_polite shelf_def)


end
