(* ===== verification/RouteQueries.thy ===== *)
theory RouteQueries
  imports Routes
begin

text \<open>
  The routes of \<open>api/routes.py\<close> that only read: the status page, the queue and trash listings with
  their order, paging and labels, a job's details, its assets and its data pack. Answers are JSON.
\<close>

section \<open>Counts and status\<close>

definition queue_counts :: "db \<Rightarrow> (job_status \<times> int) list" where
  "queue_counts d = map (\<lambda>s. (s, int (rowcount (\<lambda>j. j_status j = s) (db_jobs d)))) JOB_STATUSES"

definition count_of :: "db \<Rightarrow> job_status \<Rightarrow> int" where
  "count_of d s = the (map_of (queue_counts d) s)"

definition json_counts :: "db \<Rightarrow> json" where
  "json_counts d = JObj (map (\<lambda>(s, n). (job_status_str s, JInt n)) (queue_counts d))"

definition json_time :: "datetime option \<Rightarrow> json" where
  "json_time t = json_opt (\<lambda>t. JStr (isoformat t)) t"

definition instance_names_by_id :: "db \<Rightarrow> (int \<times> string) list" where
  "instance_names_by_id d = map (\<lambda>i. (in_id i, in_name i)) (db_instances d)"

definition seconds_of :: "timedelta \<Rightarrow> real" where
  "seconds_of t = of_int t / 1000000"

definition instance_status :: "instance_row \<Rightarrow> json" where
  "instance_status i =
     JObj [(''name'', JStr (in_name i)), (''url'', JStr (in_url i)),
           (''history_watermark'', json_opt JInt (in_history_watermark i)),
           (''backfill_cursor'', json_opt (\<lambda>(s, f). JObj [(''series_id'', JInt s), (''episode_file_id'', JInt f)])
              (in_backfill_cursor i)),
           (''last_polled_at'', json_time (in_last_polled_at i)),
           (''last_backfilled_at'', json_time (in_last_backfilled_at i))]"

definition file_instance :: "db \<Rightarrow> file_row option \<Rightarrow> string option" where
  "file_instance d f = (case f of None \<Rightarrow> None | Some x \<Rightarrow> map_of (instance_names_by_id d) (f_instance_id x))"

definition active_status :: "db \<Rightarrow> datetime \<Rightarrow> job_row \<Rightarrow> json" where
  "active_status d now j =
     (let f = get_row f_id (j_file_id j) (db_files d)
      in JObj [(''job_id'', JInt (j_id j)), (''instance'', json_opt JStr (file_instance d f)),
               (''series_id'', json_opt (\<lambda>x. JInt (f_series_id x)) f),
               (''sonarr_path'', json_opt (\<lambda>x. JStr (f_sonarr_path x)) f),
               (''claimed_by'', json_opt JStr (j_claimed_by j)), (''claimed_at'', json_time (j_claimed_at j)),
               (''elapsed_s'', json_opt (\<lambda>t. JFloat (seconds_of (now - t))) (j_claimed_at j))])"

definition unprocessed_count :: "db \<Rightarrow> int" where
  "unprocessed_count d = count_of d Hold + count_of d Pending + count_of d Active"

definition processed_count :: "db \<Rightarrow> int" where
  "processed_count d =
     count_of d Matched + count_of d Quarantine + count_of d Inconclusive + count_of d Errored +
     count_of d Remediated"

definition get_status :: "app \<Rightarrow> world \<Rightarrow> json" where
  "get_status ap w =
     (let d = w_db w; now = now_of (ap_env ap) w; cfg = ap_settings ap
      in JObj
        [(''instances'', JList (map instance_status (db_instances d))),
         (''queues'', json_counts d),
         (''summary'', JObj [(''unprocessed'', JInt (unprocessed_count d)), (''processed'', JInt (processed_count d))]),
         (''system'', JObj [(''cpu_percent'', JFloat (ap_cpu ap)), (''mem_percent'', JFloat (ap_mem ap))]),
         (''approval_required'', JBool (st_approval_required cfg)),
         (''active_jobs'', JList (map (active_status d now) (filter (\<lambda>j. j_status j = Active) (db_jobs d)))),
         (''workers'', JObj [(''pool_size'', JInt (ap_pool_size ap))]),
         (''dry_run'', JBool (st_dry_run cfg)),
         (''trash_count'', JInt (int (rowcount (\<lambda>t. t_deleted_at t = None) (db_trash d)))),
         (''paused'', JBool (tl_paused (st_throttle cfg))),
         (''refsubs_quota'', json_opt id (ap_quota ap))])"

section \<open>Series labels\<close>

text \<open>One look-up per distinct series of a page; a failing one gives no title and no episodes.\<close>

type_synonym series_label = "string option \<times> episode list"
type_synonym label_cache = "((string \<times> int) \<times> series_label) list"

definition fetch_label :: "app \<Rightarrow> string \<Rightarrow> int \<Rightarrow> world \<Rightarrow> series_label \<times> world" where
  "fetch_label ap name series_id w =
     (case map_of (ap_instances ap) name of
        None \<Rightarrow> ((None, []), w)
      | Some rt \<Rightarrow>
          (case get_series (ap_env ap) (ap_codec ap) (rt_client rt) series_id w of
             (Inl e, w1) \<Rightarrow> ((None, []), w1)
           | (Inr s, w1) \<Rightarrow>
               (case get_episodes (ap_env ap) (ap_codec ap) (rt_client rt) series_id w1 of
                  (Inl e, w2) \<Rightarrow> ((None, []), w2)
                | (Inr eps, w2) \<Rightarrow> ((Some (se_title s), eps), w2))))"

definition cached_label ::
  "app \<Rightarrow> string option \<Rightarrow> int \<Rightarrow> label_cache \<times> world \<Rightarrow> series_label \<times> label_cache \<times> world" where
  "cached_label ap name series_id cw =
     (case name of
        None \<Rightarrow> ((None, []), cw)
      | Some n \<Rightarrow>
          (case map_of (fst cw) (n, series_id) of
             Some l \<Rightarrow> (l, cw)
           | None \<Rightarrow>
               (case fetch_label ap n series_id (snd cw) of (l, w) \<Rightarrow> (l, fst cw @ [((n, series_id), l)], w))))"

definition queue_label :: "episode list \<Rightarrow> string" where
  "queue_label eps =
     (case eps of [] \<Rightarrow> []
      | e # es \<Rightarrow> ''S'' @ show_int02 (ep_season_number e) @ ''E'' @ show_int02 (ep_episode_number e) @
          concat (map (\<lambda>x. ''-E'' @ show_int02 (ep_episode_number x)) es))"

definition episode_label_and_tvdb_ids :: "episode list \<Rightarrow> int list \<Rightarrow> (string \<times> int option list) option" where
  "episode_label_and_tvdb_ids episodes ids =
     (let by_id = map_of (rev (map (\<lambda>e. (ep_id e, e)) episodes)); ordered = List.map_filter by_id ids
      in if ids = [] \<or> length ordered \<noteq> length ids then None
         else Some (queue_label ordered, map ep_tvdb_id ordered))"

definition label_fields :: "series_label \<Rightarrow> int list \<Rightarrow> json \<times> json \<times> json" where
  "label_fields l ids =
     (case episode_label_and_tvdb_ids (snd l) ids of
        None \<Rightarrow> (json_opt JStr (fst l), JNull, JNull)
      | Some (label, tvdb) \<Rightarrow> (json_opt JStr (fst l), JStr label, JList (map (json_opt JInt) tvdb)))"

section \<open>The queue listing\<close>

datatype sort_field =
  SortUpdated | SortCreated | SortConfidence | SortSeries | SortInstance | SortEpisode | SortFile | SortOutcome

text \<open>What a row is ordered by: nothing (a null), a number or a text.\<close>

datatype sort_value = NullValue | Number real | Text string

fun outcome_str :: "route_outcome \<Rightarrow> string" where
  "outcome_str OMatched = ''matched''"
| "outcome_str OQuarantine = ''quarantine''"
| "outcome_str OInconclusive = ''inconclusive''"
| "outcome_str ORemediate = ''remediate''"

definition sort_value_of :: "db \<Rightarrow> sort_field \<Rightarrow> job_row \<Rightarrow> sort_value" where
  "sort_value_of d s j =
     (let file = get_row f_id (j_file_id j) (db_files d); v = latest_verdict_of d (j_id j)
      in case s of
           SortUpdated \<Rightarrow> Number (of_int (j_updated_at j))
         | SortCreated \<Rightarrow> Number (of_int (j_created_at j))
         | SortConfidence \<Rightarrow> (case v of Some x \<Rightarrow> (case v_s_claimed x of Some c \<Rightarrow> Number c | None \<Rightarrow> NullValue) | None \<Rightarrow> NullValue)
         | SortOutcome \<Rightarrow> (case v of Some x \<Rightarrow> Text (outcome_str (v_outcome x)) | None \<Rightarrow> NullValue)
         | SortSeries \<Rightarrow> (case file of Some f \<Rightarrow> Number (of_int (f_series_id f)) | None \<Rightarrow> NullValue)
         | SortFile \<Rightarrow> (case file of Some f \<Rightarrow> Text (f_sonarr_path f) | None \<Rightarrow> NullValue)
         | SortEpisode \<Rightarrow> (case file of Some f \<Rightarrow> (case f_episode_ids f of e # es \<Rightarrow> Number (of_int e) | [] \<Rightarrow> NullValue) | None \<Rightarrow> NullValue)
         | SortInstance \<Rightarrow> (case file_instance d file of Some n \<Rightarrow> Text n | None \<Rightarrow> NullValue))"

text \<open>The inner joins: filtering by instance, or sorting by a column of the file or the instance.\<close>

definition joined :: "db \<Rightarrow> string option \<Rightarrow> sort_field \<Rightarrow> job_row \<Rightarrow> bool" where
  "joined d inst s j \<longleftrightarrow>
     (let file = get_row f_id (j_file_id j) (db_files d);
          needs_instance = (inst \<noteq> None \<or> s = SortInstance);
          needs_file = (inst \<noteq> None \<or> s \<in> {SortSeries, SortInstance, SortEpisode, SortFile})
      in (needs_file \<longrightarrow> file \<noteq> None) \<and> (needs_instance \<longrightarrow> file_instance d file \<noteq> None) \<and>
         (inst \<noteq> None \<longrightarrow> file_instance d file = inst))"

definition queue_members :: "db \<Rightarrow> job_status \<Rightarrow> string option \<Rightarrow> sort_field \<Rightarrow> job_row list" where
  "queue_members d status inst s = filter (\<lambda>j. j_status j = status \<and> joined d inst s j) (db_jobs d)"

text \<open>A column holds numbers or texts, never both; SQLite orders numbers first.\<close>

definition value_key :: "sort_value \<Rightarrow> nat \<times> real \<times> string" where
  "value_key v = (case v of Number x \<Rightarrow> (0, x, []) | Text s \<Rightarrow> (1, 0, s) | NullValue \<Rightarrow> (2, 0, []))"

text \<open>Ordered by the column, then by job id in the same direction; rows with a null come last.\<close>

definition queue_order :: "db \<Rightarrow> sort_field \<Rightarrow> bool \<Rightarrow> job_row list \<Rightarrow> job_row list" where
  "queue_order d s asc js =
     (let key = (\<lambda>j. (value_key (sort_value_of d s j), j_id j)); dir = (if asc then id else rev);
          present = filter (\<lambda>j. sort_value_of d s j \<noteq> NullValue) js;
          absent = filter (\<lambda>j. sort_value_of d s j = NullValue) js
      in dir (sort_key key present) @ dir (sort_key key absent))"

text \<open>\<open>OFFSET\<close> and \<open>LIMIT\<close> as SQLite reads negative numbers: no offset, no limit.\<close>

definition sql_page :: "int \<Rightarrow> int \<Rightarrow> 'a list \<Rightarrow> 'a list" where
  "sql_page skip n xs = (let ys = drop (nat skip) xs in if n < 0 then ys else take (nat n) ys)"

definition DEFAULT_PAGE_SIZE :: int where "DEFAULT_PAGE_SIZE = 50"
definition MAX_PAGE_SIZE :: int where "MAX_PAGE_SIZE = 200"

definition queue_page ::
  "db \<Rightarrow> job_status \<Rightarrow> int \<Rightarrow> int \<Rightarrow> string option \<Rightarrow> sort_field \<Rightarrow> bool \<Rightarrow> int \<times> job_row list" where
  "queue_page d status page page_size inst s asc =
     (let members = queue_members d status inst s
      in (int (length members), sql_page ((page - 1) * page_size) page_size (queue_order d s asc members)))"

definition queue_item ::
  "app \<Rightarrow> job_row \<Rightarrow> label_cache \<times> world \<Rightarrow> json res \<times> label_cache \<times> world" where
  "queue_item ap j cw =
     (let d = w_db (snd cw); file = get_row f_id (j_file_id j) (db_files d); inst = file_instance d file
      in case file of
           None \<Rightarrow> (Inl AttributeError, cw)
         | Some f \<Rightarrow>
             (case cached_label ap inst (f_series_id f) cw of
                (l, cw1) \<Rightarrow>
                  (case label_fields l (f_episode_ids f) of
                     (title, label, tvdb) \<Rightarrow>
                       (Inr (JObj
                          [(''job_id'', JInt (j_id j)), (''status'', JStr (job_status_str (j_status j))),
                           (''instance'', json_opt JStr inst),
                           (''file'', JObj
                              [(''series_id'', JInt (f_series_id f)), (''series_title'', title),
                               (''sonarr_path'', JStr (f_sonarr_path f)), (''episode_ids'', json_ints (f_episode_ids f)),
                               (''episode_label'', label), (''episode_tvdb_ids'', tvdb)]),
                           (''verdict'', json_opt (\<lambda>v. JObj
                              [(''s_claimed'', json_opt JFloat (v_s_claimed v)), (''s_alt'', json_opt JFloat (v_s_alt v)),
                               (''outcome'', JStr (outcome_str (v_outcome v)))]) (latest_verdict_of d (j_id j))),
                           (''created_at'', JStr (isoformat (j_created_at j))),
                           (''updated_at'', JStr (isoformat (j_updated_at j)))]), cw1))))"

fun queue_items :: "app \<Rightarrow> job_row list \<Rightarrow> label_cache \<times> world \<Rightarrow> json list res \<times> label_cache \<times> world" where
  "queue_items ap [] cw = (Inr [], cw)"
| "queue_items ap (j # js) cw =
     (case queue_item ap j cw of
        (Inl e, cw1) \<Rightarrow> (Inl e, cw1)
      | (Inr x, cw1) \<Rightarrow>
          (case queue_items ap js cw1 of (r, cw2) \<Rightarrow> (res_map ((#) x) r, cw2)))"

definition status_named :: "string \<Rightarrow> job_status option" where
  "status_named s = find (\<lambda>st. job_status_str st = s) JOB_STATUSES"

definition get_queue ::
  "app \<Rightarrow> string \<Rightarrow> int \<Rightarrow> int \<Rightarrow> string option \<Rightarrow> sort_field \<Rightarrow> bool \<Rightarrow> json handler" where
  "get_queue ap status page page_size inst s asc w =
     (case status_named status of
        None \<Rightarrow> (Inl (HTTPException 400), w)
      | Some st \<Rightarrow>
          let size = min page_size MAX_PAGE_SIZE
          in (case queue_page (w_db w) st page size inst s asc of
                (n_all, rows) \<Rightarrow>
                  (case queue_items ap rows ([], w) of
                     (r, _, w1) \<Rightarrow>
                       (res_map (\<lambda>items. JObj [(''total'', JInt n_all), (''page_size'', JInt size),
                          (''items'', JList items)]) r, w1))))"

section \<open>The trash listing\<close>

definition trash_page :: "db \<Rightarrow> int \<Rightarrow> int \<Rightarrow> int \<times> trash_row list" where
  "trash_page d page page_size =
     (let items = filter (\<lambda>t. t_deleted_at t = None) (db_trash d)
      in (int (length items), sql_page ((page - 1) * page_size) page_size (sort_key (\<lambda>t. - t_trashed_at t) items)))"

definition trash_item_out ::
  "app \<Rightarrow> datetime \<Rightarrow> trash_row \<Rightarrow> label_cache \<times> world \<Rightarrow> json \<times> label_cache \<times> world" where
  "trash_item_out ap now t cw =
     (case cached_label ap (Some (t_instance t)) (t_series_id t) cw of
        (l, cw1) \<Rightarrow>
          (case label_fields l (t_episode_ids t) of
             (title, label, tvdb) \<Rightarrow>
               (JObj
                  [(''id'', JInt (t_id t)), (''instance'', JStr (t_instance t)),
                   (''original_path'', JStr (t_original_path t)), (''trash_path'', JStr (t_trash_path t)),
                   (''series_id'', JInt (t_series_id t)), (''series_title'', title),
                   (''episode_ids'', json_ints (t_episode_ids t)), (''episode_label'', label),
                   (''episode_tvdb_ids'', tvdb), (''size'', JInt (t_size t)),
                   (''trashed_at'', JStr (isoformat (t_trashed_at t))),
                   (''expires_at'', JStr (isoformat (t_expires_at t))),
                   (''expires_in_s'', JFloat (seconds_of (t_expires_at t - now)))], cw1)))"

fun trash_items_out ::
  "app \<Rightarrow> datetime \<Rightarrow> trash_row list \<Rightarrow> label_cache \<times> world \<Rightarrow> json list \<times> label_cache \<times> world" where
  "trash_items_out ap now [] cw = ([], cw)"
| "trash_items_out ap now (t # ts) cw =
     (case trash_item_out ap now t cw of
        (x, cw1) \<Rightarrow> (case trash_items_out ap now ts cw1 of (xs, cw2) \<Rightarrow> (x # xs, cw2)))"

definition list_trash :: "app \<Rightarrow> int \<Rightarrow> int \<Rightarrow> world \<Rightarrow> json \<times> world" where
  "list_trash ap page page_size w =
     (let size = min page_size MAX_PAGE_SIZE
      in case trash_page (w_db w) page size of
           (n_all, rows) \<Rightarrow>
             (case trash_items_out ap (now_of (ap_env ap) w) rows ([], w) of
                (items, _, w1) \<Rightarrow>
                  (JObj [(''total'', JInt n_all), (''page_size'', JInt size), (''items'', JList items)], w1)))"

end
