(* ===== verification/RouteDetail.thy ===== *)
theory RouteDetail
  imports RouteQueries
begin

text \<open>
  The routes of \<open>api/routes.py\<close> about one job: its details with the live labels and subtitle texts,
  one of its assets, and its data pack.
\<close>

section \<open>Dumps of stored values\<close>

fun plugin_status_str :: "plugin_status \<Rightarrow> string" where
  "plugin_status_str POk = ''ok''"
| "plugin_status_str PAbstain = ''abstain''"
| "plugin_status_str PError = ''error''"

fun asset_type_str :: "asset_type \<Rightarrow> string" where
  "asset_type_str AProbe = ''probe''"
| "asset_type_str AAudio = ''audio''"
| "asset_type_str ASubs = ''subs''"
| "asset_type_str AFrames = ''frames''"
| "asset_type_str ATranscript = ''transcript''"

fun source_str :: "verdict_source \<Rightarrow> string" where
  "source_str SrcAuto = ''auto''"
| "source_str SrcHuman = ''human''"

fun numbering_str :: "numbering \<Rightarrow> string" where
  "numbering_str NTvdb = ''tvdb''"
| "numbering_str NTmdb = ''tmdb''"
| "numbering_str NAbsolute = ''absolute''"
| "numbering_str NScene = ''scene''"

fun ext_id_dump :: "ext_id \<Rightarrow> json" where
  "ext_id_dump (IdInt i) = JInt i"
| "ext_id_dump (IdStr s) = JStr s"

fun series_ref_dump :: "series_ref \<Rightarrow> json" where
  "series_ref_dump ClaimedSeries = JStr ''claimed''"
| "series_ref_dump (ExternalSeries x) =
     JObj [(''tvdb'', json_opt JInt (xi_tvdb x)), (''tmdb'', json_opt JInt (xi_tmdb x)),
           (''imdb'', json_opt JStr (xi_imdb x))]"

definition ident_dump :: "candidate_ident \<Rightarrow> json" where
  "ident_dump i =
     JObj [(''series'', series_ref_dump (ci_series i)), (''season'', JInt (ci_season i)),
           (''episodes'', json_ints (ci_episodes i))]"

definition candidate_dump :: "candidate \<Rightarrow> json" where
  "candidate_dump c =
     JObj [(''confidence'', JFloat (ca_confidence c)), (''ident'', json_opt ident_dump (ca_ident c)),
           (''numbering'', json_opt (\<lambda>n. JStr (numbering_str n)) (ca_numbering c)),
           (''evidence'', ca_evidence c)]"

text \<open>A dumped set has no order; it is listed in ascending order here.\<close>

fun norm_dump :: "norm_result \<Rightarrow> json" where
  "norm_dump (InSeriesCandidate ids) =
     JObj [(''kind'', JStr ''in_series''), (''episode_ids'', json_ints (sorted_ids ids))]"
| "norm_dump (CrossSeriesCandidate xs) =
     JObj [(''kind'', JStr ''cross_series''), (''external_ids'', JObj (map (\<lambda>(k, v). (k, ext_id_dump v)) xs))]"
| "norm_dump JunkCandidate = JObj [(''kind'', JStr ''junk'')]"
| "norm_dump (Unnormalizable s e n) =
     JObj [(''reason'', JStr (''no episode found for season='' @ show_int s @ '' episode='' @ show_int e @
        '' numbering='' @ [CHR 0x27] @ numbering_str n @ [CHR 0x27]))]"

fun action_dump :: "action_json \<Rightarrow> json" where
  "action_dump (RemapJson ids) = JObj [(''kind'', JStr ''remap''), (''target_episode_ids'', json_ints ids)]"
| "action_dump ReplaceJson = JObj [(''kind'', JStr ''replace'')]"

definition log_entry_dump :: "log_entry \<Rightarrow> json" where
  "log_entry_dump e =
     JObj [(''step'', JStr (le_step e)), (''ok'', JBool (le_ok e)), (''detail'', JStr (le_detail e)),
           (''ts'', JStr (isoformat (le_ts e)))]"

definition human_ident_dump :: "human_ident \<Rightarrow> json" where
  "human_ident_dump h = JObj [(''season'', JInt (hi_season h)), (''episodes'', json_ints (hi_episodes h))]"

definition dupe_dump :: "dupe_info \<Rightarrow> json" where
  "dupe_dump u =
     JObj [(''file_id'', JInt (du_file_id u)), (''similarity'', JFloat (du_similarity u)),
           (''sonarr_path'', json_opt JStr (du_sonarr_path u))]"

definition verdict_fields :: "verdict_row \<Rightarrow> (string \<times> json) list" where
  "verdict_fields v =
     [(''s_claimed'', json_opt JFloat (v_s_claimed v)), (''s_alt'', json_opt JFloat (v_s_alt v)),
      (''outcome'', JStr (outcome_str (v_outcome v))), (''proposed_action'', json_opt action_dump (v_proposed_action v)),
      (''remediation_log'', JList (map log_entry_dump (v_remediation_log v))),
      (''source'', JStr (source_str (v_source v))), (''human_ident'', json_opt human_ident_dump (v_human_ident v)),
      (''dupe_info'', json_opt dupe_dump (v_dupe_info v))]"

definition plugin_result_fields :: "plugin_result_row \<Rightarrow> (string \<times> json) list" where
  "plugin_result_fields r =
     [(''name'', JStr (pl_plugin_name r)), (''version'', JStr (pl_plugin_version r)),
      (''status'', JStr (plugin_status_str (pl_status r))), (''reason'', json_opt JStr (pl_reason r)),
      (''candidates'', JList (map candidate_dump (pl_candidates r))),
      (''normalized'', JList (map norm_dump (pl_normalized r)))]"

definition file_fields :: "file_row \<Rightarrow> (string \<times> json) list" where
  "file_fields f =
     [(''series_id'', JInt (f_series_id f)), (''episode_ids'', json_ints (f_episode_ids f)),
      (''episode_file_id'', JInt (f_episode_file_id f)), (''sonarr_path'', JStr (f_sonarr_path f)),
      (''local_path'', JStr (f_local_path f)), (''size'', JInt (f_size f)), (''content_hash'', JStr (f_content_hash f)),
      (''quality'', f_quality f), (''languages'', f_languages f), (''history_id'', json_opt JInt (f_history_id f)),
      (''download_id'', json_opt JStr (f_download_id f)), (''source_title'', json_opt JStr (f_source_title f)),
      (''indexer'', json_opt JStr (f_indexer f)), (''guid'', json_opt JStr (f_guid f))]"

section \<open>Live enrichment\<close>

text \<open>\<open>str.rstrip("/")\<close>.\<close>

definition strip_slashes :: "string \<Rightarrow> string" where
  "strip_slashes s = rev (dropWhile (\<lambda>c. c = CHR ''/'') (rev s))"

text \<open>Any failure gives no ids.\<close>

definition series_external_ids :: "app \<Rightarrow> file_row \<Rightarrow> world \<Rightarrow> json \<times> world" where
  "series_external_ids ap f w =
     (case runtime_for_file ap f w of
        Inl e \<Rightarrow> (JNull, w)
      | Inr rt \<Rightarrow>
          (case get_series (ap_env ap) (ap_codec ap) (rt_client rt) (f_series_id f) w of
             (Inl e, w1) \<Rightarrow> (JNull, w1)
           | (Inr s, w1) \<Rightarrow>
               (JObj [(''title'', JStr (se_title s)), (''tvdb_id'', json_opt JInt (se_tvdb_id s)),
                  (''imdb_id'', json_opt JStr (se_imdb_id s)), (''tmdb_id'', json_opt JInt (se_tmdb_id s)),
                  (''sonarr_url'', JStr (strip_slashes (si_url (rt_cfg rt)) @ ''/series/'' @ se_title_slug s))], w1)))"

definition normalized_ids :: "norm_result \<Rightarrow> int set" where
  "normalized_ids n = (case n of InSeriesCandidate ids \<Rightarrow> ids | _ \<Rightarrow> {})"

definition referenced_episode_ids :: "file_row \<Rightarrow> verdict_row option \<Rightarrow> plugin_result_row list \<Rightarrow> int set" where
  "referenced_episode_ids f v rs =
     set (f_episode_ids f) \<union>
     (case v of None \<Rightarrow> {}
      | Some x \<Rightarrow> (case v_proposed_action x of Some (RemapJson ids) \<Rightarrow> set ids | _ \<Rightarrow> {})) \<union>
     \<Union> (set (map normalized_ids (concat (map pl_normalized rs))))"

definition series_episodes_or_none :: "app \<Rightarrow> file_row \<Rightarrow> world \<Rightarrow> episode list \<times> world" where
  "series_episodes_or_none ap f w =
     (case series_episodes_of ap f w of (Inl e, w1) \<Rightarrow> ([], w1) | (Inr eps, w1) \<Rightarrow> (eps, w1))"

definition episode_label_dict :: "episode \<Rightarrow> json" where
  "episode_label_dict e =
     JObj [(''id'', JInt (ep_id e)), (''season'', JInt (ep_season_number e)), (''episode'', JInt (ep_episode_number e)),
           (''title'', json_opt JStr (ep_title e)), (''tvdb_id'', json_opt JInt (ep_tvdb_id e))]"

text \<open>A dictionary by episode id: a later episode of the same id replaces the value.\<close>

definition episode_labels :: "episode list \<Rightarrow> int set \<Rightarrow> json" where
  "episode_labels episodes ids =
     JObj (map (\<lambda>(i, e). (show_int i, episode_label_dict e))
       (fold (\<lambda>e d. AList.update (ep_id e) e d) (filter (\<lambda>e. ep_id e \<in> ids) episodes) []))"

text \<open>The text of a file on disk; an operating-system error gives none.\<close>

definition read_text :: "app \<Rightarrow> string \<Rightarrow> world \<Rightarrow> string option \<times> world" where
  "read_text ap p w =
     (let f = path_str (mk_path p)
      in case os_call (ap_env ap) (OsRead f) w of
           (Inl e, w1) \<Rightarrow> (None, w1)
         | (Inr _, w1) \<Rightarrow> (map_option (ap_text ap) (w_fs w f), w1))"

definition dict_language :: "json \<Rightarrow> string \<Rightarrow> json" where
  "dict_language j k = (case j of JObj kvs \<Rightarrow> (case map_of kvs k of None \<Rightarrow> JNull | Some v \<Rightarrow> v) | _ \<Rightarrow> JNull)"

definition embedded_subs_payload :: "app \<Rightarrow> asset_row \<Rightarrow> world \<Rightarrow> json \<times> world" where
  "embedded_subs_payload ap a w =
     (case a_path a of
        None \<Rightarrow> (JNull, w)
      | Some p \<Rightarrow>
          if a_type a \<noteq> ASubs \<or> \<not> suffix ''.srt'' p then (JNull, w)
          else
            (case read_text ap p w of
               (None, w1) \<Rightarrow> (JNull, w1)
             | (Some text, w1) \<Rightarrow>
                 (JObj [(''cues'', parse_srt_timed text), (''language'', dict_language (a_tool_meta a) ''language'')], w1)))"

section \<open>Reference subtitles\<close>

text \<open>The path a candidate's evidence names, when it is a text not met before.\<close>

definition refsub_path :: "candidate \<Rightarrow> string option" where
  "refsub_path c =
     (case ca_evidence c of
        JObj kvs \<Rightarrow> (case map_of kvs ''refsub_path'' of Some (JStr p) \<Rightarrow> Some p | _ \<Rightarrow> None)
      | _ \<Rightarrow> None)"

definition track_label :: "candidate_ident \<Rightarrow> string" where
  "track_label i = ''S'' @ show_int02 (ci_season i) @ concat (map (\<lambda>e. ''E'' @ show_int02 e) (ci_episodes i))"

definition track_episode_ids :: "app \<Rightarrow> file_row \<Rightarrow> candidate_ident \<Rightarrow> world \<Rightarrow> int list \<times> world" where
  "track_episode_ids ap f i w =
     (case resolve_human_ident_ids ap f \<lparr>hi_season = ci_season i, hi_episodes = ci_episodes i\<rparr> w of
        (Inr (Some ids), w1) \<Rightarrow> (sorted_ids ids, w1)
      | (_, w1) \<Rightarrow> ([], w1))"

definition reference_track :: "app \<Rightarrow> file_row \<Rightarrow> candidate \<Rightarrow> string \<Rightarrow> world \<Rightarrow> json option \<times> world" where
  "reference_track ap f c p w =
     (case (case ca_ident c of
              None \<Rightarrow> ((''reference subtitle'', []), w)
            | Some i \<Rightarrow> (case track_episode_ids ap f i w of (ids, w1) \<Rightarrow> ((track_label i, ids), w1))) of
        ((label, ids), w1) \<Rightarrow>
          (case read_text ap p w1 of
             (None, w2) \<Rightarrow> (None, w2)
           | (Some text, w2) \<Rightarrow>
               (Some (JObj [(''label'', JStr label), (''language'', dict_language (ca_evidence c) ''refsub_language''),
                  (''cues'', parse_srt_timed text), (''episode_ids'', json_ints ids)]), w2)))"

fun reference_tracks :: "app \<Rightarrow> file_row \<Rightarrow> candidate list \<Rightarrow> string list \<Rightarrow> world \<Rightarrow> json list \<times> world" where
  "reference_tracks ap f [] seen w = ([], w)"
| "reference_tracks ap f (c # cs) seen w =
     (case refsub_path c of
        None \<Rightarrow> reference_tracks ap f cs seen w
      | Some p \<Rightarrow>
          if p \<in> set seen then reference_tracks ap f cs seen w
          else
            (case reference_track ap f c p w of
               (t, w1) \<Rightarrow>
                 (case reference_tracks ap f cs (p # seen) w1 of
                    (ts, w2) \<Rightarrow> ((case t of None \<Rightarrow> ts | Some x \<Rightarrow> x # ts), w2))))"

definition reference_subtitles :: "app \<Rightarrow> file_row \<Rightarrow> plugin_result_row list \<Rightarrow> world \<Rightarrow> json list \<times> world" where
  "reference_subtitles ap f rs w = reference_tracks ap f (concat (map pl_candidates rs)) [] w"

section \<open>Job details\<close>

definition asset_detail :: "app \<Rightarrow> asset_row \<Rightarrow> world \<Rightarrow> json \<times> world" where
  "asset_detail ap a w =
     (case (if a_type a \<in> {AProbe, ATranscript} then (json_opt id (a_payload a), w)
            else embedded_subs_payload ap a w) of
        (payload, w1) \<Rightarrow>
          (JObj [(''id'', JInt (a_id a)), (''type'', JStr (asset_type_str (a_type a))), (''path'', json_opt JStr (a_path a)),
             (''has_path'', JBool (a_path a \<noteq> None)), (''tool_meta'', a_tool_meta a), (''payload'', payload)], w1))"

fun asset_details :: "app \<Rightarrow> asset_row list \<Rightarrow> world \<Rightarrow> json list \<times> world" where
  "asset_details ap [] w = ([], w)"
| "asset_details ap (a # as) w =
     (case asset_detail ap a w of
        (x, w1) \<Rightarrow> (case asset_details ap as w1 of (xs, w2) \<Rightarrow> (x # xs, w2)))"

definition job_summary :: "job_row \<Rightarrow> (string \<times> json) list" where
  "job_summary j =
     [(''id'', JInt (j_id j)), (''status'', JStr (job_status_str (j_status j))), (''attempts'', JInt (j_attempts j))]"

definition job_times :: "job_row \<Rightarrow> (string \<times> json) list" where
  "job_times j =
     [(''created_at'', JStr (isoformat (j_created_at j))), (''updated_at'', JStr (isoformat (j_updated_at j)))]"

text \<open>The rows are read before the live look-ups; the subtitle files are read last.\<close>

definition get_job_detail :: "app \<Rightarrow> int \<Rightarrow> json handler" where
  "get_job_detail ap job_id w =
     (case get_job (w_db w) job_id of
        None \<Rightarrow> (Inl (HTTPException 404), w)
      | Some job \<Rightarrow>
          (case get_row f_id (j_file_id job) (db_files (w_db w)) of
             None \<Rightarrow> (Inl AttributeError, w)
           | Some f \<Rightarrow>
               let d = w_db w;
                   rs = filter (\<lambda>r. pl_job_id r = job_id) (db_plugin_results d);
                   v = latest_verdict_of d job_id;
                   assets = filter (\<lambda>a. a_file_id a = f_id f) (db_assets d);
                   h = latest_frame_hash d (f_id f);
                   inst = get_row in_id (f_instance_id f) (db_instances d);
                   corpus = Option.bind h (\<lambda>x. find (\<lambda>c. c_frame_hash_id c = h_id x) (db_corpus d));
                   (ids, w1) = series_external_ids ap f w;
                   (eps, w2) = series_episodes_or_none ap f w1;
                   (tracks, w3) = reference_subtitles ap f rs w2;
                   (assets_out, w4) = asset_details ap assets w3
               in (Inr (JObj
                    [(''job'', JObj (job_summary job @ job_times job)),
                     (''instance'', json_opt (\<lambda>i. JStr (in_name i)) inst), (''external_ids'', ids),
                     (''file'', JObj (file_fields f)),
                     (''plugin_results'', JList (map (\<lambda>r. JObj (plugin_result_fields r)) rs)),
                     (''verdict'', json_opt (\<lambda>v. JObj (verdict_fields v @ [(''apply_at'', json_opt JStr (v_apply_at v))])) v),
                     (''assets'', JList assets_out),
                     (''episode_labels'', episode_labels eps (referenced_episode_ids f v rs)),
                     (''series_episodes'', JList (map episode_label_dict
                        (sort_key (\<lambda>e. (ep_season_number e, ep_episode_number e)) eps))),
                     (''reference_subtitles'', JList tracks), (''frame_hash_present'', JBool (h \<noteq> None)),
                     (''frame_hash'', json_opt (\<lambda>x. JObj [(''algo'', JStr (h_algo x)), (''version'', JInt (h_version x)),
                        (''n_frames'', JInt (int (length (h_hashes x))))]) h),
                     (''phash_corpus'', json_opt (\<lambda>c. JObj [(''confidence'', JFloat (c_confidence c)),
                        (''source'', JStr (source_str (c_source c)))]) corpus)]), w4)))"

section \<open>An asset\<close>

definition MEDIA_TYPES :: "(string \<times> string) list" where
  "MEDIA_TYPES =
     [(''.jpg'', ''image/jpeg''), (''.jpeg'', ''image/jpeg''), (''.png'', ''image/png''), (''.wav'', ''audio/wav'')]"

datatype asset_reply = FileReply string string | JsonReply json

definition get_job_asset :: "app \<Rightarrow> int \<Rightarrow> int \<Rightarrow> world \<Rightarrow> asset_reply res" where
  "get_job_asset ap job_id asset_id w =
     (case get_job (w_db w) job_id of
        None \<Rightarrow> Inl (HTTPException 404)
      | Some job \<Rightarrow>
          (case get_row a_id asset_id (db_assets (w_db w)) of
             None \<Rightarrow> Inl (HTTPException 404)
           | Some a \<Rightarrow>
               if a_file_id a \<noteq> j_file_id job then Inl (HTTPException 404)
               else
                 (case a_path a of
                    Some p \<Rightarrow>
                      let path = mk_path p
                      in res_bind (path_exists (ap_env ap) (path_str path) w) (\<lambda>there.
                           if \<not> there then Inl (HTTPException 404)
                           else Inr (FileReply (path_str path)
                             (case map_of MEDIA_TYPES (str_lower (path_suffix path)) of
                                None \<Rightarrow> ''application/octet-stream'' | Some t \<Rightarrow> t)))
                  | None \<Rightarrow>
                      (case a_payload a of Some j \<Rightarrow> Inr (JsonReply j) | None \<Rightarrow> Inl (HTTPException 404)))))"

section \<open>The data pack\<close>

definition log_dump :: "log_item \<Rightarrow> json" where
  "log_dump l =
     JObj [(''ts'', JStr (li_ts l)), (''level'', JStr (li_level l)), (''logger'', JStr (li_logger l)),
           (''message'', JStr (li_message l)), (''exc'', json_opt JStr (li_exc l))]"

text \<open>The log lines of the job's window; times are compared as texts.\<close>

definition log_excerpt :: "ring_buffer \<Rightarrow> job_row \<Rightarrow> log_item list" where
  "log_excerpt b j =
     filter (\<lambda>l. isoformat (j_created_at j) \<le> li_ts l \<and> li_ts l \<le> isoformat (j_updated_at j))
       (get_logs b None (int (rb_capacity b)))"

definition get_job_datapack :: "app \<Rightarrow> string \<Rightarrow> int \<Rightarrow> world \<Rightarrow> json res" where
  "get_job_datapack ap version job_id w =
     (case get_job (w_db w) job_id of
        None \<Rightarrow> Inl (HTTPException 404)
      | Some j \<Rightarrow>
          let d = w_db w; f = get_row f_id (j_file_id j) (db_files d)
          in Inr (JObj
            [(''app_version'', JStr version), (''generated_at'', JStr (isoformat (now_of (ap_env ap) w))),
             (''job'', JObj (job_summary j @
                [(''claimed_by'', json_opt JStr (j_claimed_by j)), (''claimed_at'', json_time (j_claimed_at j)),
                 (''heartbeat_at'', json_time (j_heartbeat_at j))] @ job_times j)),
             (''file'', json_opt (\<lambda>f. JObj ([(''id'', JInt (f_id f)), (''instance_id'', JInt (f_instance_id f))] @ file_fields f)) f),
             (''verdicts'', JList (map (\<lambda>v. JObj ([(''id'', JInt (v_id v))] @ verdict_fields v @
                [(''created_at'', JStr (isoformat (v_created_at v)))]))
                (sort_key v_id (filter (\<lambda>v. v_job_id v = job_id) (db_verdicts d))))),
             (''plugin_results'', JList (map (\<lambda>r. JObj (plugin_result_fields r @
                [(''created_at'', JStr (isoformat (pl_created_at r)))]))
                (filter (\<lambda>r. pl_job_id r = job_id) (db_plugin_results d)))),
             (''assets'', JList (map (\<lambda>a. JObj [(''id'', JInt (a_id a)), (''type'', JStr (asset_type_str (a_type a))),
                (''path'', json_opt JStr (a_path a)), (''tool_meta'', a_tool_meta a),
                (''created_at'', JStr (isoformat (a_created_at a)))])
                (filter (\<lambda>a. a_file_id a = j_file_id j) (db_assets d)))),
             (''log_excerpt'', JList (map log_dump (log_excerpt (ap_log ap) j)))]))"

section \<open>The event stream\<close>

text \<open>The text sent for one event, and for one interval without any.\<close>

definition event_text :: "event \<Rightarrow> string" where
  "event_text e =
     ''event: job_update'' @ [CHR 10] @ ''data: '' @
     ''{'' @ json_string ''type'' @ '': '' @ json_string ''job_update'' @ '', '' @ json_string ''job_id'' @ '': '' @
     show_int (fst e) @ '', '' @ json_string ''status'' @ '': '' @ json_string (snd e) @ ''}'' @ [CHR 10, CHR 10]"

definition stats_text :: "db \<Rightarrow> string" where
  "stats_text d =
     ''event: stats'' @ [CHR 10] @ ''data: {'' @
     join '', '' (map (\<lambda>(s, n). json_string (job_status_str s) @ '': '' @ show_int n) (queue_counts d)) @ ''}'' @
     [CHR 10, CHR 10] @ '': heartbeat'' @ [CHR 10, CHR 10]"

text \<open>
  One turn of the stream: the next event of its queue, or the counts after an interval without one.
  The time-out cancels the generator at its \<open>queue.get()\<close>, whose \<open>finally\<close> then removes the queue;
  a finished generator ends the stream at its next turn.
\<close>

definition event_stream_turn :: "nat \<Rightarrow> bus \<Rightarrow> db \<Rightarrow> string option \<times> bus" where
  "event_stream_turn h b d =
     (if h \<notin> set (map fst b) then (None, b)
      else (case bus_take h b of
              Some (e, b') \<Rightarrow> (Some (event_text e), b')
            | None \<Rightarrow> (Some (stats_text d), unsubscribe h b)))"

end
