(* ===== verification/RouteSpec.thy ===== *)
theory RouteSpec
  imports QueueSystem RouteDetail "HOL-Library.Multiset"
begin

text \<open>
  The properties of the HTTP handlers: verdicts, approvals, and the listings.
\<close>

section \<open>What surrounds a handler's own writes\<close>

text \<open>In a calm environment a handler's requests leave every table but the hash corpus alone.\<close>

definition tables_kept :: "app \<Rightarrow> world \<Rightarrow> world \<Rightarrow> bool" where
  "tables_kept ap w w' \<longleftrightarrow> (calm (ap_env ap) \<longrightarrow>
     db_jobs (w_db w') = db_jobs (w_db w) \<and> db_verdicts (w_db w') = db_verdicts (w_db w) \<and>
     db_files (w_db w') = db_files (w_db w))"

interpretation kept_api: api_rel ap "tables_kept ap" for ap
  by unfold_locales (auto simp: tables_kept_def calm_def http_send_def os_sleep_def Let_def)

interpretation gets_api: api_rel ap "new_events (\<lambda>e. \<not> meddles e)" for ap
  by unfold_locales (auto intro: new_events_trans new_events_same simp: http_send_def os_sleep_def Let_def new_events_def)

section \<open>Human verdicts\<close>

text \<open>Where a request to post a verdict is turned away before anything is written.\<close>

lemma verdict_refused:
  assumes "post_verdict ap i body w = (r, w')"
    and "\<not> (\<exists>job d. get_job (w_db w) i = Some job \<and> j_status job \<in> VERDICT_ALLOWED_STATUSES \<and>
       set_status_checked (w_db (others ap w)) job (verdict_target (vq_verdict body)) (j_status job)
         (now_of (ap_env ap) (others ap w)) = Inr d)"
  shows "(\<exists>c \<in> {400, 404, 409}. r = Inl (HTTPException c)) \<and> w_db w' \<in> {w_db w, w_db (others ap w)}"
proof -
  have "conflict_on_invalid e = HTTPException 409"
    if "set_status_checked d job s t now = Inl e" for d job s t now e
    using that by (auto simp: set_status_checked_def check_transition_def conflict_on_invalid_def
        split: if_splits prod.splits)
  with assms show ?thesis
    by (auto simp: post_verdict_def Let_def split: option.splits if_splits sum.splits)
qed

definition verdict_recorded :: "int \<Rightarrow> verdict_request \<Rightarrow> db \<Rightarrow> db \<Rightarrow> bool" where
  "verdict_recorded i body d d' \<longleftrightarrow>
     status_of d' i = Some (verdict_target (vq_verdict body)) \<and>
     (\<forall>k. k \<noteq> i \<longrightarrow> get_job d' k = get_job d k) \<and>
     (\<exists>v. db_verdicts d' = db_verdicts d @ [v] \<and> latest_verdict_of d' i = Some v \<and>
        v_source v = SrcHuman \<and> v_outcome v = verdict_outcome (vq_verdict body) \<and>
        v_human_ident v = (if vq_verdict body = IsOther then vq_ident body else None))"

lemma fresh_greater: "\<forall>x \<in> set rows. v_id x < fresh_id (map v_id rows)"
  using fold_max_mem [of _ "map v_id rows" 0] by (force simp: fresh_id_def)

lemma verdict_accepted:
  assumes "calm (ap_env ap)" "jobs_wf (w_db (others ap w))" "post_verdict ap i body w = (r, w')"
    and job: "get_job (w_db w) i = Some job" "j_status job \<in> VERDICT_ALLOWED_STATUSES"
    and set: "set_status_checked (w_db (others ap w)) job (verdict_target (vq_verdict body)) (j_status job)
       (now_of (ap_env ap) (others ap w)) = Inr (job', d)"
    and ident: "\<not> (vq_verdict body = IsOther \<and> vq_ident body = None)"
  shows "status_of (w_db w) i \<in> {Some Quarantine, Some Inconclusive} \<and>
     status_of (w_db (others ap w)) i = status_of (w_db w) i \<and>
     verdict_recorded i body (w_db (others ap w)) (w_db w')"
proof -
  let ?w1 = "others ap w" let ?t = "verdict_target (vq_verdict body)"
  have id: "j_id job = i" by (rule get_job_id [OF job(1)])
  obtain n where u: "n \<noteq> 0" "update_job i (\<lambda>j. j_status j = j_status job) (\<lambda>j. j\<lparr>j_status := ?t\<rparr>)
      (now_of (ap_env ap) ?w1) (w_db ?w1) = (n, d)"
    using set id by (auto simp: set_status_checked_Inr)
  note f = fenced_update [OF assms(2) keeps_id_simps(4) u(2)]
  let ?w2 = "?w1\<lparr>w_db := d\<rparr>"
  let ?v = "human_verdict ap i body ?w2" let ?w3 = "add_verdict ?v ?w2"
  let ?fr = "get_row f_id (j_file_id job) (db_files (w_db w))"
  obtain y w4 where av: "after_verdict ap ?fr body ?w3 = (y, w4)" by (cases "after_verdict ap ?fr body ?w3")
  have k: "db_jobs (w_db w4) = db_jobs d" "db_verdicts (w_db w4) = db_verdicts d @ [?v]"
    using movesD [OF kept_api.after_verdict_moves av] assms(1) by (auto simp: tables_kept_def add_verdict_def)
  have w': "w_db w' = w_db w4"
    using assms(3) job set ident av
    by (cases y) (auto simp: post_verdict_def Let_def and_then_def publish_update_def)
  have vs: "db_verdicts d = db_verdicts (w_db ?w1)" using u(2) by (auto simp: update_job_def)
  have g: "get_job (w_db w') = get_job d" using k(1) w' by (simp add: fun_eq_iff get_job_def)
  have "verdict_recorded i body (w_db ?w1) (w_db w')"
    unfolding verdict_recorded_def
  proof (intro conjI exI [of _ ?v])
    show "status_of (w_db w') i = Some ?t" using f(2) u(1) by (auto simp: status_of_def g)
    show "\<forall>k. k \<noteq> i \<longrightarrow> get_job (w_db w') k = get_job (w_db ?w1) k" using f(3) by (simp add: g)
    show "db_verdicts (w_db w') = db_verdicts (w_db ?w1) @ [?v]" using k(2) w' vs by simp
    have "v_id ?v = fresh_id (map v_id (db_verdicts d))" by (simp add: human_verdict_def)
    with fresh_greater [of "db_verdicts d"] have "\<forall>x \<in> set (db_verdicts d). v_id x < v_id ?v" by simp
    from latest_appended [OF this, of "\<lambda>v. v_job_id v = i"] show "latest_verdict_of (w_db w') i = Some ?v"
      using k(2) w' by (simp add: latest_verdict_of_def human_verdict_def)
  qed (simp_all add: human_verdict_def)
  moreover have "status_of (w_db ?w1) i = status_of (w_db w) i"
    using f(1) u(1) job(1) by (auto simp: status_of_def)
  ultimately show ?thesis using job by (auto simp: status_of_def VERDICT_ALLOWED_STATUSES_def)
qed


definition review_app :: app where
  "review_app =
     plain_app (quiet_env sample_peer) sample_codec
       [(''a'', \<lparr>rt_client = default_client False, rt_cfg = sample_instance, rt_disc = shelf\<rparr>)]"

definition review_world :: world where
  "review_world = (sample_world [])\<lparr>w_db := (w_db (sample_world []))\<lparr>db_jobs := [new_job 1 7 Quarantine 100]\<rparr>\<rparr>"

lemma review_facts:
  "calm (ap_env review_app)" "others review_app w = w" "jobs_wf (w_db review_world)"
  "get_job (w_db review_world) 1 = Some (new_job 1 7 Quarantine 100)"
  by (simp_all add: review_app_def plain_app_def calm_def quiet_env_def others_def review_world_def jobs_wf_def
      get_job_def get_row_def new_job_def)

definition ignore_it :: verdict_request where
  "ignore_it = \<lparr>vq_verdict = Ignore, vq_ident = None\<rparr>"


text \<open>The fence does not order two verdicts that keep the job in quarantine: a status may be replaced by
  itself, so of two such requests both are recorded.\<close>

theorem second_verdict_recorded:
  assumes "jobs_wf d" "get_job d i = Some j" "j_status j = Quarantine"
  shows "\<exists>job' d'. set_status_checked d j Quarantine Quarantine now = Inr (job', d') \<and>
    (\<exists>job'' d''. set_status_checked d' j Quarantine Quarantine now' = Inr (job'', d''))"
proof -
  have fence: "\<exists>job' d'. set_status_checked d j Quarantine Quarantine now = Inr (job', d') \<and> jobs_wf d' \<and> status_of d' i = Some Quarantine"
    if "jobs_wf d" "status_of d i = Some Quarantine" for d now
  proof -
    obtain n d' where u: "update_job i (\<lambda>j. j_status j = Quarantine) (\<lambda>j. j\<lparr>j_status := Quarantine\<rparr>) now d = (n, d')"
      by (cases "update_job i (\<lambda>j. j_status j = Quarantine) (\<lambda>j. j\<lparr>j_status := Quarantine\<rparr>) now d")
    note f = fenced_update [OF that(1) keeps_id_simps(4) u]
    have n: "n \<noteq> 0" using f(1) that(2) by (auto simp: status_of_def)
    then have "status_of d' i = Some Quarantine" using f(2) by (auto simp: status_of_def)
    moreover have "jobs_wf d'" using update_job_wf [OF keeps_id_simps(4) u] that(1) by simp
    moreover have "set_status_checked d j Quarantine Quarantine now = Inr (j\<lparr>j_status := Quarantine\<rparr>, d')"
      using n u get_job_id [OF assms(2)] by (auto simp: set_status_checked_Inr)
    ultimately show ?thesis by blast
  qed
  from fence [OF assms(1), of now] assms(2,3) obtain job' d' where
    "set_status_checked d j Quarantine Quarantine now = Inr (job', d')" "jobs_wf d'" "status_of d' i = Some Quarantine"
    by (auto simp: status_of_def)
  with fence [of d' now'] show ?thesis by blast
qed

section \<open>Approval and replacement\<close>

text \<open>The claim of a job under review by the API.\<close>

definition api_claimed :: "app \<Rightarrow> string \<Rightarrow> int \<Rightarrow> world \<Rightarrow> world \<Rightarrow> bool" where
  "api_claimed ap identity i w1 w2 \<longleftrightarrow>
     status_of (w_db w1) i \<in> {Some Quarantine, Some Inconclusive} \<and> w_trace w2 = w_trace w1 \<and> w_fs w2 = w_fs w1 \<and>
     holds_lease (w_db w2) i (api_worker_id identity) \<and> (\<forall>k. k \<noteq> i \<longrightarrow> get_job (w_db w2) k = get_job (w_db w1) k)"

text \<open>After the claim: nothing but the remediation acts.\<close>

definition acted :: "app \<Rightarrow> int \<Rightarrow> string \<Rightarrow> world \<Rightarrow> job_status res \<Rightarrow> world \<Rightarrow> bool" where
  "acted ap i identity w2 r w' \<longleftrightarrow>
     (case r of
        Inr st \<Rightarrow> st \<in> TERMINAL_STATUSES \<and> status_of (w_db w') i = Some st \<and> (\<forall>u. \<not> holds_lease (w_db w') i u)
      | Inl e \<Rightarrow> w' = w2 \<or> (\<exists>rt act. \<exists>m. m = run_action (api_remediator ap rt (api_worker_id identity)) i act \<and> m w2 = (Inl e, w')))"

lemma claim_and_run_cases:
  assumes "wf_env (ap_env ap)" "jobs_wf (w_db (others ap w))" "fs \<subseteq> REVIEW_STATUSES" "j_id job = i"
    and "claim_and_run ap identity job fs file act w = (r, w')"
  shows "(r = Inl (HTTPException 409) \<and> w' = others ap w) \<or>
     (\<exists>w2. api_claimed ap identity i (others ap w) w2 \<and> acted ap i identity w2 r w')"
proof (cases "claim_for_api (w_db (others ap w)) job (api_worker_id identity) fs (now_of (ap_env ap) (others ap w))")
  case (Inl e)
  then have "e = InvalidTransition" by (auto simp: claim_for_api_def check_transition_def split: if_splits prod.splits)
  with assms(5) Inl show ?thesis by (auto simp: claim_and_run_def Let_def conflict_on_invalid_def)
next
  case (Inr x)
  let ?w1 = "others ap w" let ?u = "api_worker_id identity"
  obtain job' d where x: "x = (job', d)" by (cases x)
  let ?w2 = "?w1\<lparr>w_db := d\<rparr>"
  obtain n where u: "n \<noteq> 0" "job' = leased Active ?u (now_of (ap_env ap) ?w1) job"
    "update_job i (\<lambda>j. j_status j \<in> fs) (leased Active ?u (now_of (ap_env ap) ?w1)) (now_of (ap_env ap) ?w1) (w_db ?w1) = (n, d)"
    using Inr x assms(4) by (auto simp: claim_for_api_Inr)
  note f = fenced_update [OF assms(2) keeps_id_simps(1) u(3)]
  have c: "api_claimed ap identity i ?w1 ?w2"
    using f u(1) assms(3) by (auto simp: api_claimed_def status_of_def holds_lease_def lease_held_def REVIEW_STATUSES_def)
  have wf: "jobs_wf (w_db ?w2)" using update_job_wf [OF keeps_id_simps(1) u(3)] assms(2) by simp
  have id: "j_id job' = i" using u(2) assms(4) by simp
  have "acted ap i identity ?w2 r w'"
  proof (cases "\<exists>f rt. need_file file = Inr f \<and> runtime_for_file ap f ?w2 = Inr rt")
    case False
    with assms(5) Inr x show ?thesis
      by (cases "need_file file") (auto simp: claim_and_run_def Let_def and_then_def pure_res_def acted_def split: sum.splits)
  next
    case True
    then obtain f rt where f: "need_file file = Inr f" "runtime_for_file ap f ?w2 = Inr rt" by blast
    let ?r = "api_remediator ap rt ?u"
    obtain y w3 where a: "run_action ?r i act ?w2 = (y, w3)" by (cases "run_action ?r i act ?w2")
    show ?thesis
    proof (cases y)
      case (Inl e)
      with assms(5) Inr x f a id show ?thesis
        by (auto simp: claim_and_run_def Let_def and_then_def pure_res_def acted_def)
    next
      case (Inr v)
      have "\<exists>ts. run_action ?r i act ?w2 = replace ?r i ?w2 \<or> run_action ?r i act ?w2 = remap ?r i ts ?w2"
        by (auto simp: run_action_def split: action_json.splits)
      then obtain ts where "run_action ?r i act ?w2 = replace ?r i ?w2 \<or> run_action ?r i act ?w2 = remap ?r i ts ?w2" by blast
      moreover have "wf_env (re_env ?r)" using assms(1) by (simp add: api_remediator_def)
      ultimately have fin: "finished i (w_db w3)"
        using remediation_finishes [OF _ wf, of ?r "run_action ?r i act ?w2" i ts v w3] a Inr by auto
      with assms(5) \<open>claim_for_api (w_db ?w1) job ?u fs (now_of (ap_env ap) ?w1) = Inr x\<close> x f a id Inr show ?thesis
        by (auto simp: claim_and_run_def Let_def and_then_def pure_res_def acted_def finished_def report_status_def
            status_of_def publish_update_def holds_lease_def split: option.splits)
    qed
  qed
  with c show ?thesis by blast
qed

definition wf_race :: "app \<Rightarrow> bool" where
  "wf_race ap \<longleftrightarrow> (\<forall>tr d. jobs_wf d \<longrightarrow> jobs_wf (ap_race ap tr d))"

interpretation wf_api: api_rel ap "keeps_wf (ap_env ap)" for ap
  by unfold_locales (auto intro: wf_moves keeps_wf_same simp: os_sleep_def)

text \<open>From the claim on, and the two requests that lead to it.\<close>

lemma claim_leases:
  assumes "wf_env (ap_env ap)" "wf_race ap" "claim_and_run ap identity job fs fr act w1 = (r, w')" "fs \<subseteq> REVIEW_STATUSES"
    and "get_job (w_db w) i = Some job" "new_events (\<lambda>e. \<not> meddles e) w w1" "jobs_wf (w_db w1)"
  shows "new_events (\<lambda>e. \<not> meddles e) w w' \<and> is_err r \<or>
     (\<exists>w1 w2. new_events (\<lambda>e. \<not> meddles e) w w1 \<and> api_claimed ap identity i w1 w2 \<and> acted ap i identity w2 r w')"
proof -
  have race: "jobs_wf (w_db (others ap w1))"
    using assms(2,7) by (simp add: wf_race_def others_def)
  have quiet: "new_events (\<lambda>e. \<not> meddles e) w1 (others ap w1)" by (rule new_events_same) (simp add: others_def)
  show ?thesis
    using claim_and_run_cases [OF assms(1) race assms(4) get_job_id [OF assms(5)] assms(3)]
      new_events_trans [OF assms(6) quiet] by fastforce
qed

lemma approve_leases:
  assumes wf: "wf_env (ap_env ap)" "wf_race ap" "jobs_wf (w_db w)"
    and a: "(r, w') = approve_job ap identity i w"
  shows "new_events (\<lambda>e. \<not> meddles e) w w' \<and> is_err r \<or>
     (\<exists>w1 w2. new_events (\<lambda>e. \<not> meddles e) w w1 \<and> api_claimed ap identity i w1 w2 \<and> acted ap i identity w2 r w')"
proof (cases "\<exists>job. get_job (w_db w) i = Some job \<and> j_status job = Quarantine")
  case False
  with a show ?thesis by (auto simp: approve_job_def split: option.splits if_splits)
next
  case True
  then obtain job where job: "get_job (w_db w) i = Some job" "j_status job = Quarantine" by blast
  let ?fr = "get_row f_id (j_file_id job) (db_files (w_db w))" let ?v = "latest_verdict_of (w_db w) i"
  obtain y w1 where y: "approved_action ap ?fr ?v w = (y, w1)" by (cases "approved_action ap ?fr ?v w")
  have e: "new_events (\<lambda>e. \<not> meddles e) w w1" by (rule movesD [OF gets_api.approved_action_moves y])
  have wf1: "jobs_wf (w_db w1)"
    using movesD [OF wf_api.approved_action_moves y] wf(1,3) by (simp add: keeps_wf_def)
  show ?thesis
  proof (cases y)
    case (Inl ex)
    with a job y e show ?thesis by (auto simp: approve_job_def Let_def and_then_def)
  next
    case (Inr act)
    with a job y have "claim_and_run ap identity job {Quarantine} ?fr act w1 = (r, w')"
      by (simp add: approve_job_def Let_def and_then_def)
    from claim_leases [OF wf(1,2) this _ job(1) e wf1] show ?thesis by (simp add: REVIEW_STATUSES_def)
  qed
qed

lemma replace_leases:
  assumes wf: "wf_env (ap_env ap)" "wf_race ap" "jobs_wf (w_db w)"
    and a: "(r, w') = replace_job ap identity i w"
  shows "new_events (\<lambda>e. \<not> meddles e) w w' \<and> is_err r \<or>
     (\<exists>w1 w2. new_events (\<lambda>e. \<not> meddles e) w w1 \<and> api_claimed ap identity i w1 w2 \<and> acted ap i identity w2 r w')"
proof (cases "\<exists>job. get_job (w_db w) i = Some job \<and> j_status job \<in> VERDICT_ALLOWED_STATUSES")
  case False
  with a show ?thesis by (auto simp: replace_job_def split: option.splits if_splits)
next
  case True
  then obtain job where job: "get_job (w_db w) i = Some job" "j_status job \<in> VERDICT_ALLOWED_STATUSES" by blast
  with a have "claim_and_run ap identity job VERDICT_ALLOWED_STATUSES
      (get_row f_id (j_file_id job) (db_files (w_db w))) ReplaceJson w = (r, w')"
    by (simp add: replace_job_def)
  from claim_leases [OF wf(1,2) this _ job(1) _ wf(3)] show ?thesis by (simp add: VERDICT_ALLOWED_STATUSES_def REVIEW_STATUSES_def)
qed



text \<open>The claim is committed before the instance is looked up: a file whose instance has no runtime
  turns the request into a server error that leaves its job active, leased to the API.\<close>

theorem missing_runtime_strands_job:
  assumes "jobs_wf (w_db w)" "get_job (w_db w) i = Some j" "j_status j \<in> VERDICT_ALLOWED_STATUSES"
    and "\<And>w. others ap w = w" "get_row f_id (j_file_id j) (db_files (w_db w)) = Some f"
    and "get_row in_id (f_instance_id f) (db_instances (w_db w)) = Some inst" "map_of (ap_instances ap) (in_name inst) = None"
  shows "fst (replace_job ap identity i w) = Inl (HTTPException 500) \<and>
     holds_lease (w_db (snd (replace_job ap identity i w))) i (api_worker_id identity)"
proof -
  let ?u = "api_worker_id identity" let ?now = "now_of (ap_env ap) w"
  obtain n d where u: "update_job i (\<lambda>j. j_status j \<in> VERDICT_ALLOWED_STATUSES) (leased Active ?u ?now) ?now (w_db w) = (n, d)"
    by (cases "update_job i (\<lambda>j. j_status j \<in> VERDICT_ALLOWED_STATUSES) (leased Active ?u ?now) ?now (w_db w)")
  note f = fenced_update [OF assms(1) keeps_id_simps(1) u]
  have n: "n \<noteq> 0" using f(1) assms(2,3) by auto
  have "Active \<in> VALID_TRANSITIONS (j_status j)" using assms(3) by (auto simp: VERDICT_ALLOWED_STATUSES_def)
  then have c: "claim_for_api (w_db w) j ?u VERDICT_ALLOWED_STATUSES ?now = Inr (leased Active ?u ?now j, d)"
    using n u get_job_id [OF assms(2)] by (simp add: claim_for_api_Inr)
  have inst: "get_row in_id (f_instance_id f) (db_instances d) = Some inst"
    using u assms(6) by (auto simp: update_job_def)
  have "replace_job ap identity i w = (Inl (HTTPException 500), w\<lparr>w_db := d\<rparr>)"
    using assms(2-7) c inst
    by (simp add: replace_job_def claim_and_run_def Let_def and_then_def pure_res_def need_file_def runtime_for_file_def)
  moreover have "holds_lease d i ?u" using f(2) n by (auto simp: holds_lease_def lease_held_def)
  ultimately show ?thesis by simp
qed

section \<open>Listings\<close>

lemma rowcount_partition:
  "sum_list (map (\<lambda>s. rowcount (\<lambda>j. j_status j = s) js) JOB_STATUSES) = length js"
proof (induction js)
  case (Cons j js)
  then show ?case by (cases "j_status j") (simp_all add: rowcount_def JOB_STATUSES_def)
qed (simp add: rowcount_def JOB_STATUSES_def)

text \<open>The counts of the status page account for every job: the number of jobs with each status is what
  the page and the event stream report, and processed and unprocessed together are all jobs.\<close>

theorem status_counts_exact:
  "(\<forall>s. count_of d s = int (length (filter (\<lambda>j. j_status j = s) (db_jobs d)))) \<and>
   unprocessed_count d + processed_count d = int (length (db_jobs d))"
proof
  show c: "\<forall>s. count_of d s = int (length (filter (\<lambda>j. j_status j = s) (db_jobs d)))"
  proof
    fix s show "count_of d s = int (length (filter (\<lambda>j. j_status j = s) (db_jobs d)))"
      by (cases s) (simp_all add: count_of_def queue_counts_def JOB_STATUSES_def rowcount_def)
  qed
  show "unprocessed_count d + processed_count d = int (length (db_jobs d))"
    using rowcount_partition [of "db_jobs d"] c
    by (simp add: unprocessed_count_def processed_count_def JOB_STATUSES_def rowcount_def)
qed

text \<open>How rows compare: by the column, then by id, in the direction asked for; nulls come last.\<close>

definition listed_before :: "db \<Rightarrow> sort_field \<Rightarrow> bool \<Rightarrow> job_row \<Rightarrow> job_row \<Rightarrow> bool" where
  "listed_before d so asc j k \<longleftrightarrow>
     (let v = sort_value_of d so j; u = sort_value_of d so k;
          a = (value_key v, j_id j); b = (value_key u, j_id k)
      in if (v = NullValue) = (u = NullValue) then (if asc then a \<le> b else b \<le> a) else u = NullValue)"

lemma queue_order_mset: "mset (queue_order d so asc js) = mset js"
proof -
  have "mset (filter (\<lambda>j. P j) js) + mset (filter (\<lambda>j. \<not> P j) js) = mset js" for P
    by (metis mset_filter multiset_partition)
  from this [of "\<lambda>j. sort_value_of d so j \<noteq> NullValue"] show ?thesis
    by (cases asc) (simp_all add: queue_order_def Let_def)
qed

lemma sorted_part: "sorted_wrt (listed_before d so asc)
    ((if asc then id else rev) (sort_key (\<lambda>j. (value_key (sort_value_of d so j), j_id j)) (filter P js)))"
  if "\<And>j. P j \<Longrightarrow> (sort_value_of d so j = NullValue) = b" for b
proof -
  let ?key = "\<lambda>j. (value_key (sort_value_of d so j), j_id j)" let ?s = "sort_key ?key (filter P js)"
  have "sorted_wrt (\<lambda>j k. ?key j \<le> ?key k) ?s" using sorted_sort_key [of ?key "filter P js"] by (simp add: sorted_map)
  moreover have "\<And>j. j \<in> set ?s \<Longrightarrow> (sort_value_of d so j = NullValue) = b" using that by simp
  ultimately show ?thesis
    by (cases asc) (auto simp: sorted_wrt_rev listed_before_def Let_def elim!: sorted_wrt_mono_rel [rotated])
qed

lemma queue_order_sorted: "sorted_wrt (listed_before d so asc) (queue_order d so asc js)"
proof -
  note p = sorted_part [of "\<lambda>j. sort_value_of d so j \<noteq> NullValue" d so False asc js]
    and a = sorted_part [of "\<lambda>j. sort_value_of d so j = NullValue" d so True asc js]
  have "listed_before d so asc j k" if "sort_value_of d so j \<noteq> NullValue" "sort_value_of d so k = NullValue" for j k
    using that by (simp add: listed_before_def Let_def)
  with p a show ?thesis
    by (cases asc) (auto simp: queue_order_def Let_def sorted_wrt_append)
qed

lemma page_slice: "0 < n \<Longrightarrow> sql_page ((int (Suc p) - 1) * int n) (int n) xs = take n (drop (p * n) xs)"
  by (simp add: sql_page_def nat_mult_distrib)

lemma pages_concat: "0 < n \<Longrightarrow> concat (map (\<lambda>p. sql_page ((int p - 1) * int n) (int n) xs) [1..<Suc k]) = take (k * n) xs"
proof (induction k)
  case (Suc k)
  then have "concat (map (\<lambda>p. sql_page ((int p - 1) * int n) (int n) xs) [1..<Suc (Suc k)]) =
      take (k * n) xs @ take n (drop (k * n) xs)"
    using page_slice [OF Suc.prems, of k xs] by simp
  also have "\<dots> = take (Suc k * n) xs" by (metis add.commute mult_Suc take_add)
  finally show ?case .
qed simp

text \<open>C10: Paging loses and repeats nothing: on an unchanged database, for any filter, column and direction,
  the pages \<open>1..k\<close> of a listing, for \<open>k\<close> pages enough for the reported total, hold together
  every matching job exactly once, in the order of the column with the job's id as tie-break and
  nulls last; no page has more rows than its size.\<close>

theorem queue_pages_partition:
  assumes "0 < n" "length (queue_members d st inst so) \<le> k * n"
  shows "let pages = map (\<lambda>p. snd (queue_page d st (int p) (int n) inst so asc)) [1..<Suc k]
     in mset (concat pages) = mset (queue_members d st inst so) \<and>
        sorted_wrt (listed_before d so asc) (concat pages) \<and> list_all (\<lambda>rows. length rows \<le> n) pages"
proof -
  let ?o = "queue_order d so asc (queue_members d st inst so)"
  have len: "length ?o \<le> k * n" using assms(2) queue_order_mset [of d so asc "queue_members d st inst so"]
    by (metis size_mset)
  have "concat (map (\<lambda>p. snd (queue_page d st (int p) (int n) inst so asc)) [1..<Suc k]) = ?o"
    using pages_concat [OF assms(1), of ?o k] len by (simp add: queue_page_def Let_def)
  moreover have "length (snd (queue_page d st p (int n) inst so asc)) \<le> n" for p
    by (simp add: queue_page_def sql_page_def Let_def)
  ultimately show ?thesis
    using queue_order_mset [of d so asc "queue_members d st inst so"]
      queue_order_sorted [of d so asc "queue_members d st inst so"]
    by (simp add: Let_def list_all_iff)
qed

lemma queue_pages_partition_witness:
  "let pages = map (\<lambda>p. snd (queue_page db_two_jobs Pending (int p) (int 1) None SortCreated False)) [1..<Suc 2]
     in mset (concat pages) = mset (queue_members db_two_jobs Pending None SortCreated) \<and>
        sorted_wrt (listed_before db_two_jobs SortCreated False) (concat pages) \<and> list_all (\<lambda>rows. length rows \<le> 1) pages"
  by (rule queue_pages_partition) (simp_all add: queue_members_def queue_eval joined_def)

end
