(* ===== verification/ApiSpec.thy ===== *)
theory ApiSpec
  imports Api RemediateSpec
begin

text \<open>
  The properties of the event bus, the log buffer and the identity gate. The bus and the buffer
  keep the most recent part of what they are given; that contract is a locale, interpreted on both.
\<close>

section \<open>The most recent part of a stream\<close>

lemma last_n_all: "length xs \<le> n \<Longrightarrow> last_n n xs = xs"
  by (simp add: last_n_def)

lemma length_last_n [simp]: "length (last_n n xs) = min n (length xs)"
  by (simp add: last_n_def)

lemma last_n_suffix: "suffix (last_n n xs) xs"
  by (simp add: last_n_def suffix_drop)

lemma suffix_extended: "suffix xs (ys @ [z]) \<Longrightarrow> suffix (xs @ zs) (ys @ z # zs)"
  by (auto simp: suffix_def)

lemma last_n_append: "last_n n (last_n n xs @ ys) = last_n n (xs @ ys)"
  by (cases "length xs \<le> n") (simp_all add: last_n_def add.commute)

text \<open>A store of bounded size into which items are put one by one.\<close>

locale recent_window =
  fixes put :: "'e \<Rightarrow> 'q \<Rightarrow> 'q" and items :: "'q \<Rightarrow> 'i list" and view :: "'e \<Rightarrow> 'i" and cap :: "'q \<Rightarrow> nat"
  assumes cap_put: "cap (put e q) = cap q"
    and items_put: "length (items q) \<le> cap q \<Longrightarrow> items (put e q) = last_n (cap q) (items q @ [view e])"
begin

lemma bounded: "length (items q) \<le> cap q \<Longrightarrow> length (items (put e q)) \<le> cap (put e q)"
  by (simp add: items_put cap_put)

lemma window: "length (items q) \<le> cap q \<Longrightarrow> items (fold put es q) = last_n (cap q) (items q @ map view es)"
proof (induction es arbitrary: q)
  case Nil
  then show ?case by (simp add: last_n_all)
next
  case (Cons e es)
  have "items (fold put es (put e q)) = last_n (cap q) (last_n (cap q) (items q @ [view e]) @ map view es)"
    using Cons.IH [OF bounded [OF Cons.prems, of e]] Cons.prems by (simp add: items_put cap_put)
  then show ?case by (simp add: last_n_append)
qed

end

lemma offer_window: "length q \<le> MAX_QUEUE_SIZE \<Longrightarrow> offer e q = last_n MAX_QUEUE_SIZE (q @ [e])"
  by (cases q) (auto simp: offer_def last_n_def MAX_QUEUE_SIZE_def Suc_diff_le not_less le_Suc_eq)

interpretation mailbox: recent_window offer "\<lambda>q. q" "\<lambda>e. e" "\<lambda>_. MAX_QUEUE_SIZE"
  by unfold_locales (simp_all add: offer_window)

interpretation records: recent_window emit rb_items log_item_of rb_capacity
  by unfold_locales (simp_all add: emit_def)

section \<open>The event bus\<close>

text \<open>What publishers and subscribers do to a bus, one operation at a time.\<close>

datatype bus_op = Publish event | Take nat | Join | Leave nat

fun bus_do :: "bus_op \<Rightarrow> bus \<Rightarrow> bus" where
  "bus_do (Publish e) b = bus_publish e b"
| "bus_do (Take h) b = (case bus_take h b of None \<Rightarrow> b | Some (e, b') \<Rightarrow> b')"
| "bus_do Join b = snd (subscribe b)"
| "bus_do (Leave h) b = unsubscribe h b"

text \<open>What the subscriber \<open>h\<close> gets out of a run, and what is published in it.\<close>

fun received :: "nat \<Rightarrow> bus_op list \<Rightarrow> bus \<Rightarrow> event list" where
  "received h [] b = []"
| "received h (op # ops) b =
     (case op of Take k \<Rightarrow> if k = h then (case bus_take h b of None \<Rightarrow> [] | Some (e, b') \<Rightarrow> [e]) else []
      | _ \<Rightarrow> []) @ received h ops (bus_do op b)"

fun published :: "bus_op list \<Rightarrow> event list" where
  "published [] = []"
| "published (Publish e # ops) = e # published ops"
| "published (_ # ops) = published ops"

lemma map_of_published: "map_of (bus_publish e b) h = map_option (offer e) (map_of b h)"
  by (induction b) (auto simp: bus_publish_def)

lemma map_of_take: "map_of (map (\<lambda>p. if fst p = h then (h, q) else p) b) k =
    (if k = h then map_option (\<lambda>_. q) (map_of b h) else map_of b k)"
  by (induction b) auto

lemma bus_take_Some: "bus_take h b = Some (e, b') \<longleftrightarrow>
    (\<exists>q. map_of b h = Some (e # q) \<and> b' = map (\<lambda>p. if fst p = h then (h, q) else p) b)"
  by (auto simp: bus_take_def split: option.splits list.splits)

lemma bus_take_None: "bus_take h b = None \<longleftrightarrow> map_of b h \<in> {None, Some []}"
  by (auto simp: bus_take_def split: option.splits list.splits)

lemma map_of_unsubscribe: "map_of (unsubscribe k b) h = (if h = k then None else map_of b h)"
  by (induction b) (auto simp: unsubscribe_def)

lemma subscribe_fresh: "fst (subscribe b) \<notin> fst ` set b"
proof (cases "b = []")
  case False
  then have "x \<le> Max (set (map fst b))" if "x \<in> fst ` set b" for x using that by simp
  then show ?thesis using False by (fastforce simp: subscribe_def Let_def)
qed (simp add: subscribe_def)

lemma map_of_subscribe: "map_of b h = Some q \<Longrightarrow> map_of (snd (subscribe b)) h = Some q"
  by (auto simp: subscribe_def Let_def map_add_Some_iff)

lemma offer_bounded: "length q \<le> MAX_QUEUE_SIZE \<Longrightarrow> length (offer e q) \<le> MAX_QUEUE_SIZE"
  by (simp add: offer_window)

text \<open>One operation seen by a subscriber that does not leave.\<close>

lemma queue_after:
  assumes "map_of b h = Some q" "op \<noteq> Leave h"
  shows "map_of (bus_do op b) h = Some
    (case op of Publish e \<Rightarrow> offer e q | Take k \<Rightarrow> if k = h then tl q else q | _ \<Rightarrow> q)"
proof (cases op)
  case (Take k)
  show ?thesis
  proof (cases "bus_take k b")
    case None
    then have "map_of b k \<in> {None, Some []}" using bus_take_None by blast
    with None assms Take show ?thesis by auto
  next
    case (Some eb)
    obtain e b' where eb: "eb = (e, b')" by (cases eb)
    with Some obtain r where "map_of b k = Some (e # r)" "b' = map (\<lambda>p. if fst p = k then (k, r) else p) b"
      using bus_take_Some by blast
    with Some eb assms Take show ?thesis by (auto simp: map_of_take)
  qed
qed (use assms in \<open>auto simp: map_of_published map_of_subscribe map_of_unsubscribe\<close>)

lemma received_op:
  assumes "map_of b h = Some q"
  shows "received h (op # ops) b = (if op = Take h then take 1 q else []) @ received h ops (bus_do op b)"
  using assms by (cases op; cases q) (auto simp: bus_take_def)

text \<open>From a mailbox that already holds some events.\<close>

lemma bus_delivers_from:
  assumes "list_all (\<lambda>op. op \<noteq> Leave h) ops" "map_of b h = Some q0" "length q0 \<le> MAX_QUEUE_SIZE"
  shows "\<exists>q. map_of (fold bus_do ops b) h = Some q \<and> length q \<le> MAX_QUEUE_SIZE \<and>
     suffix q (q0 @ published ops) \<and> subseq (received h ops b @ q) (q0 @ published ops) \<and>
     (length (q0 @ published ops) \<le> MAX_QUEUE_SIZE \<longrightarrow> received h ops b @ q = q0 @ published ops)"
  using assms
proof (induction ops arbitrary: b q0)
  case Nil
  then show ?case by simp
next
  case (Cons op ops)
  note rc = received_op [OF Cons.prems(2), of op ops]
  let ?q1 = "case op of Publish e \<Rightarrow> offer e q0 | Take k \<Rightarrow> if k = h then tl q0 else q0 | _ \<Rightarrow> q0"
  have op: "op \<noteq> Leave h" using Cons.prems(1) by simp
  have l1: "length ?q1 \<le> MAX_QUEUE_SIZE"
    using Cons.prems(3) by (cases op) (auto simp: offer_bounded)
  obtain q where q: "map_of (fold bus_do ops (bus_do op b)) h = Some q" "length q \<le> MAX_QUEUE_SIZE"
    "suffix q (?q1 @ published ops)" "subseq (received h ops (bus_do op b) @ q) (?q1 @ published ops)"
    "length (?q1 @ published ops) \<le> MAX_QUEUE_SIZE \<longrightarrow> received h ops (bus_do op b) @ q = ?q1 @ published ops"
    using Cons.IH [OF _ queue_after [OF Cons.prems(2) op] l1] Cons.prems(1) by auto
  show ?case
  proof (intro exI conjI)
    show "map_of (fold bus_do (op # ops) b) h = Some q" "length q \<le> MAX_QUEUE_SIZE" using q(1,2) by simp_all
    have w: "suffix (?q1 @ published ops) (q0 @ published (op # ops))" if "op \<noteq> Take h"
      using that Cons.prems(3) suffix_extended [OF last_n_suffix [of MAX_QUEUE_SIZE]]
      by (cases op) (auto simp: offer_window)
    show "suffix q (q0 @ published (op # ops))"
    proof (cases "op = Take h")
      case True
      then have "suffix (?q1 @ published ops) (q0 @ published (op # ops))" by (cases q0) (auto simp: suffix_ConsI)
      with q(3) show ?thesis by (rule suffix_order.trans)
    qed (use q(3) w suffix_order.trans in blast)
    show "subseq (received h (op # ops) b @ q) (q0 @ published (op # ops))"
    proof (cases "op = Take h")
      case True
      with q(4) rc show ?thesis by (cases q0) auto
    next
      case False
      with subseq_order.trans [OF q(4) suffix_imp_subseq [OF w [OF False]]] rc show ?thesis by simp
    qed
    show "length (q0 @ published (op # ops)) \<le> MAX_QUEUE_SIZE \<longrightarrow>
        received h (op # ops) b @ q = q0 @ published (op # ops)"
      using q(5) rc by (cases op; cases q0) (auto simp: offer_def)
  qed
qed



section \<open>The log buffer\<close>

text \<open>The log query is exact: after any records were emitted into an empty buffer, it returns, oldest
  first, the last \<open>limit\<close> of those of the requested level or above among the last \<open>capacity\<close>
  records, and none for a limit that is not positive.\<close>

theorem get_logs_exact:
  "get_logs (fold emit rs \<lparr>rb_capacity = n, rb_items = []\<rparr>) level limit =
     last_n (nat limit)
       (filter (\<lambda>l. case level of None \<Rightarrow> True | Some v \<Rightarrow> level_order (li_level l) \<ge> level_order (str_upper v))
          (last_n n (map log_item_of rs)))"
  using records.window [of "\<lparr>rb_capacity = n, rb_items = []\<rparr>" rs]
  by (auto simp: get_logs_def last_n_def split: option.splits)

section \<open>Identity and groups\<close>

lemma strip_idem_filter: "list_all (\<lambda>g. g \<noteq> [] \<and> str_strip g = g) gs \<Longrightarrow>
    map str_strip (filter (\<lambda>g. str_strip g \<noteq> []) gs) = gs"
  by (induction gs) auto

lemma groups_of_join:
  assumes "list_all (\<lambda>g. g \<noteq> [] \<and> str_strip g = g \<and> CHR '','' \<notin> set g) gs" "gs \<noteq> []"
  shows "groups_of (Some (join '','' gs)) = gs"
  using assms strip_idem_filter [of gs] split_on_join [of gs "CHR '',''"]
  by (auto simp: groups_of_def Let_def list_all_iff)

text \<open>The gate and the attribution are exact: with a group header and a required group configured, a
  request whose header lists the groups \<open>gs\<close> is answered 403 exactly when it is not the health check and
  the required group is not among them, and is otherwise handed on under the identity of the trusted
  header, else of the first entry with its API key, else \<open>anon\<close>.\<close>

theorem group_gate_exact:
  assumes "au_group_header au = Some h" "h \<noteq> []" "au_required_group au = Some g" "g \<noteq> []"
    and "header rq h = Some (join '','' gs)" "gs \<noteq> []"
    and "list_all (\<lambda>g. g \<noteq> [] \<and> str_strip g = g \<and> CHR '','' \<notin> set g) gs"
  shows "snd (auth_dispatch au rq call_next) =
     (if aq_path rq \<noteq> HEALTHZ_PATH \<and> g \<notin> set gs then Inl (HTTPException 403)
      else call_next
        (case au_trusted_header au of
           None \<Rightarrow> key_identity rq au
         | Some t \<Rightarrow>
             if t = [] then key_identity rq au
             else (case header rq t of None \<Rightarrow> key_identity rq au | Some v \<Rightarrow> if v = [] then key_identity rq au else v)))"
proof -
  have "group_missing rq au \<longleftrightarrow> aq_path rq \<noteq> HEALTHZ_PATH \<and> g \<notin> set gs"
    using assms groups_of_join [OF assms(7,6)] by (simp add: group_missing_def text_given_def)
  moreover have "resolve_identity rq au = (case au_trusted_header au of
           None \<Rightarrow> key_identity rq au
         | Some t \<Rightarrow> if t = [] then key_identity rq au
             else (case header rq t of None \<Rightarrow> key_identity rq au | Some v \<Rightarrow> if v = [] then key_identity rq au else v))"
    by (auto simp: resolve_identity_def text_given_def split: option.splits)
  ultimately show ?thesis by (simp add: auth_dispatch_def Let_def)
qed

lemma group_gate_exact_witness:
  "snd (auth_dispatch \<lparr>au_trusted_header = Some ''x-user'', au_group_header = Some ''x-groups'',
         au_required_group = Some ''ops'', au_api_keys = []\<rparr>
       \<lparr>aq_method = ''GET'', aq_path = ''/api/v1/status'', aq_headers = [(''x-user'', ''ann''), (''x-groups'', ''dev,ops'')]\<rparr>
       (\<lambda>i. Inr i)) = Inr ''ann''"
proof -
  have h: "header \<lparr>aq_method = ''GET'', aq_path = ''/api/v1/status'', aq_headers = [(''x-user'', ''ann''), (''x-groups'', ''dev,ops'')]\<rparr> ''x-groups'' =
     Some (join '','' [''dev'', ''ops''])" by code_simp
  have t: "header \<lparr>aq_method = ''GET'', aq_path = ''/api/v1/status'', aq_headers = [(''x-user'', ''ann''), (''x-groups'', ''dev,ops'')]\<rparr> ''x-user'' =
     Some ''ann''" by code_simp
  have g: "list_all (\<lambda>g. g \<noteq> [] \<and> str_strip g = g \<and> CHR '','' \<notin> set g) [''dev'', ''ops'']" by code_simp
  show ?thesis
    by (subst group_gate_exact [OF _ _ _ _ h _ g, where g = "''ops''"]) (simp_all add: t)
qed

end
