(* ===== verification/SubtitleSpec.thy ===== *)
theory SubtitleSpec
  imports Subtitles ThrottleSpec DiscoverySteps
begin

text \<open>
  The subtitle parser reads back what an SRT writer writes: blocks of a counter, a time line and
  the lines of the cue, with a blank line between blocks.
\<close>

section \<open>A writer\<close>

record srt_cue =
  sc_start :: "nat \<times> nat \<times> nat \<times> nat"
  sc_end :: string
  sc_lines :: "string list"

definition padded :: "nat \<Rightarrow> nat \<Rightarrow> string" where
  "padded k n = replicate (k - length (show_nat n)) (CHR ''0'') @ show_nat n"

definition stamp :: "nat \<times> nat \<times> nat \<times> nat \<Rightarrow> string" where
  "stamp t = (case t of (h, m, s, ms) \<Rightarrow>
     padded 2 h @ '':'' @ padded 2 m @ '':'' @ padded 2 s @ '','' @ padded 3 ms)"

definition time_line :: "srt_cue \<Rightarrow> string" where
  "time_line c = stamp (sc_start c) @ '' --> '' @ sc_end c"

definition block_lines :: "nat \<times> srt_cue \<Rightarrow> string list" where
  "block_lines nc = [show_nat (fst nc), time_line (snd nc)] @ sc_lines (snd nc)"

definition srt_text :: "(nat \<times> srt_cue) list \<Rightarrow> string" where
  "srt_text cs = join [CHR 0x0A, CHR 0x0A] (map (\<lambda>c. join [CHR 0x0A] (block_lines c)) cs)"

text \<open>A line of text: it begins and ends with something visible and holds no line boundary.\<close>

definition text_line :: "string \<Rightarrow> bool" where
  "text_line l \<longleftrightarrow> l \<noteq> [] \<and> \<not> is_space (hd l) \<and> \<not> is_space (last l) \<and> list_all (\<lambda>c. \<not> is_break c) l"

definition good_cue :: "srt_cue \<Rightarrow> bool" where
  "good_cue c \<longleftrightarrow>
     (case sc_start c of (h, m, s, ms) \<Rightarrow> m < 100 \<and> s < 100 \<and> ms < 1000) \<and>
     text_line (sc_end c) \<and> sc_lines c \<noteq> [] \<and> list_all text_line (sc_lines c)"

definition seconds :: "nat \<times> nat \<times> nat \<times> nat \<Rightarrow> real" where
  "seconds t = (case t of (h, m, s, ms) \<Rightarrow> of_nat (h * 3600 + m * 60 + s) + of_nat ms / 1000)"

section \<open>Lines\<close>

lemma break_newline: "\<not> is_break c \<Longrightarrow> c \<noteq> CHR 0x0A \<and> c \<noteq> CHR 0x0D"
  by (auto simp: is_break_def)

lemma digit_plain: "is_digit c \<Longrightarrow> \<not> is_space c \<and> \<not> is_break c"
  by (auto simp: is_digit_def is_space_def is_break_def)

lemma text_line_no_newline: "text_line l \<Longrightarrow> CHR 0x0A \<notin> set l"
  using break_newline by (auto simp: text_line_def list_all_iff)

lemma dropWhile_stop: "xs \<noteq> [] \<Longrightarrow> \<not> P (hd xs) \<Longrightarrow> dropWhile P xs = xs"
  by (cases xs) auto

lemma str_strip_plain: "s \<noteq> [] \<Longrightarrow> \<not> is_space (hd s) \<Longrightarrow> \<not> is_space (last s) \<Longrightarrow> str_strip s = s"
  by (simp add: str_strip_def dropWhile_stop hd_rev)

lemma text_line_strip: "text_line l \<Longrightarrow> str_strip l = l"
  by (simp add: text_line_def str_strip_plain)

lemma text_line_append: "text_line a \<Longrightarrow> text_line b \<Longrightarrow> list_all (\<lambda>c. \<not> is_break c) m \<Longrightarrow> text_line (a @ m @ b)"
  by (auto simp: text_line_def list_all_iff)

lemma text_line_digits: "ds \<noteq> [] \<Longrightarrow> list_all is_digit ds \<Longrightarrow> text_line ds"
  using digit_plain by (auto simp: text_line_def list_all_iff)

lemma padded_digits: "list_all is_digit (padded k n)" "padded k n \<noteq> []"
  using show_nat_digits [of n] show_nat_nonempty [of n] by (auto simp: padded_def list_all_iff is_digit_def)

lemma padded_length: "n < 10 ^ k \<Longrightarrow> 0 < k \<Longrightarrow> length (padded k n) = k"
proof -
  have "length (show_nat n) \<le> k" if "n < 10 ^ k" "0 < k" for n k
    using that
  proof (induction n arbitrary: k rule: show_nat.induct)
    case (1 n)
    show ?case
    proof (cases "n < 10")
      case False
      then obtain j where k: "k = Suc j" "0 < j" using "1.prems" by (cases k; cases "k - 1") auto
      with "1.prems" have "n div 10 < 10 ^ j" by (simp add: div_less_iff_less_mult mult.commute)
      from "1.IH" [OF False this k(2)] k show ?thesis using False by (simp add: show_nat.simps [of n])
    qed (use "1.prems" in \<open>simp add: show_nat.simps [of n]\<close>)
  qed
  then show "n < 10 ^ k \<Longrightarrow> 0 < k \<Longrightarrow> length (padded k n) = k" by (simp add: padded_def)
qed

lemma padded_read: "read_nat (padded k n) = n"
  by (simp add: padded_def read_zeros read_show_nat)

lemma colon_plain: "\<not> is_break (CHR '':'')" "\<not> is_break (CHR '','')" "\<not> is_break (CHR '' '')"
  "\<not> is_break (CHR ''-'')" "\<not> is_break (CHR ''>'')" "\<not> is_digit (CHR '':'')"
  by (simp_all add: is_break_def is_digit_def)

lemma stamp_line: "text_line (stamp t)"
proof -
  obtain h m s ms where t: "t = (h, m, s, ms)" by (cases t)
  note p = text_line_digits [OF padded_digits(2,1)]
  have "text_line (padded 2 h @ '':'' @ padded 2 m @ '':'' @ padded 2 s @ '','' @ padded 3 ms)"
    by (intro text_line_append p) (simp_all add: colon_plain)
  with t show ?thesis by (simp add: stamp_def)
qed

lemma block_line_text: "good_cue (snd c) \<Longrightarrow> list_all text_line (block_lines c)"
  using text_line_append [OF stamp_line, of "sc_end (snd c)" "'' --> ''"]
    text_line_digits [OF show_nat_nonempty show_nat_digits]
  by (simp add: good_cue_def block_lines_def time_line_def colon_plain)

section \<open>Blocks\<close>

definition onto_first :: "'a list \<Rightarrow> 'a list list \<Rightarrow> 'a list list" where
  "onto_first x bs = (case bs of [] \<Rightarrow> [x] | b # bs \<Rightarrow> (x @ b) # bs)"

lemma onto_first_onto [simp]: "onto_first x (onto_first y bs) = onto_first (x @ y) bs"
  by (simp add: onto_first_def split: list.split)

lemma split_blocks_char: "c \<noteq> CHR 0x0A \<Longrightarrow> split_blocks (c # s) = onto_first [c] (split_blocks s)"
  by (simp add: split_blocks.simps(2) onto_first_def split: list.split)

lemma split_blocks_plain: "CHR 0x0A \<notin> set x \<Longrightarrow> split_blocks (x @ s) = (if x = [] then split_blocks s else onto_first x (split_blocks s))"
  by (induction x) (auto simp: split_blocks_char)

lemma split_blocks_newline: "\<not> is_space c \<Longrightarrow> split_blocks (CHR 0x0A # c # s) = onto_first [CHR 0x0A] (split_blocks (c # s))"
  by (simp add: split_blocks.simps(2) [of "CHR 0x0A"] separator_end_def onto_first_def split: list.split)

lemma newline_space: "is_space (CHR 0x0A)"
  by (simp add: is_space_def)

lemma split_blocks_separator: "\<not> is_space c \<Longrightarrow> split_blocks (CHR 0x0A # CHR 0x0A # c # s) = [] # split_blocks (c # s)"
  by (simp add: split_blocks.simps(2) [of "CHR 0x0A"] separator_end_def newline_space)

lemma split_blocks_lines:
  assumes "list_all text_line ls" "ls \<noteq> []"
  shows "split_blocks (join [CHR 0x0A] ls @ s) = onto_first (join [CHR 0x0A] ls) (split_blocks s)"
  using assms
proof (induction "[CHR 0x0A]" ls rule: join.induct)
  case (2 l)
  then show ?case using text_line_no_newline [of l] by (simp add: split_blocks_plain text_line_def)
next
  case (3 l k ls)
  let ?r = "join [CHR 0x0A] (k # ls)"
  have k: "text_line k" "text_line l" using 3 by simp_all
  obtain c r where r: "?r @ s = c # r" "\<not> is_space c"
    using k(1) by (cases k; cases ls) (auto simp: text_line_def)
  have "split_blocks (join [CHR 0x0A] (l # k # ls) @ s) = onto_first (l @ [CHR 0x0A]) (split_blocks (?r @ s))"
    using k(2) text_line_no_newline [of l] split_blocks_newline [OF r(2), of r] r(1)
    by (simp add: split_blocks_plain text_line_def)
  with 3 show ?case by simp
qed simp

lemma join_head: "text_line l \<Longrightarrow> \<exists>c r. join sep (l # ls) = c # r \<and> \<not> is_space c"
  by (cases l; cases ls) (auto simp: text_line_def)

definition good_block :: "string list \<Rightarrow> bool" where
  "good_block ls \<longleftrightarrow> ls \<noteq> [] \<and> list_all text_line ls"

lemma block_head: "good_block ls \<Longrightarrow> \<exists>c r. join [CHR 0x0A] ls = c # r \<and> \<not> is_space c"
  using join_head by (cases ls) (auto simp: good_block_def)

lemma split_blocks_join:
  "list_all good_block bs \<Longrightarrow> bs \<noteq> [] \<Longrightarrow>
     split_blocks (join [CHR 0x0A, CHR 0x0A] (map (join [CHR 0x0A]) bs)) = map (join [CHR 0x0A]) bs"
proof (induction bs rule: induct_list012)
  case (2 b)
  then show ?case using split_blocks_lines [of b "[]"] by (simp add: good_block_def onto_first_def)
next
  case (3 b b' bs)
  let ?r = "join [CHR 0x0A, CHR 0x0A] (map (join [CHR 0x0A]) (b' # bs))"
  obtain c r where "?r = c # r" "\<not> is_space c"
    using block_head [of b'] 3(3) by (cases bs) auto
  with split_blocks_separator [of c r] have "split_blocks (CHR 0x0A # CHR 0x0A # ?r) = [] # split_blocks ?r" by simp
  moreover have "split_blocks (join [CHR 0x0A] b @ CHR 0x0A # CHR 0x0A # ?r) =
      onto_first (join [CHR 0x0A] b) (split_blocks (CHR 0x0A # CHR 0x0A # ?r))"
    by (rule split_blocks_lines) (use 3 in \<open>simp_all add: good_block_def\<close>)
  ultimately show ?case using 3 by (simp add: onto_first_def)
qed simp

text \<open>The text as a whole has nothing to strip.\<close>

lemma join_last: "text_line (last ls) \<Longrightarrow> ls \<noteq> [] \<Longrightarrow> join sep ls \<noteq> [] \<and> \<not> is_space (last (join sep ls))"
  by (induction sep ls rule: join.induct) (auto simp: text_line_def)

lemma blocks_ends:
  assumes "list_all good_block bs" "bs \<noteq> []"
  defines "s \<equiv> join [CHR 0x0A, CHR 0x0A] (map (join [CHR 0x0A]) bs)"
  shows "s \<noteq> [] \<and> \<not> is_space (hd s) \<and> \<not> is_space (last s)"
  using assms(1,2) unfolding s_def
proof (induction bs rule: induct_list012)
  case (2 b)
  have "text_line (last b)" "b \<noteq> []" using 2 by (auto simp: good_block_def list_all_iff)
  with block_head [of b] join_last [of b "[CHR 0x0A]"] 2 show ?case by auto
next
  case (3 b b' bs)
  then show ?case using block_head [of b] by auto
qed simp

section \<open>Cues\<close>

lemma takeWhile_line: "list_all (\<lambda>c. \<not> is_break c) l \<Longrightarrow> takeWhile (\<lambda>c. \<not> is_break c) (l @ CHR 0x0A # s) = l"
  "list_all (\<lambda>c. \<not> is_break c) l \<Longrightarrow> dropWhile (\<lambda>c. \<not> is_break c) (l @ CHR 0x0A # s) = CHR 0x0A # s"
  "list_all (\<lambda>c. \<not> is_break c) l \<Longrightarrow> takeWhile (\<lambda>c. \<not> is_break c) l = l"
  "list_all (\<lambda>c. \<not> is_break c) l \<Longrightarrow> dropWhile (\<lambda>c. \<not> is_break c) l = []"
  by (simp_all add: takeWhile_append dropWhile_append list_all_iff is_break_def takeWhile_eq_all_conv)

lemma splitlines_join: "list_all text_line ls \<Longrightarrow> str_splitlines (join [CHR 0x0A] ls) = ls"
proof (induction "[CHR 0x0A]" ls rule: join.induct)
  case 1
  show ?case by (simp add: str_splitlines.simps)
next
  case (2 l)
  then show ?case
    by (simp add: str_splitlines.simps [of l] takeWhile_line text_line_def) (simp add: str_splitlines.simps)
next
  case (3 l k ls)
  then show ?case
    by (simp add: str_splitlines.simps [of "l @ CHR 0x0A # join [CHR 0x0A] (k # ls)"] takeWhile_line text_line_def)
qed

lemma sublist_chars: "sublist xs ys \<Longrightarrow> set xs \<subseteq> set ys"
  by (auto simp: sublist_def)

lemma arrow_second:
  "good_cue (snd c) \<Longrightarrow> arrow_index (block_lines c) = Some 1"
proof -
  have "\<not> is_digit (CHR ''-'')" by (simp add: is_digit_def)
  then have "CHR ''-'' \<notin> set (show_nat (fst c))" by (rule show_nat_no_char)
  then have "\<not> sublist ''-->'' (show_nat (fst c))" using sublist_chars by fastforce
  moreover have "sublist ''-->'' (time_line (snd c))"
    unfolding time_line_def sublist_def
    by (rule exI [of _ "stamp (sc_start (snd c)) @ '' ''"], rule exI [of _ "'' '' @ sc_end (snd c)"]) simp
  ultimately show ?thesis by (simp add: arrow_index_def block_lines_def)
qed

lemma digits_at_padded: "length (padded k n) = j \<Longrightarrow> digits_at j (padded k n @ s) = Some (int n, s)"
  using padded_digits(1) [of k n] by (auto simp: digits_at_def padded_read)

lemma stamp_read:
  assumes "case t of (h, m, s, ms) \<Rightarrow> m < 100 \<and> s < 100 \<and> ms < 1000"
  shows "parse_timestamp_s (stamp t @ r) = Some (seconds t)"
proof -
  obtain h m s ms where t: "t = (h, m, s, ms)" by (cases t)
  have w: "takeWhile is_digit (padded 2 h @ CHR '':'' # x) = padded 2 h" for x
    using padded_digits(1) [of 2 h] by (simp add: takeWhile_append list_all_iff colon_plain)
  have l: "length (padded 2 m) = 2" "length (padded 2 s) = 2" "length (padded 3 ms) = 3"
    using assms t by (simp_all add: padded_length)
  have "timestamp_at (stamp t @ r) = Some (int h, int m, int s, int ms)"
    using t w padded_digits(2) by (simp add: stamp_def timestamp_at_def Let_def digits_at_padded l char_at_def)
  moreover obtain c u where "stamp t @ r = c # u" using stamp_line [of t] by (cases "stamp t") (auto simp: text_line_def)
  ultimately show ?thesis using t by (simp add: parse_timestamp_s_def seconds_def)
qed

lemma join_nonempty: "text_line l \<Longrightarrow> join sep (l # ls) \<noteq> []"
  by (cases ls) (auto simp: text_line_def)

lemma cue_of_block_read:
  assumes "good_cue (snd c)"
  shows "cue_of_block (join [CHR 0x0A] (block_lines c)) = Some (Some (seconds (sc_start (snd c))), join '' '' (sc_lines (snd c)))"
proof -
  have ls: "list_all text_line (sc_lines (snd c))" "sc_lines (snd c) \<noteq> []" using assms by (simp_all add: good_cue_def)
  then have "filter (\<lambda>l. l \<noteq> []) (map str_strip (sc_lines (snd c))) = sc_lines (snd c)"
    by (induction "sc_lines (snd c)" rule: list.induct) (auto simp: list_all_iff text_line_strip text_line_def intro!: filter_True map_idI)
  moreover have "join '' '' (sc_lines (snd c)) \<noteq> []" using ls join_nonempty by (cases "sc_lines (snd c)") auto
  moreover have "parse_timestamp_s (block_lines c ! 1) = Some (seconds (sc_start (snd c)))"
    using assms stamp_read [of "sc_start (snd c)"] by (simp add: block_lines_def time_line_def good_cue_def)
  ultimately show ?thesis
    using splitlines_join [OF block_line_text [OF assms]] arrow_second [OF assms]
    by (simp add: cue_of_block_def Let_def block_lines_def)
qed

text \<open>C38: Subtitles are read back: the parser applied to the SRT text of any cues (any counters, a start
  below 100 minutes, seconds and 1000 milliseconds in its fields, visible text lines) returns exactly
  those cues, in order, each with its start in seconds and its lines joined by spaces.\<close>

theorem srt_round_trip:
  assumes "list_all (\<lambda>c. good_cue (snd c)) cs"
  shows "iter_cues (srt_text cs) =
     map (\<lambda>c. (Some (seconds (sc_start (snd c))), join '' '' (sc_lines (snd c)))) cs"
proof (cases "cs = []")
  case True
  then show ?thesis by (simp add: iter_cues_def srt_text_def str_strip_def cue_of_block_def arrow_index_def str_splitlines.simps)
next
  case False
  have g: "list_all good_block (map block_lines cs)" "map block_lines cs \<noteq> []"
    using assms False block_line_text by (auto simp: good_block_def list_all_iff block_lines_def)
  have t: "srt_text cs = join [CHR 0x0A, CHR 0x0A] (map (join [CHR 0x0A]) (map block_lines cs))"
    by (simp add: srt_text_def comp_def)
  have s: "str_strip (srt_text cs) = srt_text cs"
    using blocks_ends [OF g] str_strip_plain [of "srt_text cs"] unfolding t by blast
  have b: "split_blocks (srt_text cs) = map (join [CHR 0x0A]) (map block_lines cs)"
    unfolding t by (rule split_blocks_join [OF g])
  have "List.map_filter cue_of_block (map (join [CHR 0x0A]) (map block_lines cs)) =
     map (\<lambda>c. (Some (seconds (sc_start (snd c))), join '' '' (sc_lines (snd c)))) cs"
    using assms by (induction cs) (simp_all add: cue_of_block_read)
  then show ?thesis by (simp add: iter_cues_def s b)
qed

lemma srt_round_trip_witness:
  "iter_cues (srt_text [(1, \<lparr>sc_start = (0, 1, 2, 500), sc_end = ''00:01:04,000'', sc_lines = [''Hello'', ''there.'']\<rparr>)]) =
     [(Some (seconds (0, 1, 2, 500)), ''Hello there.'')]"
proof -
  have g: "good_cue \<lparr>sc_start = (0, 1, 2, 500), sc_end = ''00:01:04,000'', sc_lines = [''Hello'', ''there.'']\<rparr>" by code_simp
  have j: "join '' '' [''Hello'', ''there.''] = ''Hello there.''" by code_simp
  show ?thesis
    using srt_round_trip [of "[(1, \<lparr>sc_start = (0, 1, 2, 500), sc_end = ''00:01:04,000'', sc_lines = [''Hello'', ''there.'']\<rparr>)]"] g j
    by simp
qed

end
