(* ===== verification/RefSubs.thy ===== *)
theory RefSubs
  imports World Config JsonText SonarrClient
begin

text \<open>
  \<open>impostarr/refsubs.py\<close>: reference subtitles from the manual directory, the cache, or
  OpenSubtitles, with a daily quota, one login at a time, and paced requests. The service has a
  world of its own: its files as texts, its token, the time of its last request.
\<close>

section \<open>The service's world\<close>

record sub_request =
  sr_method :: http_method
  sr_url :: string
  sr_params :: "(string \<times> json) list"
  sr_body :: "json option"
  sr_token :: "json option"

text \<open>An answer (status, body if it is JSON, bytes), an \<open>httpx.HTTPError\<close>, or any other exception.\<close>

datatype sub_result = SubResponse int "json option" string | SubHttpError | SubRaises exn

datatype disk_op = DMkdir string | DWrite string | DTemp string | DReplace string string

datatype sub_event = SubHttp sub_request | SubSleep real | SubDisk disk_op

type_synonym disk = "string \<Rightarrow> string option"

record subworld =
  sw_disk :: disk
  sw_token :: "json option"
  sw_last :: "real option"
  sw_trace :: "sub_event list"

text \<open>
  The environment: the peer, the loop's clock, the date, what concurrent calls do to files and
  token while this one awaits and to the time of the last request while it waits for the pacing
  lock, the failures of file operations, the names of temporary files, \<open>json.loads\<close>, and a float's text.
\<close>

record sub_env =
  se_http :: "sub_event list \<Rightarrow> sub_request \<Rightarrow> sub_result"
  se_time :: "sub_event list \<Rightarrow> real"
  se_today :: "sub_event list \<Rightarrow> string"
  se_shared :: "sub_event list \<Rightarrow> disk \<times> json option \<Rightarrow> disk \<times> json option"
  se_waited :: "sub_event list \<Rightarrow> real option \<Rightarrow> real option"
  se_fault :: "sub_event list \<Rightarrow> disk_op \<Rightarrow> exn option"
  se_temp :: "sub_event list \<Rightarrow> string \<Rightarrow> string"
  se_loads :: "string \<Rightarrow> json res"
  se_float :: "real \<Rightarrow> string"

type_synonym 'a sub = "subworld \<Rightarrow> 'a res \<times> subworld"

definition sub_then :: "'a sub \<Rightarrow> ('a \<Rightarrow> 'b sub) \<Rightarrow> 'b sub" where
  "sub_then m f w = (case m w of (Inl e, w1) \<Rightarrow> (Inl e, w1) | (Inr x, w1) \<Rightarrow> f x w1)"

definition sub_ret :: "'a res \<Rightarrow> 'a sub" where
  "sub_ret r w = (r, w)"

text \<open>An await: the event, then the others.\<close>

definition sub_await :: "sub_env \<Rightarrow> sub_event \<Rightarrow> subworld \<Rightarrow> subworld" where
  "sub_await env ev w =
     (let tr = sw_trace w @ [ev]; (d, t) = se_shared env tr (sw_disk w, sw_token w)
      in w\<lparr>sw_trace := tr, sw_disk := d, sw_token := t\<rparr>)"

fun disk_apply :: "disk_op \<Rightarrow> string \<Rightarrow> disk \<Rightarrow> disk" where
  "disk_apply (DMkdir p) s d = d"
| "disk_apply (DWrite p) s d = d(p := Some s)"
| "disk_apply (DTemp p) s d = d(p := Some [])"
| "disk_apply (DReplace a b) s d = (d(b := d a))(a := None)"

definition disk_call :: "sub_env \<Rightarrow> disk_op \<Rightarrow> string \<Rightarrow> unit sub" where
  "disk_call env op text w =
     (case se_fault env (sw_trace w) op of
        Some e \<Rightarrow> (Inl e, w\<lparr>sw_trace := sw_trace w @ [SubDisk op]\<rparr>)
      | None \<Rightarrow>
          (Inr (), w\<lparr>sw_trace := sw_trace w @ [SubDisk op], sw_disk := disk_apply op text (sw_disk w)\<rparr>))"

section \<open>Names and languages\<close>

definition OPENSUBTITLES_BASE_URL :: string where
  "OPENSUBTITLES_BASE_URL = ''https://api.opensubtitles.com/api/v1''"

type_synonym ext_ids = "(string \<times> ext_id) list"

fun ext_text :: "ext_id \<Rightarrow> string" where
  "ext_text (IdInt i) = show_int i"
| "ext_text (IdStr s) = s"

fun ext_json :: "ext_id \<Rightarrow> json" where
  "ext_json (IdInt i) = JInt i"
| "ext_json (IdStr s) = JStr s"

definition ext_given :: "ext_id option \<Rightarrow> bool" where
  "ext_given x \<longleftrightarrow> x \<noteq> None \<and> x \<noteq> Some (IdInt 0) \<and> x \<noteq> Some (IdStr [])"

definition lang_given :: "string option \<Rightarrow> bool" where
  "lang_given l \<longleftrightarrow> l \<noteq> None \<and> l \<noteq> Some []"

definition add_language :: "string \<Rightarrow> string list \<Rightarrow> string list" where
  "add_language l ordered = (if l \<in> set ordered then ordered else ordered @ [l])"

definition language_order :: "refsubs_config \<Rightarrow> string option \<Rightarrow> string list" where
  "language_order cfg language =
     fold add_language (rc_languages cfg) (if lang_given language then [the language] else [])"

definition srt_name :: "int \<Rightarrow> int \<Rightarrow> string option \<Rightarrow> string" where
  "srt_name season episode language =
     ''S'' @ show_int02 season @ ''E'' @ show_int02 episode @
     (if lang_given language then ''.'' @ the language @ ''.srt'' else ''.srt'')"

definition dir_given :: "string option \<Rightarrow> bool" where
  "dir_given p \<longleftrightarrow> p \<noteq> None \<and> p \<noteq> Some []"

definition sub_path :: "string \<Rightarrow> ext_id \<Rightarrow> string \<Rightarrow> string" where
  "sub_path dir tvdb name = path_str (path_div (path_div (mk_path dir) (ext_text tvdb)) name)"

definition manual_path :: "refsubs_config \<Rightarrow> disk \<Rightarrow> ext_id \<Rightarrow> int \<Rightarrow> int \<Rightarrow> string list \<Rightarrow> string option" where
  "manual_path cfg d tvdb season episode langs =
     (if \<not> dir_given (rc_manual_dir cfg) then None
      else find (\<lambda>p. d p \<noteq> None)
        (map (\<lambda>l. sub_path (the (rc_manual_dir cfg)) tvdb (srt_name season episode (Some l))) langs @
         [sub_path (the (rc_manual_dir cfg)) tvdb (srt_name season episode None)]))"

section \<open>The daily quota\<close>

definition quota_path :: "string \<Rightarrow> string" where
  "quota_path cache_dir = path_str (path_div (mk_path cache_dir) ''quota.json'')"

definition quota_json :: "string \<Rightarrow> json \<Rightarrow> (string \<times> json) list" where
  "quota_json today n = [(''date'', JStr today), (''count'', n)]"

text \<open>The stored object, if it is today's; an unreadable file counts as none.\<close>

definition load_quota :: "sub_env \<Rightarrow> string \<Rightarrow> subworld \<Rightarrow> (string \<times> json) list res" where
  "load_quota env cache_dir w =
     (let today = se_today env (sw_trace w);
          stored = (case sw_disk w (quota_path cache_dir) of
                      None \<Rightarrow> JObj []
                    | Some text \<Rightarrow> (case se_loads env text of Inl e \<Rightarrow> JObj [] | Inr j \<Rightarrow> j))
      in case stored of
           JObj kvs \<Rightarrow>
             Inr (if map_of kvs ''date'' = Some (JStr today) then kvs else quota_json today (JInt 0))
         | _ \<Rightarrow> Inl AttributeError)"

definition quota_text :: "sub_env \<Rightarrow> (string \<times> json) list \<Rightarrow> string" where
  "quota_text env kvs =
     ''{'' @ join '', '' (map (\<lambda>(k, v). json_string k @ '': '' @ json_dumps (se_float env) v) kvs) @ ''}''"

definition write_quota :: "sub_env \<Rightarrow> string \<Rightarrow> (string \<times> json) list \<Rightarrow> unit sub" where
  "write_quota env cache_dir kvs =
     (let p = quota_path cache_dir
      in sub_then (disk_call env (DMkdir (path_str (path_parent (mk_path p)))) [])
           (\<lambda>_. disk_call env (DWrite p) (quota_text env kvs)))"

text \<open>\<open>data["count"]\<close>, a number of any kind; Python adds to and compares them alike.\<close>

fun json_number :: "json \<Rightarrow> real res" where
  "json_number (JInt i) = Inr (of_int i)"
| "json_number (JFloat x) = Inr x"
| "json_number (JBool b) = Inr (if b then 1 else 0)"
| "json_number _ = Inl TypeError"

definition count_add :: "int \<Rightarrow> json \<Rightarrow> json res" where
  "count_add k n =
     (case n of
        JFloat x \<Rightarrow> Inr (JFloat (x + of_int k))
      | JInt i \<Rightarrow> Inr (JInt (i + k))
      | JBool b \<Rightarrow> Inr (JInt ((if b then 1 else 0) + k))
      | _ \<Rightarrow> Inl TypeError)"

definition quota_count :: "(string \<times> json) list \<Rightarrow> json res" where
  "quota_count kvs = (case map_of kvs ''count'' of None \<Rightarrow> Inl KeyError | Some n \<Rightarrow> Inr n)"

definition reserve_quota :: "sub_env \<Rightarrow> refsubs_config \<Rightarrow> string \<Rightarrow> bool sub" where
  "reserve_quota env cfg cache_dir =
     sub_then (\<lambda>w. (load_quota env cache_dir w, w)) (\<lambda>kvs.
     sub_then (sub_ret (quota_count kvs)) (\<lambda>n.
     sub_then (sub_ret (json_number n)) (\<lambda>x.
       if x \<ge> of_int (rc_daily_quota cfg) then sub_ret (Inr False)
       else
         sub_then (sub_ret (count_add 1 n)) (\<lambda>m.
         sub_then (write_quota env cache_dir (AList.update ''count'' m kvs)) (\<lambda>_. sub_ret (Inr True))))))"

text \<open>\<open>max(0, n)\<close>.\<close>

definition not_negative :: "json \<Rightarrow> json" where
  "not_negative n = (case json_number n of Inr x \<Rightarrow> if x > 0 then n else JInt 0 | Inl e \<Rightarrow> n)"

definition release_quota :: "sub_env \<Rightarrow> string \<Rightarrow> unit sub" where
  "release_quota env cache_dir =
     sub_then (\<lambda>w. (load_quota env cache_dir w, w)) (\<lambda>kvs.
     sub_then (sub_ret (quota_count kvs)) (\<lambda>n.
     sub_then (sub_ret (count_add (- 1) n)) (\<lambda>m.
       write_quota env cache_dir (AList.update ''count'' (not_negative m) kvs))))"

definition quota_status :: "sub_env \<Rightarrow> refsubs_config \<Rightarrow> subworld \<Rightarrow> json option res" where
  "quota_status env cfg w =
     (if \<not> dir_given (rc_cache_dir cfg) then Inr None
      else res_map (\<lambda>kvs. Some (JObj
          [(''used'', case map_of kvs ''count'' of None \<Rightarrow> JInt 0 | Some n \<Rightarrow> n), (''limit'', JInt (rc_daily_quota cfg))]))
        (load_quota env (the (rc_cache_dir cfg)) w))"

section \<open>Requests\<close>

text \<open>Waiting for the pacing lock, the gap since the last request, then the request.\<close>

definition paced_request :: "sub_env \<Rightarrow> refsubs_config \<Rightarrow> sub_request \<Rightarrow> subworld \<Rightarrow> sub_result \<times> subworld" where
  "paced_request env cfg rq w =
     (let (d, t) = se_shared env (sw_trace w) (sw_disk w, sw_token w);
          w0 = w\<lparr>sw_disk := d, sw_token := t, sw_last := se_waited env (sw_trace w) (sw_last w)\<rparr>;
          wait = (case sw_last w0 of None \<Rightarrow> 0
                  | Some l \<Rightarrow> rc_min_request_interval cfg - (se_time env (sw_trace w0) - l));
          w1 = (if wait > 0 then sub_await env (SubSleep wait) w0 else w0);
          w2 = w1\<lparr>sw_last := Some (se_time env (sw_trace w1))\<rparr>
      in (se_http env (sw_trace w2 @ [SubHttp rq]) rq, sub_await env (SubHttp rq) w2))"

text \<open>\<open>response.json()\<close> of a body that is not JSON raises.\<close>

definition body_json :: "json option \<Rightarrow> json res" where
  "body_json b = (case b of None \<Rightarrow> Inl ValueError | Some j \<Rightarrow> Inr j)"

definition not_null :: "json option \<Rightarrow> json option" where
  "not_null j = (if j = Some JNull then None else j)"

definition login_request :: "refsubs_config \<Rightarrow> sub_request" where
  "login_request cfg =
     \<lparr>sr_method = POST, sr_url = OPENSUBTITLES_BASE_URL @ ''/login'', sr_params = [],
      sr_body = Some (JObj [(''username'', json_opt JStr (rc_username cfg)), (''password'', json_opt JStr (rc_password cfg))]),
      sr_token = None\<rparr>"

text \<open>\<open>n\<close> attempts are left; only the first of two is followed by another after a 429.\<close>

fun login_loop :: "sub_env \<Rightarrow> refsubs_config \<Rightarrow> nat \<Rightarrow> json option sub" where
  "login_loop env cfg 0 w = (Inr None, w)"
| "login_loop env cfg (Suc n) w =
     (case paced_request env cfg (login_request cfg) w of
        (SubHttpError, w1) \<Rightarrow> (Inr None, w1)
      | (SubRaises e, w1) \<Rightarrow> (Inl e, w1)
      | (SubResponse status body text, w1) \<Rightarrow>
          if status = 429 then
            (if n = 0 then (Inr None, w1) else login_loop env cfg n (sub_await env (SubSleep (11/10)) w1))
          else if status \<ge> 400 then (Inr None, w1)
          else
            (case res_bind (body_json body) (\<lambda>j. json_get j ''token'') of
               Inl e \<Rightarrow> (Inl e, w1)
             | Inr t \<Rightarrow> (Inr (not_null t), w1\<lparr>sw_token := not_null t\<rparr>)))"

definition login :: "sub_env \<Rightarrow> refsubs_config \<Rightarrow> json option sub" where
  "login env cfg = login_loop env cfg 2"

text \<open>The token is looked at again once the login lock is held.\<close>

definition ensure_login :: "sub_env \<Rightarrow> refsubs_config \<Rightarrow> bool sub" where
  "ensure_login env cfg w =
     (if sw_token w \<noteq> None then (Inr True, w)
      else
        let (d, t) = se_shared env (sw_trace w) (sw_disk w, sw_token w); w1 = w\<lparr>sw_disk := d, sw_token := t\<rparr>
        in if sw_token w1 \<noteq> None then (Inr True, w1)
           else sub_then (login env cfg) (\<lambda>t. sub_ret (Inr (t \<noteq> None))) w1)"

definition bearer :: "subworld \<Rightarrow> json option" where
  "bearer w = (case sw_token w of Some t \<Rightarrow> if json_falsy t then None else Some t | None \<Rightarrow> None)"

datatype attempt = Answered "json option" | GaveUp | Limited

text \<open>One attempt: the request, and once more after a fresh login on a 401.\<close>

definition judge_status :: "int \<Rightarrow> json option \<Rightarrow> attempt" where
  "judge_status status body =
     (if status = 429 then Limited else if status \<ge> 400 then GaveUp else Answered body)"

definition authed_attempt :: "sub_env \<Rightarrow> refsubs_config \<Rightarrow> sub_request \<Rightarrow> attempt sub" where
  "authed_attempt env cfg rq w =
     (case paced_request env cfg (rq\<lparr>sr_token := bearer w\<rparr>) w of
        (SubHttpError, w1) \<Rightarrow> (Inr GaveUp, w1)
      | (SubRaises e, w1) \<Rightarrow> (Inl e, w1)
      | (SubResponse status body text, w1) \<Rightarrow>
          if status \<noteq> 401 then (Inr (judge_status status body), w1)
          else
            sub_then (login env cfg) (\<lambda>t w2.
              if t = None then (Inr GaveUp, w2)
              else
                (case paced_request env cfg (rq\<lparr>sr_token := bearer w2\<rparr>) w2 of
                   (SubHttpError, w3) \<Rightarrow> (Inr GaveUp, w3)
                 | (SubRaises e, w3) \<Rightarrow> (Inl e, w3)
                 | (SubResponse status2 body2 text2, w3) \<Rightarrow> (Inr (judge_status status2 body2), w3))) w1)"

fun authed_loop :: "sub_env \<Rightarrow> refsubs_config \<Rightarrow> sub_request \<Rightarrow> nat \<Rightarrow> json option option sub" where
  "authed_loop env cfg rq 0 w = (Inr None, w)"
| "authed_loop env cfg rq (Suc n) w =
     sub_then (authed_attempt env cfg rq) (\<lambda>a w1.
       case a of
         Answered b \<Rightarrow> (Inr (Some b), w1)
       | GaveUp \<Rightarrow> (Inr None, w1)
       | Limited \<Rightarrow>
           if n = 0 then (Inr None, w1) else authed_loop env cfg rq n (sub_await env (SubSleep 2) w1)) w"

definition authed_request :: "sub_env \<Rightarrow> refsubs_config \<Rightarrow> sub_request \<Rightarrow> json option option sub" where
  "authed_request env cfg rq =
     sub_then (ensure_login env cfg) (\<lambda>ok. if ok then authed_loop env cfg rq 2 else sub_ret (Inr None))"

section \<open>Search, download, save\<close>

text \<open>\<open>str.isdigit\<close> also holds of the superscript digits, which \<open>int\<close> refuses.\<close>

definition py_digit :: "char \<Rightarrow> bool" where
  "py_digit c \<longleftrightarrow> is_digit c \<or> (of_char c :: nat) \<in> {178, 179, 185}"

definition numeric_imdb_id :: "ext_id option \<Rightarrow> int option res" where
  "numeric_imdb_id raw =
     (case raw of
        None \<Rightarrow> Inr None
      | Some x \<Rightarrow>
          let s = ext_text x; text = (if prefix ''tt'' s then drop 2 s else s)
          in if text = [] \<or> \<not> list_all py_digit text then Inr None
             else if list_all is_digit text then Inr (Some (int (read_nat text))) else Inl ValueError)"

text \<open>One search result: the best file so far, with its download count.\<close>

definition better_file :: "json \<Rightarrow> json option \<times> real \<Rightarrow> (json option \<times> real) res" where
  "better_file item best =
     res_bind (get_or item ''attributes'' (JObj [])) (\<lambda>attributes.
     res_bind (get_or attributes ''files'' JNull) (\<lambda>files.
       if json_falsy files then Inr best
       else
         res_bind (res_bind (get_or attributes ''download_count'' (JInt 0)) json_number) (\<lambda>n.
           if n > snd best
           then res_bind (json_first files) (\<lambda>f.
                res_map (\<lambda>i. (not_null i, n)) (json_get f ''file_id''))
           else Inr best)))"

fun best_file :: "json list \<Rightarrow> json option \<times> real \<Rightarrow> json option res" where
  "best_file [] best = Inr (fst best)"
| "best_file (item # items) best = res_bind (better_file item best) (best_file items)"

definition search_request :: "(string \<times> json) list \<Rightarrow> sub_request" where
  "search_request params =
     \<lparr>sr_method = GET, sr_url = OPENSUBTITLES_BASE_URL @ ''/subtitles'', sr_params = sort_key fst params,
      sr_body = None, sr_token = None\<rparr>"

definition search_query :: "sub_env \<Rightarrow> refsubs_config \<Rightarrow> (string \<times> json) list \<Rightarrow> json option sub" where
  "search_query env cfg params =
     sub_then (authed_request env cfg (search_request params)) (\<lambda>r.
       case r of
         None \<Rightarrow> sub_ret (Inr None)
       | Some body \<Rightarrow>
           sub_ret (res_bind (body_json body) (\<lambda>j.
             res_bind (get_or j ''data'' (JList [])) (\<lambda>data.
             res_bind (json_iter data) (\<lambda>items. best_file items (None, -1))))))"

definition search_params :: "int \<Rightarrow> int \<Rightarrow> string \<Rightarrow> string \<Rightarrow> json \<Rightarrow> (string \<times> json) list" where
  "search_params season episode language key v =
     [(''episode_number'', JInt episode), (''languages'', JStr language), (key, v), (''season_number'', JInt season)]"

text \<open>The strategies in order: by IMDB id, by TVDB id, by title.\<close>

definition strategies :: "ext_ids \<Rightarrow> int option \<Rightarrow> (string \<times> json) list" where
  "strategies ids imdb =
     (case imdb of None \<Rightarrow> [] | Some i \<Rightarrow> [(''parent_imdb_id'', JInt i)]) @
     (case map_of ids ''tvdb'' of None \<Rightarrow> [] | Some t \<Rightarrow> [(''parent_tvdb_id'', ext_json t)]) @
     (if ext_given (map_of ids ''title'') then [(''query'', ext_json (the (map_of ids ''title'')))] else [])"

fun try_strategies ::
  "sub_env \<Rightarrow> refsubs_config \<Rightarrow> int \<Rightarrow> int \<Rightarrow> string \<Rightarrow> (string \<times> json) list \<Rightarrow> json option sub" where
  "try_strategies env cfg season episode language [] w = (Inr None, w)"
| "try_strategies env cfg season episode language (s # ss) w =
     sub_then (search_query env cfg (search_params season episode language (fst s) (snd s))) (\<lambda>r w1.
       case r of Some i \<Rightarrow> (Inr (Some i), w1)
       | None \<Rightarrow> try_strategies env cfg season episode language ss w1) w"

definition search :: "sub_env \<Rightarrow> refsubs_config \<Rightarrow> ext_ids \<Rightarrow> int \<Rightarrow> int \<Rightarrow> string \<Rightarrow> json option sub" where
  "search env cfg ids season episode language =
     sub_then (sub_ret (numeric_imdb_id (map_of ids ''imdb''))) (\<lambda>imdb.
       try_strategies env cfg season episode language (strategies ids imdb))"

definition download_request :: "json \<Rightarrow> sub_request" where
  "download_request i =
     \<lparr>sr_method = POST, sr_url = OPENSUBTITLES_BASE_URL @ ''/download'', sr_params = [],
      sr_body = Some (JObj [(''file_id'', i)]), sr_token = None\<rparr>"

definition download :: "sub_env \<Rightarrow> refsubs_config \<Rightarrow> json \<Rightarrow> json option sub" where
  "download env cfg i =
     sub_then (authed_request env cfg (download_request i)) (\<lambda>r.
       case r of
         None \<Rightarrow> sub_ret (Inr None)
       | Some body \<Rightarrow>
           sub_ret (res_bind (body_json body) (\<lambda>j.
             res_map (\<lambda>l. case l of Some v \<Rightarrow> if json_falsy v then None else Some v | None \<Rightarrow> None)
               (json_get j ''link''))))"

definition link_request :: "json \<Rightarrow> sub_request" where
  "link_request link =
     \<lparr>sr_method = GET, sr_url = (case link of JStr s \<Rightarrow> s | _ \<Rightarrow> []), sr_params = [], sr_body = None, sr_token = None\<rparr>"

text \<open>A temporary file in the same directory, then a rename; on any failure the temporary is removed.\<close>

definition atomic_write :: "sub_env \<Rightarrow> string \<Rightarrow> string \<Rightarrow> unit sub" where
  "atomic_write env p text w =
     (let tmp = se_temp env (sw_trace w) p
      in sub_then (disk_call env (DTemp tmp) []) (\<lambda>_ w1.
           case sub_then (disk_call env (DWrite tmp) text) (\<lambda>_. disk_call env (DReplace tmp p) []) w1 of
             (Inl e, w2) \<Rightarrow> (Inl e, w2\<lparr>sw_disk := (sw_disk w2)(tmp := None)\<rparr>)
           | (Inr _, w2) \<Rightarrow> (Inr (), w2)) w)"

text \<open>The link points off the API: its fetch is not paced.\<close>

definition save_sub :: "sub_env \<Rightarrow> json \<Rightarrow> string \<Rightarrow> string option sub" where
  "save_sub env link cache_path w =
     (let rq = link_request link; w1 = sub_await env (SubHttp rq) w
      in case se_http env (sw_trace w1) rq of
           SubHttpError \<Rightarrow> (Inr None, w1)
         | SubRaises e \<Rightarrow> (Inl e, w1)
         | SubResponse status body content \<Rightarrow>
             if status \<ge> 400 then (Inr None, w1)
             else
               sub_then (disk_call env (DMkdir (path_str (path_parent (mk_path cache_path)))) []) (\<lambda>_.
               sub_then (atomic_write env cache_path content) (\<lambda>_. sub_ret (Inr (Some cache_path)))) w1)"

section \<open>The service\<close>

text \<open>
  The chain up to the download, whose success commits the reservation; then the saving. A failure
  of either is logged; an uncommitted reservation is released.
\<close>

definition find_link ::
  "sub_env \<Rightarrow> refsubs_config \<Rightarrow> ext_ids \<Rightarrow> int \<Rightarrow> int \<Rightarrow> string \<Rightarrow> json option sub" where
  "find_link env cfg ids season episode language =
     sub_then (search env cfg ids season episode language) (\<lambda>i.
       case i of None \<Rightarrow> sub_ret (Inr None) | Some f \<Rightarrow> download env cfg f)"

definition fetch_sub ::
  "sub_env \<Rightarrow> refsubs_config \<Rightarrow> ext_ids \<Rightarrow> int \<Rightarrow> int \<Rightarrow> string \<Rightarrow> string \<Rightarrow> string \<Rightarrow> string option sub" where
  "fetch_sub env cfg ids season episode language cache_dir cache_path =
     sub_then (reserve_quota env cfg cache_dir) (\<lambda>ok w1.
       if \<not> ok then (Inr None, w1)
       else
         (case find_link env cfg ids season episode language w1 of
            (Inr (Some link), w2) \<Rightarrow>
              (case save_sub env link cache_path w2 of (Inl e, w3) \<Rightarrow> (Inr None, w3) | r \<Rightarrow> r)
          | (_, w2) \<Rightarrow> sub_then (release_quota env cache_dir) (\<lambda>_. sub_ret (Inr None)) w2))"

fun try_languages ::
  "sub_env \<Rightarrow> refsubs_config \<Rightarrow> ext_ids \<Rightarrow> ext_id \<Rightarrow> int \<Rightarrow> int \<Rightarrow> string \<Rightarrow> string list \<Rightarrow> string option sub" where
  "try_languages env cfg ids tvdb season episode cache_dir [] w = (Inr None, w)"
| "try_languages env cfg ids tvdb season episode cache_dir (l # ls) w =
     (let p = sub_path cache_dir tvdb (srt_name season episode (Some l))
      in if sw_disk w p \<noteq> None then (Inr (Some p), w)
         else sub_then (fetch_sub env cfg ids season episode l cache_dir p) (\<lambda>r w1.
                case r of Some q \<Rightarrow> (Inr (Some q), w1)
                | None \<Rightarrow> try_languages env cfg ids tvdb season episode cache_dir ls w1) w)"

definition refsubs_get ::
  "sub_env \<Rightarrow> refsubs_config \<Rightarrow> ext_ids \<Rightarrow> int \<Rightarrow> int \<Rightarrow> string option \<Rightarrow> string option sub" where
  "refsubs_get env cfg ids season episode language w =
     (if \<not> ext_given (map_of ids ''tvdb'') then (Inr None, w)
      else
        let tvdb = the (map_of ids ''tvdb''); langs = language_order cfg language
        in case manual_path cfg (sw_disk w) tvdb season episode langs of
             Some p \<Rightarrow> (Inr (Some p), w)
           | None \<Rightarrow>
               if \<not> dir_given (rc_cache_dir cfg) then (Inr None, w)
               else try_languages env cfg ids tvdb season episode (the (rc_cache_dir cfg)) langs w)"

end
