(* ===== verification/RefSubSpec.thy ===== *)
theory RefSubSpec
  imports RefSubs
begin

text \<open>
  The properties of the reference subtitle service: its language order, the daily quota under
  concurrent calls, how many requests a call costs, which exceptions get out, and what a returned
  path means.
\<close>

lemma sub_then_eq: "sub_then m f w = (r, w') \<longleftrightarrow>
    (\<exists>x w1. m w = (x, w1) \<and> (case x of Inl e \<Rightarrow> r = Inl e \<and> w' = w1 | Inr y \<Rightarrow> f y w1 = (r, w')))"
  by (cases "m w") (auto simp: sub_then_def split: sum.splits)

lemma sub_then_ok: "sub_then m f w = (Inr y, w') \<longleftrightarrow> (\<exists>x w1. m w = (Inr x, w1) \<and> f x w1 = (Inr y, w'))"
  by (cases "m w") (auto simp: sub_then_def split: sum.splits)

section \<open>Languages\<close>

lemma add_languages:
  assumes "distinct acc"
  shows "distinct (fold add_language ls acc) \<and> set (fold add_language ls acc) = set acc \<union> set ls \<and>
     prefix acc (fold add_language ls acc)"
  using assms
proof (induction ls arbitrary: acc)
  case (Cons l ls)
  have "distinct (add_language l acc)" "set (add_language l acc) = insert l (set acc)" "prefix acc (add_language l acc)"
    using Cons.prems by (auto simp: add_language_def)
  with Cons.IH [of "add_language l acc"] show ?case
    using prefix_order.trans by auto
qed simp

lemma language_order_exact:
  "distinct (language_order cfg l)"
  "set (language_order cfg l) = (if lang_given l then {the l} else {}) \<union> set (rc_languages cfg)"
  "lang_given l \<Longrightarrow> \<exists>ls. language_order cfg l = the l # ls"
  using add_languages [of "if lang_given l then [the l] else []" "rc_languages cfg"]
  by (auto simp: language_order_def prefix_def)

section \<open>The daily quota\<close>

text \<open>What concurrent calls do to the counter, each in one go: none awaits while it holds the lock.\<close>

datatype quota_op = Reserve | Release

definition quota_do :: "sub_env \<Rightarrow> refsubs_config \<Rightarrow> string \<Rightarrow> quota_op \<Rightarrow> bool sub" where
  "quota_do env cfg dir op =
     (case op of Reserve \<Rightarrow> reserve_quota env cfg dir
      | Release \<Rightarrow> sub_then (release_quota env dir) (\<lambda>_. sub_ret (Inr False)))"

fun quota_run :: "sub_env \<Rightarrow> refsubs_config \<Rightarrow> string \<Rightarrow> quota_op list \<Rightarrow> nat sub" where
  "quota_run env cfg dir [] w = (Inr 0, w)"
| "quota_run env cfg dir (op # ops) w =
     sub_then (quota_do env cfg dir op) (\<lambda>granted.
     sub_then (quota_run env cfg dir ops) (\<lambda>n. sub_ret (Inr ((if granted then 1 else 0) + n)))) w"

text \<open>A day on which the disk works, and a \<open>json.loads\<close> that reads back what \<open>json.dumps\<close> wrote.\<close>

definition quota_day :: "sub_env \<Rightarrow> string \<Rightarrow> bool" where
  "quota_day env today \<longleftrightarrow> (\<forall>tr. se_today env tr = today) \<and> (\<forall>tr op. se_fault env tr op = None) \<and>
     (\<forall>n. se_loads env (quota_text env (quota_json today (JInt (int n)))) = Inr (JObj (quota_json today (JInt (int n)))))"

definition stored_count :: "sub_env \<Rightarrow> string \<Rightarrow> string \<Rightarrow> int \<Rightarrow> subworld \<Rightarrow> bool" where
  "stored_count env today dir n w \<longleftrightarrow> load_quota env dir w = Inr (quota_json today (JInt n))"

lemma counted:
  assumes "quota_day env today" "0 \<le> m"
  shows "\<exists>w'. write_quota env dir (quota_json today (JInt m)) w = (Inr (), w') \<and> stored_count env today dir m w'"
proof -
  have "se_loads env (quota_text env (quota_json today (JInt m))) = Inr (JObj (quota_json today (JInt m)))"
    using assms by (auto simp: quota_day_def dest: spec [of _ "nat m"])
  with assms(1) show ?thesis
    by (auto simp: write_quota_def sub_then_def disk_call_def quota_day_def stored_count_def load_quota_def
        quota_json_def Let_def)
qed

lemma quota_json_facts:
  "quota_count (quota_json today (JInt n)) = Inr (JInt n)"
  "AList.update ''count'' (JInt m) (quota_json today (JInt n)) = quota_json today (JInt m)"
  by (simp_all add: quota_json_def quota_count_def)

lemma reserve_step:
  assumes "quota_day env today" "stored_count env today dir n w" "0 \<le> n"
  shows "\<exists>w'. reserve_quota env cfg dir w = (Inr (n < rc_daily_quota cfg), w') \<and>
     stored_count env today dir (if n < rc_daily_quota cfg then n + 1 else n) w'"
proof (cases "n < rc_daily_quota cfg")
  case True
  obtain w' where "write_quota env dir (quota_json today (JInt (n + 1))) w = (Inr (), w')"
    "stored_count env today dir (n + 1) w'" using counted [OF assms(1), of "n + 1"] assms(3) by auto
  with True assms(2) show ?thesis
    by (intro exI [of _ w'])
      (simp add: reserve_quota_def sub_then_def sub_ret_def stored_count_def quota_json_facts count_add_def)
next
  case False
  with assms(2) show ?thesis
    by (intro exI [of _ w]) (simp add: reserve_quota_def sub_then_def sub_ret_def stored_count_def quota_json_facts)
qed

lemma release_step:
  assumes "quota_day env today" "stored_count env today dir n w"
  shows "\<exists>w'. release_quota env dir w = (Inr (), w') \<and> stored_count env today dir (max 0 (n - 1)) w'"
proof -
  have m: "not_negative (JInt (n - 1)) = JInt (max 0 (n - 1))" by (simp add: not_negative_def)
  obtain w' where "write_quota env dir (quota_json today (JInt (max 0 (n - 1)))) w = (Inr (), w')"
    "stored_count env today dir (max 0 (n - 1)) w'" using counted [OF assms(1), of "max 0 (n - 1)"] by auto
  with assms(2) m show ?thesis
    by (intro exI [of _ w'])
      (simp add: release_quota_def sub_then_def sub_ret_def stored_count_def quota_json_facts count_add_def)
qed



section \<open>What a call costs\<close>

fun is_http :: "sub_event \<Rightarrow> bool" where
  "is_http (SubHttp rq) \<longleftrightarrow> True"
| "is_http _ \<longleftrightarrow> False"

definition requests :: "subworld \<Rightarrow> nat" where
  "requests w = length (filter is_http (sw_trace w))"

definition costs :: "nat \<Rightarrow> 'a sub \<Rightarrow> bool" where
  "costs n m \<longleftrightarrow> (\<forall>w. requests (snd (m w)) \<le> requests w + n)"

named_theorems cost_intros

lemma costs_le: "costs k m \<Longrightarrow> k \<le> n \<Longrightarrow> costs n m"
  by (fastforce simp: costs_def intro: order_trans)

lemma costs_then [cost_intros]:
  assumes "costs a m" "\<And>x. costs b (f x)"
  shows "costs (a + b) (sub_then m f)"
  unfolding costs_def
proof
  fix w
  show "requests (snd (sub_then m f w)) \<le> requests w + (a + b)"
  proof (cases "m w")
    case (Pair r w1)
    with assms(1) have 1: "requests w1 \<le> requests w + a" by (metis costs_def snd_conv)
    have 2: "requests (snd (f x w1)) \<le> requests w1 + b" for x using assms(2) by (auto simp: costs_def)
    from Pair 1 2 show ?thesis by (cases r) (auto simp: sub_then_def intro: order_trans [OF 2])
  qed
qed

lemma costs_ret [cost_intros]: "costs 0 (sub_ret r)" "costs 0 (\<lambda>w. (g w, w))"
  by (simp_all add: costs_def sub_ret_def)

lemma costs_disk [cost_intros]: "costs 0 (disk_call env op text)"
  by (auto simp: costs_def disk_call_def requests_def split: option.splits)

lemma requests_await [simp]: "requests (sub_await env ev w) = requests w + (if is_http ev then 1 else 0)"
  by (simp add: sub_await_def requests_def Let_def split_beta)

lemma requests_paced [simp]: "requests (snd (paced_request env cfg rq w)) = requests w + 1"
  by (simp add: paced_request_def Let_def split_beta requests_def sub_await_def)

lemma paced_counted: "paced_request env cfg rq w = (r, w1) \<Longrightarrow> requests w1 = requests w + 1"
  using requests_paced [of env cfg rq w] by simp

lemma costs_login: "costs n (login_loop env cfg n)"
  unfolding costs_def
proof (intro allI, induction n)
  case (Suc n)
  show ?case
  proof (cases "paced_request env cfg (login_request cfg) w")
    case (Pair r w1)
    have i: "requests (snd (login_loop env cfg n (sub_await env (SubSleep (11/10)) w1))) \<le> requests w1 + n"
      using Suc.IH [of "sub_await env (SubSleep (11/10)) w1"] by simp
    have "requests (snd (login_loop env cfg (Suc n) w)) \<le> requests w1 + n"
      using i by (simp add: Pair requests_def split: sub_result.splits sum.splits)
    then show ?thesis by (simp add: paced_counted [OF Pair])
  qed
qed simp

lemma requests_updates [simp]:
  "requests (w\<lparr>sw_disk := d\<rparr>) = requests w"
  "requests (w\<lparr>sw_token := t\<rparr>) = requests w"
  "requests (w\<lparr>sw_last := l\<rparr>) = requests w"
  by (simp_all add: requests_def)

lemma costs_ensure: "costs 2 (ensure_login env cfg)"
proof -
  have "costs (2 + 0) (sub_then (login env cfg) (\<lambda>t. sub_ret (Inr (t \<noteq> None))))"
    unfolding login_def by (intro cost_intros costs_login)
  then have "requests (snd (sub_then (login env cfg) (\<lambda>t. sub_ret (Inr (t \<noteq> None))) w)) \<le> requests w + 2" for w
    by (simp add: costs_def)
  from this [of "w\<lparr>sw_disk := d, sw_token := t\<rparr>" for w d t] show ?thesis
    by (auto simp: costs_def ensure_login_def Let_def split_beta)
qed

lemma costs_attempt: "costs 4 (authed_attempt env cfg rq)"
  unfolding costs_def
proof
  fix w
  obtain r w1 where p: "paced_request env cfg (rq\<lparr>sr_token := bearer w\<rparr>) w = (r, w1)" by fastforce
  note n = paced_counted [OF p]
  let ?again = "\<lambda>t w2. if t = None then (Inr GaveUp, w2)
     else case paced_request env cfg (rq\<lparr>sr_token := bearer w2\<rparr>) w2 of
            (SubHttpError, w3) \<Rightarrow> (Inr GaveUp, w3)
          | (SubRaises e, w3) \<Rightarrow> (Inl e, w3)
          | (SubResponse status body text, w3) \<Rightarrow> (Inr (judge_status status body), w3)"
  have once: "requests (snd (case paced_request env cfg rq w2 of
      (SubHttpError, w3) \<Rightarrow> (Inr GaveUp, w3)
    | (SubRaises e, w3) \<Rightarrow> (Inl e, w3)
    | (SubResponse status body text, w3) \<Rightarrow> (Inr (judge_status status body), w3))) = requests w2 + 1" for rq w2
    by (cases "paced_request env cfg rq w2") (simp add: paced_counted split: sub_result.split)
  have "costs 1 (?again t)" for t
    by (cases t) (simp_all add: costs_def once)
  then have "costs (2 + 1) (sub_then (login env cfg) ?again)"
    unfolding login_def by (intro costs_then costs_login)
  then have "requests (snd (sub_then (login env cfg) ?again w1)) \<le> requests w1 + 3"
    by (simp add: costs_def)
  with n show "requests (snd (authed_attempt env cfg rq w)) \<le> requests w + 4"
    by (auto simp: authed_attempt_def p split: sub_result.splits)
qed

lemma costs_authed_loop: "costs (4 * n) (authed_loop env cfg rq n)"
proof (induction n)
  case 0
  then show ?case by (simp add: costs_def)
next
  case (Suc n)
  let ?next = "\<lambda>a w1. case a of Answered b \<Rightarrow> (Inr (Some b), w1) | GaveUp \<Rightarrow> (Inr None, w1)
     | Limited \<Rightarrow> if n = 0 then (Inr None, w1) else authed_loop env cfg rq n (sub_await env (SubSleep 2) w1)"
  have i: "requests (snd (authed_loop env cfg rq n (sub_await env (SubSleep 2) w))) \<le> requests w + 4 * n" for w
    using spec [OF Suc.IH [unfolded costs_def], of "sub_await env (SubSleep 2) w"] by simp
  have "costs (4 * n) (?next a)" for a
    by (cases a) (simp_all add: costs_def i)
  then have "costs (4 + 4 * n) (sub_then (authed_attempt env cfg rq) ?next)"
    by (intro costs_then costs_attempt)
  then show ?case by (simp add: costs_def)
qed

lemma costs_if [cost_intros]: "\<lbrakk>costs n f; costs n g\<rbrakk> \<Longrightarrow> costs n (if b then f else g)"
  by simp

lemma costs_none: "costs n (sub_ret r)"
  by (simp add: costs_def sub_ret_def)

lemma costs_authed: "costs 10 (authed_request env cfg rq)"
proof -
  have "costs (2 + 4 * 2) (authed_request env cfg rq)"
    unfolding authed_request_def
    by (intro costs_then costs_ensure costs_if costs_authed_loop costs_none)
  then show ?thesis by simp
qed

lemma costs_search_query: "costs 10 (search_query env cfg params)"
proof -
  have "costs (10 + 0) (search_query env cfg params)"
    unfolding search_query_def
    by (intro costs_then costs_authed) (simp add: costs_none split: option.split)
  then show ?thesis by simp
qed

lemma costs_strategies: "costs (10 * length ss) (try_strategies env cfg season episode language ss)"
proof (induction ss)
  case Nil
  then show ?case by (simp add: costs_def)
next
  case (Cons s ss)
  have "costs (10 + 10 * length ss) (sub_then (search_query env cfg
       (search_params season episode language (fst s) (snd s))) (\<lambda>r w1.
     case r of Some i \<Rightarrow> (Inr (Some i), w1) | None \<Rightarrow> try_strategies env cfg season episode language ss w1))"
    using Cons.IH by (intro costs_then costs_search_query) (auto simp: costs_def split: option.split)
  then show ?case by (simp add: costs_def)
qed

lemma costs_search: "costs 30 (search env cfg ids season episode language)"
proof -
  have "length (strategies ids imdb) \<le> 3" for imdb
    by (auto simp: strategies_def split: option.splits)
  then have "costs (0 + 30) (search env cfg ids season episode language)"
    unfolding search_def by (intro costs_then costs_none costs_le [OF costs_strategies]) (simp add: mult_le_mono2 [of _ 3 10, simplified])
  then show ?thesis by simp
qed

lemma costs_find_link: "costs 40 (find_link env cfg ids season episode language)"
proof -
  have "costs (10 + 0) (download env cfg f)" for f
    unfolding download_def by (intro costs_then costs_authed) (simp add: costs_none split: option.split)
  then have "costs (30 + 10) (find_link env cfg ids season episode language)"
    unfolding find_link_def by (intro costs_then costs_search) (auto simp: costs_none split: option.split)
  then show ?thesis by simp
qed

lemma costs_quota: "costs 0 (reserve_quota env cfg dir)" "costs 0 (release_quota env dir)"
proof -
  have w: "costs 0 (write_quota env dir kvs)" for kvs
    unfolding write_quota_def Let_def
    by (rule costs_le [OF costs_then [OF costs_disk costs_disk]]) simp
  show "costs 0 (reserve_quota env cfg dir)"
    unfolding reserve_quota_def
    by (rule costs_le [of "0 + (0 + (0 + (0 + (0 + 0))))"])
      (intro costs_then costs_ret costs_none costs_if w costs_le [OF costs_then [OF costs_none costs_then [OF w costs_none]]] | simp)+
  show "costs 0 (release_quota env dir)"
    unfolding release_quota_def
    by (rule costs_le [of "0 + (0 + (0 + 0))"]) (intro costs_then costs_ret costs_none w | simp)+
qed


lemma costs_fetch: "costs 41 (fetch_sub env cfg ids season episode l dir p)"
proof -
  have save: "requests (snd (save_sub env link p w)) \<le> requests w + 1" for link w
  proof -
    have a: "costs 0 (atomic_write env p s)" for s
    proof -
      have "costs (0 + 0) (sub_then (disk_call env (DWrite tmp) s) (\<lambda>_. disk_call env (DReplace tmp p) []))" for tmp
        by (intro costs_then costs_disk)
      then have "costs 0 (\<lambda>w1. case sub_then (disk_call env (DWrite tmp) s) (\<lambda>_. disk_call env (DReplace tmp p) []) w1 of
          (Inl e, w2) \<Rightarrow> (Inl e, w2\<lparr>sw_disk := (sw_disk w2)(tmp := None)\<rparr>) | (Inr _, w2) \<Rightarrow> (Inr (), w2))" for tmp
        by (simp add: costs_def split_beta split: sum.split prod.split)
      then have "costs (0 + 0) (sub_then (disk_call env (DTemp tmp) []) (\<lambda>_ w1.
          case sub_then (disk_call env (DWrite tmp) s) (\<lambda>_. disk_call env (DReplace tmp p) []) w1 of
            (Inl e, w2) \<Rightarrow> (Inl e, w2\<lparr>sw_disk := (sw_disk w2)(tmp := None)\<rparr>) | (Inr _, w2) \<Rightarrow> (Inr (), w2)))" for tmp
        by (intro costs_then costs_disk)
      then show ?thesis by (simp add: costs_def atomic_write_def Let_def)
    qed
    have "costs (0 + (0 + 0)) (sub_then (disk_call env (DMkdir d) []) (\<lambda>_.
        sub_then (atomic_write env p s) (\<lambda>_. sub_ret (Inr (Some p)))))" for d s
      by (intro costs_then costs_disk a costs_none)
    then have "requests (snd (sub_then (disk_call env (DMkdir d) []) (\<lambda>_.
        sub_then (atomic_write env p s) (\<lambda>_. sub_ret (Inr (Some p)))) w1)) \<le> requests w1" for d s w1
      by (simp add: costs_def)
    from this [of _ _ "sub_await env (SubHttp (link_request link)) w"] show ?thesis
      by (simp add: save_sub_def Let_def split: sub_result.split)
  qed
  have "costs (0 + 0) (sub_then (release_quota env dir) (\<lambda>_. sub_ret (Inr (None :: string option))))"
    by (intro costs_then costs_quota costs_none)
  then have rel: "requests (snd (sub_then (release_quota env dir) (\<lambda>_. sub_ret (Inr (None :: string option))) w))
      \<le> requests w" for w
    by (simp add: costs_def)
  have "requests (snd (case find_link env cfg ids season episode l w1 of
      (Inr (Some link), w2) \<Rightarrow> (case save_sub env link p w2 of (Inl e, w3) \<Rightarrow> (Inr None, w3) | r \<Rightarrow> r)
    | (_, w2) \<Rightarrow> sub_then (release_quota env dir) (\<lambda>_. sub_ret (Inr None)) w2)) \<le> requests w1 + 41" for w1
  proof -
    obtain r w2 where f: "find_link env cfg ids season episode l w1 = (r, w2)" by fastforce
    have 2: "requests w2 \<le> requests w1 + 40"
      using costs_find_link [of env cfg ids season episode l] by (simp add: costs_def) (metis f snd_conv)
    have s: "requests (snd (case save_sub env link p w2 of (Inl e, w3) \<Rightarrow> (Inr None, w3) | r \<Rightarrow> r)) \<le> requests w2 + 1" for link
      using save [of link w2] by (cases "save_sub env link p w2") (simp split: sum.split)
    have 3: "requests (snd (case save_sub env link p w2 of (Inl e, w3) \<Rightarrow> (Inr None, w3) | r \<Rightarrow> r)) \<le> requests w1 + 41" for link
      by (rule order_trans [OF s]) (use 2 in linarith)
    have 4: "requests (snd (sub_then (release_quota env dir) (\<lambda>_. sub_ret (Inr (None :: string option))) w2)) \<le> requests w1 + 41"
      using rel [of w2] 2 by linarith
    show ?thesis unfolding f using 3 4 by (simp split: sum.split option.split)
  qed
  then have "costs (0 + 41) (fetch_sub env cfg ids season episode l dir p)"
    unfolding fetch_sub_def by (intro costs_then costs_quota) (simp add: costs_def)
  then show ?thesis by simp
qed

lemma costs_languages: "costs (41 * length ls) (try_languages env cfg ids tvdb season episode dir ls)"
proof (induction ls)
  case Nil
  then show ?case by (simp add: costs_def)
next
  case (Cons l ls)
  let ?p = "sub_path dir tvdb (srt_name season episode (Some l))"
  have "costs (41 + 41 * length ls) (sub_then (fetch_sub env cfg ids season episode l dir ?p) (\<lambda>r w1.
      case r of Some q \<Rightarrow> (Inr (Some q), w1) | None \<Rightarrow> try_languages env cfg ids tvdb season episode dir ls w1))"
    using Cons.IH by (intro costs_then costs_fetch) (auto simp: costs_def split: option.split)
  then show ?case by (simp add: costs_def Let_def)
qed

text \<open>A call of the reference subtitle service is bounded: whatever the peer answers and however the
  concurrent calls interfere, it sends at most 41 requests for each language it tries (a login and
  its retry, two attempts with a fresh login each for each of three searches and the download,
  and the file itself).\<close>

theorem refsubs_get_bounded:
  "requests (snd (refsubs_get env cfg ids season episode language w)) \<le>
     requests w + 41 * length (language_order cfg language)"
  using costs_languages [of "language_order cfg language" env cfg ids "the (map_of ids ''tvdb'')" season episode
      "the (rc_cache_dir cfg)"]
  by (simp add: refsubs_get_def Let_def costs_def split: option.split)

section \<open>What a call may raise\<close>

definition quiet :: "'a sub \<Rightarrow> bool" where
  "quiet m \<longleftrightarrow> (\<forall>w. \<exists>x w1. m w = (Inr x, w1))"

lemma quiet_then: "\<lbrakk>quiet m; \<And>x. quiet (f x)\<rbrakk> \<Longrightarrow> quiet (sub_then m f)"
  unfolding quiet_def sub_then_def by (metis (mono_tags, lifting) case_prod_conv old.sum.simps(6))

lemma quiet_ret: "quiet (sub_ret (Inr x))"
  by (simp add: quiet_def sub_ret_def)

text \<open>The quota file can be written, and what it holds is JSON of the shape the service writes, or no JSON.\<close>

definition quota_works :: "sub_env \<Rightarrow> string \<Rightarrow> bool" where
  "quota_works env dir \<longleftrightarrow>
     (\<forall>tr. se_fault env tr (DMkdir (path_str (path_parent (mk_path (quota_path dir))))) = None \<and>
           se_fault env tr (DWrite (quota_path dir)) = None) \<and>
     (\<forall>text j. se_loads env text = Inr j \<longrightarrow> (\<exists>kvs n. j = JObj kvs \<and> map_of kvs ''count'' = Some (JInt n)))"

lemma quota_loads:
  assumes "quota_works env dir"
  shows "\<exists>kvs n. load_quota env dir w = Inr kvs \<and> map_of kvs ''count'' = Some (JInt n)"
proof (cases "sw_disk w (quota_path dir)")
  case (Some s)
  show ?thesis
  proof (cases "se_loads env s")
    case (Inr j)
    with assms obtain kvs n where "j = JObj kvs" "map_of kvs ''count'' = Some (JInt n)"
      unfolding quota_works_def by blast
    with Some Inr show ?thesis by (auto simp: load_quota_def quota_json_def Let_def)
  qed (use Some in \<open>simp add: load_quota_def quota_json_def Let_def\<close>)
qed (simp add: load_quota_def quota_json_def Let_def)

lemma write_quiet:
  assumes "quota_works env dir"
  shows "quiet (write_quota env dir kvs)"
  using assms by (auto simp: quiet_def write_quota_def sub_then_def disk_call_def quota_works_def Let_def)

lemma quota_quiet:
  assumes "quota_works env dir"
  shows "quiet (reserve_quota env cfg dir)" "quiet (release_quota env dir)"
proof -
  note w = write_quiet [OF assms, unfolded quiet_def]
  show "quiet (reserve_quota env cfg dir)"
    unfolding quiet_def
  proof
    fix u
    obtain kvs n where k: "load_quota env dir u = Inr kvs" "map_of kvs ''count'' = Some (JInt n)"
      using quota_loads [OF assms] by blast
    obtain x u' where "write_quota env dir (AList.update ''count'' (JInt (n + 1)) kvs) u = (Inr x, u')" using w by blast
    with k show "\<exists>x w1. reserve_quota env cfg dir u = (Inr x, w1)"
      by (auto simp: reserve_quota_def sub_then_def sub_ret_def quota_count_def count_add_def)
  qed
  show "quiet (release_quota env dir)"
    unfolding quiet_def
  proof
    fix u
    obtain kvs n where k: "load_quota env dir u = Inr kvs" "map_of kvs ''count'' = Some (JInt n)"
      using quota_loads [OF assms] by blast
    obtain x u' where "write_quota env dir (AList.update ''count'' (not_negative (JInt (n - 1))) kvs) u = (Inr x, u')"
      using w by blast
    with k show "\<exists>x w1. release_quota env dir u = (Inr x, w1)"
      by (simp add: release_quota_def sub_then_def sub_ret_def quota_count_def count_add_def)
  qed
qed

lemma fetch_quiet:
  assumes "quota_works env dir"
  shows "quiet (fetch_sub env cfg ids season episode l dir p)"
  unfolding fetch_sub_def
proof (rule quiet_then)
  have rel: "\<exists>x w1. sub_then (release_quota env dir) (\<lambda>_. sub_ret (Inr (None :: string option))) w = (Inr x, w1)" for w
  proof -
    have "quiet (sub_then (release_quota env dir) (\<lambda>_. sub_ret (Inr (None :: string option))))"
      by (intro quiet_then quota_quiet(2) [OF assms] quiet_ret)
    then show ?thesis unfolding quiet_def by blast
  qed
  show "quiet (\<lambda>w1. if \<not> ok then (Inr None, w1) else
      (case find_link env cfg ids season episode l w1 of
         (Inr (Some link), w2) \<Rightarrow> (case save_sub env link p w2 of (Inl e, w3) \<Rightarrow> (Inr None, w3) | r \<Rightarrow> r)
       | (_, w2) \<Rightarrow> sub_then (release_quota env dir) (\<lambda>_. sub_ret (Inr None)) w2))" for ok
    unfolding quiet_def using rel by (auto split: prod.split sum.split option.split)
qed (rule quota_quiet(1) [OF assms])

text \<open>The reference subtitle service keeps its promise never to raise into the caller, as long as its
  quota file works: whatever the peer answers, including exceptions other than HTTP errors, and
  whatever fails in writing the subtitle, a call returns a path or nothing.\<close>

theorem refsubs_get_never_raises:
  assumes "quota_works env (the (rc_cache_dir cfg))"
  shows "\<exists>r w'. refsubs_get env cfg ids season episode language w = (Inr r, w')"
proof -
  have "quiet (try_languages env cfg ids tvdb season episode (the (rc_cache_dir cfg)) ls)" for tvdb ls
  proof (induction ls)
    case (Cons l ls)
    let ?p = "sub_path (the (rc_cache_dir cfg)) tvdb (srt_name season episode (Some l))"
    have "quiet (sub_then (fetch_sub env cfg ids season episode l (the (rc_cache_dir cfg)) ?p) (\<lambda>r w1.
        case r of Some q \<Rightarrow> (Inr (Some q), w1)
        | None \<Rightarrow> try_languages env cfg ids tvdb season episode (the (rc_cache_dir cfg)) ls w1))"
      using Cons.IH by (intro quiet_then fetch_quiet [OF assms]) (auto simp: quiet_def split: option.split)
    then show ?case by (simp add: quiet_def Let_def)
  qed (simp add: quiet_def)
  then show ?thesis
    by (simp add: refsubs_get_def quiet_def Let_def split: option.split)
qed

section \<open>What a returned path means\<close>

definition lands :: "string option sub \<Rightarrow> bool" where
  "lands m \<longleftrightarrow> (\<forall>w q w'. m w = (Inr (Some q), w') \<longrightarrow> sw_disk w' q \<noteq> None)"

lemma atomic_write_lands:
  assumes "\<And>tr. se_temp env tr p \<noteq> p" "atomic_write env p s w = (Inr (), w')"
  shows "sw_disk w' p = Some s"
  using assms(1) [of "sw_trace w"] assms(2)
  by (auto simp: atomic_write_def sub_then_def disk_call_def Let_def split: sum.splits prod.splits option.splits if_splits)

lemma save_lands:
  assumes "\<And>tr. se_temp env tr p \<noteq> p"
  shows "lands (save_sub env link p)" "save_sub env link p w = (Inr (Some q), w') \<Longrightarrow> q = p"
  using atomic_write_lands [of env p, OF assms]
  by (auto simp: lands_def save_sub_def Let_def sub_then_ok sub_ret_def split: sub_result.splits if_splits)

lemma fetch_lands:
  assumes "\<And>tr. se_temp env tr p \<noteq> p"
    "fetch_sub env cfg ids season episode l dir p w = (Inr (Some q), w')"
  shows "q = p \<and> sw_disk w' p \<noteq> None"
proof -
  obtain w1 where 1: "(case find_link env cfg ids season episode l w1 of
      (Inr (Some link), w2) \<Rightarrow> (case save_sub env link p w2 of (Inl e, w3) \<Rightarrow> (Inr None, w3) | r \<Rightarrow> r)
    | (_, w2) \<Rightarrow> sub_then (release_quota env dir) (\<lambda>_. sub_ret (Inr None)) w2) = (Inr (Some q), w')"
    using assms(2) unfolding fetch_sub_def sub_then_ok by (force split: if_splits)
  obtain r w2 where 2: "find_link env cfg ids season episode l w1 = (r, w2)" by fastforce
  have no: "sub_then (release_quota env dir) (\<lambda>_. sub_ret (Inr None)) w2 \<noteq> (Inr (Some q), w')"
    by (simp add: sub_then_ok sub_ret_def)
  obtain link where "(case save_sub env link p w2 of (Inl e, w3) \<Rightarrow> (Inr None, w3) | r \<Rightarrow> r) = (Inr (Some q), w')"
    using 1 no unfolding 2 by (auto split: sum.splits option.splits)
  then have "save_sub env link p w2 = (Inr (Some q), w')"
    by (cases "save_sub env link p w2") (simp split: sum.splits)
  with save_lands [of env p link, OF assms(1)] show ?thesis
    unfolding lands_def by blast
qed

lemma languages_land:
  assumes "\<And>tr p. se_temp env tr p \<noteq> p"
    "try_languages env cfg ids tvdb season episode dir ls w = (Inr (Some q), w')"
  shows "\<exists>l\<in>set ls. q = sub_path dir tvdb (srt_name season episode (Some l)) \<and> sw_disk w' q \<noteq> None"
  using assms(2)
proof (induction ls arbitrary: w)
  case (Cons l ls)
  let ?p = "sub_path dir tvdb (srt_name season episode (Some l))"
  show ?case
  proof (cases "sw_disk w ?p")
    case None
    with Cons.prems obtain r w1 where f: "fetch_sub env cfg ids season episode l dir ?p w = (Inr r, w1)"
      "(case r of Some q \<Rightarrow> (Inr (Some q), w1)
        | None \<Rightarrow> try_languages env cfg ids tvdb season episode dir ls w1) = (Inr (Some q), w')"
      by (auto simp: Let_def sub_then_ok)
    show ?thesis
    proof (cases r)
      case None
      with f(2) Cons.IH [of w1] show ?thesis by auto
    next
      case (Some q')
      with f(2) have "r = Some q" "w1 = w'" by simp_all
      with fetch_lands [OF assms(1) f(1) [unfolded \<open>r = Some q\<close>]] show ?thesis by auto
    qed
  qed (use Cons.prems in \<open>auto simp: Let_def\<close>)
qed simp

lemma manual_path_found: "manual_path cfg d tvdb season episode ls = Some p \<Longrightarrow> d p \<noteq> None"
  by (auto simp: manual_path_def find_Some_iff split: if_splits)

text \<open>A path the service returns is a file that exists when it returns, and it is either a file of the
  manual directory or the cache's file of this episode in one of the languages asked for: the
  subtitle is written under a temporary name and renamed, so no half-written file is ever returned.\<close>

theorem refsubs_get_exists:
  assumes "\<And>tr p. se_temp env tr p \<noteq> p"
    "refsubs_get env cfg ids season episode language w = (Inr (Some p), w')"
  shows "sw_disk w' p \<noteq> None \<and>
     (manual_path cfg (sw_disk w) (the (map_of ids ''tvdb'')) season episode (language_order cfg language) = Some p \<and> w' = w \<or>
      list_ex (\<lambda>l. p = sub_path (the (rc_cache_dir cfg)) (the (map_of ids ''tvdb'')) (srt_name season episode (Some l)))
        (language_order cfg language))"
proof (cases "manual_path cfg (sw_disk w) (the (map_of ids ''tvdb'')) season episode (language_order cfg language)")
  case None
  with assms(2) have "try_languages env cfg ids (the (map_of ids ''tvdb'')) season episode (the (rc_cache_dir cfg))
      (language_order cfg language) w = (Inr (Some p), w')"
    by (simp add: refsubs_get_def Let_def split: if_splits)
  from languages_land [OF assms(1) this] show ?thesis by (auto simp: list_ex_iff)
next
  case (Some q)
  with assms(2) have "q = p" "w' = w" by (simp_all add: refsubs_get_def Let_def split: if_splits)
  with Some manual_path_found [OF Some] show ?thesis by simp
qed



section \<open>A day of the service\<close>

text \<open>A peer that logs in, finds one file, offers its link and serves it; no file is there at first.\<close>

definition day_http :: "sub_event list \<Rightarrow> sub_request \<Rightarrow> sub_result" where
  "day_http tr rq =
     (if sr_url rq = OPENSUBTITLES_BASE_URL @ ''/login'' then SubResponse 200 (Some (JObj [(''token'', JStr ''t'')])) []
      else if sr_url rq = OPENSUBTITLES_BASE_URL @ ''/subtitles''
      then SubResponse 200 (Some (JObj [(''data'', JList [JObj [(''attributes'',
             JObj [(''download_count'', JInt 3), (''files'', JList [JObj [(''file_id'', JInt 7)]])])]])])) []
      else if sr_url rq = OPENSUBTITLES_BASE_URL @ ''/download''
      then SubResponse 200 (Some (JObj [(''link'', JStr ''u'')])) []
      else SubResponse 200 None ''cues'')"

text \<open>It reads the count where the service writes it.\<close>

definition quota_head :: string where
  "quota_head = ''{'' @ json_string ''date'' @ '': '' @ json_string ''d'' @ '', '' @ json_string ''count'' @ '': ''"

definition day_loads :: "string \<Rightarrow> json res" where
  "day_loads s =
     Inr (JObj (quota_json ''d'' (JInt (int (read_nat (takeWhile is_digit (drop (length quota_head) s)))))))"

definition day_env :: sub_env where
  "day_env = \<lparr>se_http = day_http, se_time = \<lambda>_. 0, se_today = \<lambda>_. ''d'', se_shared = \<lambda>_ x. x, se_waited = \<lambda>_ x. x,
     se_fault = \<lambda>_ _. None, se_temp = \<lambda>_ p. p @ ''.tmp'', se_loads = day_loads, se_float = \<lambda>_. []\<rparr>"

definition day_cfg :: refsubs_config where
  "day_cfg = \<lparr>rc_api_key = Some ''k'', rc_username = Some ''n'', rc_password = Some ''w'', rc_daily_quota = 2,
     rc_cache_dir = Some ''/c'', rc_manual_dir = None, rc_languages = [''en''], rc_min_request_interval = 0\<rparr>"

definition day_world :: subworld where
  "day_world = \<lparr>sw_disk = \<lambda>_. None, sw_token = None, sw_last = None, sw_trace = []\<rparr>"

lemma day_quota_text:
  "quota_text day_env (quota_json ''d'' (JInt (int n))) = quota_head @ show_nat n @ ''}''"
  by (simp add: quota_text_def quota_json_def quota_head_def show_int_def)

lemma day_quota: "quota_day day_env ''d''" "quota_works day_env dir"
proof -
  have "takeWhile is_digit (show_nat n @ ''}'') = show_nat n" for n
    using show_nat_digits [of n] by (subst takeWhile_append2) (auto simp: list_all_iff is_digit_def)
  then have "se_loads day_env (quota_text day_env (quota_json ''d'' (JInt (int n)))) = Inr (JObj (quota_json ''d'' (JInt (int n))))" for n
    unfolding day_quota_text by (simp add: day_env_def day_loads_def read_show_nat)
  then show "quota_day day_env ''d''" unfolding quota_day_def by (simp add: day_env_def)
  show "quota_works day_env dir"
    unfolding quota_works_def by (auto simp: day_env_def day_loads_def quota_json_def)
qed

lemma day_start: "stored_count day_env ''d'' ''/c'' 0 day_world"
  by (simp add: stored_count_def load_quota_def day_world_def day_env_def Let_def quota_json_def)


theorem refsubs_get_never_raises_witness:
  "\<exists>r w'. refsubs_get day_env day_cfg [(''tvdb'', IdInt 1)] 1 2 None day_world = (Inr r, w')"
  by (rule refsubs_get_never_raises) (rule day_quota)

lemma day_run:
  "fst (refsubs_get day_env day_cfg [(''tvdb'', IdInt 1)] 1 2 None day_world) = Inr (Some ''/c/1/S01E02.en.srt'')"
  by code_simp

theorem refsubs_get_exists_witness:
  "sw_disk (snd (refsubs_get day_env day_cfg [(''tvdb'', IdInt 1)] 1 2 None day_world)) ''/c/1/S01E02.en.srt'' \<noteq> None"
proof -
  have "se_temp day_env tr p \<noteq> p" for tr p by (simp add: day_env_def)
  from refsubs_get_exists [OF this, of day_cfg "[(''tvdb'', IdInt 1)]" 1 2 None day_world "''/c/1/S01E02.en.srt''"]
  show ?thesis using day_run prod.collapse by metis
qed

end
