(* ===== verification/Llm.thy ===== *)
theory Llm
  imports Throttle
begin

text \<open>
  \<open>impostarr/llm.py\<close>: the chat-completions client with its ordered failover, and the candidates the
  LLM plugins build from an answer. A client's state is the list of the posts it has sent.
\<close>

section \<open>Providers, posts, answers\<close>

record llm_provider =
  pv_name :: string
  pv_base_url :: string
  pv_model :: string
  pv_api_key :: string

record llm_post =
  lo_url :: string
  lo_headers :: "(string \<times> string) list"
  lo_body :: json

text \<open>An answer: status, text, and what its \<open>json()\<close> gives; an \<open>httpx.HTTPError\<close>; any other exception.\<close>

datatype llm_reply = LlmResponse int string "json res" | LlmHttpError string | LlmRaises exn

text \<open>
  The environment: the peers, \<open>json.loads\<close> (\<open>ValueError\<close> stands for \<open>JSONDecodeError\<close>), the text of a
  float and of an exception, and \<open>float(s)\<close> of a text.
\<close>

record llm_env =
  lm_http :: "llm_post list \<Rightarrow> llm_post \<Rightarrow> llm_reply"
  lm_loads :: "string \<Rightarrow> json res"
  lm_float :: "real \<Rightarrow> string"
  lm_exn :: "exn \<Rightarrow> string"
  lm_float_of :: "string \<Rightarrow> real res"

text \<open>\<open>LlmUnavailable\<close> and \<open>LlmContentError\<close> with their texts; anything else that gets out.\<close>

datatype llm_exn = LUnavailable string | LContent string | LOther exn

type_synonym 'a llm = "llm_post list \<Rightarrow> (llm_exn + 'a) \<times> llm_post list"

type_synonym dict = "(string \<times> json) list"

definition llm_then :: "'a llm \<Rightarrow> ('a \<Rightarrow> 'b llm) \<Rightarrow> 'b llm" where
  "llm_then m f tr = (case m tr of (Inl e, tr1) \<Rightarrow> (Inl e, tr1) | (Inr x, tr1) \<Rightarrow> f x tr1)"

section \<open>The client's HTTP connection\<close>

text \<open>
  A client given at construction belongs to its giver; otherwise one is made when it is first needed,
  and \<open>aclose\<close> closes it. \<open>'c\<close> are the clients; closing yields the one that is closed.
\<close>

record 'c llm_client =
  lc_http :: "'c option"
  lc_owns_http :: bool

definition new_llm_client :: "'c option \<Rightarrow> 'c llm_client" where
  "new_llm_client http = \<lparr>lc_http = http, lc_owns_http = (http = None)\<rparr>"

definition llm_get_http :: "'c \<Rightarrow> 'c llm_client \<Rightarrow> 'c \<times> 'c llm_client" where
  "llm_get_http fresh c =
     (case lc_http c of Some h \<Rightarrow> (h, c) | None \<Rightarrow> (fresh, c\<lparr>lc_http := Some fresh\<rparr>))"

definition llm_aclose :: "'c llm_client \<Rightarrow> 'c option \<times> 'c llm_client" where
  "llm_aclose c =
     (if lc_owns_http c \<and> lc_http c \<noteq> None then (lc_http c, c\<lparr>lc_http := None\<rparr>) else (None, c))"

lemma injected_stays:
  assumes "\<not> lc_owns_http c" "lc_http c = Some h"
  shows "llm_get_http fresh c = (h, c)" "llm_aclose c = (None, c)"
  using assms by (simp_all add: llm_get_http_def llm_aclose_def)

lemma owned_closed:
  assumes "lc_owns_http c" "llm_get_http fresh c = (h, c')"
  shows "fst (llm_aclose c') = Some h" "llm_aclose (snd (llm_aclose c')) = (None, snd (llm_aclose c'))"
  using assms by (auto simp: llm_get_http_def llm_aclose_def split: option.splits)

section \<open>One provider\<close>

definition JSON_REMINDER :: string where
  "JSON_REMINDER = ''Your previous reply was not valid JSON. Reply with valid JSON only.''"

definition UNAVAILABLE_STATUSES :: "int set" where
  "UNAVAILABLE_STATUSES = {401, 402, 403, 429}"

definition chat_message :: "string \<Rightarrow> json \<Rightarrow> json" where
  "chat_message role content = JObj [(''role'', JStr role), (''content'', content)]"

definition chat_post :: "llm_provider \<Rightarrow> json list \<Rightarrow> llm_post" where
  "chat_post pv convo =
     \<lparr>lo_url = rev (dropWhile (\<lambda>c. c = CHR ''/'') (rev (pv_base_url pv))) @ ''/chat/completions'',
      lo_headers = (if pv_api_key pv = [] then [] else [(''Authorization'', ''Bearer '' @ pv_api_key pv)]),
      lo_body = JObj [(''model'', JStr (pv_model pv)), (''messages'', JList convo),
                      (''response_format'', JObj [(''type'', JStr ''json_object'')]), (''temperature'', JInt 0)]\<rparr>"

definition post_once :: "llm_env \<Rightarrow> llm_provider \<Rightarrow> json list \<Rightarrow> (int \<times> string \<times> json res) llm" where
  "post_once env pv convo tr =
     (let rq = chat_post pv convo
      in (case lm_http env tr rq of
            LlmResponse status text j \<Rightarrow> Inr (status, text, j)
          | LlmHttpError m \<Rightarrow> Inl (LUnavailable (pv_name pv @ '': transport error: '' @ m))
          | LlmRaises e \<Rightarrow> Inl (LOther e),
          tr @ [rq]))"

definition post_with_5xx_retry ::
  "llm_env \<Rightarrow> llm_provider \<Rightarrow> json list \<Rightarrow> (int \<times> string \<times> json res) llm" where
  "post_with_5xx_retry env pv convo =
     llm_then (post_once env pv convo) (\<lambda>r.
       if fst r < 500 then Pair (Inr r)
       else
         llm_then (post_once env pv convo) (\<lambda>r.
           if fst r < 500 then Pair (Inr r)
           else Pair (Inl (LUnavailable (pv_name pv @ '': persistent HTTP '' @ show_int (fst r))))))"

text \<open>\<open>error.get("code") or error.get("type") or ""\<close>, as a text.\<close>

definition error_code :: "llm_env \<Rightarrow> dict \<Rightarrow> string" where
  "error_code env error =
     (let pick = (\<lambda>k. case map_of error k of Some j \<Rightarrow> if json_falsy j then None else Some j | None \<Rightarrow> None)
      in case pick ''code'' of
           Some c \<Rightarrow> py_str (lm_float env) c
         | None \<Rightarrow> (case pick ''type'' of Some t \<Rightarrow> py_str (lm_float env) t | None \<Rightarrow> []))"

definition insufficient_quota_body :: "llm_env \<Rightarrow> string \<Rightarrow> bool res" where
  "insufficient_quota_body env text =
     (case lm_loads env text of
        Inl e \<Rightarrow> if e \<in> {ValueError, TypeError} then Inr False else Inl e
      | Inr (JObj data) \<Rightarrow>
          Inr (case map_of data ''error'' of
                 Some (JObj error) \<Rightarrow> sublist ''insufficient_quota'' (error_code env error)
               | _ \<Rightarrow> False)
      | Inr _ \<Rightarrow> Inr False)"

text \<open>\<open>response.json()["choices"][0]["message"]["content"]\<close>.\<close>

definition reply_content :: "json res \<Rightarrow> json res" where
  "reply_content body =
     res_bind body (\<lambda>j.
     res_bind (json_item j ''choices'') (\<lambda>choices.
     res_bind (json_first choices) (\<lambda>choice.
     res_bind (json_item choice ''message'') (\<lambda>message. json_item message ''content''))))"

definition judge_reply :: "llm_env \<Rightarrow> llm_provider \<Rightarrow> int \<times> string \<times> json res \<Rightarrow> llm_exn + json" where
  "judge_reply env pv = (\<lambda>(status, text, body).
     if status \<in> UNAVAILABLE_STATUSES then Inl (LUnavailable (pv_name pv @ '': HTTP '' @ show_int status))
     else
       (case insufficient_quota_body env text of
          Inl e \<Rightarrow> Inl (LOther e)
        | Inr True \<Rightarrow> Inl (LUnavailable (pv_name pv @ '': insufficient quota''))
        | Inr False \<Rightarrow>
            if status \<noteq> 200
            then Inl (LContent (pv_name pv @ '': LLM request failed: HTTP '' @ show_int status))
            else
              (case reply_content body of
                 Inl e \<Rightarrow>
                   if e \<in> {ValueError, KeyError, IndexError, TypeError}
                   then Inl (LContent (pv_name pv @ '': LLM response malformed: '' @ lm_exn env e))
                   else Inl (LOther e)
               | Inr content \<Rightarrow> Inr content)))"

text \<open>The dictionary a content holds, if it holds one.\<close>

definition parse_content :: "llm_env \<Rightarrow> json \<Rightarrow> dict option res" where
  "parse_content env content =
     (case content of
        JStr s \<Rightarrow>
          (case lm_loads env s of
             Inl e \<Rightarrow> if e \<in> {ValueError, TypeError} then Inr None else Inl e
           | Inr (JObj data) \<Rightarrow> Inr (Some data)
           | Inr _ \<Rightarrow> Inr None)
      | _ \<Rightarrow> Inr None)"

type_synonym validator = "(dict \<Rightarrow> bool) option"

definition accepts :: "validator \<Rightarrow> dict option \<Rightarrow> bool" where
  "accepts valid data \<longleftrightarrow> (case data of None \<Rightarrow> False | Some d \<Rightarrow> (case valid of None \<Rightarrow> True | Some v \<Rightarrow> v d))"

fun call_attempts :: "llm_env \<Rightarrow> llm_provider \<Rightarrow> validator \<Rightarrow> nat \<Rightarrow> json list \<Rightarrow> dict llm" where
  "call_attempts env pv valid 0 convo tr =
     (Inl (LContent (pv_name pv @ '': LLM did not return valid JSON after retry'')), tr)"
| "call_attempts env pv valid (Suc n) convo tr =
     llm_then (post_with_5xx_retry env pv convo) (\<lambda>r.
     llm_then (Pair (judge_reply env pv r)) (\<lambda>content tr1.
       case parse_content env content of
         Inl e \<Rightarrow> (Inl (LOther e), tr1)
       | Inr data \<Rightarrow>
           if accepts valid data then (Inr (the data), tr1)
           else call_attempts env pv valid n
                  (convo @ [chat_message ''assistant'' content, chat_message ''user'' (JStr JSON_REMINDER)]) tr1)) tr"

definition call_provider :: "llm_env \<Rightarrow> llm_provider \<Rightarrow> json list \<Rightarrow> validator \<Rightarrow> nat \<Rightarrow> dict llm" where
  "call_provider env pv messages valid max_attempts = call_attempts env pv valid max_attempts messages"

section \<open>Failover\<close>

fun try_providers ::
  "llm_env \<Rightarrow> json list \<Rightarrow> validator \<Rightarrow> nat \<Rightarrow> llm_exn \<Rightarrow> llm_provider list \<Rightarrow> (dict \<times> string) llm" where
  "try_providers env messages valid k last_exc [] tr = (Inl last_exc, tr)"
| "try_providers env messages valid k last_exc (pv # pvs) tr =
     (case call_provider env pv messages valid k tr of
        (Inl (LUnavailable m), tr1) \<Rightarrow> try_providers env messages valid k (LUnavailable m) pvs tr1
      | (Inl e, tr1) \<Rightarrow> (Inl e, tr1)
      | (Inr data, tr1) \<Rightarrow> (Inr (data, pv_name pv), tr1))"

definition chat_json ::
  "llm_env \<Rightarrow> llm_provider list \<Rightarrow> json list \<Rightarrow> validator \<Rightarrow> nat \<Rightarrow> (dict \<times> string) llm" where
  "chat_json env providers messages valid max_attempts =
     (if providers = [] then Pair (Inl (LUnavailable ''no LLM providers configured''))
      else try_providers env messages valid max_attempts (LOther AssertionError) providers)"

section \<open>Episodes out of an answer\<close>

definition episode_json_valid :: "dict \<Rightarrow> bool" where
  "episode_json_valid data \<longleftrightarrow>
     map_of data ''season'' \<noteq> None \<and>
     (case map_of data ''episodes'' of Some (JList es) \<Rightarrow> True | _ \<Rightarrow> False)"

definition claimed_series :: "int \<Rightarrow> int list \<Rightarrow> candidate_ident" where
  "claimed_series season episodes = \<lparr>ci_series = ClaimedSeries, ci_season = season, ci_episodes = episodes\<rparr>"

definition build_episode_candidates ::
  "int \<Rightarrow> int list \<Rightarrow> real \<Rightarrow> int \<Rightarrow> int list \<Rightarrow> dict \<Rightarrow> candidate list res" where
  "build_episode_candidates season episodes confidence claimed_season claimed_episodes evidence =
     res_bind (mk_candidate confidence (Some (claimed_series season episodes)) (Some NTvdb) (JObj evidence)) (\<lambda>c.
       if season = claimed_season \<and> set episodes = set claimed_episodes then Inr [c]
       else
         res_bind (mk_candidate (max 0 (1 - confidence)) (Some (claimed_series claimed_season claimed_episodes))
                     (Some NTvdb) (JObj [(''source'', JStr ''derived'')])) (\<lambda>d. Inr [c, d]))"

end
