(* ===== verification/LlmPlugins.thy ===== *)
theory LlmPlugins
  imports Llm Subtitles SonarrClient
begin

text \<open>
  The bundled plugins \<open>subs-llm\<close> (\<open>impostarr_plugin_subs_llm/plugin.py\<close>) and \<open>transcript-llm\<close>
  (\<open>impostarr_plugin_transcript_llm/plugin.py\<close>): a prompt from the subtitles or the transcript, one
  answer of an LLM, candidates from the answer.
\<close>

section \<open>Configuration\<close>

record llm_config =
  lc_base_url :: string
  lc_model :: string
  lc_api_key :: string
  lc_providers :: "llm_provider list option"

record subs_llm_config = llm_config +
  su_max_cues :: int

record transcript_llm_config = llm_config +
  tc_max_segments :: int
  tc_min_segments :: int

definition DEFAULT_BASE_URL :: string where "DEFAULT_BASE_URL = ''https://api.openai.com/v1''"
definition MAX_LLM_ATTEMPTS :: nat where "MAX_LLM_ATTEMPTS = 2"

definition has_providers :: "'a llm_config_scheme \<Rightarrow> bool" where
  "has_providers cfg \<longleftrightarrow> lc_providers cfg \<noteq> None \<and> lc_providers cfg \<noteq> Some []"

definition resolved_providers :: "'a llm_config_scheme \<Rightarrow> llm_provider list" where
  "resolved_providers cfg =
     (if has_providers cfg then the (lc_providers cfg)
      else [\<lparr>pv_name = ''default'', pv_base_url = lc_base_url cfg, pv_model = lc_model cfg, pv_api_key = lc_api_key cfg\<rparr>])"

definition no_llm_configured :: "'a llm_config_scheme \<Rightarrow> bool" where
  "no_llm_configured cfg \<longleftrightarrow> \<not> has_providers cfg \<and> lc_api_key cfg = [] \<and> lc_base_url cfg = DEFAULT_BASE_URL"

section \<open>The prompt\<close>

definition nl :: string where "nl = [CHR 0x0A]"

text \<open>An em dash, in UTF-8.\<close>

definition em_dash :: string where "em_dash = [CHR 0xE2, CHR 0x80, CHR 0x94]"

text \<open>\<open>ep.get("overview")\<close>: the episodes the pipeline dumps into the context have no such key.\<close>

definition ep_overview :: "episode \<Rightarrow> string option" where
  "ep_overview e = None"

definition season_list :: "series_context \<Rightarrow> claimed_ident \<Rightarrow> episode list" where
  "season_list ctx claimed =
     sort_key ep_episode_number (filter (\<lambda>e. ep_season_number e = cl_season claimed) (sc_episodes ctx))"

definition given :: "string option \<Rightarrow> bool" where
  "given s \<longleftrightarrow> s \<noteq> None \<and> s \<noteq> Some []"

definition titled_line :: "episode \<Rightarrow> string" where
  "titled_line e =
     ''- Episode '' @ show_int (ep_episode_number e) @ '': '' @
     (case ep_title e of None \<Rightarrow> ''None'' | Some t \<Rightarrow> t) @
     (if given (ep_overview e) then '' '' @ em_dash @ '' '' @ the (ep_overview e) else [])"

definition has_titles :: "episode list \<Rightarrow> bool" where
  "has_titles eps \<longleftrightarrow> list_ex (\<lambda>e. given (ep_title e)) eps"

definition episode_list :: "episode list \<Rightarrow> string" where
  "episode_list eps =
     (if has_titles eps then join nl (map titled_line eps)
      else join nl (map (\<lambda>e. ''- Episode '' @ show_int (ep_episode_number e)) eps))"

definition titles_note :: "episode list \<Rightarrow> string" where
  "titles_note eps =
     (if has_titles eps then []
      else nl @ ''(Episode titles are unavailable; only episode numbers are listed.)'')"

definition question :: string where
  \<open>question =
     ''Which episode (season, episode number(s)) is this? Reply with JSON only, in exactly '' @
     ''this form: {"season": <int>, "episodes": [<int>, ...], "confidence": <0..1>, '' @
     ''"reasoning": <string>}.''\<close>

definition season_part :: "series_context \<Rightarrow> claimed_ident \<Rightarrow> string" where
  "season_part ctx claimed =
     (let eps = season_list ctx claimed
      in ''Season '' @ show_int (cl_season claimed) @ '' episodes:'' @ titles_note eps @ nl @ episode_list eps @ nl @ nl)"

definition subs_prompt :: "series_context \<Rightarrow> claimed_ident \<Rightarrow> string list \<Rightarrow> string" where
  \<open>subs_prompt ctx claimed cues =
     ''You are identifying which episode of the TV series "'' @ se_title (sc_series ctx) @ ''" a video file '' @
     ''contains, based on its subtitles.'' @ nl @ nl @
     season_part ctx claimed @
     ''Subtitle excerpt ('' @ show_int (int (length cues)) @ '' cues):'' @ nl @ join nl cues @ nl @ nl @ question\<close>

text \<open>\<open>seg.get("text", "").strip()\<close>.\<close>

definition segment_text :: "json \<Rightarrow> string res" where
  "segment_text seg =
     res_bind (get_or seg ''text'' (JStr [])) (\<lambda>t. case t of JStr s \<Rightarrow> Inr (str_strip s) | _ \<Rightarrow> Inl AttributeError)"

definition transcript_prompt :: "series_context \<Rightarrow> claimed_ident \<Rightarrow> json list \<Rightarrow> string res" where
  \<open>transcript_prompt ctx claimed segments =
     res_map (\<lambda>texts.
       ''You are identifying which episode of the TV series "'' @ se_title (sc_series ctx) @ ''" a video file '' @
       ''contains, based on a whisper transcript of its audio. This is an automatic speech '' @
       ''recognition transcript; expect errors -- misheard words, run-on or truncated '' @
       ''sentences, and no speaker labels. Weigh the overall content and events described '' @
       ''over exact wording.'' @ nl @ nl @
       season_part ctx claimed @
       ''Transcript excerpt ('' @ show_int (int (length segments)) @ '' segments):'' @ nl @ join nl texts @ nl @ nl @
       question)
     (traverse segment_text segments)\<close>

section \<open>The answer\<close>

definition clamp01 :: "real \<Rightarrow> real" where
  "clamp01 x = max 0 (min 1 x)"

definition provider_model :: "'a llm_config_scheme \<Rightarrow> string \<Rightarrow> string" where
  "provider_model cfg name =
     (case find (\<lambda>p. pv_name p = name) (resolved_providers cfg) of Some p \<Rightarrow> pv_model p | None \<Rightarrow> lc_model cfg)"

text \<open>From the answer's dictionary to the candidates; \<open>what\<close> is the key under which the size of the excerpt goes.\<close>

definition answer_candidates ::
  "llm_env \<Rightarrow> 'a llm_config_scheme \<Rightarrow> claimed_ident \<Rightarrow> string \<Rightarrow> nat \<Rightarrow> dict \<times> string \<Rightarrow> candidate list res" where
  "answer_candidates env cfg claimed what n = (\<lambda>(data, name).
     res_bind (res_bind (json_item (JObj data) ''season'') py_int) (\<lambda>season.
     res_bind (res_bind (res_bind (json_item (JObj data) ''episodes'') json_iter) (traverse py_int)) (\<lambda>episodes.
     res_bind (res_bind (get_or (JObj data) ''confidence'' (JFloat 0)) (json_float (lm_float_of env))) (\<lambda>confidence.
     res_bind (get_or (JObj data) ''reasoning'' (JStr [])) (\<lambda>reasoning.
       build_episode_candidates season episodes (clamp01 confidence) (cl_season claimed) (cl_episodes claimed)
         [(''reasoning'', JStr (py_str (lm_float env) reasoning)), (what, JInt (int n)),
          (''model'', JStr (provider_model cfg name)), (''provider'', JStr name)])))))"

text \<open>\<open>except (KeyError, TypeError, ValueError)\<close>; pydantic's \<open>ValidationError\<close> is a \<open>ValueError\<close>.\<close>

definition unusable :: "exn \<Rightarrow> bool" where
  "unusable e \<longleftrightarrow> e \<in> {KeyError, TypeError, ValueError, ValidationError}"

definition failure_reason :: "llm_env \<Rightarrow> string \<Rightarrow> llm_exn \<Rightarrow> string" where
  "failure_reason env plugin e =
     (case e of
        LUnavailable m \<Rightarrow> m
      | LContent m \<Rightarrow> m
      | LOther e \<Rightarrow>
          if unusable e then ''malformed LLM response: '' @ lm_exn env e
          else plugin @ '' failed: '' @ lm_exn env e)"

definition ask :: "llm_env \<Rightarrow> 'a llm_config_scheme \<Rightarrow> string \<Rightarrow> (dict \<times> string) llm" where
  "ask env cfg prompt =
     chat_json env (resolved_providers cfg) [chat_message ''user'' (JStr prompt)] (Some episode_json_valid) MAX_LLM_ATTEMPTS"

definition answer_result ::
  "llm_env \<Rightarrow> 'a llm_config_scheme \<Rightarrow> claimed_ident \<Rightarrow> string \<Rightarrow> string \<Rightarrow> nat \<Rightarrow> string \<Rightarrow> llm_post list
     \<Rightarrow> plugin_result res \<times> llm_post list" where
  "answer_result env cfg claimed plugin what n prompt tr =
     (case ask env cfg prompt tr of
        (Inl e, tr1) \<Rightarrow> (mk_plugin_result PError (Some (failure_reason env plugin e)) [], tr1)
      | (Inr answer, tr1) \<Rightarrow>
          (case answer_candidates env cfg claimed what n answer of
             Inl e \<Rightarrow> (mk_plugin_result PError (Some (failure_reason env plugin (LOther e))) [], tr1)
           | Inr cs \<Rightarrow> (mk_plugin_result POk None cs, tr1)))"

section \<open>The plugins\<close>

definition abstain :: "string \<Rightarrow> 's \<Rightarrow> plugin_result res \<times> 's" where
  "abstain reason tr = (mk_plugin_result PAbstain (Some reason) [], tr)"

definition first_srt :: "string list \<Rightarrow> string option" where
  "first_srt paths = find (\<lambda>p. suffix ''.srt'' (str_lower p)) paths"

definition subs_llm_identify ::
  "llm_env \<Rightarrow> (string \<Rightarrow> string res) \<Rightarrow> subs_llm_config \<Rightarrow> claimed_ident \<Rightarrow> asset_bundle \<Rightarrow> series_context
     \<Rightarrow> llm_post list \<Rightarrow> plugin_result res \<times> llm_post list" where
  "subs_llm_identify env read cfg claimed assets ctx tr =
     (if ab_sub_paths assets = [] then abstain ''no embedded subtitles'' tr
      else
        (case first_srt (ab_sub_paths assets) of
           None \<Rightarrow> abstain ''PGS/VobSub OCR not supported in PoC'' tr
         | Some p \<Rightarrow>
             if no_llm_configured cfg then abstain ''no LLM configured'' tr
             else
               (case read p of
                  Inl e \<Rightarrow> (Inl e, tr)
                | Inr text \<Rightarrow>
                    let cues = take (nat (su_max_cues cfg)) (parse_srt text)
                    in answer_result env cfg claimed ''subs-llm'' ''cue_count'' (length cues)
                         (subs_prompt ctx claimed cues) tr)))"

text \<open>\<open>transcript.get("segments") or []\<close>, its length, and its first \<open>n\<close>.\<close>

definition segments_of :: "json \<Rightarrow> json res" where
  "segments_of t = res_map (\<lambda>s. if json_falsy s then JList [] else s) (get_or t ''segments'' JNull)"

fun json_len :: "json \<Rightarrow> int res" where
  "json_len (JList xs) = Inr (int (length xs))"
| "json_len (JStr s) = Inr (int (length s))"
| "json_len (JObj kvs) = Inr (int (length kvs))"
| "json_len _ = Inl TypeError"

fun json_take :: "nat \<Rightarrow> json \<Rightarrow> json list res" where
  "json_take n (JList xs) = Inr (take n xs)"
| "json_take n (JStr s) = Inr (map (\<lambda>c. JStr [c]) (take n s))"
| "json_take n (JObj kvs) = Inl KeyError"
| "json_take n _ = Inl TypeError"

definition no_transcript :: "json option \<Rightarrow> bool" where
  "no_transcript t \<longleftrightarrow> (case t of None \<Rightarrow> True | Some j \<Rightarrow> json_falsy j)"

definition transcript_llm_identify ::
  "llm_env \<Rightarrow> transcript_llm_config \<Rightarrow> claimed_ident \<Rightarrow> asset_bundle \<Rightarrow> series_context
     \<Rightarrow> llm_post list \<Rightarrow> plugin_result res \<times> llm_post list" where
  "transcript_llm_identify env cfg claimed assets ctx tr =
     (if no_transcript (ab_transcript assets) then abstain ''no transcript'' tr
      else
        (case res_bind (segments_of (the (ab_transcript assets))) (\<lambda>s. res_map (Pair s) (json_len s)) of
           Inl e \<Rightarrow> (Inl e, tr)
         | Inr (s, n) \<Rightarrow>
             if n < tc_min_segments cfg then abstain ''transcript too short'' tr
             else if no_llm_configured cfg then abstain ''no LLM configured'' tr
             else
               (case res_bind (json_take (nat (tc_max_segments cfg)) s)
                       (\<lambda>segs. res_map (Pair segs) (transcript_prompt ctx claimed segs)) of
                  Inl e \<Rightarrow> (Inl e, tr)
                | Inr (segs, prompt) \<Rightarrow>
                    answer_result env cfg claimed ''transcript-llm'' ''segment_count'' (length segs) prompt tr)))"

end
