(* ===== verification/WhisperSubs.thy ===== *)
theory WhisperSubs
  imports LlmPlugins RefSubs
begin

text \<open>
  The bundled plugin \<open>whisper-subs\<close> (\<open>impostarr_plugin_whisper_subs/plugin.py\<close>): the transcript against
  reference subtitles of the episodes next to the claimed one. \<open>rapidfuzz\<close> is a parameter.
\<close>

section \<open>Text\<close>

text \<open>
  \<open>re.sub(r"<[^>]+>", "", s)\<close> and its like: a span opens, holds at least so many characters other than
  the closing one, and closes.
\<close>

function strip_spans :: "char \<Rightarrow> char \<Rightarrow> nat \<Rightarrow> string \<Rightarrow> string" where
  "strip_spans a b least [] = []"
| "strip_spans a b least (c # cs) =
     (let n = length (takeWhile (\<lambda>x. x \<noteq> b) cs)
      in if c = a \<and> least \<le> n \<and> n < length cs then strip_spans a b least (drop (n + 1) cs)
         else c # strip_spans a b least cs)"
  by pat_completeness auto

termination
  by (relation "measure (\<lambda>(a, b, least, s). length s)") auto

text \<open>\<open>\w\<close> in 8-bit text: letters, numbers of any kind, the underscore.\<close>

definition is_word :: "char \<Rightarrow> bool" where
  "is_word c \<longleftrightarrow>
     (let n = (of_char c :: nat)
      in (48 \<le> n \<and> n \<le> 57) \<or> (65 \<le> n \<and> n \<le> 90) \<or> n = 95 \<or> (97 \<le> n \<and> n \<le> 122) \<or>
         n \<in> {170, 178, 179, 181, 185, 186, 188, 189, 190} \<or> (192 \<le> n \<and> n \<noteq> 215 \<and> n \<noteq> 247))"

function squeeze :: "string \<Rightarrow> string" where
  "squeeze [] = []"
| "squeeze (c # cs) = (if is_space c then CHR '' '' # squeeze (dropWhile is_space cs) else c # squeeze cs)"
  by pat_completeness auto

termination
  by (relation "measure length") (auto simp: less_Suc_eq_le length_dropWhile_le)

definition normalize_text :: "string \<Rightarrow> string" where
  "normalize_text s =
     (let s1 = strip_spans (CHR ''<'') (CHR ''>'') 1 s;
          s2 = str_lower (strip_spans (CHR ''{'') (CHR ''}'') 0 s1);
          s3 = filter (\<lambda>c. is_word c \<or> is_space c) s2
      in str_strip (squeeze s3))"

text \<open>\<open>S\d+E\d+\.([A-Za-z]{2,3})\.srt$\<close> at the start of the text; the dollar also matches before a last line feed.\<close>

definition is_letter :: "char \<Rightarrow> bool" where
  "is_letter c \<longleftrightarrow> (let n = (of_char c :: nat) in (65 \<le> n \<and> n \<le> 90) \<or> (97 \<le> n \<and> n \<le> 122))"

definition digits_from :: "string \<Rightarrow> string option" where
  "digits_from s = (if takeWhile is_digit s = [] then None else Some (dropWhile is_digit s))"

definition language_at :: "string \<Rightarrow> string option" where
  "language_at s =
     Option.bind (char_at ''S'' s) (\<lambda>s.
     Option.bind (digits_from s) (\<lambda>s.
     Option.bind (char_at ''E'' s) (\<lambda>s.
     Option.bind (digits_from s) (\<lambda>s.
     Option.bind (char_at ''.'' s) (\<lambda>s.
       let l = takeWhile is_letter s; rest = dropWhile is_letter s
       in if length l \<in> {2, 3} \<and> (rest = ''.srt'' \<or> rest = ''.srt'' @ nl) then Some l else None)))))"

fun language_search :: "string \<Rightarrow> string option" where
  "language_search [] = None"
| "language_search (c # cs) = (case language_at (c # cs) of Some l \<Rightarrow> Some l | None \<Rightarrow> language_search cs)"

definition refsub_language :: "string \<Rightarrow> string option" where
  "refsub_language p = language_search (path_name (mk_path p))"

section \<open>Comparison\<close>

record whisper_config =
  ws_min_lines :: int
  ws_min_compared :: int

definition default_whisper :: whisper_config where
  "default_whisper = \<lparr>ws_min_lines = 20, ws_min_compared = 10\<rparr>"

definition MAX_CANDIDATES :: nat where "MAX_CANDIDATES = 10"
definition LINE_HIT_THRESHOLD :: real where "LINE_HIT_THRESHOLD = 70"

text \<open>\<open>_normalize(seg.get("text", ""))\<close>; \<open>re.sub\<close> refuses what is not a text.\<close>

definition normal_segment :: "json \<Rightarrow> string res" where
  "normal_segment seg =
     res_bind (get_or seg ''text'' (JStr [])) (\<lambda>t. case t of JStr s \<Rightarrow> Inr (normalize_text s) | _ \<Rightarrow> Inl TypeError)"

text \<open>\<open>ratio\<close> is \<open>rapidfuzz.fuzz.token_set_ratio\<close>, from 0 to 100.\<close>

definition match_ratio ::
  "(string \<Rightarrow> string \<Rightarrow> real) \<Rightarrow> json list \<Rightarrow> string list \<Rightarrow> (real \<times> nat) res" where
  "match_ratio ratio segments srt_lines =
     res_map (\<lambda>texts.
       let transcript_lines = filter (\<lambda>l. l \<noteq> []) texts;
           norm_srt = filter (\<lambda>l. l \<noteq> []) (map normalize_text srt_lines)
       in if transcript_lines = [] \<or> norm_srt = [] then (0, length norm_srt)
          else
            let full_ratio = ratio (join '' '' transcript_lines) (join '' '' norm_srt) / 100;
                hits = length (filter (\<lambda>l. list_ex (\<lambda>seg. ratio l seg \<ge> LINE_HIT_THRESHOLD) transcript_lines) norm_srt);
                hit_rate = of_nat hits / of_nat (length norm_srt)
            in (1/2 * full_ratio + 1/2 * hit_rate, length norm_srt))
     (traverse normal_segment segments)"

definition series_ext_ids :: "series \<Rightarrow> ext_ids" where
  "series_ext_ids s =
     (case se_tvdb_id s of None \<Rightarrow> [] | Some i \<Rightarrow> [(''tvdb'', IdInt i)]) @
     (case se_tmdb_id s of None \<Rightarrow> [] | Some i \<Rightarrow> [(''tmdb'', IdInt i)]) @
     (case se_imdb_id s of None \<Rightarrow> [] | Some i \<Rightarrow> [(''imdb'', IdStr i)]) @
     (if se_title s = [] then [] else [(''title'', IdStr (se_title s))])"

section \<open>The reference subtitles\<close>

text \<open>
  The service as the plugin's concurrent calls find it: the world when the \<open>i\<close>-th call's task starts,
  after whatever the others have done; what they do later is in the environment. If calls raise,
  \<open>gather\<close> raises what was raised first.
\<close>

record sub_service =
  ss_env :: sub_env
  ss_cfg :: refsubs_config
  ss_start :: "nat \<Rightarrow> subworld"
  ss_first :: "exn list \<Rightarrow> exn"

definition service_get ::
  "sub_service \<Rightarrow> ext_ids \<Rightarrow> int \<Rightarrow> string option \<Rightarrow> nat \<times> episode \<Rightarrow> string option res" where
  "service_get sv ids season language = (\<lambda>(i, e).
     fst (refsubs_get (ss_env sv) (ss_cfg sv) ids season (ep_episode_number e) language (ss_start sv i)))"

fun failed :: "'a res list \<Rightarrow> exn list" where
  "failed [] = []"
| "failed (Inl e # rs) = e # failed rs"
| "failed (Inr x # rs) = failed rs"

fun succeeded :: "'a res list \<Rightarrow> 'a list" where
  "succeeded [] = []"
| "succeeded (Inl e # rs) = succeeded rs"
| "succeeded (Inr x # rs) = x # succeeded rs"

definition gather_subs ::
  "sub_service option \<Rightarrow> ext_ids \<Rightarrow> int \<Rightarrow> string option \<Rightarrow> episode list \<Rightarrow> string option list res" where
  "gather_subs svc ids season language eps =
     (case svc of
        None \<Rightarrow> if eps = [] then Inr [] else Inl AttributeError
      | Some sv \<Rightarrow>
          let rs = map (service_get sv ids season language) (enumerate 0 eps)
          in if failed rs = [] then Inr (succeeded rs) else Inl (ss_first sv (failed rs)))"

section \<open>The plugin\<close>

record whisper_env =
  we_service :: "sub_service option"
  we_read :: "string \<Rightarrow> string res"
  we_ratio :: "string \<Rightarrow> string \<Rightarrow> real"
  we_exn :: "exn \<Rightarrow> string"

text \<open>\<open>min(abs(ep["episode_number"] - c) for c in claimed.episodes)\<close>.\<close>

definition distance :: "claimed_ident \<Rightarrow> episode \<Rightarrow> int" where
  "distance claimed e = min_list (map (\<lambda>c. \<bar>ep_episode_number e - c\<bar>) (cl_episodes claimed))"

definition nearest :: "series_context \<Rightarrow> claimed_ident \<Rightarrow> episode list res" where
  "nearest ctx claimed =
     (let eps = filter (\<lambda>e. ep_season_number e = cl_season claimed) (sc_episodes ctx)
      in if eps \<noteq> [] \<and> cl_episodes claimed = [] then Inl ValueError
         else Inr (take MAX_CANDIDATES (sort_key (distance claimed) eps)))"

text \<open>\<open>transcript.get("language") or None\<close>; the language is a text by \<open>TranscriptResult\<close>.\<close>

definition transcript_language :: "json \<Rightarrow> string option" where
  "transcript_language t =
     (case json_get t ''language'' of Inr (Some (JStr l)) \<Rightarrow> if l = [] then None else Some l | _ \<Rightarrow> None)"

definition compare_one ::
  "whisper_env \<Rightarrow> whisper_config \<Rightarrow> claimed_ident \<Rightarrow> json \<Rightarrow> episode \<Rightarrow> string \<Rightarrow> candidate res" where
  "compare_one env cfg claimed segments e p =
     res_bind (we_read env p) (\<lambda>text.
     res_bind (json_iter segments) (\<lambda>segs.
     res_bind (match_ratio (we_ratio env) segs (parse_srt text)) (\<lambda>(ratio, compared).
       let discount = min 1 (of_nat compared / of_int (ws_min_compared cfg))
       in mk_candidate (ratio * discount) (Some (claimed_series (cl_season claimed) [ep_episode_number e])) (Some NTvdb)
            (JObj [(''match_ratio'', JFloat ratio), (''compared_lines'', JInt (int compared)), (''refsub_path'', JStr p),
                   (''refsub_language'', json_opt JStr (refsub_language p)), (''thin_refsub_discount'', JFloat discount)]))))"

fun compare_all ::
  "whisper_env \<Rightarrow> whisper_config \<Rightarrow> claimed_ident \<Rightarrow> json \<Rightarrow> (episode \<times> string option) list
     \<Rightarrow> candidate list \<times> bool \<Rightarrow> (candidate list \<times> bool) res" where
  "compare_all env cfg claimed segments [] acc = Inr acc"
| "compare_all env cfg claimed segments ((e, None) # rest) acc = compare_all env cfg claimed segments rest acc"
| "compare_all env cfg claimed segments ((e, Some p) # rest) acc =
     res_bind (compare_one env cfg claimed segments e p) (\<lambda>c.
       compare_all env cfg claimed segments rest
         (fst acc @ [c], snd acc \<or> ep_episode_number e \<in> set (cl_episodes claimed)))"

definition compare_window ::
  "whisper_env \<Rightarrow> whisper_config \<Rightarrow> claimed_ident \<Rightarrow> series_context \<Rightarrow> json \<Rightarrow> json \<Rightarrow> episode list
     \<Rightarrow> (candidate list \<times> bool) res" where
  "compare_window env cfg claimed ctx transcript segments eps =
     res_bind (gather_subs (we_service env) (series_ext_ids (sc_series ctx)) (cl_season claimed)
                 (transcript_language transcript) eps) (\<lambda>paths.
       compare_all env cfg claimed segments (zip eps paths) ([], False))"

definition whisper_identify ::
  "whisper_env \<Rightarrow> whisper_config \<Rightarrow> claimed_ident \<Rightarrow> asset_bundle \<Rightarrow> series_context \<Rightarrow> plugin_result res" where
  "whisper_identify env cfg claimed assets ctx =
     (if no_transcript (ab_transcript assets) then mk_plugin_result PAbstain (Some ''no transcript'') []
      else
        let transcript = the (ab_transcript assets)
        in res_bind (segments_of transcript) (\<lambda>segments.
           res_bind (json_len segments) (\<lambda>n.
             if n < ws_min_lines cfg then mk_plugin_result PAbstain (Some ''transcript too short'') []
             else
               res_bind (nearest ctx claimed) (\<lambda>eps.
                 case compare_window env cfg claimed ctx transcript segments eps of
                   Inl e \<Rightarrow> mk_plugin_result PError (Some (''comparison failed: '' @ we_exn env e)) []
                 | Inr (candidates, covered) \<Rightarrow>
                     if candidates = [] then mk_plugin_result PAbstain (Some ''no reference subtitles'') []
                     else if \<not> covered
                     then mk_plugin_result PAbstain (Some ''no reference subtitles for the claimed episode'') []
                     else mk_plugin_result POk None (sort_key (\<lambda>c. - ca_confidence c) candidates)))))"

section \<open>The bundled plugins together\<close>

text \<open>What the plugins' calls meet, at each point of the pipeline's run; other plugins are third parties.\<close>

record bundle_env =
  bu_llm :: llm_env
  bu_posts :: "llm_post list"
  bu_read :: "string \<Rightarrow> string res"
  bu_whisper :: whisper_env
  bu_other :: "string \<Rightarrow> claimed_ident \<Rightarrow> asset_bundle \<Rightarrow> series_context \<Rightarrow> plugin_result res"

record bundle_config =
  bc_subs :: subs_llm_config
  bc_transcript :: transcript_llm_config
  bc_whisper :: whisper_config

definition bundled_identify ::
  "bundle_env \<Rightarrow> bundle_config \<Rightarrow> string \<Rightarrow> claimed_ident \<Rightarrow> asset_bundle \<Rightarrow> series_context \<Rightarrow> plugin_result res" where
  "bundled_identify env cfg name claimed assets ctx =
     (if name = ''subs-llm''
      then fst (subs_llm_identify (bu_llm env) (bu_read env) (bc_subs cfg) claimed assets ctx (bu_posts env))
      else if name = ''transcript-llm''
      then fst (transcript_llm_identify (bu_llm env) (bc_transcript cfg) claimed assets ctx (bu_posts env))
      else if name = ''whisper-subs'' then whisper_identify (bu_whisper env) (bc_whisper cfg) claimed assets ctx
      else bu_other env name claimed assets ctx)"

end
