(* ===== verification/LlmSpec.thy ===== *)
theory LlmSpec
  imports WhisperSubs PluginSpec "HOL-Library.Multiset"
begin

text \<open>
  The properties of the LLM client and of the bundled plugins: exact failover, which posts are sent to
  whom, and that the plugins keep the contract the pipeline relies on.
\<close>

section \<open>Failover\<close>

text \<open>Providers that are passed over: each is called on the posts so far and turns out unavailable.\<close>

fun passed_over ::
  "llm_env \<Rightarrow> json list \<Rightarrow> validator \<Rightarrow> nat \<Rightarrow> llm_provider list \<Rightarrow> llm_post list \<Rightarrow> llm_post list option" where
  "passed_over env msgs valid k [] tr = Some tr"
| "passed_over env msgs valid k (pv # pvs) tr =
     (case call_provider env pv msgs valid k tr of
        (Inl (LUnavailable m), tr1) \<Rightarrow> passed_over env msgs valid k pvs tr1
      | _ \<Rightarrow> None)"

text \<open>What a provider that is not passed over settles.\<close>

fun settled_by :: "llm_provider \<Rightarrow> llm_exn + dict \<Rightarrow> (llm_exn + dict \<times> string) option" where
  "settled_by pv (Inl (LUnavailable m)) = None"
| "settled_by pv (Inl (LContent m)) = Some (Inl (LContent m))"
| "settled_by pv (Inl (LOther e)) = Some (Inl (LOther e))"
| "settled_by pv (Inr data) = Some (Inr (data, pv_name pv))"

text \<open>The outcome is that of the first provider not passed over, and nothing is sent after its call.\<close>

definition settles ::
  "llm_env \<Rightarrow> json list \<Rightarrow> validator \<Rightarrow> nat \<Rightarrow> llm_provider list \<Rightarrow> llm_post list \<Rightarrow> llm_exn + dict \<times> string
     \<Rightarrow> llm_post list \<Rightarrow> bool" where
  "settles env msgs valid k pvs tr r tr' \<longleftrightarrow>
     (\<exists>pre pv post tr1 x. pvs = pre @ pv # post \<and> passed_over env msgs valid k pre tr = Some tr1 \<and>
        call_provider env pv msgs valid k tr1 = (x, tr') \<and> settled_by pv x = Some r)"

lemma settles_later:
  assumes "call_provider env p msgs valid k tr = (Inl (LUnavailable m), tr1)" "settles env msgs valid k ps tr1 r tr'"
  shows "settles env msgs valid k (p # ps) tr r tr'"
proof -
  obtain pre pv post tr0 x where "ps = pre @ pv # post" "passed_over env msgs valid k pre tr1 = Some tr0"
    "call_provider env pv msgs valid k tr0 = (x, tr')" "settled_by pv x = Some r"
    using assms(2) unfolding settles_def by blast
  with assms(1) have "p # ps = (p # pre) @ pv # post \<and> passed_over env msgs valid k (p # pre) tr = Some tr0 \<and>
      call_provider env pv msgs valid k tr0 = (x, tr') \<and> settled_by pv x = Some r" by simp
  then show ?thesis unfolding settles_def by blast
qed

lemma settles_first:
  assumes "call_provider env p msgs valid k tr = (x, tr')" "settled_by p x = Some r"
  shows "settles env msgs valid k (p # ps) tr r tr'"
proof -
  from assms have "p # ps = [] @ p # ps \<and> passed_over env msgs valid k [] tr = Some tr \<and>
      call_provider env p msgs valid k tr = (x, tr') \<and> settled_by p x = Some r" by simp
  then show ?thesis unfolding settles_def by blast
qed

lemma settled_not_unavailable: "settled_by pv x \<noteq> Some (Inl (LUnavailable m))"
  by (cases "(pv, x)" rule: settled_by.cases) auto

lemma try_providers_cases:
  assumes "try_providers env msgs valid k l pvs tr = (r, tr')"
  shows "passed_over env msgs valid k pvs tr = Some tr' \<and> (r = Inl l \<and> pvs = [] \<or> (\<exists>m. r = Inl (LUnavailable m))) \<or>
     settles env msgs valid k pvs tr r tr'"
  using assms
proof (induction pvs arbitrary: l tr)
  case (Cons p ps)
  obtain x tr1 where c: "call_provider env p msgs valid k tr = (x, tr1)" by fastforce
  show ?case
  proof (cases "\<exists>m. x = Inl (LUnavailable m)")
    case True
    then obtain m where m: "x = Inl (LUnavailable m)" by blast
    with Cons.prems c have "try_providers env msgs valid k (LUnavailable m) ps tr1 = (r, tr')" by simp
    from Cons.IH [OF this] c m settles_later show ?thesis by fastforce
  next
    case False
    with Cons.prems c have e: "tr' = tr1" "settled_by p x = Some r"
      by (cases "(p, x)" rule: settled_by.cases; auto)+
    from settles_first [OF c [folded e(1)] e(2)] show ?thesis by blast
  qed
qed simp

text \<open>C22: Failover is exact: a chat answers \<open>LlmUnavailable\<close> only after every configured provider was asked, in
  order, and turned out unavailable. Any other outcome, the answer or a content failure, is that of the
  first provider that is not unavailable; those before it were passed over, those after it never asked.\<close>

theorem failover_exact:
  "case chat_json env pvs msgs valid k tr of
     (Inl (LUnavailable m), tr') \<Rightarrow> passed_over env msgs valid k pvs tr = Some tr'
   | (r, tr') \<Rightarrow> settles env msgs valid k pvs tr r tr'"
proof (cases "pvs = []")
  case False
  obtain r tr' where t: "try_providers env msgs valid k (LOther AssertionError) pvs tr = (r, tr')" by fastforce
  show ?thesis
  proof (cases "\<exists>m. r = Inl (LUnavailable m)")
    case True
    with try_providers_cases [OF t] False show ?thesis
      by (auto simp: chat_json_def t settles_def settled_not_unavailable)
  next
    case no: False
    with try_providers_cases [OF t] False have "settles env msgs valid k pvs tr r tr'" by auto
    with no False show ?thesis by (auto simp: chat_json_def t split: sum.split llm_exn.split)
  qed
qed (simp add: chat_json_def)

section \<open>Which posts are sent\<close>

text \<open>The posts of one provider's calls: a bounded number, each to its URL, with its key and its model.\<close>

definition its_posts :: "llm_provider \<Rightarrow> json list \<Rightarrow> nat \<Rightarrow> llm_post list \<Rightarrow> bool" where
  "its_posts pv msgs n ps \<longleftrightarrow> length ps \<le> n \<and> list_all (\<lambda>rq. \<exists>ext. rq = chat_post pv (msgs @ ext)) ps"

lemma its_posts_append:
  "\<lbrakk>its_posts pv msgs m ps; its_posts pv msgs n qs\<rbrakk> \<Longrightarrow> its_posts pv msgs (m + n) (ps @ qs)"
  by (auto simp: its_posts_def)

lemma its_posts_more: "\<lbrakk>its_posts pv (msgs @ ext) m ps; m \<le> n\<rbrakk> \<Longrightarrow> its_posts pv msgs n ps"
  by (fastforce simp: its_posts_def list_all_iff)

lemma retry_posts:
  assumes "post_with_5xx_retry env pv convo tr = (r, tr')"
  shows "\<exists>ps. tr' = tr @ ps \<and> its_posts pv convo 2 ps"
proof -
  have one: "\<exists>x. post_once env pv convo tr = (x, tr @ [chat_post pv convo])" for tr
    by (simp add: post_once_def Let_def)
  have here: "its_posts pv convo 2 [chat_post pv convo]" "its_posts pv convo 2 [chat_post pv convo, chat_post pv convo]"
    by (auto simp: its_posts_def intro: exI [of _ "[]"])
  obtain x y where "post_once env pv convo tr = (x, tr @ [chat_post pv convo])"
    "post_once env pv convo (tr @ [chat_post pv convo]) = (y, tr @ [chat_post pv convo, chat_post pv convo])"
    using one [of tr] one [of "tr @ [chat_post pv convo]"] by auto
  with assms have "tr' = tr @ [chat_post pv convo] \<or> tr' = tr @ [chat_post pv convo, chat_post pv convo]"
    by (auto simp: post_with_5xx_retry_def llm_then_def split: sum.splits if_splits)
  with here show ?thesis by blast
qed

lemma attempts_posts:
  assumes "call_attempts env pv valid k convo tr = (r, tr')"
  shows "\<exists>ps. tr' = tr @ ps \<and> its_posts pv convo (2 * k) ps"
  using assms
proof (induction k arbitrary: convo tr)
  case 0
  then show ?case by (auto simp: its_posts_def)
next
  case (Suc k)
  obtain x tr1 where p: "post_with_5xx_retry env pv convo tr = (x, tr1)" by fastforce
  obtain ps where ps: "tr1 = tr @ ps" "its_posts pv convo 2 ps" using retry_posts [OF p] by blast
  show ?case
  proof (cases "tr' = tr1")
    case True
    with ps show ?thesis by (intro exI [of _ ps]) (auto simp: its_posts_def)
  next
    case False
    with Suc.prems p obtain ext where "call_attempts env pv valid k (convo @ ext) tr1 = (r, tr')"
      by (auto simp: llm_then_def split: sum.splits if_splits)
    from Suc.IH [OF this] obtain qs where "tr' = tr1 @ qs" "its_posts pv (convo @ ext) (2 * k) qs" by blast
    with ps have "tr' = tr @ (ps @ qs) \<and> its_posts pv convo (2 + 2 * k) (ps @ qs)"
      using its_posts_append [OF ps(2) its_posts_more [of pv convo ext "2 * k" qs "2 * k"]] by simp
    then show ?thesis by auto
  qed
qed

text \<open>A chat is bounded and keeps the providers apart: whatever is answered, the posts sent are at most
  two for each attempt of each provider, in the providers' order, and every post carries one
  provider's URL, key and model together, with the caller's messages first.\<close>

theorem chat_posts_bounded:
  "\<exists>blocks. snd (chat_json env pvs msgs valid k tr) = tr @ concat blocks \<and> length blocks \<le> length pvs \<and>
     list_all2 (\<lambda>pv ps. its_posts pv msgs (2 * k) ps) (take (length blocks) pvs) blocks"
proof -
  have "\<exists>blocks. snd (try_providers env msgs valid k l pvs tr) = tr @ concat blocks \<and> length blocks \<le> length pvs \<and>
     list_all2 (\<lambda>pv ps. its_posts pv msgs (2 * k) ps) (take (length blocks) pvs) blocks" for l
  proof (induction pvs arbitrary: l tr)
    case Nil
    then show ?case by (intro exI [of _ "[]"]) simp
  next
    case (Cons p ps)
    obtain x tr1 where c: "call_provider env p msgs valid k tr = (x, tr1)" by fastforce
    then obtain qs where qs: "tr1 = tr @ qs" "its_posts p msgs (2 * k) qs"
      using attempts_posts unfolding call_provider_def by blast
    show ?case
    proof (cases "\<exists>m. x = Inl (LUnavailable m)")
      case True
      then obtain m where m: "x = Inl (LUnavailable m)" by blast
      from Cons.IH [where l = "LUnavailable m" and tr = tr1] obtain blocks where
        "snd (try_providers env msgs valid k (LUnavailable m) ps tr1) = tr1 @ concat blocks" "length blocks \<le> length ps"
        "list_all2 (\<lambda>pv ps. its_posts pv msgs (2 * k) ps) (take (length blocks) ps) blocks" by blast
      with c m qs show ?thesis by (intro exI [of _ "qs # blocks"]) simp
    next
      case False
      with c have "snd (try_providers env msgs valid k l (p # ps) tr) = tr1"
        by (auto split: sum.split llm_exn.split)
      with qs show ?thesis by (intro exI [of _ "[qs]"]) simp
    qed
  qed
  then show ?thesis by (cases "pvs = []") (auto simp: chat_json_def intro: exI [of _ "[]"])
qed


section \<open>The LLM plugins' results\<close>

text \<open>Every failure of a chat comes with a text.\<close>

fun told :: "llm_exn + 'a \<Rightarrow> bool" where
  "told (Inl (LUnavailable m)) \<longleftrightarrow> m \<noteq> []"
| "told (Inl (LContent m)) \<longleftrightarrow> m \<noteq> []"
| "told _ \<longleftrightarrow> True"

lemma told_then:
  assumes "llm_then m f tr = (r, tr')" "told (fst (m tr))" "\<And>x tr1. told (fst (f x tr1))"
  shows "told r"
proof (cases "m tr")
  case (Pair y tr1)
  show ?thesis
  proof (cases y)
    case (Inl e)
    with assms(1,2) Pair show ?thesis by (cases e) (auto simp: llm_then_def)
  next
    case (Inr x)
    with assms(1) Pair assms(3) [of x tr1] show ?thesis by (auto simp: llm_then_def)
  qed
qed

lemma told_retry: "told (fst (post_with_5xx_retry env pv convo tr))"
proof -
  have one: "told (fst (post_once env pv convo tr))" for tr
    by (simp add: post_once_def Let_def split: llm_reply.split)
  have two: "told (fst (llm_then (post_once env pv convo) (\<lambda>r. if fst r < 500 then Pair (Inr r)
      else Pair (Inl (LUnavailable (pv_name pv @ '': persistent HTTP '' @ show_int (fst r))))) tr))" for tr
    by (rule told_then [OF surjective_pairing one]) simp
  show ?thesis
    unfolding post_with_5xx_retry_def
    by (rule told_then [OF surjective_pairing one]) (simp add: two)
qed

lemma told_judge: "told (judge_reply env pv x)"
  by (simp add: judge_reply_def split: prod.split sum.split bool.split)

lemma told_attempts: "told (fst (call_attempts env pv valid k convo tr))"
proof (induction k arbitrary: convo tr)
  case (Suc k)
  show ?case
    unfolding call_attempts.simps
  proof (rule told_then [OF surjective_pairing told_retry])
    fix r tr1
    show "told (fst (llm_then (Pair (judge_reply env pv r)) (\<lambda>content tr1. case parse_content env content of
        Inl e \<Rightarrow> (Inl (LOther e), tr1)
      | Inr data \<Rightarrow> if accepts valid data then (Inr (the data), tr1)
          else call_attempts env pv valid k
                 (convo @ [chat_message ''assistant'' content, chat_message ''user'' (JStr JSON_REMINDER)]) tr1) tr1))"
      by (rule told_then [OF surjective_pairing]) (simp_all add: told_judge Suc.IH split: sum.split)
  qed
qed simp

lemma told_chat: "told (fst (chat_json env pvs msgs valid k tr))"
proof -
  have "told (Inl l :: llm_exn + dict \<times> string) \<Longrightarrow> told (fst (try_providers env msgs valid k l pvs tr))" for l
  proof (induction pvs arbitrary: l tr)
    case (Cons p ps)
    obtain x tr1 where c: "call_provider env p msgs valid k tr = (x, tr1)" by fastforce
    then have x: "told x" using told_attempts [of env p valid k msgs tr] by (simp add: call_provider_def)
    show ?case
    proof (cases x)
      case (Inl e)
      with c x show ?thesis by (cases e) (auto intro!: Cons.IH)
    next
      case (Inr d)
      with c show ?thesis by simp
    qed
  qed simp
  then show ?thesis by (simp add: chat_json_def)
qed

lemma told_reason: "told (Inl e) \<Longrightarrow> plugin \<noteq> [] \<Longrightarrow> failure_reason env plugin e \<noteq> []"
  by (cases e) (simp_all add: failure_reason_def)

text \<open>
  How an answer's candidates represent the claim: it is the claim, or the claim is there beside it with
  the rest of the confidence.
\<close>

definition represents_claim :: "claimed_ident \<Rightarrow> candidate list \<Rightarrow> bool" where
  "represents_claim claimed cs \<longleftrightarrow>
     (\<exists>season episodes. let same = (season = cl_season claimed \<and> set episodes = set (cl_episodes claimed)) in
        (case cs of
           [c] \<Rightarrow> same \<and> ca_ident c = Some (claimed_series season episodes)
         | [c, d] \<Rightarrow> \<not> same \<and> ca_ident c = Some (claimed_series season episodes) \<and>
             ca_ident d = Some (claimed_series (cl_season claimed) (cl_episodes claimed)) \<and>
             ca_confidence c + ca_confidence d = 1
         | _ \<Rightarrow> False))"

lemma mk_candidate_Inr:
  "mk_candidate conf i n ev = Inr c \<longleftrightarrow>
     c = \<lparr>ca_confidence = conf, ca_ident = i, ca_numbering = n, ca_evidence = ev\<rparr> \<and> valid_candidate c"
  by (auto simp: mk_candidate_def Let_def)

lemma build_represents:
  assumes "build_episode_candidates s es (clamp01 x) (cl_season claimed) (cl_episodes claimed) ev = Inr cs"
  shows "list_all valid_candidate cs \<and> represents_claim claimed cs"
proof -
  have m: "max 0 (1 - clamp01 x) = 1 - clamp01 x" by (simp add: clamp01_def)
  from assms show ?thesis
    unfolding build_episode_candidates_def m represents_claim_def
    by (intro conjI exI [of _ s] exI [of _ es])
      (auto simp: res_bind_Inr_iff mk_candidate_Inr split: if_splits)
qed

lemma represents_references: "represents_claim claimed cs \<Longrightarrow> list_ex references_claimed cs"
  by (cases cs; cases "tl cs"; cases "tl (tl cs)")
    (auto simp: represents_claim_def Let_def references_claimed_def claimed_series_def)

lemma answer_result_contract:
  assumes "answer_result env cfg claimed plugin what n prompt tr = (r, tr')" "plugin \<noteq> []"
  shows "\<exists>p. r = Inr p \<and> valid_plugin_result p \<and> pr_status p \<noteq> PAbstain \<and>
     (pr_status p = POk \<longrightarrow> represents_claim claimed (pr_candidates p))"
proof -
  obtain x tr1 where a: "ask env cfg prompt tr = (x, tr1)" by fastforce
  have told: "told x" using told_chat a unfolding ask_def by (metis fst_conv)
  have err: "\<exists>p. mk_plugin_result PError (Some m) [] = Inr p \<and> valid_plugin_result p \<and> pr_status p = PError" if "m \<noteq> []" for m
    using that by (auto simp: mk_plugin_result_def plugin_result_validate_def valid_plugin_result_def)
  show ?thesis
  proof (cases x)
    case (Inl e)
    with told assms(2) have "failure_reason env plugin e \<noteq> []" by (intro told_reason) (cases e; simp)+
    from err [OF this] assms(1) a Inl show ?thesis by (auto simp: answer_result_def)
  next
    case (Inr answer)
    show ?thesis
    proof (cases "answer_candidates env cfg claimed what n answer")
      case (Inl e)
      have "failure_reason env plugin (LOther e) \<noteq> []" using assms(2) by (intro told_reason) simp_all
      from err [OF this] assms(1) a \<open>x = Inr answer\<close> Inl show ?thesis by (auto simp: answer_result_def)
    next
      case c: (Inr cs)
      have cs: "list_all valid_candidate cs \<and> represents_claim claimed cs"
        using c by (auto simp: answer_candidates_def res_bind_Inr_iff split: prod.splits dest: build_represents)
      then have "list_ex references_claimed cs" by (blast intro: represents_references)
      let ?p = "\<lparr>pr_status = POk, pr_reason = None, pr_candidates = cs\<rparr>"
      have "mk_plugin_result POk None cs = Inr ?p" "valid_plugin_result ?p"
        using \<open>list_ex references_claimed cs\<close> cs
        by (simp_all add: mk_plugin_result_def plugin_result_validate_def valid_plugin_result_def)
      with cs assms(1) a Inr c show ?thesis by (intro exI [of _ ?p]) (simp add: answer_result_def)
    qed
  qed
qed

lemma abstain_contract:
  "reason \<noteq> [] \<Longrightarrow> \<exists>p. abstain reason tr = (Inr p, tr) \<and> valid_plugin_result p \<and> pr_status p = PAbstain"
  by (auto simp: abstain_def mk_plugin_result_def plugin_result_validate_def valid_plugin_result_def)

text \<open>What a call of a plugin that keeps the contract gives, unless \<open>raises\<close>.\<close>

definition keeps_contract :: "claimed_ident \<Rightarrow> plugin_result res \<Rightarrow> bool" where
  "keeps_contract claimed r \<longleftrightarrow>
     (\<exists>p. r = Inr p \<and> valid_plugin_result p \<and> (pr_status p = POk \<longrightarrow> represents_claim claimed (pr_candidates p)))"

lemma abstain_keeps: "reason \<noteq> [] \<Longrightarrow> keeps_contract claimed (fst (abstain reason tr))"
  using abstain_contract [of reason tr] by (auto simp: keeps_contract_def)

lemma answer_keeps: "plugin \<noteq> [] \<Longrightarrow> keeps_contract claimed (fst (answer_result env cfg claimed plugin what n prompt tr))"
  using answer_result_contract [OF surjective_pairing, of plugin env cfg claimed what n prompt tr]
  by (auto simp: keeps_contract_def)

definition srt_readable :: "(string \<Rightarrow> string res) \<Rightarrow> asset_bundle \<Rightarrow> bool" where
  "srt_readable read assets \<longleftrightarrow>
     (case first_srt (ab_sub_paths assets) of None \<Rightarrow> True | Some p \<Rightarrow> \<not> is_err (read p))"

text \<open>No transcript, or an object whose segments, if it has any, are objects with texts.\<close>

definition segment_shaped :: "json \<Rightarrow> bool" where
  "segment_shaped seg \<longleftrightarrow>
     (case seg of JObj kvs \<Rightarrow> (case map_of kvs ''text'' of None \<Rightarrow> True | Some (JStr s) \<Rightarrow> True | _ \<Rightarrow> False) | _ \<Rightarrow> False)"

definition transcript_shaped :: "json option \<Rightarrow> bool" where
  "transcript_shaped t \<longleftrightarrow>
     (case t of
        None \<Rightarrow> True
      | Some (JObj kvs) \<Rightarrow>
          (case map_of kvs ''segments'' of None \<Rightarrow> True | Some (JList segs) \<Rightarrow> list_all segment_shaped segs | _ \<Rightarrow> False)
      | _ \<Rightarrow> False)"

lemma shaped_segments:
  assumes "transcript_shaped (Some t)"
  shows "\<exists>segs. segments_of t = Inr (JList segs) \<and> list_all segment_shaped segs"
  using assms
  by (auto simp: transcript_shaped_def segments_of_def get_or_def split: json.splits option.splits)

lemma shaped_text: "segment_shaped seg \<Longrightarrow> \<exists>s. segment_text seg = Inr s"
  by (auto simp: segment_shaped_def segment_text_def get_or_def split: json.splits option.splits)

lemma shaped_prompt:
  assumes "list_all segment_shaped segs"
  shows "\<exists>p. transcript_prompt ctx claimed segs = Inr p"
proof -
  have "\<exists>ys. traverse segment_text segs = Inr ys"
    using assms shaped_text by (intro traverse_total) (auto simp: list_all_iff)
  then show ?thesis by (auto simp: transcript_prompt_def)
qed

text \<open>C24: The two LLM plugins keep the plugin contract: when the subtitle file can be read and the transcript
  has the shape the pipeline stores, a call never raises, whatever the providers answer; its result is one
  pydantic accepts; and a result with status ok always represents the claim, alone when the model
  confirms it, and otherwise beside the model's answer, with the rest of the confidence.\<close>

theorem llm_plugins_contract:
  assumes "srt_readable read assets" "transcript_shaped (ab_transcript assets)"
  shows "keeps_contract claimed (fst (subs_llm_identify env read scfg claimed assets ctx tr)) \<and>
    keeps_contract claimed (fst (transcript_llm_identify env tcfg claimed assets ctx tr))"
proof
  show "keeps_contract claimed (fst (subs_llm_identify env read scfg claimed assets ctx tr))"
    using assms(1)
    by (auto simp: subs_llm_identify_def srt_readable_def Let_def abstain_keeps answer_keeps
        split: option.split sum.split)
  show "keeps_contract claimed (fst (transcript_llm_identify env tcfg claimed assets ctx tr))"
  proof (cases "ab_transcript assets")
    case None
    then show ?thesis by (simp add: transcript_llm_identify_def no_transcript_def abstain_keeps)
  next
    case (Some t)
    obtain segs where s: "segments_of t = Inr (JList segs)" "list_all segment_shaped segs"
      using shaped_segments assms(2) Some by metis
    have "list_all segment_shaped (take n segs)" for n
      using s(2) by (auto simp: list_all_iff dest: in_set_takeD)
    then obtain p where "transcript_prompt ctx claimed (take (nat (tc_max_segments tcfg)) segs) = Inr p"
      using shaped_prompt by blast
    with s(1) Some show ?thesis
      by (simp add: transcript_llm_identify_def abstain_keeps answer_keeps)
  qed
qed

section \<open>The whisper plugin's results\<close>

text \<open>A candidate that was measured: the comparison of one episode with its own reference subtitle.\<close>

definition measured ::
  "whisper_env \<Rightarrow> whisper_config \<Rightarrow> claimed_ident \<Rightarrow> json \<Rightarrow> episode \<Rightarrow> string option \<Rightarrow> candidate \<Rightarrow> bool" where
  "measured env cfg claimed segments e path c \<longleftrightarrow>
     (\<exists>p. path = Some p \<and> compare_one env cfg claimed segments e p = Inr c)"

lemma compare_one_valid:
  "compare_one env cfg claimed segments e p = Inr c \<Longrightarrow>
     valid_candidate c \<and> ca_ident c = Some (claimed_series (cl_season claimed) [ep_episode_number e])"
  by (auto simp: compare_one_def res_bind_Inr_iff Let_def mk_candidate_Inr split: prod.splits)

lemma compare_all_measures:
  assumes "compare_all env cfg claimed segments eps acc = Inr (cs, covered)"
  shows "\<exists>ds. cs = fst acc @ ds \<and>
     list_all2 (\<lambda>(e, path) c. measured env cfg claimed segments e path c) (filter (\<lambda>(e, path). path \<noteq> None) eps) ds \<and>
     (covered \<longleftrightarrow> snd acc \<or> list_ex (\<lambda>(e, path). path \<noteq> None \<and> ep_episode_number e \<in> set (cl_episodes claimed)) eps)"
  using assms
proof (induction eps arbitrary: acc)
  case (Cons x eps)
  obtain e path where x: "x = (e, path)" by (cases x)
  show ?case
  proof (cases path)
    case None
    with Cons x show ?thesis by simp
  next
    case (Some p)
    with Cons.prems x obtain c where c: "compare_one env cfg claimed segments e p = Inr c"
      "compare_all env cfg claimed segments eps
         (fst acc @ [c], snd acc \<or> ep_episode_number e \<in> set (cl_episodes claimed)) = Inr (cs, covered)"
      by (auto simp: res_bind_Inr_iff)
    from Cons.IH [OF c(2)] obtain ds where "cs = fst acc @ c # ds"
      "list_all2 (\<lambda>(e, path) c. measured env cfg claimed segments e path c) (filter (\<lambda>(e, path). path \<noteq> None) eps) ds"
      "covered \<longleftrightarrow> snd acc \<or> ep_episode_number e \<in> set (cl_episodes claimed) \<or>
         list_ex (\<lambda>(e, path). path \<noteq> None \<and> ep_episode_number e \<in> set (cl_episodes claimed)) eps" by auto
    with x Some c(1) show ?thesis
      by (intro exI [of _ "c # ds"]) (auto simp: measured_def)
  qed
qed simp


text \<open>
  What a result with status ok rests on: the candidates are exactly the measured episodes of the window,
  best first, and one of them is an episode the file claims to be.
\<close>

definition anchored ::
  "whisper_env \<Rightarrow> whisper_config \<Rightarrow> claimed_ident \<Rightarrow> series_context \<Rightarrow> json \<Rightarrow> candidate list \<Rightarrow> bool" where
  "anchored env cfg claimed ctx t cs \<longleftrightarrow>
     (\<exists>eps paths segments ds.
        nearest ctx claimed = Inr eps \<and> segments_of t = Inr segments \<and>
        gather_subs (we_service env) (series_ext_ids (sc_series ctx)) (cl_season claimed) (transcript_language t) eps = Inr paths \<and>
        list_all2 (\<lambda>(e, path) c. measured env cfg claimed segments e path c)
          (filter (\<lambda>(e, path). path \<noteq> None) (zip eps paths)) ds \<and>
        mset cs = mset ds \<and> sorted_wrt (\<lambda>c d. ca_confidence c \<ge> ca_confidence d) cs \<and> length cs \<le> MAX_CANDIDATES \<and>
        list_ex (\<lambda>(e, path). path \<noteq> None \<and> ep_episode_number e \<in> set (cl_episodes claimed)) (zip eps paths))"

lemma measured_valid:
  assumes "list_all2 (\<lambda>(e, path) c. measured env cfg claimed segments e path c) xs ds"
  shows "list_all valid_candidate ds" "ds \<noteq> [] \<Longrightarrow> list_ex references_claimed ds"
proof -
  have v: "valid_candidate c \<and> references_claimed c" if "c \<in> set ds" for c
  proof -
    from that obtain i where i: "i < length ds" "c = ds ! i" by (auto simp: in_set_conv_nth)
    obtain e path where "xs ! i = (e, path)" by fastforce
    with assms i have "measured env cfg claimed segments e path c" by (auto simp: list_all2_conv_all_nth)
    then show ?thesis
      by (auto simp: measured_def references_claimed_def claimed_series_def dest!: compare_one_valid)
  qed
  then show "list_all valid_candidate ds" by (simp add: list_all_iff)
  show "list_ex references_claimed ds" if "ds \<noteq> []" using v that by (cases ds) (auto simp: list_ex_iff)
qed

lemma whisper_ok:
  assumes "nearest ctx claimed = Inr eps" "segments_of t = Inr segments"
    "compare_window env cfg claimed ctx t segments eps = Inr (cs, True)" "cs \<noteq> []"
  defines "best \<equiv> sort_key (\<lambda>c. - ca_confidence c) cs"
  shows "\<exists>r. mk_plugin_result POk None best = Inr r \<and> valid_plugin_result r \<and> pr_status r = POk \<and>
    anchored env cfg claimed ctx t (pr_candidates r)"
proof -
  obtain paths where p: "gather_subs (we_service env) (series_ext_ids (sc_series ctx)) (cl_season claimed)
      (transcript_language t) eps = Inr paths" "compare_all env cfg claimed segments (zip eps paths) ([], False) = Inr (cs, True)"
    using assms(3) by (auto simp: compare_window_def res_bind_Inr_iff)
  let ?xs = "filter (\<lambda>(e, path). path \<noteq> None) (zip eps paths)"
  from compare_all_measures [OF p(2)] have m:
    "list_all2 (\<lambda>(e, path) c. measured env cfg claimed segments e path c) ?xs cs"
    "list_ex (\<lambda>(e, path). path \<noteq> None \<and> ep_episode_number e \<in> set (cl_episodes claimed)) (zip eps paths)" by auto
  have "length cs = length ?xs" using m(1) by (simp add: list_all2_lengthD)
  also have "\<dots> \<le> length eps" using length_filter_le [of _ "zip eps paths"] by (auto intro: order_trans)
  also have "\<dots> \<le> MAX_CANDIDATES" using assms(1) by (auto simp: nearest_def Let_def split: if_splits)
  finally have "length best \<le> MAX_CANDIDATES" by (simp add: best_def)
  moreover have "sorted_wrt (\<lambda>c d. ca_confidence c \<ge> ca_confidence d) best"
    using sorted_sort_key [of "\<lambda>c. - ca_confidence c" cs] by (simp add: best_def sorted_map)
  moreover have v: "list_all valid_candidate best" "list_ex references_claimed best"
    using measured_valid [OF m(1)] assms(4) by (simp_all add: best_def list_all_iff list_ex_iff)
  ultimately have "anchored env cfg claimed ctx t best"
    using assms(1,2) p(1) m unfolding anchored_def by (fastforce simp: best_def)
  with v show ?thesis by (auto simp: mk_plugin_result_def plugin_result_validate_def valid_plugin_result_def)
qed



section \<open>The pipeline with the bundled plugins\<close>

lemma window_valid:
  assumes "compare_window e c cl ctx t segs eps = Inr (cs, cov)"
  shows "list_all valid_candidate (sort_key f cs)"
proof -
  from assms obtain paths where "compare_all e c cl segs (zip eps paths) ([], False) = Inr (cs, cov)"
    by (auto simp: compare_window_def res_bind_Inr_iff)
  from compare_all_measures [OF this] measured_valid(1) show ?thesis by (auto simp: list_all_iff)
qed

lemma whisper_valid:
  assumes "whisper_identify e c cl assets ctx = Inr r"
  shows "valid_plugin_result r"
proof -
  consider (early) st m where "mk_plugin_result st m [] = Inr r"
    | (late) t segs eps where "(case compare_window e c cl ctx t segs eps of
          Inl x \<Rightarrow> mk_plugin_result PError (Some (''comparison failed: '' @ we_exn e x)) []
        | Inr (cs, covered) \<Rightarrow>
            if cs = [] then mk_plugin_result PAbstain (Some ''no reference subtitles'') []
            else if \<not> covered then mk_plugin_result PAbstain (Some ''no reference subtitles for the claimed episode'') []
            else mk_plugin_result POk None (sort_key (\<lambda>c. - ca_confidence c) cs)) = Inr r"
    using assms unfolding whisper_identify_def Let_def res_bind_Inr_iff by (auto simp only: res_bind_Inr_iff split: if_splits)
  then show ?thesis
  proof cases
    case early
    then show ?thesis by (rule mk_plugin_result_valid) simp
  next
    case late
    show ?thesis
    proof (cases "compare_window e c cl ctx t segs eps")
      case (Inl x)
      with late show ?thesis by (auto intro: mk_plugin_result_valid)
    next
      case (Inr x)
      with late window_valid [of e c cl ctx t segs eps "fst x" "snd x"] show ?thesis
        by (auto split: prod.splits if_splits intro: mk_plugin_result_valid)
    qed
  qed
qed

lemma llm_results_valid:
  "fst (subs_llm_identify e rd sc cl assets ctx tr) = Inr r \<Longrightarrow> valid_plugin_result r"
  "fst (transcript_llm_identify e tc cl assets ctx tr) = Inr r \<Longrightarrow> valid_plugin_result r"
proof -
  have ans: "valid_plugin_result r" if "fst (answer_result e c cl p what n prompt tr) = Inr r" "p \<noteq> []"
    for e tr r n prompt cl what p and c :: "'z llm_config_scheme"
    using answer_keeps [OF that(2), of cl e c what n prompt tr] that(1) by (auto simp: keeps_contract_def)
  have abst: "valid_plugin_result r" if "fst (abstain m tr) = Inr r" for m r and tr :: "llm_post list"
    using that by (auto simp: abstain_def intro: mk_plugin_result_valid)
  show "valid_plugin_result r" if "fst (subs_llm_identify e rd sc cl assets ctx tr) = Inr r"
    using that by (auto simp: subs_llm_identify_def Let_def split: if_splits option.splits sum.splits
        elim!: abst ans)
  show "valid_plugin_result r" if "fst (transcript_llm_identify e tc cl assets ctx tr) = Inr r"
    using that by (auto simp: transcript_llm_identify_def split: if_splits sum.splits prod.splits elim!: abst ans)
qed


section \<open>Examples\<close>

text \<open>A first provider without quota, a second that answers; a library of two episodes.\<close>

definition two_providers :: "llm_provider list" where
  "two_providers =
     [\<lparr>pv_name = ''a'', pv_base_url = ''http://a/'', pv_model = ''m'', pv_api_key = ''k''\<rparr>,
      \<lparr>pv_name = ''b'', pv_base_url = ''http://b'', pv_model = ''n'', pv_api_key = []\<rparr>]"

definition sample_llm :: llm_env where
  "sample_llm =
     \<lparr>lm_http = \<lambda>tr rq. if lo_url rq = ''http://a/chat/completions'' then LlmResponse 429 [] (Inr JNull)
        else LlmResponse 200 [] (Inr (JObj [(''choices'', JList [JObj [(''message'', JObj [(''content'', JStr ''x'')])]])])),
      lm_loads = \<lambda>s. if s = ''x'' then Inr (JObj [(''season'', JInt 1), (''episodes'', JList [JInt 2]),
        (''confidence'', JFloat (3/4))]) else Inl ValueError,
      lm_float = \<lambda>_. [], lm_exn = \<lambda>_. [], lm_float_of = \<lambda>_. Inl ValueError\<rparr>"

definition sample_subs_cfg :: subs_llm_config where
  "sample_subs_cfg = \<lparr>lc_base_url = DEFAULT_BASE_URL, lc_model = ''m'', lc_api_key = [], lc_providers = Some two_providers,
     su_max_cues = 80\<rparr>"

definition sample_transcript_cfg :: transcript_llm_config where
  "sample_transcript_cfg = \<lparr>lc_base_url = DEFAULT_BASE_URL, lc_model = ''m'', lc_api_key = [],
     lc_providers = Some two_providers, tc_max_segments = 100, tc_min_segments = 1\<rparr>"

definition spoken :: json where
  "spoken = transcript_dump \<lparr>tr_segments = [\<lparr>ts_start = 0, ts_end = 1, ts_text = ''Hello''\<rparr>], tr_language = ''en''\<rparr>"

definition sample_assets :: asset_bundle where
  "sample_assets = \<lparr>ab_probe = None, ab_audio_path = None, ab_transcript = Some spoken, ab_sub_paths = [''/a.SRT''],
     ab_frame_hashes = None\<rparr>"

definition sub_text :: string where
  "sub_text = ''1'' @ nl @ ''00:00:01,000 --> 00:00:02,000'' @ nl @ ''Hello'' @ nl"

definition manual_service :: sub_service where
  "manual_service =
     \<lparr>ss_env = \<lparr>se_http = \<lambda>tr rq. SubHttpError, se_time = \<lambda>_. 0, se_today = \<lambda>_. [], se_shared = \<lambda>_ x. x, se_waited = \<lambda>_ x. x,
        se_fault = \<lambda>_ _. None, se_temp = \<lambda>_ p. p, se_loads = \<lambda>_. Inl ValueError, se_float = \<lambda>_. []\<rparr>,
      ss_cfg = default_refsubs\<lparr>rc_manual_dir := Some ''/m''\<rparr>,
      ss_start = \<lambda>i. \<lparr>sw_disk = \<lambda>p. Some sub_text, sw_token = None, sw_last = None, sw_trace = []\<rparr>,
      ss_first = List.hd\<rparr>"

definition sample_whisper :: whisper_env where
  "sample_whisper = \<lparr>we_service = Some manual_service, we_read = \<lambda>_. Inr sub_text, we_ratio = \<lambda>_ _. 100, we_exn = \<lambda>_. []\<rparr>"

definition sample_whisper_cfg :: whisper_config where
  "sample_whisper_cfg = \<lparr>ws_min_lines = 1, ws_min_compared = 10\<rparr>"

lemma sample_ask:
  "fst (ask sample_llm sample_subs_cfg ''q'' []) = Inr ([(''season'', JInt 1), (''episodes'', JList [JInt 2]),
        (''confidence'', JFloat (3/4))], ''b'')"
  by code_simp

lemma sample_shapes:
  "srt_readable (\<lambda>p. Inr ''text'') sample_assets" "transcript_shaped (ab_transcript sample_assets)"
  "cl_episodes sample_claimed \<noteq> []"
  by code_simp+

theorem llm_plugins_contract_witness:
  "keeps_contract sample_claimed
     (fst (subs_llm_identify sample_llm (\<lambda>p. Inr ''text'') sample_subs_cfg sample_claimed sample_assets sample_context [])) \<and>
   keeps_contract sample_claimed
     (fst (transcript_llm_identify sample_llm sample_transcript_cfg sample_claimed sample_assets sample_context []))"
  by (rule llm_plugins_contract) (rule sample_shapes)+

definition spoken_context :: series_context where
  "spoken_context = sample_context\<lparr>sc_series := (sc_series sample_context)\<lparr>se_tvdb_id := Some 9\<rparr>\<rparr>"

lemma spoken_ok:
  "res_map pr_status (whisper_identify sample_whisper sample_whisper_cfg sample_claimed sample_assets spoken_context) = Inr POk"
  by code_simp


definition sample_bundle_env :: bundle_env where
  "sample_bundle_env = \<lparr>bu_llm = sample_llm, bu_posts = [], bu_read = \<lambda>p. Inr ''text'', bu_whisper = sample_whisper,
     bu_other = \<lambda>_ _ _ _. Inl ValueError\<rparr>"

definition sample_bundle_cfg :: bundle_config where
  "sample_bundle_cfg = \<lparr>bc_subs = sample_subs_cfg, bc_transcript = sample_transcript_cfg, bc_whisper = sample_whisper_cfg\<rparr>"


end
