(* ===== verification/Loader.thy ===== *)
theory Loader
  imports Pipeline
begin

text \<open>
  \<open>impostarr/plugins/loader.py\<close>: discovery of the identifier plugins, installation of external ones
  into an overlay, and its activation. Entry points, the classes they load and \<open>uv\<close> are third parties.
\<close>

section \<open>Loading\<close>

text \<open>What a constructor gives: an \<open>IdentifierPlugin\<close> with its name and version, or something else.\<close>

datatype plugin_instance = PluginInstance string string | OtherInstance

record plugin_class =
  kl_config_model :: "(json \<Rightarrow> json res) option"
  kl_new :: "json option \<Rightarrow> plugin_instance res"

record entry_point =
  ent_name :: string
  ent_load :: "plugin_class res"

datatype load_event = LoadFailed string | InstantiationFailed string | NotAPlugin string | NoEntryPoint string

text \<open>The validated options, when the class declares a model for them, and the instance.\<close>

definition instantiate :: "plugin_class \<Rightarrow> json \<Rightarrow> (plugin_instance \<times> json option) res" where
  "instantiate cls options =
     res_bind (case kl_config_model cls of None \<Rightarrow> Inr None | Some model \<Rightarrow> res_map Some (model options)) (\<lambda>config.
       res_map (\<lambda>i. (i, config)) (kl_new cls config))"

definition load_one :: "settings \<Rightarrow> entry_point \<Rightarrow> loaded_plugin option \<times> load_event list" where
  "load_one s ep =
     (case ent_load ep of
        Inl e \<Rightarrow> (None, [LoadFailed (ent_name ep)])
      | Inr cls \<Rightarrow>
          let pcfg = map_of (st_identifiers s) (ent_name ep)
          in if (case pcfg of Some c \<Rightarrow> \<not> pc_enabled c | None \<Rightarrow> False) then (None, [])
             else
               let weight = (case pcfg of Some c \<Rightarrow> pc_weight c | None \<Rightarrow> 1);
                   options = (case pcfg of Some c \<Rightarrow> pc_options c | None \<Rightarrow> JObj [])
               in (case instantiate cls options of
                     Inl e \<Rightarrow> (None, [InstantiationFailed (ent_name ep)])
                   | Inr (OtherInstance, config) \<Rightarrow> (None, [NotAPlugin (ent_name ep)])
                   | Inr (PluginInstance name version, config) \<Rightarrow>
                       (Some \<lparr>lp_name = name, lp_version = version, lp_weight = weight, lp_config = config,
                              lp_daily_budget = Option.bind pcfg pc_daily_budget\<rparr>, [])))"

fun load_all :: "settings \<Rightarrow> entry_point list \<Rightarrow> loaded_plugin list \<times> load_event list" where
  "load_all s [] = ([], [])"
| "load_all s (ep # eps) =
     (let (lp, ev) = load_one s ep; (lps, evs) = load_all s eps
      in ((case lp of None \<Rightarrow> [] | Some p \<Rightarrow> [p]) @ lps, ev @ evs))"

definition load_plugins :: "settings \<Rightarrow> entry_point list \<Rightarrow> loaded_plugin list \<times> load_event list" where
  "load_plugins s eps =
     (let (lps, evs) = load_all s eps
      in (lps, evs @ map NoEntryPoint (filter (\<lambda>n. n \<notin> ent_name ` set eps) (map fst (st_identifiers s)))))"

section \<open>Installing\<close>

datatype uv_result = UvExit int | UvTimeout | UvRaises exn

text \<open>
  The installer sees the lock file's text and the \<open>uv\<close> commands run so far; whether the overlay has its
  interpreter depends on these.
\<close>

record installer =
  ins_lock :: "string option"
  ins_runs :: "string list list"

record uv_env =
  uv_run :: "string list list \<Rightarrow> string list \<Rightarrow> uv_result"
  uv_python :: "string list list \<Rightarrow> bool"
  uv_sha256 :: "string \<Rightarrow> string"
  uv_write :: "string list list \<Rightarrow> exn option"

text \<open>The lock's digest is over the sorted specifications.\<close>

definition spec_digest :: "uv_env \<Rightarrow> string list \<Rightarrow> string" where
  "spec_digest env specs = uv_sha256 env (join [CHR 0x0A] (sort specs))"

definition run_uv :: "uv_env \<Rightarrow> string list \<Rightarrow> installer \<Rightarrow> bool res \<times> installer" where
  "run_uv env cmd st =
     (case uv_run env (ins_runs st) cmd of
        UvExit rc \<Rightarrow> Inr (rc = 0) | UvTimeout \<Rightarrow> Inr False | UvRaises e \<Rightarrow> Inl e,
      st\<lparr>ins_runs := ins_runs st @ [cmd]\<rparr>)"

definition venv_python :: "string \<Rightarrow> string" where
  "venv_python venv_dir = path_str (path_div (path_div (mk_path venv_dir) ''bin'') ''python'')"

definition venv_command :: "string \<Rightarrow> string list" where
  "venv_command venv_dir = [''uv'', ''venv'', venv_dir]"

definition install_command :: "string \<Rightarrow> string list \<Rightarrow> string list" where
  "install_command venv_dir specs = [''uv'', ''pip'', ''install'', ''--python'', venv_python venv_dir] @ specs"

definition install_specs :: "uv_env \<Rightarrow> string list \<Rightarrow> string \<Rightarrow> installer \<Rightarrow> unit res \<times> installer" where
  "install_specs env specs venv_dir st =
     (case run_uv env (install_command venv_dir specs) st of
        (Inl e, st1) \<Rightarrow> (Inl e, st1)
      | (Inr False, st1) \<Rightarrow> (Inr (), st1)
      | (Inr True, st1) \<Rightarrow>
          (case uv_write env (ins_runs st1) of
             Some e \<Rightarrow> (Inl e, st1)
           | None \<Rightarrow> (Inr (), st1\<lparr>ins_lock := Some (spec_digest env specs)\<rparr>)))"

definition ensure_external_plugins :: "uv_env \<Rightarrow> string list \<Rightarrow> string \<Rightarrow> installer \<Rightarrow> unit res \<times> installer" where
  "ensure_external_plugins env specs venv_dir st =
     (if specs = [] then (Inr (), st)
      else if map_option str_strip (ins_lock st) = Some (spec_digest env specs) then (Inr (), st)
      else if uv_python env (ins_runs st) then install_specs env specs venv_dir st
      else
        (case run_uv env (venv_command venv_dir) st of
           (Inl e, st1) \<Rightarrow> (Inl e, st1)
         | (Inr False, st1) \<Rightarrow> (Inr (), st1)
         | (Inr True, st1) \<Rightarrow> install_specs env specs venv_dir st1))"

text \<open>\<open>sys.path\<close> with the overlay's package directory, the last of those found.\<close>

definition activate_plugin_overlay :: "string list \<Rightarrow> string list \<Rightarrow> string list" where
  "activate_plugin_overlay found sys_path =
     (if found = [] then sys_path
      else let d = last (sort_key (\<lambda>p. pa_parts (mk_path p)) found) in if d \<in> set sys_path then sys_path else sys_path @ [d])"

end
