(* ===== verification/Transcribers.thy ===== *)
theory Transcribers
  imports Pipeline Throttle
begin

text \<open>
  \<open>impostarr/plugins/transcribers.py\<close>: the choice of the transcription backend; and of
  \<open>impostarr/assets/transcribe.py\<close> the remote backend and the sharing of a local model between tasks.
  The speech libraries are third parties.
\<close>

section \<open>Backends\<close>

datatype backend =
    NullTranscriber
  | FasterWhisper string string string json int
  | WhisperCpp string string json int
  | RemoteBackend string string string real
  | OtherBackend string

text \<open>What the deployment has installed, and \<open>float(x)\<close> of a text.\<close>

record speech_env =
  sp_faster_whisper :: bool
  sp_pywhispercpp :: bool
  sp_float_of :: "string \<Rightarrow> real res"

type_synonym factory = "workers_config \<Rightarrow> string \<Rightarrow> backend res"

definition RuntimeError :: "string \<Rightarrow> exn" where
  "RuntimeError m = OtherError (''RuntimeError: '' @ m)"

text \<open>\<open>asyncio.Semaphore(int(options.get("max_concurrent", 1)))\<close>: a negative count is refused.\<close>

definition concurrency :: "json \<Rightarrow> int res" where
  "concurrency options =
     res_bind (res_bind (get_or options ''max_concurrent'' (JInt 1)) py_int) (\<lambda>n.
       if n < 0 then Inl ValueError else Inr n)"

text \<open>The constructors: the library must be there; the options are copied, none if there are none.\<close>

definition given_options :: "json \<Rightarrow> json" where
  "given_options options = (if json_falsy options then JObj [] else options)"

definition new_faster_whisper :: "speech_env \<Rightarrow> string \<Rightarrow> string \<Rightarrow> string \<Rightarrow> json \<Rightarrow> backend res" where
  "new_faster_whisper env model_name device models_dir options =
     (if \<not> sp_faster_whisper env then Inl (RuntimeError ''faster-whisper is not installed'')
      else res_map (FasterWhisper model_name device models_dir (given_options options)) (concurrency (given_options options)))"

definition new_whisper_cpp :: "speech_env \<Rightarrow> string \<Rightarrow> string \<Rightarrow> json \<Rightarrow> backend res" where
  "new_whisper_cpp env model_name models_dir options =
     (if \<not> sp_pywhispercpp env then Inl (RuntimeError ''pywhispercpp is not installed'')
      else res_map (WhisperCpp model_name models_dir (given_options options)) (concurrency (given_options options)))"

definition strip_slash :: "string \<Rightarrow> string" where
  "strip_slash s = rev (dropWhile (\<lambda>c. c = CHR ''/'') (rev s))"

definition new_remote :: "string \<Rightarrow> string \<Rightarrow> string \<Rightarrow> real \<Rightarrow> backend" where
  "new_remote base_url api_key model timeout_s = RemoteBackend (strip_slash base_url) api_key model timeout_s"

text \<open>The factories of the entry points.\<close>

definition faster_whisper_factory :: "speech_env \<Rightarrow> factory" where
  "faster_whisper_factory env wk models_dir =
     new_faster_whisper env (wk_whisper_model wk) (wk_whisper_device wk) models_dir (wk_transcriber_options wk)"

definition whisper_cpp_factory :: "speech_env \<Rightarrow> factory" where
  "whisper_cpp_factory env wk models_dir =
     new_whisper_cpp env (wk_whisper_model wk) models_dir (wk_transcriber_options wk)"

text \<open>The options of the remote backend are texts, its timeout a number or the text of one.\<close>

definition option_text :: "json \<Rightarrow> string \<Rightarrow> string \<Rightarrow> string res" where
  "option_text options k dflt =
     res_bind (get_or options k (JStr dflt)) (\<lambda>j. case j of JStr s \<Rightarrow> Inr s | _ \<Rightarrow> Inl TypeError)"

definition remote_factory :: "speech_env \<Rightarrow> factory" where
  "remote_factory env wk models_dir =
     (let options = wk_transcriber_options wk
      in res_bind (json_get options ''base_url'') (\<lambda>b.
           if (case b of None \<Rightarrow> True | Some j \<Rightarrow> json_falsy j)
           then Inl (RuntimeError ''the 'remote' transcriber requires workers.transcriber_options.base_url'')
           else
             res_bind (option_text options ''base_url'' []) (\<lambda>base_url.
             res_bind (option_text options ''api_key'' []) (\<lambda>api_key.
             res_bind (option_text options ''model'' ''whisper-1'') (\<lambda>model.
             res_map (new_remote base_url api_key model)
               (res_bind (get_or options ''timeout_s'' (JFloat 120)) (json_float (sp_float_of env))))))))"

definition none_factory :: factory where
  "none_factory wk models_dir = Inr NullTranscriber"

definition builtin_factories :: "speech_env \<Rightarrow> (string \<times> factory res) list" where
  "builtin_factories env =
     [(''faster-whisper'', Inr (faster_whisper_factory env)), (''whisper-cpp'', Inr (whisper_cpp_factory env)),
      (''remote'', Inr (remote_factory env)), (''none'', Inr none_factory)]"

text \<open>
  The entry points as \<open>{ep.name: ep}\<close>: of two with a name the last counts. A backend that is not there or
  cannot be built is replaced by the null one.
\<close>

definition load_transcriber :: "settings \<Rightarrow> (string \<times> factory res) list \<Rightarrow> backend" where
  "load_transcriber s eps =
     (case map_of (rev eps) (wk_transcriber (st_workers s)) of
        None \<Rightarrow> NullTranscriber
      | Some load \<Rightarrow>
          (case res_bind load (\<lambda>f. f (st_workers s) (st_models_dir s)) of
             Inl e \<Rightarrow> NullTranscriber
           | Inr b \<Rightarrow> b))"

section \<open>The local backends\<close>

text \<open>The device, where \<open>cuda\<close> is the number of devices CTranslate2 counts, if it can be asked.\<close>

definition resolve_device :: "int option \<Rightarrow> string \<Rightarrow> string" where
  "resolve_device cuda device =
     (if device \<noteq> ''auto'' then device
      else (case cuda of Some n \<Rightarrow> if n > 0 then ''cuda'' else ''cpu'' | None \<Rightarrow> ''cpu''))"

definition faster_whisper_args :: "int option \<Rightarrow> string \<Rightarrow> string option \<Rightarrow> (string \<times> json) list \<Rightarrow> (string \<times> json) list" where
  "faster_whisper_args cuda device models_dir options =
     (let d = resolve_device cuda device;
          kwargs = [(''device'', JStr d), (''download_root'', json_opt JStr models_dir)];
          kwargs = (if d = ''cpu'' then AList.update ''compute_type'' (JStr ''int8'') kwargs else kwargs)
      in (case map_of options ''compute_type'' of Some c \<Rightarrow> AList.update ''compute_type'' c kwargs | None \<Rightarrow> kwargs))"

definition whisper_cpp_args :: "string option \<Rightarrow> (string \<times> json) list \<Rightarrow> (string \<times> json) list" where
  "whisper_cpp_args models_dir options =
     (''models_dir'', json_opt JStr models_dir) # filter (\<lambda>kv. fst kv \<noteq> ''max_concurrent'') options"

text \<open>What the libraries return for a file, made a transcript; whisper.cpp counts hundredths of a second.\<close>

definition faster_whisper_transcript :: "(real \<times> real \<times> string) list \<times> string \<Rightarrow> transcript" where
  "faster_whisper_transcript r =
     \<lparr>tr_segments = map (\<lambda>(a, b, t). \<lparr>ts_start = a, ts_end = b, ts_text = t\<rparr>) (fst r), tr_language = snd r\<rparr>"

definition whisper_cpp_transcript :: "(string \<times> json) list \<Rightarrow> (int \<times> int \<times> string) list \<Rightarrow> transcript res" where
  "whisper_cpp_transcript options segs =
     res_bind (get_or (JObj options) ''language'' (JStr [])) (\<lambda>l.
       case l of
         JStr lang \<Rightarrow>
           Inr \<lparr>tr_segments = map (\<lambda>(a, b, t). \<lparr>ts_start = of_int a / 100, ts_end = of_int b / 100, ts_text = t\<rparr>) segs,
                tr_language = lang\<rparr>
       | _ \<Rightarrow> Inl ValidationError)"

section \<open>The remote backend\<close>

record remote_post =
  rp_url :: string
  rp_headers :: "(string \<times> string) list"
  rp_file :: string
  rp_data :: "(string \<times> string) list"

datatype remote_reply = RemoteResponse int "json res" | RemoteHttpError string | RemoteRaises exn

text \<open>Opening the file, the peer, and pydantic's reading of a float.\<close>

record remote_env =
  ra_open :: "string \<Rightarrow> exn option"
  ra_http :: "remote_post \<Rightarrow> remote_reply"
  ra_float :: "json \<Rightarrow> real option"
  ra_exn :: "exn \<Rightarrow> string"

definition transcription_post :: "string \<Rightarrow> string \<Rightarrow> string \<Rightarrow> string \<Rightarrow> remote_post" where
  "transcription_post base_url api_key model wav =
     \<lparr>rp_url = base_url @ ''/audio/transcriptions'',
      rp_headers = (if api_key = [] then [] else [(''Authorization'', ''Bearer '' @ api_key)]),
      rp_file = path_name (mk_path wav), rp_data = [(''model'', model), (''response_format'', ''verbose_json'')]\<rparr>"

definition mk_segment :: "remote_env \<Rightarrow> json \<Rightarrow> json \<Rightarrow> json \<Rightarrow> transcript_segment res" where
  "mk_segment env st en t =
     (case (ra_float env st, ra_float env en, t) of
        (Some a, Some b, JStr s) \<Rightarrow> Inr \<lparr>ts_start = a, ts_end = b, ts_text = s\<rparr>
      | _ \<Rightarrow> Inl ValidationError)"

definition remote_segment :: "remote_env \<Rightarrow> json \<Rightarrow> transcript_segment res" where
  "remote_segment env s =
     res_bind (json_item s ''start'') (\<lambda>a. res_bind (json_item s ''end'') (\<lambda>b. res_bind (json_item s ''text'') (\<lambda>t.
       mk_segment env a b t)))"

text \<open>\<open>"segments" in payload\<close>.\<close>

fun json_has :: "string \<Rightarrow> json \<Rightarrow> bool res" where
  "json_has k (JObj kvs) = Inr (map_of kvs k \<noteq> None)"
| "json_has k (JList xs) = Inr (JStr k \<in> set xs)"
| "json_has k (JStr s) = Inr (sublist k s)"
| "json_has k _ = Inl TypeError"

definition remote_transcript :: "remote_env \<Rightarrow> json \<Rightarrow> transcript res" where
  "remote_transcript env payload =
     res_bind (res_bind (json_has ''segments'' payload) (\<lambda>has.
       if has then res_bind (json_item payload ''segments'') (\<lambda>segs. res_bind (json_iter segs) (traverse (remote_segment env)))
       else res_bind (get_or payload ''text'' (JStr [])) (\<lambda>t.
              res_map (\<lambda>s. [s]) (mk_segment env (JFloat 0) (JFloat 0) t)))) (\<lambda>segs.
     res_bind (get_or payload ''language'' (JStr [])) (\<lambda>l.
       case l of JStr lang \<Rightarrow> Inr \<lparr>tr_segments = segs, tr_language = lang\<rparr> | _ \<Rightarrow> Inl ValidationError))"

definition remote_transcribe :: "remote_env \<Rightarrow> string \<Rightarrow> string \<Rightarrow> string \<Rightarrow> string \<Rightarrow> transcript res" where
  "remote_transcribe env base_url api_key model wav =
     (case ra_open env wav of
        Some e \<Rightarrow> Inl e
      | None \<Rightarrow>
          (case ra_http env (transcription_post base_url api_key model wav) of
             RemoteHttpError m \<Rightarrow> Inl (TranscribeError (''remote transcription request failed: '' @ m))
           | RemoteRaises e \<Rightarrow> Inl e
           | RemoteResponse status body \<Rightarrow>
               if status \<noteq> 200
               then Inl (TranscribeError (''remote transcription failed: HTTP '' @ show_int status))
               else
                 (case body of
                    Inl e \<Rightarrow>
                      Inl (if e = ValueError
                           then TranscribeError (''remote transcription returned non-JSON response: '' @ ra_exn env e)
                           else e)
                  | Inr payload \<Rightarrow> remote_transcript env payload)))"

definition null_transcribe :: "string \<Rightarrow> transcript res" where
  "null_transcribe wav = Inr \<lparr>tr_segments = [], tr_language = []\<rparr>"

section \<open>A local model shared by tasks\<close>

text \<open>
  \<open>FasterWhisperTranscriber\<close> and \<open>WhisperCppTranscriber\<close> load their model at the first call, under a
  lock, and run at most \<open>max_concurrent\<close> inferences. A task's call goes through these points; what it
  does between two awaits is one step.
\<close>

datatype call_point = NotCalled | AwaitsLock | Loads | AwaitsSlot | Infers | Returned | Failed

record shared_model =
  sh_loaded :: bool
  sh_lock :: "nat option"
  sh_loads :: nat
  sh_failures :: nat
  sh_at :: "nat \<Rightarrow> call_point"

definition new_model :: shared_model where
  "new_model = \<lparr>sh_loaded = False, sh_lock = None, sh_loads = 0, sh_failures = 0, sh_at = \<lambda>_. NotCalled\<rparr>"

abbreviation goes :: "nat \<Rightarrow> call_point \<Rightarrow> shared_model \<Rightarrow> shared_model" where
  "goes t p m \<equiv> m\<lparr>sh_at := (sh_at m)(t := p)\<rparr>"

definition inferring :: "shared_model \<Rightarrow> nat set" where
  "inferring m = {t. sh_at m t = Infers}"

inductive call_step :: "nat \<Rightarrow> shared_model \<Rightarrow> shared_model \<Rightarrow> bool" for slots where
  call: "sh_at m t = NotCalled \<Longrightarrow> call_step slots m (goes t (if sh_loaded m then AwaitsSlot else AwaitsLock) m)"
| locked: "\<lbrakk>sh_at m t = AwaitsLock; sh_lock m = None; \<not> sh_loaded m\<rbrakk>
     \<Longrightarrow> call_step slots m (goes t Loads (m\<lparr>sh_lock := Some t, sh_loads := sh_loads m + 1\<rparr>))"
| locked_late: "\<lbrakk>sh_at m t = AwaitsLock; sh_lock m = None; sh_loaded m\<rbrakk> \<Longrightarrow> call_step slots m (goes t AwaitsSlot m)"
| loaded: "sh_at m t = Loads \<Longrightarrow> call_step slots m (goes t AwaitsSlot (m\<lparr>sh_lock := None, sh_loaded := True\<rparr>))"
| load_failed: "sh_at m t = Loads
     \<Longrightarrow> call_step slots m (goes t Failed (m\<lparr>sh_lock := None, sh_failures := sh_failures m + 1\<rparr>))"
| slot: "\<lbrakk>sh_at m t = AwaitsSlot; card (inferring m) < slots\<rbrakk> \<Longrightarrow> call_step slots m (goes t Infers m)"
| inferred: "sh_at m t = Infers \<Longrightarrow> call_step slots m (goes t Returned m)"
| infer_failed: "sh_at m t = Infers \<Longrightarrow> call_step slots m (goes t Failed m)"

end
