(* ===== verification/Startup.thy ===== *)
theory Startup
  imports Routes Worker RefSubs Loader Transcribers
begin

text \<open>
  \<open>impostarr/main.py\<close> and \<open>impostarr/db.py\<close>: the composition of the application from its settings. What the
  machine provides (files, clocks, peers, the libraries behind plugins and transcription) comes from
  a host.
\<close>

section \<open>The database's address\<close>

definition sqlite_dsn :: "string \<Rightarrow> string" where
  "sqlite_dsn state_dir = ''sqlite:///'' @ path_str (path_div (mk_path state_dir) ''impostarr.db'')"

definition resolve_dsn :: "settings \<Rightarrow> string" where
  "resolve_dsn s = (if st_db_dsn s \<in> {None, Some []} then sqlite_dsn (st_state_dir s) else the (st_db_dsn s))"

text \<open>The seconds a connection waits for a locked SQLite file, and the pragmas of a new connection.\<close>

definition connect_timeout :: "string \<Rightarrow> int option" where
  "connect_timeout dsn = (if prefix ''sqlite'' dsn then Some 30 else None)"

definition connect_pragmas :: "string \<Rightarrow> string list" where
  "connect_pragmas dsn =
     (if prefix ''sqlite'' dsn then [''PRAGMA journal_mode=WAL'', ''PRAGMA foreign_keys=ON''] else [])"

section \<open>Composition\<close>

record host =
  ho_tools :: toolbox
  ho_codec :: codec
  ho_transcribe :: "backend \<Rightarrow> effect list \<Rightarrow> string \<Rightarrow> transcript res"
  ho_identify :: "refsubs_config \<Rightarrow> effect list \<Rightarrow> string \<Rightarrow> claimed_ident \<Rightarrow> asset_bundle \<Rightarrow> series_context \<Rightarrow> plugin_result res"
  ho_repr :: "exn \<Rightarrow> string"
  ho_bytes :: "int \<Rightarrow> string"
  ho_monotonic :: "effect list \<Rightarrow> real"
  ho_race :: "effect list \<Rightarrow> nat \<Rightarrow> db \<Rightarrow> db"
  ho_identifiers :: "entry_point list"
  ho_transcribers :: "(string \<times> factory res) list"

definition boot_refsubs :: "settings \<Rightarrow> refsubs_config" where
  "boot_refsubs s =
     (case rc_cache_dir (st_refsubs s) of
        Some d \<Rightarrow> st_refsubs s
      | None \<Rightarrow>
          (st_refsubs s)\<lparr>rc_cache_dir := Some (path_str (path_div (mk_path (st_state_dir s)) ''refsubs_cache''))\<rparr>)"

definition boot_plugins :: "host \<Rightarrow> settings \<Rightarrow> loaded_plugin list" where
  "boot_plugins h s = fst (load_plugins s (ho_identifiers h))"

definition boot_deps_of :: "host \<Rightarrow> settings \<Rightarrow> sonarr_instance \<Rightarrow> deps" where
  "boot_deps_of h s i =
     \<lparr>dp_tools = ho_tools h, dp_codec = ho_codec h, dp_client = default_client (st_dry_run s), dp_settings = s,
      dp_instance = i, dp_plugins = boot_plugins h s,
      dp_transcribe = ho_transcribe h (load_transcriber s (ho_transcribers h)),
      dp_identify = ho_identify h (boot_refsubs s), dp_repr = ho_repr h, dp_worker = ''pool-'' @ si_name i,
      dp_event_bus = True\<rparr>"

definition boot_runtime_of :: "host \<Rightarrow> settings \<Rightarrow> sonarr_instance \<Rightarrow> runtime" where
  "boot_runtime_of h s i =
     (let c = default_client (st_dry_run s)
      in \<lparr>rt_client = c, rt_cfg = i,
          rt_disc = \<lparr>di_cfg = i, di_env = tb_env (ho_tools h), di_codec = ho_codec h, di_client = c,
                     di_bytes = ho_bytes h, di_xxh64 = tb_xxh64 (ho_tools h)\<rparr>\<rparr>)"

text \<open>A dictionary built in the order of the configuration: of two with one name the last counts.\<close>

definition by_name :: "(sonarr_instance \<Rightarrow> 'a) \<Rightarrow> sonarr_instance list \<Rightarrow> (string \<times> 'a) list" where
  "by_name f is = fold (\<lambda>i. AList.update (si_name i) (f i)) is []"

definition boot_instances :: "host \<Rightarrow> settings \<Rightarrow> (string \<times> runtime) list" where
  "boot_instances h s = by_name (boot_runtime_of h s) (st_sonarr s)"

definition boot_deps :: "host \<Rightarrow> settings \<Rightarrow> (string \<times> deps) list" where
  "boot_deps h s = by_name (boot_deps_of h s) (st_sonarr s)"

definition boot_pool :: "host \<Rightarrow> settings \<Rightarrow> pool option" where
  "boot_pool h s =
     (if boot_deps h s = [] then None
      else Some \<lparr>wp_deps = boot_deps h s, wp_discoverers = map (\<lambda>(n, r). (n, rt_disc r)) (boot_instances h s),
                 wp_size = nat (wk_pool_size (st_workers s)), wp_lease_timeout_s = 300,
                 wp_monotonic = ho_monotonic h, wp_race = ho_race h\<rparr>)"

definition boot_pool_size :: "host \<Rightarrow> settings \<Rightarrow> int" where
  "boot_pool_size h s = (if boot_deps h s = [] then 0 else wk_pool_size (st_workers s))"

section \<open>Static files\<close>

definition forward_slashes :: "string \<Rightarrow> string" where
  "forward_slashes s = map (\<lambda>c. if c = CHR 92 then CHR ''/'' else c) s"

definition cache_control :: "string \<Rightarrow> string" where
  "cache_control path =
     (if sublist ''/assets/'' (forward_slashes path) then ''public, max-age=31536000, immutable'' else ''no-cache'')"

text \<open>\<open>anchored\<close> is the repository's directory as computed from the module's own file.\<close>

definition resolve_web_dist :: "(string \<Rightarrow> bool) \<Rightarrow> string \<Rightarrow> string" where
  "resolve_web_dist is_dir repo =
     (let anchored = path_str (path_div (path_div (mk_path repo) ''web'') ''dist'')
      in if is_dir anchored then anchored else ''web/dist'')"

end
