(* ===== verification/LoaderSpec.thy ===== *)
theory LoaderSpec
  imports Loader Transcribers "HOL-Library.Multiset"
begin

text \<open>
  The properties of loading and installing plugins, of the choice of a transcriber, and of tasks that
  share a speech model.
\<close>

section \<open>Loading\<close>

lemma load_all_append: "load_all s (xs @ ys) = (fst (load_all s xs) @ fst (load_all s ys), snd (load_all s xs) @ snd (load_all s ys))"
  by (induction xs) (auto simp: Let_def split_beta)

text \<open>An entry point that does not load, is disabled, or gives no plugin.\<close>

definition broken :: "settings \<Rightarrow> entry_point \<Rightarrow> bool" where
  "broken s ep \<longleftrightarrow> fst (load_one s ep) = None"

lemma load_plugins_loads:
  "fst (load_plugins s eps) = List.map_filter (\<lambda>ep. fst (load_one s ep)) eps"
proof -
  have "fst (load_all s eps) = List.map_filter (\<lambda>ep. fst (load_one s ep)) eps"
    by (induction eps) (auto simp: Let_def split_beta List.map_filter_def split: option.splits)
  then show ?thesis by (simp add: load_plugins_def split_beta)
qed

lemma broken_apart:
  "broken s ep \<Longrightarrow> fst (load_plugins s (xs @ ep # ys)) = fst (load_plugins s (xs @ ys))"
  unfolding load_plugins_loads by (simp add: broken_def List.map_filter_def)

section \<open>Installing\<close>

lemma run_uv_lock: "run_uv env cmd st = (r, st1) \<Longrightarrow> ins_lock st1 = ins_lock st \<and> ins_runs st1 = ins_runs st @ [cmd]"
  by (auto simp: run_uv_def)

lemma install_specs_cases:
  assumes "install_specs env specs dir st = (r, st')"
  shows "ins_runs st' = ins_runs st @ [install_command dir specs] \<and>
    (ins_lock st' = ins_lock st \<and> (r = Inr () \<longrightarrow> uv_run env (ins_runs st) (install_command dir specs) \<noteq> UvExit 0) \<or>
     r = Inr () \<and> ins_lock st' = Some (spec_digest env specs) \<and>
     uv_run env (ins_runs st) (install_command dir specs) = UvExit 0)"
  using assms
  by (auto simp: install_specs_def run_uv_def split: uv_result.splits bool.splits option.splits if_splits)

text \<open>C27: The plugin lock tells the truth: an installation run changes the lock only by writing the digest of
  its specifications, and only when its last command was the install of exactly these and exited with
  zero. Any other way out, a failure, a time-out or an exception, leaves the old lock, so the next start
  tries again; and with the lock of the same specifications, in any order, a start runs nothing.\<close>

theorem plugin_lock_exact:
  assumes "\<And>x. str_strip (uv_sha256 env x) = uv_sha256 env x"
    and "ensure_external_plugins env specs dir st = (r, st')"
  shows "(ins_lock st' = ins_lock st \<or>
      ins_lock st' = Some (spec_digest env specs) \<and> r = Inr () \<and>
      (\<exists>before. ins_runs st' = before @ [install_command dir specs] \<and>
         uv_run env before (install_command dir specs) = UvExit 0)) \<and>
    (ins_lock st' = Some (spec_digest env specs) \<and> mset specs' = mset specs \<longrightarrow>
       ensure_external_plugins env specs' dir st' = (Inr (), st'))"
proof
  show "ins_lock st' = ins_lock st \<or> ins_lock st' = Some (spec_digest env specs) \<and> r = Inr () \<and>
      (\<exists>before. ins_runs st' = before @ [install_command dir specs] \<and>
         uv_run env before (install_command dir specs) = UvExit 0)"
  proof -
    consider "ins_lock st' = ins_lock st"
      | st1 where "install_specs env specs dir st1 = (r, st')" "ins_lock st1 = ins_lock st"
      using assms(2)
      by (auto simp: ensure_external_plugins_def split: if_splits prod.splits sum.splits bool.splits dest: run_uv_lock)
    then show ?thesis
    proof cases
      case (2 st1)
      from install_specs_cases [OF 2(1)] 2(2) show ?thesis by auto
    qed simp
  qed
  show "ins_lock st' = Some (spec_digest env specs) \<and> mset specs' = mset specs \<longrightarrow>
       ensure_external_plugins env specs' dir st' = (Inr (), st')"
  proof
    assume a: "ins_lock st' = Some (spec_digest env specs) \<and> mset specs' = mset specs"
    then have "sort specs' = sort specs" by (metis mset_sort properties_for_sort sorted_sort)
    then have "spec_digest env specs' = spec_digest env specs" by (simp add: spec_digest_def)
    with a assms(1) show "ensure_external_plugins env specs' dir st' = (Inr (), st')"
      by (simp add: ensure_external_plugins_def spec_digest_def)
  qed
qed

lemma overlay_once: "activate_plugin_overlay found (activate_plugin_overlay found path) = activate_plugin_overlay found path"
  by (auto simp: activate_plugin_overlay_def Let_def)

section \<open>Sharing a model\<close>

definition model_inv :: "nat \<Rightarrow> shared_model \<Rightarrow> bool" where
  "model_inv slots m \<longleftrightarrow>
     finite (inferring m) \<and> card (inferring m) \<le> slots \<and>
     (\<forall>t. sh_at m t = Loads \<longleftrightarrow> sh_lock m = Some t) \<and>
     (\<forall>t. sh_at m t \<in> {AwaitsSlot, Infers, Returned} \<longrightarrow> sh_loaded m) \<and>
     (sh_loaded m \<longrightarrow> sh_lock m = None) \<and>
     sh_loads m = sh_failures m + (if sh_loaded m then 1 else 0) + (if sh_lock m = None then 0 else 1)"

lemma inferring_upd:
  "inferring (m\<lparr>sh_lock := l, sh_loads := n, sh_at := (sh_at m)(t := p)\<rparr>) = inferring (goes t p m)"
  "inferring (m\<lparr>sh_lock := l, sh_loaded := b, sh_at := (sh_at m)(t := p)\<rparr>) = inferring (goes t p m)"
  "inferring (m\<lparr>sh_lock := l, sh_failures := n, sh_at := (sh_at m)(t := p)\<rparr>) = inferring (goes t p m)"
  "inferring (goes t p m) = (if p = Infers then insert t (inferring m) else inferring m - {t})"
  by (auto simp: inferring_def)

lemma model_inv_step:
  assumes "call_step slots m m'" "model_inv slots m"
  shows "model_inv slots m'"
  using assms
proof cases
  case (call t)
  with assms(2) have "sh_lock m \<noteq> Some t" by (metis model_inv_def call_point.distinct(3))
  with call assms(2) show ?thesis by (auto simp: model_inv_def inferring_upd intro: order_trans [OF card_Diff1_le])
next
  case (locked t)
  with assms(2) show ?thesis by (auto simp: model_inv_def inferring_upd intro: order_trans [OF card_Diff1_le])
next
  case (locked_late t)
  with assms(2) show ?thesis by (auto simp: model_inv_def inferring_upd intro: order_trans [OF card_Diff1_le])
next
  case (loaded t)
  with assms(2) show ?thesis by (auto simp: model_inv_def inferring_upd intro: order_trans [OF card_Diff1_le])
next
  case (load_failed t)
  with assms(2) show ?thesis by (auto simp: model_inv_def inferring_upd intro: order_trans [OF card_Diff1_le])
next
  case (slot t)
  with assms(2) show ?thesis by (auto simp: model_inv_def inferring_upd card_insert_if)
next
  case (inferred t)
  with assms(2) show ?thesis by (auto simp: model_inv_def inferring_upd intro: order_trans [OF card_Diff1_le])
next
  case (infer_failed t)
  with assms(2) show ?thesis by (auto simp: model_inv_def inferring_upd intro: order_trans [OF card_Diff1_le])
qed




section \<open>Examples\<close>

text \<open>Two calls: the first loads the model while the second waits.\<close>

definition shared_once :: shared_model where
  "shared_once = goes 1 AwaitsLock (goes 0 Loads (new_model\<lparr>sh_lock := Some 0, sh_loads := 1\<rparr>))"

lemma shared_once_reachable: "(call_step 1)\<^sup>*\<^sup>* new_model shared_once"
proof -
  let ?a = "goes 0 AwaitsLock new_model"
  have "call_step 1 new_model ?a" using call [of new_model 0 1] by (simp add: new_model_def)
  moreover have "call_step 1 ?a (goes 0 Loads (?a\<lparr>sh_lock := Some 0, sh_loads := sh_loads ?a + 1\<rparr>))"
    by (rule locked) (simp_all add: new_model_def)
  moreover have "call_step 1 (goes 0 Loads (?a\<lparr>sh_lock := Some 0, sh_loads := sh_loads ?a + 1\<rparr>)) shared_once"
    using call [of "goes 0 Loads (?a\<lparr>sh_lock := Some 0, sh_loads := sh_loads ?a + 1\<rparr>)" 1 1]
    by (simp add: new_model_def shared_once_def fun_upd_twist)
  ultimately show ?thesis by (meson r_into_rtranclp rtranclp_trans)
qed


definition sample_uv :: uv_env where
  "sample_uv = \<lparr>uv_run = \<lambda>_ _. UvExit 0, uv_python = \<lambda>runs. runs \<noteq> [], uv_sha256 = \<lambda>s. replicate (length s) (CHR ''a''),
     uv_write = \<lambda>_. None\<rparr>"

lemma strip_word: "str_strip (replicate n (CHR ''a'')) = replicate n (CHR ''a'')"
  by (cases n) (simp_all add: str_strip_def is_space_def replicate_append_same [symmetric] flip: replicate_Suc)

theorem plugin_lock_exact_witness:
  "ensure_external_plugins sample_uv [''q==2'', ''p==1''] ''/v''
     (snd (ensure_external_plugins sample_uv [''p==1'', ''q==2''] ''/v'' \<lparr>ins_lock = None, ins_runs = []\<rparr>)) =
   (Inr (), snd (ensure_external_plugins sample_uv [''p==1'', ''q==2''] ''/v'' \<lparr>ins_lock = None, ins_runs = []\<rparr>))"
proof -
  let ?r = "ensure_external_plugins sample_uv [''p==1'', ''q==2''] ''/v'' \<lparr>ins_lock = None, ins_runs = []\<rparr>"
  have "str_strip (uv_sha256 sample_uv x) = uv_sha256 sample_uv x" for x by (simp add: sample_uv_def strip_word)
  moreover have "?r = (fst ?r, snd ?r)" by simp
  moreover have "ins_lock (snd ?r) = Some (spec_digest sample_uv [''p==1'', ''q==2''])" by code_simp
  ultimately show ?thesis
    using plugin_lock_exact [of sample_uv "[''p==1'', ''q==2'']" "''/v''" "\<lparr>ins_lock = None, ins_runs = []\<rparr>" "fst ?r" "snd ?r"
        "[''q==2'', ''p==1'']"]
    by simp
qed

end
