(* ===== verification/StartupSpec.thy ===== *)
theory StartupSpec
  imports Startup LoaderSpec PluginSpec
begin

text \<open>What the composition gives: every configured instance gets its tasks, and no two leaseholders share a name.\<close>

lemma update_new: "k \<notin> fst ` set al \<Longrightarrow> AList.update k v al = al @ [(k, v)]"
  by (induction al) auto

lemma by_name_distinct:
  assumes "distinct (map si_name is)"
  shows "by_name f is = map (\<lambda>i. (si_name i, f i)) is"
proof -
  have "distinct (map si_name is) \<Longrightarrow> list_all (\<lambda>i. si_name i \<notin> fst ` set acc) is \<Longrightarrow>
      fold (\<lambda>i. AList.update (si_name i) (f i)) is acc = acc @ map (\<lambda>i. (si_name i, f i)) is" for acc
  proof (induction "is" arbitrary: acc)
    case (Cons i "is")
    have "list_all (\<lambda>j. si_name j \<notin> fst ` set (acc @ [(si_name i, f i)])) is"
      unfolding list_all_iff
    proof
      fix j assume j: "j \<in> set is"
      then have "si_name j \<in> set (map si_name is)" by simp
      with Cons.prems(1) have "si_name j \<noteq> si_name i" by (metis distinct.simps(2) list.simps(9))
      with Cons.prems(2) j show "si_name j \<notin> fst ` set (acc @ [(si_name i, f i)])" by (simp add: list_all_iff)
    qed
    from Cons.IH [OF _ this] Cons.prems show ?case by (simp add: update_new)
  qed simp
  from this [of "[]"] assms show ?thesis by (simp add: by_name_def list_all_iff)
qed

lemma mint_inj:
  assumes "mint_worker_id (''pool-'' @ a) (int m) = mint_worker_id (''pool-'' @ b) (int n)"
  shows "a = b \<and> m = n"
proof -
  have no: "CHR ''-'' \<notin> set (show_nat k)" for k by (rule show_nat_no_char) (simp add: is_digit_def)
  have "a @ CHR ''-'' # show_nat m = b @ CHR ''-'' # show_nat n"
    using assms by (simp add: mint_worker_id_def show_int_def)
  moreover have "dropWhile (\<lambda>c. c \<noteq> CHR ''-'') (rev (x @ CHR ''-'' # show_nat k)) = CHR ''-'' # rev x" for x k
  proof -
    have "dropWhile (\<lambda>c. c \<noteq> CHR ''-'') (rev (show_nat k) @ CHR ''-'' # rev x) = CHR ''-'' # rev x"
      by (subst dropWhile_append2) (use no [of k] in auto)
    then show ?thesis by simp
  qed
  ultimately have "a = b" by (metis list.inject rev_is_rev_conv)
  with \<open>a @ CHR ''-'' # show_nat m = b @ CHR ''-'' # show_nat n\<close> show ?thesis by (simp add: show_nat_inj)
qed

text \<open>The lease holders' names of a pool's tasks.\<close>

definition worker_ids :: "task list \<Rightarrow> string list" where
  "worker_ids ts = concat (map (\<lambda>t. case t of WorkerTask ds \<Rightarrow> map (\<lambda>x. dp_worker (snd x)) ds | _ \<Rightarrow> []) ts)"

lemma pool_ids:
  assumes "distinct (map si_name (st_sonarr s))" "wp_deps p = boot_deps h s"
  shows "worker_ids (map (\<lambda>n. WorkerTask (task_deps p n)) [0..<k]) =
     concat (map (\<lambda>n. map (\<lambda>i. mint_worker_id (''pool-'' @ si_name i) (int n)) (st_sonarr s)) [0..<k])"
  using assms
  by (simp add: worker_ids_def task_deps_def boot_deps_def by_name_distinct boot_deps_of_def comp_def split_beta)

lemma distinct_grid:
  fixes g :: "'a \<Rightarrow> nat \<Rightarrow> 'b"
  assumes "\<And>x y m n. g x m = g y n \<Longrightarrow> x = y \<and> m = n" "distinct xs"
  shows "distinct (concat (map (\<lambda>n. map (\<lambda>x. g x n) xs) [0..<k]))"
proof (induction k)
  case (Suc k)
  have "distinct (map (\<lambda>x. g x k) xs)"
    unfolding distinct_map inj_on_def using assms by blast
  moreover have "set (concat (map (\<lambda>n. map (\<lambda>x. g x n) xs) [0..<k])) \<inter> set (map (\<lambda>x. g x k) xs) = {}"
    using assms(1) by fastforce
  ultimately show ?case using Suc.IH by simp
qed simp

lemma minted_distinct:
  "distinct xs \<Longrightarrow> distinct (concat (map (\<lambda>n. map (\<lambda>x. mint_worker_id (''pool-'' @ x) (int n)) xs) [0..<k]))"
  by (rule distinct_grid) (rule mint_inj)

text \<open>The pool of a configuration with distinct names, and its tasks.\<close>

definition discovery_tasks :: "host \<Rightarrow> settings \<Rightarrow> task list" where
  "discovery_tasks h s =
     map (\<lambda>i. DiscoveryTask (si_name i) (rt_disc (boot_runtime_of h s i)) (si_poll_interval_s i)) (st_sonarr s)"

lemma boot_tasks:
  assumes d: "distinct (map si_name (st_sonarr s))" and "st_sonarr s \<noteq> []"
  obtains p where "boot_pool h s = Some p" "wp_deps p = boot_deps h s" "wp_size p = nat (wk_pool_size (st_workers s))"
    "start_tasks p = Inr (map (\<lambda>n. WorkerTask (task_deps p n)) [0..<wp_size p] @ [ReaperTask, TrashSweepTask] @
       discovery_tasks h s)"
proof -
  have deps: "boot_deps h s = map (\<lambda>i. (si_name i, boot_deps_of h s i)) (st_sonarr s)"
    by (simp add: boot_deps_def by_name_distinct [OF d])
  obtain p where p: "boot_pool h s = Some p" "wp_deps p = boot_deps h s"
      "wp_discoverers p = map (\<lambda>i. (si_name i, rt_disc (boot_runtime_of h s i))) (st_sonarr s)"
      "wp_size p = nat (wk_pool_size (st_workers s))"
    using assms(2) by (simp add: boot_pool_def deps boot_instances_def by_name_distinct [OF d])
  have look: "map_of (wp_deps p) (si_name i) = Some (boot_deps_of h s i)" if "i \<in> set (st_sonarr s)" for i
    using that d unfolding p(2) deps by (intro map_of_is_SomeI) (simp_all add: comp_def)
  have tr: "traverse (\<lambda>(name, di). case map_of (wp_deps p) name of None \<Rightarrow> Inl KeyError
      | Some d \<Rightarrow> Inr (DiscoveryTask name di (si_poll_interval_s (dp_instance d)))) (wp_discoverers p) =
      Inr (discovery_tasks h s)"
    unfolding traverse_Inr_all p(3) list_all2_conv_all_nth discovery_tasks_def
    by (auto simp: look boot_deps_of_def)
  then have "start_tasks p = Inr (map (\<lambda>n. WorkerTask (task_deps p n)) [0..<wp_size p] @
      [ReaperTask, TrashSweepTask] @ discovery_tasks h s)"
    by (simp add: start_tasks_def)
  with p(1,2,4) show ?thesis by (rule that)
qed

text \<open>C28: The application starts whole: with distinct instance names and at least one instance, the pool's tasks
  are the configured number of workers, the reaper, the trash sweeper and one discovery task for each
  instance in order, with its poll interval. No two worker tasks, for whatever instance, ever claim a
  job under one name, and none under the name of an API request; so a lease names its holder.\<close>

theorem boot_starts_everything:
  assumes "unique_sonarr_names s = Inr s" "st_sonarr s \<noteq> []" "0 \<le> wk_pool_size (st_workers s)"
  shows "\<exists>p ts. boot_pool h s = Some p \<and> start_tasks p = Inr ts \<and>
    length (filter (\<lambda>t. case t of WorkerTask ds \<Rightarrow> True | _ \<Rightarrow> False) ts) = nat (wk_pool_size (st_workers s)) \<and>
    filter (\<lambda>t. case t of WorkerTask ds \<Rightarrow> False | _ \<Rightarrow> True) ts =
      ReaperTask # TrashSweepTask #
      map (\<lambda>i. DiscoveryTask (si_name i) (rt_disc (boot_runtime_of h s i)) (si_poll_interval_s i)) (st_sonarr s) \<and>
    distinct (worker_ids ts) \<and> list_all (\<lambda>w. \<nexists>identity. w = api_worker_id identity) (worker_ids ts)"
proof -
  have d: "distinct (map si_name (st_sonarr s))" using assms(1) by (simp add: unique_sonarr_names_iff)
  obtain p where p: "boot_pool h s = Some p" "wp_deps p = boot_deps h s" "wp_size p = nat (wk_pool_size (st_workers s))"
    and st: "start_tasks p = Inr (map (\<lambda>n. WorkerTask (task_deps p n)) [0..<wp_size p] @ [ReaperTask, TrashSweepTask] @
       discovery_tasks h s)"
    by (rule boot_tasks [OF d assms(2)])
  let ?ds = "discovery_tasks h s"
  let ?ws = "map (\<lambda>n. WorkerTask (task_deps p n)) [0..<wp_size p]"
  have ids: "worker_ids (?ws @ [ReaperTask, TrashSweepTask] @ ?ds) =
      concat (map (\<lambda>n. map (\<lambda>i. mint_worker_id (''pool-'' @ si_name i) (int n)) (st_sonarr s)) [0..<wp_size p])"
    using pool_ids [OF d p(2), of "wp_size p"] by (simp add: worker_ids_def discovery_tasks_def comp_def)
  have "distinct (worker_ids (?ws @ [ReaperTask, TrashSweepTask] @ ?ds))"
    unfolding ids using minted_distinct [OF d, of "wp_size p"] by (simp add: comp_def)
  moreover have "list_all (\<lambda>w. \<nexists>identity. w = api_worker_id identity) (worker_ids (?ws @ [ReaperTask, TrashSweepTask] @ ?ds))"
    unfolding ids by (auto simp: list_all_iff mint_worker_id_def api_worker_id_def)
  moreover have "filter (\<lambda>t. case t of WorkerTask ds \<Rightarrow> True | _ \<Rightarrow> False) (?ws @ [ReaperTask, TrashSweepTask] @ ?ds) = ?ws"
    "filter (\<lambda>t. case t of WorkerTask ds \<Rightarrow> False | _ \<Rightarrow> True) (?ws @ [ReaperTask, TrashSweepTask] @ ?ds) =
      ReaperTask # TrashSweepTask # ?ds"
    by (auto simp: filter_empty_conv filter_id_conv discovery_tasks_def)
  ultimately show ?thesis
    using p(1,3) st by (intro exI [of _ p] exI [of _ "?ws @ [ReaperTask, TrashSweepTask] @ ?ds"]) (simp add: discovery_tasks_def del: filter_append)
qed

section \<open>Example\<close>

definition small_settings :: settings where
  "small_settings = default_settings\<lparr>st_sonarr := [sample_instance, sample_instance\<lparr>si_name := ''tv2''\<rparr>]\<rparr>"

definition small_host :: host where
  "small_host =
     \<lparr>ho_tools = sample_toolbox, ho_codec = sample_codec, ho_transcribe = \<lambda>_ _. null_transcribe,
      ho_identify = \<lambda>_ _ _ _ _ _. Inr sample_result, ho_repr = \<lambda>_. [], ho_bytes = \<lambda>_. [], ho_monotonic = \<lambda>_. 0,
      ho_race = \<lambda>_ _ d. d, ho_identifiers = [], ho_transcribers = []\<rparr>"

lemma small_named: "unique_sonarr_names small_settings = Inr small_settings"
  by (simp add: unique_sonarr_names_iff small_settings_def sample_instance_def)

theorem boot_starts_everything_witness:
  "\<exists>p ts. boot_pool small_host small_settings = Some p \<and> start_tasks p = Inr ts \<and>
    length (filter (\<lambda>t. case t of WorkerTask ds \<Rightarrow> True | _ \<Rightarrow> False) ts) = 2 \<and> distinct (worker_ids ts)"
  using boot_starts_everything [OF small_named, of small_host]
  by (auto simp: small_settings_def default_settings_def default_workers_def)

end
