(* ===== verification/DrySystem.thy ===== *)
theory DrySystem
  imports SystemRel StartupSpec ProcessSpec
begin

text \<open>
  A dry run of the whole program: what an application started from settings with \<open>dry_run\<close> does,
  in any interleaving of its tasks and the requests to its API. The relation is the one of
  \<open>ProcessSpec\<close>, events that only look, with one exception: files already in the trash expire.
\<close>

section \<open>What a dry run may do\<close>

text \<open>Nothing that meddles, but for the removal of the files in \<open>T\<close>.\<close>

fun spares :: "string set \<Rightarrow> effect \<Rightarrow> bool" where
  "spares T (EOs (OsUnlink p) err) \<longleftrightarrow> p \<in> T"
| "spares T e \<longleftrightarrow> \<not> meddles e"

abbreviation dry_moves :: "string set \<Rightarrow> world \<Rightarrow> world \<Rightarrow> bool" where
  "dry_moves T \<equiv> new_events (spares T)"

lemma spares_looks: "\<not> meddles e \<Longrightarrow> spares T e"
  by (cases "(T, e)" rule: spares.cases) auto

lemma dry_looks: "new_events (\<lambda>e. \<not> meddles e) w w' \<Longrightarrow> dry_moves T w w'"
  by (rule new_events_mono [OF _ spares_looks])

lemma dry_db: "dry_moves T w (w\<lparr>w_db := d\<rparr>)"
  by (rule new_events_same) simp

lemma dry_get: "rq_method rq = GET \<Longrightarrow> dry_moves T w (snd (http_send env rq w))"
  by (simp add: http_send_def Let_def new_events_def)

lemma dry_sleep: "dry_moves T w (os_sleep x w)"
  by (simp add: os_sleep_def new_events_def)

lemma dry_publish: "dry_moves T w (publish_update ap i st w)"
  by (simp add: publish_update_def new_events_def)

lemmas dry_parts = dry_db dry_get dry_sleep dry_publish new_events_trans dry_looks

section \<open>The parts\<close>

definition dry_deps :: "(string \<times> deps) list \<Rightarrow> bool" where
  "dry_deps ds \<longleftrightarrow> (\<forall>(n, d) \<in> set ds. st_dry_run (dp_settings d) \<and> cn_dry_run (dp_client d))"

definition dry_app :: "app \<Rightarrow> bool" where
  "dry_app ap \<longleftrightarrow> st_dry_run (ap_settings ap) \<and> (\<forall>(n, rt) \<in> set (ap_instances ap). cn_dry_run (rt_client rt))"

interpretation dry_pool: pool_rel p ds "\<lambda>w w'. dry_deps ds \<longrightarrow> dry_moves T w w'" for p ds T
proof unfold_locales
  fix name d i cache and w :: world
  assume "(name, d) \<in> set ds"
  then have "dry_deps ds \<Longrightarrow> hands_off d" by (auto simp: dry_deps_def hands_off_def)
  with sends.processed [OF hands_off_within] dry_looks
  show "dry_deps ds \<longrightarrow> dry_moves T w (snd (snd (process_job d i cache w)))" by blast
qed (auto intro: dry_parts)

interpretation dry_disc: disc_rel d "dry_moves T" for d T
  by unfold_locales (auto intro: dry_parts os_call_looks)

lemma dry_acted:
  assumes "dry_app ap" "(n, rt) \<in> set (ap_instances ap)"
  shows "dry_moves T w (snd (run_action (api_remediator ap rt u) i act w))"
proof -
  have m: "\<not> mutating e \<Longrightarrow> spares T e" for e
    by (cases "(T, e)" rule: spares.cases) auto
  have "dry (api_remediator ap rt u)"
    using assms by (auto simp: dry_app_def dry_def api_remediator_def)
  note quiet = dry_run_events [OF this]
  show ?thesis
    using new_events_mono [OF quiet(1) m] new_events_mono [OF quiet(2) m]
    by (simp add: run_action_def split: action_json.split)
qed

interpretation dry_api: handler_rel ap "\<lambda>w w'. dry_app ap \<longrightarrow> dry_moves T w w'" for ap T
  by unfold_locales (auto simp: others_def intro: dry_parts dry_acted dry_disc.backfilled)

definition trash_paths :: "db \<Rightarrow> string set" where
  "trash_paths d = t_trash_path ` set (db_trash d)"

lemma dry_unlink: "p \<in> T \<Longrightarrow> dry_moves T w (unlink_tolerant env p w)"
  using os_call_events [of env "OsUnlink p" w "fst (os_call env (OsUnlink p) w)" "snd (os_call env (OsUnlink p) w)"]
  by (auto simp: unlink_tolerant_def elim!: new_events_mono)

lemma dry_sweep:
  assumes "trash_paths (w_db w) \<subseteq> T"
  shows "dry_moves T w (trash_sweep_turn env w)"
proof -
  have un: "\<forall>t \<in> set ts. t_trash_path t \<in> T \<Longrightarrow> dry_moves T w (fold (\<lambda>t. unlink_tolerant env (t_trash_path t)) ts w)" for ts w
    by (induction ts arbitrary: w) (auto intro: new_events_trans [OF dry_unlink])
  have "dry_moves T w (snd (sweep_expired env w))"
    unfolding sweep_expired_def Let_def snd_conv
    by (rule new_events_trans [OF un dry_db]) (use assms in \<open>auto simp: trash_paths_def\<close>)
  then show ?thesis by (auto simp: trash_sweep_turn_def intro: new_events_trans dry_sleep)
qed

lemma dry_shred:
  assumes "trash_paths (w_db w) \<subseteq> T"
  shows "dry_moves T w (snd (delete_trash_item ap i w))"
proof -
  have "dry_moves T v (delete_now env t v)" if "t_trash_path t \<in> T" for env t v
    unfolding delete_now_def mark_trash_row_def Let_def
    by (rule new_events_trans [OF dry_unlink [OF that] dry_db])
  moreover have "t_trash_path t \<in> T" if "active_trash_item (w_db w) i = Inr t" for t
    using that assms by (auto simp: active_trash_item_def trash_paths_def get_row_def find_Some_iff
        split: option.splits if_splits dest!: nth_mem)
  moreover have "dry_moves T w (others ap w)" by (simp add: others_def dry_db)
  ultimately show ?thesis
    by (auto simp: delete_trash_item_def split: sum.splits intro: new_events_trans)
qed

section \<open>The started application\<close>

lemma update_values: "x \<in> set (AList.update k v al) \<Longrightarrow> x = (k, v) \<or> x \<in> set al"
  by (induction al) (auto split: if_splits)

lemma by_name_values:
  assumes "x \<in> set (by_name f is)"
  shows "\<exists>i. snd x = f i"
proof -
  have "list_all (\<lambda>x. \<exists>i. snd x = f i) acc \<Longrightarrow> x \<in> set (fold (\<lambda>i. AList.update (si_name i) (f i)) is acc) \<Longrightarrow>
      \<exists>i. snd x = f i" for acc
  proof (induction "is" arbitrary: acc)
    case (Cons i js)
    have "list_all (\<lambda>x. \<exists>i. snd x = f i) (AList.update (si_name i) (f i) acc)"
      using Cons.prems(1) by (force simp: list_all_iff dest: update_values)
    from Cons.IH [OF this] Cons.prems(2) show ?case by simp
  qed (auto simp: list_all_iff)
  from this [of "[]"] assms show ?thesis by (simp add: by_name_def)
qed

lemma boot_dry_deps:
  assumes "boot_pool h s = Some p" "st_dry_run s"
  shows "dry_deps (task_deps p n)"
  using assms
  by (fastforce simp: dry_deps_def task_deps_def boot_pool_def boot_deps_def boot_deps_of_def default_client_def
      split: if_splits dest!: by_name_values)

text \<open>An API process on this application: its settings and instances, whatever its machine is like.\<close>

definition serves :: "host \<Rightarrow> settings \<Rightarrow> app \<Rightarrow> bool" where
  "serves h s ap \<longleftrightarrow> ap_settings ap = s \<and> ap_instances ap = boot_instances h s"

lemma boot_dry_app:
  assumes "serves h s ap" "st_dry_run s"
  shows "dry_app ap"
  using assms
  by (fastforce simp: dry_app_def serves_def boot_instances_def boot_runtime_of_def default_client_def Let_def
      dest!: by_name_values)

text \<open>
  One move of one application started from dry settings; pausing changes the settings but not
  this flag. \<open>T\<close> bounds what is in the trash whenever it is swept or an item is deleted by request.
  The request to restore an item is left out: it puts a file back by order.
\<close>

inductive dry_step :: "string set \<Rightarrow> world \<Rightarrow> world \<Rightarrow> bool" for T where
  worker: "boot_pool h s = Some p \<Longrightarrow> st_dry_run s \<Longrightarrow> worker_turn p (task_deps p n) v = Some (r, v') \<Longrightarrow>
    ws_idx v < length (task_deps p n) \<Longrightarrow> dry_step T (ws_world v) (ws_world v')"
| beat: "heartbeat_turn d i now (w_db w) = BeatOk db \<Longrightarrow> dry_step T w (w\<lparr>w_db := db\<rparr>)"
| reaper: "dry_step T w (reaper_turn p env w)"
| sweeper: "trash_paths (w_db w) \<subseteq> T \<Longrightarrow> dry_step T w (trash_sweep_turn env w)"
| discovery: "discovery_turn di interval w = Some w' \<Longrightarrow> dry_step T w w'"
| verdict: "serves h s ap \<Longrightarrow> st_dry_run s \<Longrightarrow> dry_step T w (snd (post_verdict ap i body w))"
| approve: "serves h s ap \<Longrightarrow> st_dry_run s \<Longrightarrow> dry_step T w (snd (approve_job ap identity i w))"
| replace: "serves h s ap \<Longrightarrow> st_dry_run s \<Longrightarrow> dry_step T w (snd (replace_job ap identity i w))"
| reject: "serves h s ap \<Longrightarrow> st_dry_run s \<Longrightarrow> dry_step T w (snd (reject_job ap i w))"
| park: "serves h s ap \<Longrightarrow> st_dry_run s \<Longrightarrow> dry_step T w (snd (park_job ap i w))"
| unpark: "serves h s ap \<Longrightarrow> st_dry_run s \<Longrightarrow> dry_step T w (snd (unpark_job ap i w))"
| rerun: "serves h s ap \<Longrightarrow> st_dry_run s \<Longrightarrow> dry_step T w (snd (rerun_job ap i w))"
| backfill: "serves h s ap \<Longrightarrow> st_dry_run s \<Longrightarrow> dry_step T w (snd (backfill_instance ap name req w))"
| shred: "trash_paths (w_db w) \<subseteq> T \<Longrightarrow> dry_step T w (snd (delete_trash_item ap i w))"
| elsewhere: "dry_step T w (w\<lparr>w_db := d\<rparr>)"

lemma dry_request:
  assumes "moves (\<lambda>w w'. dry_app ap \<longrightarrow> dry_moves T w w') m" "serves h s ap" "st_dry_run s"
  shows "dry_moves T w (snd (m w))"
  using assms boot_dry_app by (auto simp: moves_def)

lemma dry_step_moves: "dry_step T w w' \<Longrightarrow> dry_moves T w w'"
proof (induction rule: dry_step.induct)
  case (worker h s p n v r v')
  from dry_pool.worker_turn_moves [OF worker(3)] worker(4) boot_dry_deps [OF worker(1,2)] show ?case by blast
next
  case (reaper w p env)
  show ?case unfolding reaper_turn_def Let_def by (rule new_events_trans [OF dry_sleep dry_db])
next
  case (discovery di interval w w')
  then obtain r w1 where p: "poll_once di w = Some (r, w1)" "w' = os_sleep interval w1"
    by (auto simp: discovery_turn_def)
  from dry_disc.polled [OF p(1), of T] have "dry_moves T w w1" by simp
  with p(2) show ?case by (auto intro: new_events_trans dry_sleep)
next
  case (beat d i now w db)
  show ?case by (rule dry_db)
next
  case (sweeper w env)
  then show ?case by (rule dry_sweep)
next
  case (shred w ap i)
  then show ?case by (rule dry_shred)
next
  case (elsewhere w d)
  show ?case by (rule dry_db)
qed (rule dry_request, rule dry_api.verdict_moves dry_api.approve_moves dry_api.replace_moves dry_api.reject_moves
    dry_api.transitions_move dry_api.backfill_moves, assumption, assumption)+


section \<open>Example\<close>

definition dry_settings :: settings where
  "dry_settings = small_settings\<lparr>st_dry_run := True\<rparr>"

definition dry_sample_app :: app where
  "dry_sample_app =
     \<lparr>ap_env = tb_env sample_toolbox, ap_codec = sample_codec, ap_settings = dry_settings,
      ap_instances = boot_instances small_host dry_settings, ap_bus = True,
      ap_log = \<lparr>rb_capacity = DEFAULT_CAPACITY, rb_items = []\<rparr>, ap_pool_size = 2, ap_race = (\<lambda>tr d. d),
      ap_text = (\<lambda>_. []), ap_cpu = 0, ap_mem = 0, ap_quota = None\<rparr>"


end
