(* ===== verification/Schema.thy ===== *)
theory Schema
  imports Startup RouteDetail
begin

text \<open>
  The database's schema: as \<open>impostarr/models.py\<close> declares it, with the constraint names the naming
  convention gives, and as the migration scripts of \<open>impostarr/migrations/versions\<close> build it, one
  data definition statement after the other. The statements are those of SQL: one is refused
  when it names something that is missing or already there, or would leave a constraint, a foreign key
  or an index without what it refers to.
\<close>

section \<open>Schemas\<close>

datatype sql_type = SInteger | SBigInteger | SString | SFloat | SJSON | SDateTime

record column_def =
  cd_name :: string
  cd_type :: sql_type
  cd_nullable :: bool

datatype table_constraint =
    PrimaryKey "string list" string
  | Unique "string list" string
  | Check string string
  | ForeignKey "string list" "string list" string

record table_def =
  td_name :: string
  td_columns :: "column_def list"
  td_constraints :: "table_constraint list"

record index_def =
  xd_name :: string
  xd_table :: string
  xd_columns :: "string list"
  xd_unique :: bool

record schema =
  sm_tables :: "table_def list"
  sm_indexes :: "index_def list"

abbreviation column :: "string \<Rightarrow> sql_type \<Rightarrow> bool \<Rightarrow> column_def" where
  "column n ty nullable \<equiv> \<lparr>cd_name = n, cd_type = ty, cd_nullable = nullable\<rparr>"

definition table_names :: "schema \<Rightarrow> string list" where
  "table_names s = map td_name (sm_tables s)"

definition column_names :: "table_def \<Rightarrow> string list" where
  "column_names t = map cd_name (td_columns t)"

fun constraint_columns :: "table_constraint \<Rightarrow> string list" where
  "constraint_columns (PrimaryKey cs n) = cs"
| "constraint_columns (Unique cs n) = cs"
| "constraint_columns (Check txt n) = [takeWhile (\<lambda>c. c \<noteq> CHR '' '') txt]"
| "constraint_columns (ForeignKey cs refs n) = cs"

text \<open>The tables a foreign key refers to: \<open>table.column\<close>, up to the dot.\<close>

definition referred_table :: "string \<Rightarrow> string" where
  "referred_table ref = takeWhile (\<lambda>c. c \<noteq> CHR ''.'') ref"

fun constraint_targets :: "table_constraint \<Rightarrow> string list" where
  "constraint_targets (ForeignKey cs refs n) = map referred_table refs"
| "constraint_targets c = []"

definition table_targets :: "table_def \<Rightarrow> string list" where
  "table_targets t = concat (map constraint_targets (td_constraints t))"

definition columns_in_use :: "table_def \<Rightarrow> string list" where
  "columns_in_use t = concat (map constraint_columns (td_constraints t))"

definition table_ok :: "string list \<Rightarrow> table_def \<Rightarrow> bool" where
  "table_ok names t \<longleftrightarrow> distinct (column_names t) \<and>
     list_all (\<lambda>c. c \<in> set (column_names t)) (columns_in_use t) \<and>
     list_all (\<lambda>n. n \<in> set names) (table_targets t)"

definition index_ok :: "table_def list \<Rightarrow> index_def \<Rightarrow> bool" where
  "index_ok ts i \<longleftrightarrow>
     list_ex (\<lambda>t. td_name t = xd_table i \<and> list_all (\<lambda>c. c \<in> set (column_names t)) (xd_columns i)) ts"

definition valid_schema :: "schema \<Rightarrow> bool" where
  "valid_schema s \<longleftrightarrow> distinct (table_names s) \<and> list_all (table_ok (table_names s)) (sm_tables s) \<and>
     distinct (map xd_name (sm_indexes s)) \<and> list_all (index_ok (sm_tables s)) (sm_indexes s)"

section \<open>Data definition statements\<close>

datatype ddl =
    CreateTable table_def
  | DropTable string
  | AddColumn string column_def
  | DropColumn string string
  | CreateIndex index_def
  | DropIndex string string

definition alter_table :: "string \<Rightarrow> (table_def \<Rightarrow> table_def) \<Rightarrow> schema \<Rightarrow> schema" where
  "alter_table n f s = s\<lparr>sm_tables := map (\<lambda>t. if td_name t = n then f t else t) (sm_tables s)\<rparr>"

fun apply_ddl :: "ddl \<Rightarrow> schema \<Rightarrow> schema option" where
  "apply_ddl (CreateTable t) s =
     (if td_name t \<notin> set (table_names s) \<and> table_ok (td_name t # table_names s) t
      then Some (s\<lparr>sm_tables := sm_tables s @ [t]\<rparr>) else None)"
| "apply_ddl (DropTable n) s =
     (if n \<in> set (table_names s) \<and>
         list_all (\<lambda>t. td_name t = n \<or> n \<notin> set (table_targets t)) (sm_tables s)
      then Some \<lparr>sm_tables = filter (\<lambda>t. td_name t \<noteq> n) (sm_tables s),
                 sm_indexes = filter (\<lambda>i. xd_table i \<noteq> n) (sm_indexes s)\<rparr>
      else None)"
| "apply_ddl (AddColumn n c) s =
     (if n \<in> set (table_names s) \<and> cd_nullable c \<and>
         list_all (\<lambda>t. td_name t \<noteq> n \<or> cd_name c \<notin> set (column_names t)) (sm_tables s)
      then Some (alter_table n (\<lambda>t. t\<lparr>td_columns := td_columns t @ [c]\<rparr>) s) else None)"
| "apply_ddl (DropColumn n c) s =
     (if list_ex (\<lambda>t. td_name t = n \<and> c \<in> set (column_names t) \<and> c \<notin> set (columns_in_use t)) (sm_tables s) \<and>
         list_all (\<lambda>i. xd_table i \<noteq> n \<or> c \<notin> set (xd_columns i)) (sm_indexes s)
      then Some (alter_table n (\<lambda>t. t\<lparr>td_columns := filter (\<lambda>d. cd_name d \<noteq> c) (td_columns t)\<rparr>) s) else None)"
| "apply_ddl (CreateIndex i) s =
     (if xd_name i \<notin> set (map xd_name (sm_indexes s)) \<and> index_ok (sm_tables s) i
      then Some (s\<lparr>sm_indexes := sm_indexes s @ [i]\<rparr>) else None)"
| "apply_ddl (DropIndex n tb) s =
     (if list_ex (\<lambda>i. xd_name i = n \<and> xd_table i = tb) (sm_indexes s)
      then Some (s\<lparr>sm_indexes := filter (\<lambda>i. xd_name i \<noteq> n) (sm_indexes s)\<rparr>) else None)"

fun apply_all :: "ddl list \<Rightarrow> schema \<Rightarrow> schema option" where
  "apply_all [] s = Some s"
| "apply_all (d # ds) s = Option.bind (apply_ddl d s) (apply_all ds)"

section \<open>The declared models\<close>

text \<open>What a mapped attribute says: its annotation, a type given by name, and its options.\<close>

datatype annotation = PyInt | PyStr | PyFloat | PyDatetime | PyJson

record attribute =
  at_name :: string
  at_annotation :: annotation
  at_optional :: bool
  at_type :: "sql_type option"
  at_primary :: bool
  at_unique :: bool
  at_foreign :: "string option"

text \<open>\<open>__table_args__\<close>, with the names as written there.\<close>

datatype table_arg =
    UniqueArg "string list" string
  | CheckArg string string
  | IndexArg string "string list"

record mapped_class =
  mc_tablename :: string
  mc_attributes :: "attribute list"
  mc_args :: "table_arg list"

definition mapped :: "string \<Rightarrow> annotation \<Rightarrow> attribute" where
  "mapped n a = \<lparr>at_name = n, at_annotation = a, at_optional = False, at_type = None, at_primary = False,
     at_unique = False, at_foreign = None\<rparr>"

abbreviation primary_key :: "attribute \<Rightarrow> attribute" where
  "primary_key a \<equiv> a\<lparr>at_primary := True\<rparr>"

abbreviation optional :: "attribute \<Rightarrow> attribute" where
  "optional a \<equiv> a\<lparr>at_optional := True\<rparr>"

abbreviation typed :: "sql_type \<Rightarrow> attribute \<Rightarrow> attribute" where
  "typed ty a \<equiv> a\<lparr>at_type := Some ty\<rparr>"

abbreviation foreign :: "string \<Rightarrow> attribute \<Rightarrow> attribute" where
  "foreign ref a \<equiv> a\<lparr>at_foreign := Some ref\<rparr>"

text \<open>\<open>MutableDict.as_mutable(JSON)\<close> and \<open>MutableList.as_mutable(JSON)\<close>; \<open>UTCDateTime()\<close>, whose \<open>impl\<close> is the column type.\<close>

abbreviation json_attr :: "string \<Rightarrow> attribute" where
  "json_attr n \<equiv> typed SJSON (mapped n PyJson)"

definition UTCDateTime_impl :: sql_type where
  "UTCDateTime_impl = SDateTime"

abbreviation utc_attr :: "string \<Rightarrow> attribute" where
  "utc_attr n \<equiv> typed UTCDateTime_impl (mapped n PyDatetime)"

text \<open>The column types of the annotations that name none.\<close>

fun annotated_type :: "annotation \<Rightarrow> sql_type" where
  "annotated_type PyInt = SInteger"
| "annotated_type PyStr = SString"
| "annotated_type PyFloat = SFloat"
| "annotated_type PyDatetime = SDateTime"
| "annotated_type PyJson = SJSON"

subsection \<open>The naming convention\<close>

definition pk_name :: "string \<Rightarrow> string" where
  "pk_name tb = ''pk_'' @ tb"

definition uq_name :: "string \<Rightarrow> string \<Rightarrow> string" where
  "uq_name tb column0 = ''uq_'' @ tb @ ''_'' @ column0"

definition ck_name :: "string \<Rightarrow> string \<Rightarrow> string" where
  "ck_name tb constraint = ''ck_'' @ tb @ ''_'' @ constraint"

definition fk_name :: "string \<Rightarrow> string \<Rightarrow> string \<Rightarrow> string" where
  "fk_name tb column0 referred = ''fk_'' @ tb @ ''_'' @ column0 @ ''_'' @ referred"

text \<open>A name given to a unique constraint or an index stands; that of a check constraint goes through the
  convention, which mentions it.\<close>

definition attribute_column :: "attribute \<Rightarrow> column_def" where
  "attribute_column a =
     column (at_name a) (case at_type a of None \<Rightarrow> annotated_type (at_annotation a) | Some ty \<Rightarrow> ty) (at_optional a)"

definition attribute_constraints :: "string \<Rightarrow> attribute \<Rightarrow> table_constraint list" where
  "attribute_constraints tb a =
     (if at_primary a then [PrimaryKey [at_name a] (pk_name tb)] else []) @
     (if at_unique a then [Unique [at_name a] (uq_name tb (at_name a))] else []) @
     (case at_foreign a of None \<Rightarrow> []
      | Some ref \<Rightarrow> [ForeignKey [at_name a] [ref] (fk_name tb (at_name a) (referred_table ref))])"

fun arg_constraints :: "string \<Rightarrow> table_arg \<Rightarrow> table_constraint list" where
  "arg_constraints tb (UniqueArg cs n) = [Unique cs n]"
| "arg_constraints tb (CheckArg txt n) = [Check txt (ck_name tb n)]"
| "arg_constraints tb (IndexArg n cs) = []"

fun arg_indexes :: "string \<Rightarrow> table_arg \<Rightarrow> index_def list" where
  "arg_indexes tb (IndexArg n cs) = [\<lparr>xd_name = n, xd_table = tb, xd_columns = cs, xd_unique = False\<rparr>]"
| "arg_indexes tb a = []"

definition class_table :: "mapped_class \<Rightarrow> table_def" where
  "class_table m =
     \<lparr>td_name = mc_tablename m, td_columns = map attribute_column (mc_attributes m),
      td_constraints = concat (map (attribute_constraints (mc_tablename m)) (mc_attributes m)) @
        concat (map (arg_constraints (mc_tablename m)) (mc_args m))\<rparr>"

definition metadata :: "mapped_class list \<Rightarrow> schema" where
  "metadata ms =
     \<lparr>sm_tables = map class_table ms,
      sm_indexes = concat (map (\<lambda>m. concat (map (arg_indexes (mc_tablename m)) (mc_args m))) ms)\<rparr>"

subsection \<open>The mapped classes\<close>

definition PLUGIN_RESULT_STATUSES :: "string list" where
  "PLUGIN_RESULT_STATUSES = map plugin_status_str [POk, PAbstain, PError]"

definition VERDICT_SOURCES :: "string list" where
  "VERDICT_SOURCES = map source_str [SrcAuto, SrcHuman]"

definition ASSET_TYPES :: "string list" where
  "ASSET_TYPES = map asset_type_str [AProbe, AAudio, ASubs, AFrames, ATranscript]"

fun trash_outcome_str :: "trash_outcome \<Rightarrow> string" where
  "trash_outcome_str Expired = ''expired''"
| "trash_outcome_str Deleted = ''deleted''"
| "trash_outcome_str Restored = ''restored''"

definition TRASH_OUTCOMES :: "string list" where
  "TRASH_OUTCOMES = map trash_outcome_str [Expired, Deleted, Restored]"

definition Instance_class :: mapped_class where
  "Instance_class = \<lparr>mc_tablename = ''instances'', mc_attributes =
    [primary_key (mapped ''id'' PyInt), (mapped ''name'' PyStr)\<lparr>at_unique := True\<rparr>, mapped ''url'' PyStr,
     optional (mapped ''history_watermark'' PyInt), optional (json_attr ''backfill_cursor''),
     optional (utc_attr ''last_polled_at''), optional (utc_attr ''last_backfilled_at'')],
    mc_args = []\<rparr>"

definition File_class :: mapped_class where
  "File_class = \<lparr>mc_tablename = ''files'', mc_attributes =
    [primary_key (mapped ''id'' PyInt), foreign ''instances.id'' (mapped ''instance_id'' PyInt),
     mapped ''sonarr_path'' PyStr, mapped ''local_path'' PyStr, typed SBigInteger (mapped ''size'' PyInt),
     mapped ''content_hash'' PyStr, mapped ''series_id'' PyInt, json_attr ''episode_ids'',
     mapped ''episode_file_id'' PyInt, json_attr ''quality'', json_attr ''languages'',
     optional (mapped ''history_id'' PyInt), optional (mapped ''download_id'' PyStr),
     optional (mapped ''source_title'' PyStr), optional (mapped ''indexer'' PyStr), optional (mapped ''guid'' PyStr)],
    mc_args = [UniqueArg [''instance_id'', ''episode_file_id''] ''uq_files_instance_episode_file'']\<rparr>"

definition Job_class :: mapped_class where
  "Job_class = \<lparr>mc_tablename = ''jobs'', mc_attributes =
    [primary_key (mapped ''id'' PyInt), foreign ''files.id'' (mapped ''file_id'' PyInt),
     mapped ''status'' PyStr, mapped ''attempts'' PyInt, optional (mapped ''claimed_by'' PyStr),
     optional (utc_attr ''claimed_at''), optional (utc_attr ''heartbeat_at''),
     utc_attr ''created_at'', utc_attr ''updated_at''],
    mc_args = [CheckArg (enum_check ''status'' (map job_status_str JOB_STATUSES)) ''status_valid'',
      IndexArg ''ix_jobs_status_created_at'' [''status'', ''created_at'']]\<rparr>"

definition Asset_class :: mapped_class where
  "Asset_class = \<lparr>mc_tablename = ''assets'', mc_attributes =
    [primary_key (mapped ''id'' PyInt), foreign ''files.id'' (mapped ''file_id'' PyInt), mapped ''type'' PyStr,
     optional (mapped ''path'' PyStr), optional (json_attr ''payload''), mapped ''input_fingerprint'' PyStr,
     json_attr ''tool_meta'', utc_attr ''created_at''],
    mc_args = [CheckArg (enum_check ''type'' ASSET_TYPES) ''type_valid'']\<rparr>"

definition PluginResult_class :: mapped_class where
  "PluginResult_class = \<lparr>mc_tablename = ''plugin_results'', mc_attributes =
    [primary_key (mapped ''id'' PyInt), foreign ''jobs.id'' (mapped ''job_id'' PyInt), mapped ''plugin_name'' PyStr,
     mapped ''plugin_version'' PyStr, mapped ''status'' PyStr, optional (mapped ''reason'' PyStr),
     json_attr ''candidates'', json_attr ''normalized'', mapped ''input_fingerprint'' PyStr, utc_attr ''created_at''],
    mc_args = [CheckArg (enum_check ''status'' PLUGIN_RESULT_STATUSES) ''status_valid'',
      IndexArg ''ix_plugin_results_input_fingerprint'' [''input_fingerprint'']]\<rparr>"

definition Verdict_class :: mapped_class where
  "Verdict_class = \<lparr>mc_tablename = ''verdicts'', mc_attributes =
    [primary_key (mapped ''id'' PyInt), foreign ''jobs.id'' (mapped ''job_id'' PyInt),
     optional (mapped ''s_claimed'' PyFloat), optional (mapped ''s_alt'' PyFloat), mapped ''outcome'' PyStr,
     optional (json_attr ''proposed_action''), json_attr ''remediation_log'', mapped ''source'' PyStr,
     optional (json_attr ''human_ident''), optional (json_attr ''dupe_info''), optional (mapped ''apply_at'' PyStr),
     utc_attr ''created_at''],
    mc_args = [CheckArg (enum_check ''source'' VERDICT_SOURCES) ''source_valid'']\<rparr>"

definition TrashItem_class :: mapped_class where
  "TrashItem_class = \<lparr>mc_tablename = ''trash_items'', mc_attributes =
    [primary_key (mapped ''id'' PyInt), optional (foreign ''files.id'' (mapped ''file_id'' PyInt)),
     optional (foreign ''jobs.id'' (mapped ''job_id'' PyInt)), mapped ''instance'' PyStr,
     mapped ''original_path'' PyStr, mapped ''trash_path'' PyStr, typed SBigInteger (mapped ''size'' PyInt),
     mapped ''series_id'' PyInt, json_attr ''episode_ids'', utc_attr ''trashed_at'', utc_attr ''expires_at'',
     optional (utc_attr ''deleted_at''), optional (mapped ''outcome'' PyStr)],
    mc_args = [CheckArg (enum_check ''outcome'' TRASH_OUTCOMES) ''outcome_valid'']\<rparr>"

definition FrameHash_class :: mapped_class where
  "FrameHash_class = \<lparr>mc_tablename = ''frame_hashes'', mc_attributes =
    [primary_key (mapped ''id'' PyInt), foreign ''files.id'' (mapped ''file_id'' PyInt), mapped ''algo'' PyStr,
     mapped ''version'' PyInt, json_attr ''timestamps'', json_attr ''hashes'', utc_attr ''created_at''],
    mc_args = []\<rparr>"

definition PhashCorpusEntry_class :: mapped_class where
  "PhashCorpusEntry_class = \<lparr>mc_tablename = ''phash_corpus'', mc_attributes =
    [primary_key (mapped ''id'' PyInt), foreign ''frame_hashes.id'' (mapped ''frame_hash_id'' PyInt),
     json_attr ''external_ids'', mapped ''season'' PyInt, json_attr ''episodes'', mapped ''confidence'' PyFloat,
     mapped ''source'' PyStr, utc_attr ''created_at''],
    mc_args = [CheckArg (enum_check ''source'' VERDICT_SOURCES) ''source_valid'']\<rparr>"

definition target_metadata :: schema where
  "target_metadata = metadata
     [Instance_class, File_class, Job_class, Asset_class, PluginResult_class, Verdict_class, TrashItem_class,
      FrameHash_class, PhashCorpusEntry_class]"

end
