(* ===== verification/Migrations.thy ===== *)
theory Migrations
  imports Schema
begin

text \<open>
  The migration scripts of \<open>impostarr/migrations/versions\<close> and \<open>init_db\<close> of \<open>impostarr/db.py\<close>. Alembic, which
  runs the scripts, is a parameter: \<open>runs_migrations\<close> states what its documentation says of
  \<open>upgrade head\<close>.
\<close>

section \<open>The scripts\<close>

record revision =
  rv_id :: string
  rv_down_revision :: "string option"
  rv_upgrade :: "ddl list"
  rv_downgrade :: "ddl list"

subsection \<open>The initial schema\<close>

definition initial_upgrade :: "ddl list" where
  "initial_upgrade =
    [CreateTable \<lparr>td_name = ''instances'',
      td_columns =
       [column ''id'' SInteger False,
        column ''name'' SString False,
        column ''url'' SString False,
        column ''history_watermark'' SInteger True,
        column ''backfill_cursor'' SJSON True],
      td_constraints =
       [PrimaryKey [''id''] ''pk_instances'',
        Unique [''name''] ''uq_instances_name'']\<rparr>,
     CreateTable \<lparr>td_name = ''files'',
      td_columns =
       [column ''id'' SInteger False,
        column ''instance_id'' SInteger False,
        column ''sonarr_path'' SString False,
        column ''local_path'' SString False,
        column ''size'' SBigInteger False,
        column ''content_hash'' SString False,
        column ''series_id'' SInteger False,
        column ''episode_ids'' SJSON False,
        column ''episode_file_id'' SInteger False,
        column ''quality'' SJSON False,
        column ''languages'' SJSON False,
        column ''history_id'' SInteger True,
        column ''download_id'' SString True,
        column ''source_title'' SString True,
        column ''indexer'' SString True,
        column ''guid'' SString True],
      td_constraints =
       [ForeignKey [''instance_id''] [''instances.id''] ''fk_files_instance_id_instances'',
        PrimaryKey [''id''] ''pk_files'',
        Unique [''instance_id'', ''episode_file_id''] ''uq_files_instance_episode_file'']\<rparr>,
     CreateTable \<lparr>td_name = ''assets'',
      td_columns =
       [column ''id'' SInteger False,
        column ''file_id'' SInteger False,
        column ''type'' SString False,
        column ''path'' SString True,
        column ''payload'' SJSON True,
        column ''input_fingerprint'' SString False,
        column ''tool_meta'' SJSON False,
        column ''created_at'' SDateTime False],
      td_constraints =
       [Check ''type IN ('probe', 'audio', 'subs', 'frames', 'transcript')'' ''ck_assets_type_valid'',
        ForeignKey [''file_id''] [''files.id''] ''fk_assets_file_id_files'',
        PrimaryKey [''id''] ''pk_assets'']\<rparr>,
     CreateTable \<lparr>td_name = ''frame_hashes'',
      td_columns =
       [column ''id'' SInteger False,
        column ''file_id'' SInteger False,
        column ''algo'' SString False,
        column ''version'' SInteger False,
        column ''timestamps'' SJSON False,
        column ''hashes'' SJSON False,
        column ''created_at'' SDateTime False],
      td_constraints =
       [ForeignKey [''file_id''] [''files.id''] ''fk_frame_hashes_file_id_files'',
        PrimaryKey [''id''] ''pk_frame_hashes'']\<rparr>,
     CreateTable \<lparr>td_name = ''jobs'',
      td_columns =
       [column ''id'' SInteger False,
        column ''file_id'' SInteger False,
        column ''status'' SString False,
        column ''attempts'' SInteger False,
        column ''claimed_by'' SString True,
        column ''claimed_at'' SDateTime True,
        column ''heartbeat_at'' SDateTime True,
        column ''created_at'' SDateTime False,
        column ''updated_at'' SDateTime False],
      td_constraints =
       [Check ''status IN ('hold', 'pending', 'active', 'matched', 'quarantine', 'inconclusive', 'error', 'remediated')'' ''ck_jobs_status_valid'',
        ForeignKey [''file_id''] [''files.id''] ''fk_jobs_file_id_files'',
        PrimaryKey [''id''] ''pk_jobs'']\<rparr>,
     CreateIndex \<lparr>xd_name = ''ix_jobs_status_created_at'', xd_table = ''jobs'', xd_columns = [''status'', ''created_at''], xd_unique = False\<rparr>,
     CreateTable \<lparr>td_name = ''phash_corpus'',
      td_columns =
       [column ''id'' SInteger False,
        column ''frame_hash_id'' SInteger False,
        column ''external_ids'' SJSON False,
        column ''season'' SInteger False,
        column ''episodes'' SJSON False,
        column ''confidence'' SFloat False,
        column ''source'' SString False,
        column ''created_at'' SDateTime False],
      td_constraints =
       [Check ''source IN ('auto', 'human')'' ''ck_phash_corpus_source_valid'',
        ForeignKey [''frame_hash_id''] [''frame_hashes.id''] ''fk_phash_corpus_frame_hash_id_frame_hashes'',
        PrimaryKey [''id''] ''pk_phash_corpus'']\<rparr>,
     CreateTable \<lparr>td_name = ''plugin_results'',
      td_columns =
       [column ''id'' SInteger False,
        column ''job_id'' SInteger False,
        column ''plugin_name'' SString False,
        column ''plugin_version'' SString False,
        column ''status'' SString False,
        column ''reason'' SString True,
        column ''candidates'' SJSON False,
        column ''normalized'' SJSON False,
        column ''input_fingerprint'' SString False,
        column ''created_at'' SDateTime False],
      td_constraints =
       [Check ''status IN ('ok', 'abstain', 'error')'' ''ck_plugin_results_status_valid'',
        ForeignKey [''job_id''] [''jobs.id''] ''fk_plugin_results_job_id_jobs'',
        PrimaryKey [''id''] ''pk_plugin_results'']\<rparr>,
     CreateIndex \<lparr>xd_name = ''ix_plugin_results_input_fingerprint'', xd_table = ''plugin_results'', xd_columns = [''input_fingerprint''], xd_unique = False\<rparr>,
     CreateTable \<lparr>td_name = ''verdicts'',
      td_columns =
       [column ''id'' SInteger False,
        column ''job_id'' SInteger False,
        column ''s_claimed'' SFloat True,
        column ''s_alt'' SFloat True,
        column ''outcome'' SString False,
        column ''proposed_action'' SJSON True,
        column ''remediation_log'' SJSON False,
        column ''source'' SString False,
        column ''human_ident'' SJSON True,
        column ''created_at'' SDateTime False],
      td_constraints =
       [Check ''source IN ('auto', 'human')'' ''ck_verdicts_source_valid'',
        ForeignKey [''job_id''] [''jobs.id''] ''fk_verdicts_job_id_jobs'',
        PrimaryKey [''id''] ''pk_verdicts'']\<rparr>]"

definition initial_downgrade :: "ddl list" where
  "initial_downgrade =
    [DropTable ''verdicts'',
     DropIndex ''ix_plugin_results_input_fingerprint'' ''plugin_results'',
     DropTable ''plugin_results'',
     DropTable ''phash_corpus'',
     DropIndex ''ix_jobs_status_created_at'' ''jobs'',
     DropTable ''jobs'',
     DropTable ''frame_hashes'',
     DropTable ''assets'',
     DropTable ''files'',
     DropTable ''instances'']"

definition initial_revision :: revision where
  "initial_revision = \<lparr>rv_id = ''2cd374f28ad2'', rv_down_revision = None,
     rv_upgrade = initial_upgrade, rv_downgrade = initial_downgrade\<rparr>"

subsection \<open>Sync timestamps and dupe info\<close>

definition sync_upgrade :: "ddl list" where
  "sync_upgrade =
    [AddColumn ''instances'' (column ''last_polled_at'' SDateTime True),
     AddColumn ''instances'' (column ''last_backfilled_at'' SDateTime True),
     AddColumn ''verdicts'' (column ''dupe_info'' SJSON True)]"

definition sync_downgrade :: "ddl list" where
  "sync_downgrade =
    [DropColumn ''verdicts'' ''dupe_info'',
     DropColumn ''instances'' ''last_backfilled_at'',
     DropColumn ''instances'' ''last_polled_at'']"

definition sync_revision :: revision where
  "sync_revision = \<lparr>rv_id = ''188d830287df'', rv_down_revision = Some ''2cd374f28ad2'',
     rv_upgrade = sync_upgrade, rv_downgrade = sync_downgrade\<rparr>"

subsection \<open>Trash items\<close>

definition trash_upgrade :: "ddl list" where
  "trash_upgrade =
    [CreateTable \<lparr>td_name = ''trash_items'',
      td_columns =
       [column ''id'' SInteger False,
        column ''file_id'' SInteger True,
        column ''job_id'' SInteger True,
        column ''instance'' SString False,
        column ''original_path'' SString False,
        column ''trash_path'' SString False,
        column ''size'' SBigInteger False,
        column ''series_id'' SInteger False,
        column ''episode_ids'' SJSON False,
        column ''trashed_at'' SDateTime False,
        column ''expires_at'' SDateTime False,
        column ''deleted_at'' SDateTime True,
        column ''outcome'' SString True],
      td_constraints =
       [Check ''outcome IN ('expired', 'deleted', 'restored')'' ''ck_trash_items_outcome_valid'',
        ForeignKey [''file_id''] [''files.id''] ''fk_trash_items_file_id_files'',
        ForeignKey [''job_id''] [''jobs.id''] ''fk_trash_items_job_id_jobs'',
        PrimaryKey [''id''] ''pk_trash_items'']\<rparr>]"

definition trash_downgrade :: "ddl list" where
  "trash_downgrade =
    [DropTable ''trash_items'']"

definition trash_revision :: revision where
  "trash_revision = \<lparr>rv_id = ''2195e88c99a7'', rv_down_revision = Some ''188d830287df'',
     rv_upgrade = trash_upgrade, rv_downgrade = trash_downgrade\<rparr>"

subsection \<open>The verdicts' \<open>apply_at\<close>\<close>

definition apply_at_upgrade :: "ddl list" where
  "apply_at_upgrade =
    [AddColumn ''verdicts'' (column ''apply_at'' SString True)]"

definition apply_at_downgrade :: "ddl list" where
  "apply_at_downgrade =
    [DropColumn ''verdicts'' ''apply_at'']"

definition apply_at_revision :: revision where
  "apply_at_revision = \<lparr>rv_id = ''735bb431e62b'', rv_down_revision = Some ''2195e88c99a7'',
     rv_upgrade = apply_at_upgrade, rv_downgrade = apply_at_downgrade\<rparr>"

text \<open>The scripts as a directory lists them: by file name.\<close>

definition REVISIONS :: "revision list" where
  "REVISIONS = [sync_revision, trash_revision, initial_revision, apply_at_revision]"

section \<open>Databases and their version\<close>

record database =
  da_version :: "string option"
  da_schema :: schema

definition empty_database :: database where
  "empty_database = \<lparr>da_version = None, da_schema = \<lparr>sm_tables = [], sm_indexes = []\<rparr>\<rparr>"

definition next_revision :: "revision list \<Rightarrow> database \<Rightarrow> revision option" where
  "next_revision rs d = find (\<lambda>r. rv_down_revision r = da_version d) rs"

definition current_revision :: "revision list \<Rightarrow> database \<Rightarrow> revision option" where
  "current_revision rs d = find (\<lambda>r. Some (rv_id r) = da_version d) rs"

definition upgrade_one :: "revision \<Rightarrow> database \<Rightarrow> database option" where
  "upgrade_one r d =
     map_option (\<lambda>s. \<lparr>da_version = Some (rv_id r), da_schema = s\<rparr>) (apply_all (rv_upgrade r) (da_schema d))"

definition downgrade_one :: "revision \<Rightarrow> database \<Rightarrow> database option" where
  "downgrade_one r d =
     map_option (\<lambda>s. \<lparr>da_version = rv_down_revision r, da_schema = s\<rparr>) (apply_all (rv_downgrade r) (da_schema d))"

text \<open>One step of an operator or of a release: a revision up, or one down.\<close>

inductive migrate_step :: "revision list \<Rightarrow> database \<Rightarrow> database \<Rightarrow> bool" for rs where
  up: "next_revision rs d = Some r \<Longrightarrow> upgrade_one r d = Some d' \<Longrightarrow> migrate_step rs d d'"
| down: "current_revision rs d = Some r \<Longrightarrow> downgrade_one r d = Some d' \<Longrightarrow> migrate_step rs d d'"

section \<open>\<open>upgrade head\<close> and \<open>init_db\<close>\<close>

text \<open>
  On a history without branches, \<open>upgrade head\<close> takes a database of a known version revision after
  revision, in the order of \<open>down_revision\<close>, until no script follows its version.
\<close>

definition linear_history :: "revision list \<Rightarrow> bool" where
  "linear_history rs \<longleftrightarrow> distinct (map rv_id rs) \<and> distinct (map rv_down_revision rs)"

definition known_version :: "revision list \<Rightarrow> database \<Rightarrow> bool" where
  "known_version rs d \<longleftrightarrow> da_version d = None \<or> current_revision rs d \<noteq> None"

definition runs_migrations :: "(revision list \<Rightarrow> database \<Rightarrow> database option) \<Rightarrow> bool" where
  "runs_migrations upgrade_head \<longleftrightarrow>
     (\<forall>rs d. linear_history rs \<longrightarrow> known_version rs d \<longrightarrow> upgrade_head rs d =
        (case next_revision rs d of
           None \<Rightarrow> Some d
         | Some r \<Rightarrow> Option.bind (upgrade_one r d) (upgrade_head rs)))"

text \<open>The engine's address and timeout, and the database migrated.\<close>

definition init_db :: "(revision list \<Rightarrow> database \<Rightarrow> database option) \<Rightarrow> settings \<Rightarrow> database \<Rightarrow>
    (string \<times> int option) \<times> database option" where
  "init_db upgrade_head s d =
     (let dsn = resolve_dsn s in ((dsn, connect_timeout dsn), upgrade_head REVISIONS d))"

end
