(* ===== verification/Lifecycle.thy ===== *)
theory Lifecycle
  imports Startup Migrations
begin

text \<open>
  The life of the application: \<open>load_settings\<close> of \<open>impostarr/config.py\<close>, \<open>create_app\<close> of \<open>impostarr/main.py\<close> from
  the database to the pool, and the lifespan around the time it serves, with the pool's \<open>stop\<close>. What
  pydantic-settings reads and merges, \<open>uv\<close> and Alembic are parameters.
\<close>

section \<open>The configuration\<close>

definition DEFAULT_CONFIG_PATH :: string where
  "DEFAULT_CONFIG_PATH = ''/config/impostarr.yml''"

text \<open>The file: the argument, the variable \<open>IMPOSTARR_CONFIG\<close>, or the default.\<close>

definition config_path :: "string option \<Rightarrow> string option \<Rightarrow> string" where
  "config_path arg env =
     (case arg of
        Some p \<Rightarrow> p
      | None \<Rightarrow> path_str (mk_path (case env of Some p \<Rightarrow> p | None \<Rightarrow> DEFAULT_CONFIG_PATH)))"

datatype settings_source = InitArguments | Environment | YamlFile string | DotEnv | SecretFiles

text \<open>In the order of priority: the environment before the file.\<close>

definition settings_customise_sources :: "string \<Rightarrow> settings_source list" where
  "settings_customise_sources yaml = [InitArguments, Environment, YamlFile yaml, DotEnv, SecretFiles]"

definition load_settings ::
  "(settings_source \<Rightarrow> json) \<Rightarrow> (json list \<Rightarrow> settings res) \<Rightarrow> string option \<Rightarrow> string option \<Rightarrow> settings res" where
  "load_settings read merged arg env =
     res_bind (merged (map read (settings_customise_sources (config_path arg env)))) unique_sonarr_names"

section \<open>\<open>create_app\<close>\<close>

record boot_env =
  be_upgrade :: "revision list \<Rightarrow> database \<Rightarrow> database option"
  be_uv :: uv_env
  be_overlay :: "installer \<Rightarrow> string \<Rightarrow> string list"

text \<open>What the program changes outside its database while it starts.\<close>

record process =
  pr_installer :: installer
  pr_sys_path :: "string list"
  pr_log_attached :: bool

record application =
  ac_settings :: settings
  ac_database :: database
  ac_instances :: "(string \<times> runtime) list"
  ac_deps :: "(string \<times> deps) list"
  ac_pool :: "pool option"
  ac_pool_size :: int
  ac_refsubs :: refsubs_config
  ac_log_buffer :: ring_buffer
  ac_static :: "string option"

definition plugin_venv_dir :: "settings \<Rightarrow> string" where
  "plugin_venv_dir s = path_str (path_div (path_div (mk_path (st_state_dir s)) ''plugins'') ''venv'')"

definition create_app ::
  "boot_env \<Rightarrow> host \<Rightarrow> (string \<Rightarrow> bool) \<Rightarrow> string \<Rightarrow> settings \<Rightarrow> database \<Rightarrow> process \<Rightarrow> application res \<times> process" where
  "create_app e h is_dir repo s d m =
     (case snd (init_db (be_upgrade e) s d) of
        None \<Rightarrow> (Inl (OtherError ''OperationalError''), m)
      | Some d' \<Rightarrow>
          let venv = plugin_venv_dir s; m1 = m\<lparr>pr_log_attached := True\<rparr>
          in (case ensure_external_plugins (be_uv e) (st_plugin_sources s) venv (pr_installer m1) of
                (Inl x, i) \<Rightarrow> (Inl x, m1\<lparr>pr_installer := i\<rparr>)
              | (Inr _, i) \<Rightarrow>
                  (Inr \<lparr>ac_settings = s, ac_database = d', ac_instances = boot_instances h s, ac_deps = boot_deps h s,
                        ac_pool = boot_pool h s, ac_pool_size = boot_pool_size h s, ac_refsubs = boot_refsubs s,
                        ac_log_buffer = \<lparr>rb_capacity = DEFAULT_CAPACITY, rb_items = []\<rparr>,
                        ac_static = (if is_dir (resolve_web_dist is_dir repo) then Some (resolve_web_dist is_dir repo)
                                     else None)\<rparr>,
                   m1\<lparr>pr_installer := i,
                      pr_sys_path := activate_plugin_overlay (be_overlay e i venv) (pr_sys_path m1)\<rparr>)))"

section \<open>The lifespan\<close>

datatype life_event =
    TaskStarted task
  | Serving
  | TaskCancelled task
  | ClientClosed string
  | RefsubsClosed
  | LogDetached

text \<open>What a closing raises, if it does: the rest of the \<open>finally\<close> block is skipped.\<close>

fun closing :: "(life_event \<Rightarrow> exn option) \<Rightarrow> life_event list \<Rightarrow> exn option \<times> life_event list" where
  "closing raises [] = (None, [])"
| "closing raises (c # cs) =
     (case raises c of
        Some e \<Rightarrow> (Some e, [])
      | None \<Rightarrow> (let (x, ev) = closing raises cs in (x, c # ev)))"

text \<open>\<open>WorkerPool.stop\<close>: every task is cancelled and awaited, whatever it raises.\<close>

definition pool_stop :: "task list \<Rightarrow> life_event list" where
  "pool_stop ts = map TaskCancelled ts"

definition pool_start :: "application \<Rightarrow> task list res" where
  "pool_start a = (case ac_pool a of None \<Rightarrow> Inr [] | Some p \<Rightarrow> start_tasks p)"

definition closings :: "application \<Rightarrow> life_event list" where
  "closings a = map (\<lambda>(name, rt). ClientClosed name) (ac_instances a) @ [RefsubsClosed, LogDetached]"

text \<open>\<open>served\<close> is what the time between start and shutdown raises; an exception of the shutdown replaces it.\<close>

definition lifespan :: "(life_event \<Rightarrow> exn option) \<Rightarrow> application \<Rightarrow> exn option \<Rightarrow> exn option \<times> life_event list" where
  "lifespan raises a served =
     (case pool_start a of
        Inl e \<Rightarrow> (Some e, [])
      | Inr ts \<Rightarrow>
          let (x, ev) = closing raises (closings a)
          in (case x of Some e \<Rightarrow> Some e | None \<Rightarrow> served,
              map TaskStarted ts @ [Serving] @ pool_stop ts @ ev))"

end
