(* ===== verification/MigrationSpec.thy ===== *)
theory MigrationSpec
  imports Migrations
begin

text \<open>
  What the migrations promise: every script can be undone exactly, and from whatever revision a
  database was left at, \<open>init_db\<close> gives it the schema that \<open>models.py\<close> declares.
\<close>

section \<open>Undoing a statement\<close>

fun creates :: "ddl \<Rightarrow> bool" where
  "creates (CreateTable t) \<longleftrightarrow> True"
| "creates (AddColumn n c) \<longleftrightarrow> True"
| "creates (CreateIndex i) \<longleftrightarrow> True"
| "creates d \<longleftrightarrow> False"

fun undo :: "ddl \<Rightarrow> ddl" where
  "undo (CreateTable t) = DropTable (td_name t)"
| "undo (AddColumn n c) = DropColumn n (cd_name c)"
| "undo (CreateIndex i) = DropIndex (xd_name i) (xd_table i)"
| "undo d = d"

lemmas schema_defs = valid_schema_def table_ok_def index_ok_def table_names_def column_names_def list_all_iff list_ex_iff

lemma undo_create_table:
  assumes "apply_ddl (CreateTable t) s = Some s'" "valid_schema s"
  shows "apply_ddl (DropTable (td_name t)) s' = Some s" "valid_schema s'"
proof -
  have new: "td_name t \<notin> td_name ` set (sm_tables s)" and s': "s' = s\<lparr>sm_tables := sm_tables s @ [t]\<rparr>"
    and ok: "table_ok (td_name t # table_names s) t"
    using assms(1) by (auto simp: table_names_def split: if_splits)
  have keep: "filter (\<lambda>u. td_name u \<noteq> td_name t) (sm_tables s) = sm_tables s"
    using new by (metis (mono_tags, lifting) filter_True imageI)
  have ix: "filter (\<lambda>i. xd_table i \<noteq> td_name t) (sm_indexes s) = sm_indexes s"
    by (rule filter_True) (use new assms(2) in \<open>simp add: schema_defs; metis imageI\<close>)
  have targets: "td_name t \<notin> set (table_targets u)" if "u \<in> set (sm_tables s)" for u
    using assms(2) new that by (auto simp: schema_defs)
  show "apply_ddl (DropTable (td_name t)) s' = Some s"
    using targets by (auto simp: s' keep ix table_names_def list_all_iff)
  show "valid_schema s'"
    using assms(2) new ok by (auto simp: s' schema_defs)
qed

lemma undo_create_index:
  assumes "apply_ddl (CreateIndex i) s = Some s'" "valid_schema s"
  shows "apply_ddl (DropIndex (xd_name i) (xd_table i)) s' = Some s" "valid_schema s'"
proof -
  have new: "xd_name i \<notin> xd_name ` set (sm_indexes s)" and s': "s' = s\<lparr>sm_indexes := sm_indexes s @ [i]\<rparr>"
    and ok: "index_ok (sm_tables s) i"
    using assms(1) by (auto split: if_splits)
  have "filter (\<lambda>j. xd_name j \<noteq> xd_name i) (sm_indexes s) = sm_indexes s"
    using new by (metis (mono_tags, lifting) filter_True imageI)
  then show "apply_ddl (DropIndex (xd_name i) (xd_table i)) s' = Some s" by (simp add: s')
  show "valid_schema s'" using assms(2) new ok by (auto simp: s' schema_defs)
qed

lemma index_ok_mono:
  assumes "index_ok ts i" "\<And>t. t \<in> set ts \<Longrightarrow> td_name (f t) = td_name t \<and> set (column_names t) \<subseteq> set (column_names (f t))"
  shows "index_ok (map f ts) i"
proof -
  obtain t where t: "t \<in> set ts" "td_name t = xd_table i" "set (xd_columns i) \<subseteq> set (column_names t)"
    using assms(1) by (auto simp: index_ok_def list_ex_iff list_all_iff)
  with assms(2) [OF t(1)] show ?thesis
    by (auto simp: index_ok_def list_ex_iff list_all_iff intro!: bexI [of _ t])
qed

abbreviation with_column :: "column_def \<Rightarrow> table_def \<Rightarrow> table_def" where
  "with_column c t \<equiv> t\<lparr>td_columns := td_columns t @ [c]\<rparr>"

lemma with_column_use [simp]:
  "columns_in_use (with_column c t) = columns_in_use t" "table_targets (with_column c t) = table_targets t"
  by (simp_all add: columns_in_use_def table_targets_def)

lemma add_column_facts:
  assumes "apply_ddl (AddColumn n c) s = Some s'"
  shows "s' = alter_table n (with_column c) s" "n \<in> td_name ` set (sm_tables s)"
    "t \<in> set (sm_tables s) \<Longrightarrow> td_name t = n \<Longrightarrow> cd_name c \<notin> cd_name ` set (td_columns t)"
  using assms by (auto simp: schema_defs split: if_splits)

lemma add_column_valid:
  assumes "apply_ddl (AddColumn n c) s = Some s'" "valid_schema s"
  shows "valid_schema s'"
  unfolding valid_schema_def
proof (intro conjI)
  note s' = add_column_facts(1) [OF assms(1)] and new = add_column_facts(3) [OF assms(1)]
  have names: "table_names s' = table_names s"
    by (simp add: s' alter_table_def table_names_def)
  have ok: "table_ok ns (with_column c t)" if "t \<in> set (sm_tables s)" "td_name t = n" "table_ok ns t" for t ns
    using that new [OF that(1,2)] by (auto simp: table_ok_def column_names_def list_all_iff)
  show "distinct (table_names s')" using assms(2) by (simp add: valid_schema_def names)
  show "list_all (table_ok (table_names s')) (sm_tables s')"
    using assms(2) ok unfolding names by (auto simp: valid_schema_def list_all_iff s' alter_table_def)
  show "distinct (map xd_name (sm_indexes s'))" using assms(2) by (simp add: valid_schema_def s' alter_table_def)
  show "list_all (index_ok (sm_tables s')) (sm_indexes s')"
    unfolding list_all_iff
  proof
    fix i assume "i \<in> set (sm_indexes s')"
    then have "index_ok (sm_tables s) i"
      using assms(2) by (simp add: valid_schema_def list_all_iff s' alter_table_def)
    then show "index_ok (sm_tables s') i"
      by (auto simp: s' alter_table_def column_names_def intro!: index_ok_mono)
  qed
qed

lemma undo_add_column:
  assumes "apply_ddl (AddColumn n c) s = Some s'" "valid_schema s"
  shows "apply_ddl (DropColumn n (cd_name c)) s' = Some s"
proof -
  note s' = add_column_facts(1) [OF assms(1)] and new = add_column_facts(3) [OF assms(1)]
  let ?drop = "\<lambda>t. t\<lparr>td_columns := filter (\<lambda>d. cd_name d \<noteq> cd_name c) (td_columns t)\<rparr>"
  have restored: "?drop (with_column c t) = t" if "t \<in> set (sm_tables s)" "td_name t = n" for t
  proof -
    have "filter (\<lambda>d. cd_name d \<noteq> cd_name c) (td_columns t) = td_columns t"
      using new [OF that] by (metis (mono_tags, lifting) filter_True imageI)
    then show ?thesis by simp
  qed
  have ix: "cd_name c \<notin> set (xd_columns i)" if i: "i \<in> set (sm_indexes s)" "xd_table i = n" for i
  proof -
    obtain t where "t \<in> set (sm_tables s)" "td_name t = n" "\<forall>x\<in>set (xd_columns i). x \<in> cd_name ` set (td_columns t)"
      using assms(2) i by (fastforce simp: schema_defs)
    with new show ?thesis by blast
  qed
  obtain t where t: "t \<in> set (sm_tables s)" "td_name t = n" using add_column_facts(2) [OF assms(1)] by blast
  have unused: "cd_name c \<notin> set (columns_in_use t)"
    using new [OF t] assms(2) t by (fastforce simp: schema_defs)
  have "with_column c t \<in> set (sm_tables s')" using t by (auto simp: s' alter_table_def image_iff)
  then have ex: "list_ex (\<lambda>t. td_name t = n \<and> cd_name c \<in> set (column_names t) \<and> cd_name c \<notin> set (columns_in_use t))
      (sm_tables s')"
    unfolding list_ex_iff using t unused by (intro bexI [of _ "with_column c t"]) (auto simp: column_names_def)
  have "map (\<lambda>t. if td_name t = n then ?drop t else t) (sm_tables s') = sm_tables s"
    unfolding s' alter_table_def using restored by (auto simp: map_idI)
  then have "alter_table n ?drop s' = s" by (simp add: alter_table_def s')
  with ex ix show ?thesis by (auto simp: list_all_iff s' alter_table_def)
qed

lemma undo_ddl:
  assumes "creates d" "apply_ddl d s = Some s'" "valid_schema s"
  shows "apply_ddl (undo d) s' = Some s \<and> valid_schema s'"
  using assms undo_create_table undo_create_index undo_add_column add_column_valid
  by (cases d) (metis creates.simps undo.simps)+

lemma undo_all:
  assumes "list_all creates ds" "apply_all ds s = Some s'" "valid_schema s"
  shows "apply_all (rev (map undo ds)) s' = Some s \<and> valid_schema s'"
  using assms
proof (induction ds arbitrary: s)
  case (Cons d ds)
  then obtain s1 where s1: "apply_ddl d s = Some s1" "apply_all ds s1 = Some s'"
    by (auto simp: bind_eq_Some_conv)
  have append: "apply_all (xs @ ys) t = Option.bind (apply_all xs t) (apply_all ys)" for xs ys t
    by (induction xs arbitrary: t) (auto split: bind_splits)
  from undo_ddl s1(1) Cons.prems have one: "apply_ddl (undo d) s1 = Some s" "valid_schema s1" by auto
  with Cons.IH [OF _ s1(2)] Cons.prems one show ?case by (simp add: append)
qed simp

section \<open>The scripts\<close>

lemma scripts_undo:
  "list_all (\<lambda>r. list_all creates (rv_upgrade r) \<and> rv_downgrade r = rev (map undo (rv_upgrade r))) REVISIONS"
  by code_simp

lemma script_undone:
  assumes "r \<in> set REVISIONS" "apply_all (rv_upgrade r) s = Some s'" "valid_schema s"
  shows "apply_all (rv_downgrade r) s' = Some s \<and> valid_schema s'"
  using undo_all [of "rv_upgrade r"] scripts_undo assms by (simp add: list_all_iff)

text \<open>C39: Every migration can be undone: on whatever valid schema a script's upgrade succeeds, its downgrade
  succeeds on the result and restores the schema exactly; and the upgrade leaves no constraint, foreign
  key or index without the columns and tables it refers to.\<close>

theorem downgrade_undoes_upgrade:
  assumes "r \<in> set REVISIONS" "valid_schema s" "apply_all (rv_upgrade r) s = Some s'"
  shows "apply_all (rv_downgrade r) s' = Some s \<and> valid_schema s'"
  using assms script_undone by blast

section \<open>The history\<close>

definition CHAIN :: "revision list" where
  "CHAIN = [initial_revision, sync_revision, trash_revision, apply_at_revision]"

text \<open>The database after the first \<open>k\<close> revisions.\<close>

fun released :: "nat \<Rightarrow> database" where
  "released 0 = empty_database"
| "released (Suc k) = the (upgrade_one (CHAIN ! k) (released k))"

lemma chain_facts:
  "list_all (\<lambda>r. r \<in> set REVISIONS) CHAIN"
  "linear_history REVISIONS"
  "map rv_id CHAIN = [''2cd374f28ad2'', ''188d830287df'', ''2195e88c99a7'', ''735bb431e62b'']"
  by code_simp+

lemma released_upgrades:
  "list_all (\<lambda>k. upgrade_one (CHAIN ! k) (released k) \<noteq> None) [0..<4]"
  "list_all (\<lambda>k. downgrade_one (CHAIN ! k) (released (Suc k)) = Some (released k)) [0..<4]"
  by code_simp+

lemma released_versions:
  "list_all (\<lambda>k. next_revision REVISIONS (released k) = (if k < 4 then Some (CHAIN ! k) else None)) [0..<5]"
  "list_all (\<lambda>k. current_revision REVISIONS (released k) = (if k = 0 then None else Some (CHAIN ! (k - 1)))) [0..<5]"
  by code_simp+

declare released.simps [simp del]

lemma released_up:
  assumes "k < 4"
  shows "upgrade_one (CHAIN ! k) (released k) = Some (released (Suc k))"
  using released_upgrades(1) assms by (auto simp: list_all_iff released.simps)

lemma released_next: "k \<le> 4 \<Longrightarrow> next_revision REVISIONS (released k) = (if k < 4 then Some (CHAIN ! k) else None)"
  using released_versions(1) by (simp add: list_all_iff)

lemma released_current:
  "k \<le> 4 \<Longrightarrow> current_revision REVISIONS (released k) = (if k = 0 then None else Some (CHAIN ! (k - 1)))"
  using released_versions(2) by (simp add: list_all_iff)

text \<open>Whatever was migrated up and down before, a database is as one of the releases left it.\<close>

lemma migrated_released:
  assumes "(migrate_step REVISIONS)\<^sup>*\<^sup>* empty_database d"
  shows "\<exists>k\<le>4. d = released k"
  using assms
proof (induction rule: rtranclp_induct)
  case base
  show ?case by (intro exI [of _ 0]) (simp add: released.simps)
next
  case (step d d')
  then obtain k where k: "k \<le> 4" "d = released k" by blast
  from step.hyps(2) show ?case
  proof (cases rule: migrate_step.cases)
    case (up r)
    then have "k < 4" "r = CHAIN ! k" using k released_next by (auto split: if_splits)
    with up(2) k released_up have "d' = released (Suc k)" by simp
    with \<open>k < 4\<close> show ?thesis by (intro exI [of _ "Suc k"]) simp
  next
    case (down r)
    then obtain j where j: "k = Suc j" "j < 4" "r = CHAIN ! j"
      using k released_current by (cases k) auto
    with down(2) k(2) released_upgrades(2) have "d' = released j" by (simp add: list_all_iff)
    with j show ?thesis by (intro exI [of _ j]) simp
  qed
qed

lemma upgrade_head_released:
  assumes "runs_migrations upgrade_head" "k \<le> 4"
  shows "upgrade_head REVISIONS (released k) = Some (released 4)"
  using assms(2)
proof (induction "4 - k" arbitrary: k)
  case 0
  then have "k = 4" by simp
  then show ?case
    using assms(1) chain_facts(2) released_next [of 4] released_current [of 4]
    by (simp add: runs_migrations_def known_version_def)
next
  case (Suc n)
  then have k: "k < 4" by simp
  have "known_version REVISIONS (released k)"
    using released_current [of k] k by (cases k) (simp_all add: known_version_def empty_database_def released.simps(1))
  then have "upgrade_head REVISIONS (released k) = upgrade_head REVISIONS (released (Suc k))"
    using assms(1) chain_facts(2) released_next [of k] released_up [OF k] k
    unfolding runs_migrations_def by simp
  with Suc.hyps(1) [of "Suc k"] Suc.hyps(2) k show ?case by simp
qed

section \<open>The declared schema\<close>

text \<open>Agreement up to the order of tables, columns, constraints and indexes.\<close>

definition same_elements :: "'a list \<Rightarrow> 'a list \<Rightarrow> bool" where
  "same_elements xs ys \<longleftrightarrow> length xs = length ys \<and> list_all (\<lambda>x. x \<in> set ys) xs \<and> list_all (\<lambda>y. y \<in> set xs) ys"

definition same_table :: "table_def \<Rightarrow> table_def \<Rightarrow> bool" where
  "same_table t u \<longleftrightarrow> td_name t = td_name u \<and> same_elements (td_columns t) (td_columns u) \<and>
     same_elements (td_constraints t) (td_constraints u)"

definition schema_agrees :: "schema \<Rightarrow> schema \<Rightarrow> bool" where
  "schema_agrees s m \<longleftrightarrow> same_elements (table_names s) (table_names m) \<and>
     list_all (\<lambda>t. list_ex (same_table t) (sm_tables m)) (sm_tables s) \<and>
     same_elements (sm_indexes s) (sm_indexes m)"

lemma head_agrees: "schema_agrees (da_schema (released 4)) target_metadata"
  by code_simp

text \<open>C19: A database always gets the schema the models declare: whatever revision it was left at, by any sequence
  of upgrades and downgrades from the empty database, \<open>init_db\<close> succeeds and leaves the newest
  revision's schema, which has the tables, columns, types, constraints and indexes of \<open>models.py\<close>, the
  names of the naming convention included, and nothing else; and a second start changes nothing.\<close>

theorem init_db_reaches_models:
  assumes "runs_migrations upgrade_head" "(migrate_step REVISIONS)\<^sup>*\<^sup>* empty_database d"
  shows "\<exists>d'. snd (init_db upgrade_head s d) = Some d' \<and> schema_agrees (da_schema d') target_metadata \<and>
    next_revision REVISIONS d' = None \<and> snd (init_db upgrade_head s d') = Some d'"
proof -
  from migrated_released assms(2) obtain k where k: "k \<le> 4" "d = released k" by blast
  with upgrade_head_released [OF assms(1), of k] upgrade_head_released [OF assms(1), of 4]
    head_agrees released_next [of 4] show ?thesis
    by (simp add: init_db_def Let_def)
qed

section \<open>Witnesses\<close>

lemma downgrade_undoes_upgrade_witness:
  "apply_all (rv_downgrade initial_revision) (da_schema (released 1)) = Some (da_schema empty_database) \<and>
   valid_schema (da_schema (released 1))"
proof (rule downgrade_undoes_upgrade)
  show "initial_revision \<in> set REVISIONS" by (simp add: REVISIONS_def)
  show "valid_schema (da_schema empty_database)" by code_simp
  show "apply_all (rv_upgrade initial_revision) (da_schema empty_database) = Some (da_schema (released 1))"
    by code_simp
qed

text \<open>A migration tool of the documented kind exists.\<close>

partial_function (option) upgrade_to_head :: "revision list \<Rightarrow> database \<Rightarrow> database option" where
  "upgrade_to_head rs d =
     (case next_revision rs d of
        None \<Rightarrow> Some d
      | Some r \<Rightarrow> Option.bind (upgrade_one r d) (upgrade_to_head rs))"

lemma init_db_reaches_models_witness:
  "\<exists>d'. snd (init_db upgrade_to_head default_settings (released 2)) = Some d' \<and>
     schema_agrees (da_schema d') target_metadata \<and> next_revision REVISIONS d' = None \<and>
     snd (init_db upgrade_to_head default_settings d') = Some d'"
proof (rule init_db_reaches_models)
  show "runs_migrations upgrade_to_head"
    by (simp add: runs_migrations_def upgrade_to_head.simps)
  have up: "migrate_step REVISIONS (released k) (released (Suc k))" if "k < 4" for k
    using that released_next [of k] released_up [OF that] by (auto intro: migrate_step.up)
  have "(migrate_step REVISIONS)\<^sup>*\<^sup>* (released 0) (released (Suc (Suc 0)))"
    using up [of 0] up [of "Suc 0"] by (simp add: rtranclp.rtrancl_into_rtrancl)
  then show "(migrate_step REVISIONS)\<^sup>*\<^sup>* empty_database (released 2)" by (simp add: numeral_2_eq_2 released.simps(1))
qed

end
