(* ===== verification/LifecycleSpec.thy ===== *)
theory LifecycleSpec
  imports Lifecycle StartupSpec MigrationSpec
begin

text \<open>What starting and stopping the application does.\<close>

lemma closing_prefix:
  assumes "closing raises cs = (x, ev)"
  shows "case x of None \<Rightarrow> ev = cs | Some e \<Rightarrow> length ev < length cs \<and> ev = take (length ev) cs \<and> raises (cs ! length ev) = Some e"
  using assms
proof (induction cs arbitrary: ev)
  case (Cons c cs)
  obtain y ev' where t: "closing raises cs = (y, ev')" by fastforce
  show ?case
  proof (cases "raises c")
    case None
    with Cons.prems t have "x = y" "ev = c # ev'" by simp_all
    with Cons.IH [of ev'] t show ?thesis by (cases y) simp_all
  next
    case (Some e)
    with Cons.prems have "x = Some e" "ev = []" by simp_all
    with Some show ?thesis by simp
  qed
qed simp

lemma created:
  assumes "create_app e h is_dir repo s d m = (Inr a, m')"
  shows "ac_pool a = boot_pool h s" "ac_instances a = boot_instances h s"
    "snd (init_db (be_upgrade e) s d) = Some (ac_database a)"
  using assms by (auto simp: create_app_def Let_def split: option.splits prod.splits sum.splits)

lemma pool_starts:
  assumes "distinct (map si_name (st_sonarr s))" "ac_pool a = boot_pool h s"
  shows "\<exists>ts. pool_start a = Inr ts"
proof (cases "st_sonarr s = []")
  case True
  then show ?thesis using assms(2) by (simp add: pool_start_def boot_pool_def boot_deps_def by_name_def)
next
  case False
  from boot_tasks [OF assms(1) False, of h] assms(2) show ?thesis by (metis pool_start_def option.simps(5))
qed


section \<open>Example\<close>

definition quiet_uv :: uv_env where
  "quiet_uv = \<lparr>uv_run = \<lambda>_ _. UvExit 0, uv_python = \<lambda>_. True, uv_sha256 = \<lambda>x. x, uv_write = \<lambda>_. None\<rparr>"

definition sample_boot :: boot_env where
  "sample_boot = \<lparr>be_upgrade = upgrade_to_head, be_uv = quiet_uv, be_overlay = \<lambda>_ _. []\<rparr>"

definition sample_process :: process where
  "sample_process = \<lparr>pr_installer = \<lparr>ins_lock = None, ins_runs = []\<rparr>, pr_sys_path = [], pr_log_attached = False\<rparr>"

text \<open>The client of the second instance fails to close.\<close>

definition stuck_client :: "life_event \<Rightarrow> exn option" where
  "stuck_client ev = (if ev = ClientClosed ''tv2'' then Some (OtherError ''stuck'') else None)"

lemma runs_to_head: "runs_migrations upgrade_to_head"
  by (simp add: runs_migrations_def upgrade_to_head.simps)


end
