(* ===== verification/Spec2Isabelle.thy ===== *)
theory Spec2Isabelle
  imports ScoringSpec RemediateSpec DiscoverySpec ProcessSpec ThrottleSpec WorkerSpec AssetSpec
    QueueSystem RouteSpec ApiSpec SubtitleSpec RefSubSpec LlmSpec DrySystem LifecycleSpec
begin

text \<open>
  A verification development for impostarr, a service that checks whether the episode files of a
  Sonarr library hold the episodes they claim to hold, and corrects those that do not.

  \<^bold>\<open>The program.\<close> Discovery (\<open>discovery.py\<close>) polls Sonarr's history and walks the existing library,
  storing files and queueing one job per file. A pool of worker tasks (\<open>worker.py\<close>) claims jobs from
  the queue (\<open>jobs.py\<close>), within the limits of \<open>throttle.py\<close>, and runs the pipeline on each
  (\<open>pipeline.py\<close>): extract assets (\<open>assets/extract.py\<close>), call the identifier plugins, normalise their
  candidates (\<open>normalize.py\<close>), score and route (\<open>scoring.py\<close>), store a verdict, and possibly remediate
  through Sonarr (\<open>remediate.py\<close>, \<open>sonarr/client.py\<close>) with a trash for deleted files (\<open>trash.py\<close>).
  People see and correct all this through an HTTP API (\<open>api/\<close>). Two bundled plugins ask an LLM
  (\<open>llm.py\<close>) what a file's subtitles or transcript are about, a third compares the transcript with
  reference subtitles (\<open>refsubs.py\<close>). \<open>main.py\<close> migrates the database, installs and loads the plugins
  (\<open>plugins/loader.py\<close>), picks a transcription backend and puts the parts together.

  \<^bold>\<open>The model.\<close> The theories follow the modules:
  \<^item> \<open>Prelude\<close>: exceptions as a datatype, results \<open>exn + 'a\<close>, row lists with conditional updates, text
    of integers and dates; \<open>JsonText\<close>: reading JSON values and Python's \<open>strip\<close> and \<open>split\<close>.
  \<^item> \<open>Models\<close> (\<open>models.py\<close>), \<open>Contract\<close> (\<open>plugins/base.py\<close>, \<open>sonarr/types.py\<close>), \<open>Config\<close>
    (\<open>config.py\<close>), \<open>Tables\<close> (the database: one list of rows per table).
  \<^item> \<open>World\<close>: paths, HTTP requests, file operations, and the world a run acts on: the database, a
    file system of content tokens, and the trace of effects so far. The environment (the HTTP peer's
    answers, faults of file operations, the clock, and what other sessions and Sonarr change while the
    program awaits) is a record of functions of the trace; every theorem holds for all of them unless
    it says otherwise.
  \<^item> \<open>Normalize\<close>, \<open>Scoring\<close>, \<open>Jobs\<close>, \<open>SonarrClient\<close>, \<open>Trash\<close>, \<open>Remediate\<close>, \<open>Discovery\<close>, \<open>Assets\<close>,
    \<open>Pipeline\<close> (asset stages and the duplicate check), \<open>ProcessJob\<close> (plugin stage, verdict,
    \<open>process_job\<close>), \<open>Throttle\<close>, \<open>Worker\<close>: one definition per function of the source, named as there.
    Code that falls through, returns early or raises is a step to \<open>Go\<close>, \<open>Halt\<close> or \<open>Fail\<close>.
  \<^item> \<open>Routes\<close>, \<open>RouteQueries\<close>, \<open>RouteDetail\<close> (\<open>api/routes.py\<close>): the requests that act, the status page and
    the listings, job details and the event stream; \<open>Api\<close> (\<open>api/events.py\<close>, \<open>api/logbuffer.py\<close>,
    \<open>api/auth.py\<close>); \<open>Subtitles\<close> (\<open>plugins/subtitles.py\<close>). A request handler is a function of the world;
    \<open>ap_race\<close> is what other sessions commit between its reads and its writes.
  \<^item> \<open>RefSubs\<close> (\<open>refsubs.py\<close>), with a world of its own: files, token, time of the last request.
  \<^item> \<open>Llm\<close> (\<open>llm.py\<close>), \<open>LlmPlugins\<close> and \<open>WhisperSubs\<close> (the packages \<open>impostarr_plugin_*\<close>): the client with its
    posts as a trace, and each plugin's \<open>identify\<close>. \<open>Transcribers\<close> (\<open>assets/transcribe.py\<close>,
    \<open>plugins/transcribers.py\<close>): the backends, and the sharing of a local model as a step relation.
  \<^item> \<open>Loader\<close> (\<open>plugins/loader.py\<close>), \<open>Startup\<close> (\<open>main.py\<close>, \<open>db.py\<close>): what an application is composed of.
    \<open>Schema\<close>: the tables as \<open>models.py\<close> declares them. \<open>Migrations\<close>: the scripts of \<open>migrations/versions\<close> as
    lists of data definition statements, \<open>init_db\<close>. \<open>Lifecycle\<close>: \<open>load_settings\<close>, \<open>create_app\<close>, the lifespan.

  \<^bold>\<open>What is shown.\<close>
  \<^item> \<open>ScoringSpec\<close>: what the scores are, when a remediation may be automatic, which alternate wins.
  \<^item> \<open>JobSpec\<close>: the queue as a step relation with its invariant and transitions; leases as the locale
    \<open>lease_queue\<close>, interpreted on \<open>release\<close>; claiming under interference, reaping, fencing.
  \<^item> \<open>ClientSpec\<close>: the retry discipline.
  \<^item> \<open>RemediateSteps\<close>, \<open>RemediateSpec\<close>: the exact effects of both sequences, that nothing is deleted
    before a copy exists, that every way out settles the job, the interruption guard, the trash.
  \<^item> \<open>DiscoverySteps\<close>, \<open>DiscoverySpec\<close>: all-or-nothing polls, watermark, backfill against a reference
    walk, well-formedness of the tables.
  \<^item> \<open>WorldRel\<close>, \<open>PipelineRel\<close>: relations a run preserves, proved once from the primitive moves in the
    locales \<open>world_rel\<close>, \<open>remedy_rel\<close>, \<open>extract_rel\<close>, \<open>pipeline_rel\<close> and \<open>process_rel\<close>, and interpreted
    in \<open>ProcessSpec\<close> and \<open>AssetSpec\<close> for well-formed queues, for what is sent, for an unmoved source.
  \<^item> \<open>PluginSpec\<close>, \<open>ProcessSpec\<close>: reuse of stored results, the daily budget, where a remap can point,
    that a run always settles its job, and that a passive deployment only looks.
  \<^item> \<open>AssetSpec\<close>, \<open>ThrottleSpec\<close>, \<open>WorkerSpec\<close>: reuse of assets, duplicates, the limiter against one
    with full memory, and what a worker's turn does.
  \<^item> \<open>RouteRel\<close>, \<open>SystemRel\<close>: the relations that requests, worker turns and discovery preserve, in the
    locales \<open>api_rel\<close>, \<open>handler_rel\<close>, \<open>pool_rel\<close> and \<open>disc_rel\<close>, interpreted twice. \<open>QueueSystem\<close>: the job queue
    of the whole program. An abstract machine on statuses and leases is refined by every interleaving of
    worker turns, background rounds, discovery and requests; each part is an interpretation of its locale
    at that machine's paths. \<open>DrySystem\<close>: a whole application in a dry run only looks; the same locales
    at the events it may cause.
  \<^item> \<open>RouteSpec\<close>: human verdicts, approval under a lease, paging and counts. \<open>ApiSpec\<close>: bounded mailboxes
    and the ring buffer as two interpretations of the locale \<open>recent_window\<close>; the gate.
  \<^item> \<open>SubtitleSpec\<close>: reading back SRT texts. \<open>RefSubSpec\<close>: the daily quota under concurrency, the cost of
    a call, what it may raise, and what a returned path means.
  \<^item> \<open>LlmSpec\<close>: failover against its specification, the posts of a chat, the contract of the three plugins.
    \<open>LoaderSpec\<close>: the lock, and the shared model. \<open>StartupSpec\<close>, \<open>LifecycleSpec\<close>: which tasks there are, under
    which names, and what shutdown closes. \<open>MigrationSpec\<close>: every script undone by its downgrade, and the
    declared schema reached from any revision.

  \<^bold>\<open>Loops.\<close> Loops over data are structural recursions. \<open>claim_next\<close>, Sonarr's history paging and the
  retry loop can depend on others: the first two are \<open>partial_function (option)\<close>, with theorems that
  they return when the interference or the pages end; retries are bounded by the client's limit. A loop
  that repeats for ever (worker, reaper, sweeper, discovery) is modelled by its turn.

  \<^bold>\<open>Parameters.\<close> xxh64, ffmpeg's and ffprobe's output, the image-hash library, \<open>json.loads\<close>, the text
  of floats, pydantic's parsing of Sonarr's answers, the transcriber and the plugins' \<open>identify\<close> are
  functions in the records \<open>toolbox\<close>, \<open>codec\<close> and \<open>deps\<close>; the LLM peers, rapidfuzz, the speech
  libraries, \<open>uv\<close>, plugin classes and the machine are functions in \<open>llm_env\<close>, \<open>whisper_env\<close>, \<open>uv_env\<close>,
  \<open>host\<close> and \<open>boot_env\<close>. Alembic is one with its documented behaviour as a hypothesis
  (\<open>runs_migrations\<close>), which a witness meets.
  Floats are real numbers: rounding and NaN are not modelled. Strings are lists of 8-bit characters.

  \<^bold>\<open>Not modelled.\<close> asyncio's scheduling (a turn of a task is one step, and others move where it awaits);
  FastAPI's parsing of requests and its routing; SQLAlchemy's sessions beyond what a commit makes
  visible; what pydantic-settings reads and how it merges its sources; Alembic's driver script \<open>env.py\<close>,
  which only hands over to Alembic; the packages' re-exports; the demo, which generates sample media and
  stubs the remote services.
\<close>

end
